(* ===== verification/Go_Prelude.thy ===== *)
theory Go_Prelude
  imports Main
    "HOL-Library.Finite_Map"
    "HOL-Library.Word"
    "HOL-Library.Char_ord"
    "HOL-Library.List_Lexorder"
    "HOL-Library.Multiset"
begin

text \<open>
  What the components share of the Go language and its standard library.

  \<^item> \<^verbatim>\<open>time.Time\<close> is a number of nanoseconds since the Unix epoch (an \<open>int\<close>), and
    \<^verbatim>\<open>time.Duration\<close> a number of nanoseconds. The zero \<^verbatim>\<open>Time\<close> of Go is 1 January of
    the year 1. \<^verbatim>\<open>Sub\<close> saturates at the ends of \<^verbatim>\<open>int64\<close> and \<^verbatim>\<open>UnixNano\<close>
    wraps, as the library documents.
  \<^item> A Go map is a finite map. \<open>index\<close> is the index expression \<^verbatim>\<open>m[k]\<close>, which
    yields the zero value for a missing key.
  \<^item> Ranging over a Go map visits the keys in an unspecified order. A definition with such
    a loop takes the order as an argument, a function from the set of keys to the list
    of keys in the order of the visit, and \<open>range_order\<close> says what the language
    guarantees of it.
  \<^item> \<open>fm_sum\<close> adds up a quantity over the values of a map.
\<close>

section \<open>Collections of rewrite rules\<close>

named_theorems time_simps \<open>definitions of the operations on time\<close>
named_theorems map_simps \<open>lookups, key sets and sums of updated maps\<close>

section \<open>Time\<close>

type_synonym time = int
type_synonym duration = int
type_synonym uint64 = "64 word"

text \<open>A clock gives the successive readings of \<^verbatim>\<open>time.Now\<close> during one call.\<close>
type_synonym clock = "nat \<Rightarrow> time"

definition zero_time :: time where
  "zero_time = - 62135596800000000000"

definition time_IsZero :: "time \<Rightarrow> bool" where
  "time_IsZero t \<longleftrightarrow> t = zero_time"

definition time_After :: "time \<Rightarrow> time \<Rightarrow> bool" where
  "time_After t u \<longleftrightarrow> u < t"

definition time_Before :: "time \<Rightarrow> time \<Rightarrow> bool" where
  "time_Before t u \<longleftrightarrow> t < u"

definition time_Add :: "time \<Rightarrow> duration \<Rightarrow> time" where
  "time_Add t d = t + d"

definition min_int64 :: int where
  "min_int64 = - (2 ^ 63)"

definition max_int64 :: int where
  "max_int64 = 2 ^ 63 - 1"

text \<open>The value a 64-bit signed integer keeps of a mathematical integer.\<close>
definition int64 :: "int \<Rightarrow> int" where
  "int64 i = (i + 2 ^ 63) mod 2 ^ 64 - 2 ^ 63"

definition time_Sub :: "time \<Rightarrow> time \<Rightarrow> duration" where
  "time_Sub t u = max min_int64 (min max_int64 (t - u))"

definition UnixNano :: "time \<Rightarrow> int" where
  "UnixNano t = int64 t"

definition second :: duration where
  "second = 1000000000"

definition minute :: duration where
  "minute = 60 * second"

lemmas time_defs [time_simps] =
  time_IsZero_def time_After_def time_Before_def time_Add_def

lemma int64_id: "min_int64 \<le> i \<Longrightarrow> i \<le> max_int64 \<Longrightarrow> int64 i = i"
  by (simp add: int64_def min_int64_def max_int64_def)

lemma int64_range: "min_int64 \<le> int64 i \<and> int64 i \<le> max_int64"
proof -
  have "0 \<le> (i + 2 ^ 63) mod 2 ^ 64" and "(i + 2 ^ 63) mod 2 ^ 64 < (2 ^ 64 :: int)"
    by simp_all
  then show ?thesis
    by (simp add: int64_def min_int64_def max_int64_def)
qed

lemma time_Sub_range: "min_int64 \<le> time_Sub t u \<and> time_Sub t u \<le> max_int64"
  by (simp add: time_Sub_def min_int64_def max_int64_def)

lemma time_Sub_exact:
  "min_int64 \<le> t - u \<Longrightarrow> t - u \<le> max_int64 \<Longrightarrow> time_Sub t u = t - u"
  by (simp add: time_Sub_def)

lemma time_Sub_nonneg: "u \<le> t \<Longrightarrow> 0 \<le> time_Sub t u"
  by (simp add: time_Sub_def max_int64_def)

lemma time_Sub_mono: "t \<le> t' \<Longrightarrow> time_Sub t u \<le> time_Sub t' u"
  by (simp add: time_Sub_def)

section \<open>Maps\<close>

text \<open>The index expression: the value of the key, or the zero value of the element type.\<close>
definition index :: "'v \<Rightarrow> ('k, 'v) fmap \<Rightarrow> 'k \<Rightarrow> 'v" where
  "index z m k = (case fmlookup m k of None \<Rightarrow> z | Some v \<Rightarrow> v)"

lemma index_upd [simp, map_simps]:
  "index z (fmupd k v m) k' = (if k' = k then v else index z m k')"
  by (simp add: index_def)

lemma index_drop [simp, map_simps]:
  "index z (fmdrop k m) k' = (if k' = k then z else index z m k')"
  by (simp add: index_def)

lemma index_empty [simp, map_simps]: "index z fmempty k = z"
  by (simp add: index_def)

lemma index_Some: "fmlookup m k = Some v \<Longrightarrow> index z m k = v"
  by (simp add: index_def)

lemma index_None: "fmlookup m k = None \<Longrightarrow> index z m k = z"
  by (simp add: index_def)

section \<open>The order in which a loop ranges over a map\<close>

type_synonym iter_order = "string fset \<Rightarrow> string list"

definition range_order :: "iter_order \<Rightarrow> bool" where
  "range_order ord \<longleftrightarrow> (\<forall>A. distinct (ord A) \<and> set (ord A) = fset A)"

lemma range_order_distinct: "range_order ord \<Longrightarrow> distinct (ord A)"
  by (simp add: range_order_def)

lemma range_order_set: "range_order ord \<Longrightarrow> set (ord A) = fset A"
  by (simp add: range_order_def)

lemma range_order_fmdom: "range_order ord \<Longrightarrow> set (ord (fmdom m)) = fmdom' m"
  by (simp add: range_order_set fmdom'_alt_def)

lemma range_order_mem: "range_order ord \<Longrightarrow> k \<in> set (ord (fmdom m)) \<longleftrightarrow> fmlookup m k \<noteq> None"
  by (simp add: range_order_set fmlookup_dom_iff)

lemma range_order_length: "range_order ord \<Longrightarrow> length (ord A) = fcard A"
  by (metis distinct_card fcard.rep_eq range_order_distinct range_order_set)

lemma range_order_sorted: "range_order sorted_list_of_fset"
  by (simp add: range_order_def sorted_list_of_fset.rep_eq)

lemmas range_order_facts =
  range_order_distinct range_order_fmdom range_order_length

section \<open>Sums over the values of a map\<close>

definition fm_sum :: "('v \<Rightarrow> int) \<Rightarrow> ('k, 'v) fmap \<Rightarrow> int" where
  "fm_sum f m = (\<Sum>k\<in>fmdom' m. f (the (fmlookup m k)))"

text \<open>The contribution of one key.\<close>
definition fm_part :: "('v \<Rightarrow> int) \<Rightarrow> ('k, 'v) fmap \<Rightarrow> 'k \<Rightarrow> int" where
  "fm_part f m k = (case fmlookup m k of None \<Rightarrow> 0 | Some v \<Rightarrow> f v)"

lemma fm_part_simps [simp, map_simps]:
  "fm_part f fmempty k = 0"
  "fm_part f (fmupd k v m) k' = (if k' = k then f v else fm_part f m k')"
  "fm_part f (fmdrop k m) k' = (if k' = k then 0 else fm_part f m k')"
  by (simp_all add: fm_part_def)

lemma fm_part_index: "f z = 0 \<Longrightarrow> fm_part f m k = f (index z m k)"
  by (simp add: fm_part_def index_def split: option.splits)

lemma fm_sum_empty [simp, map_simps]: "fm_sum f fmempty = 0"
  by (simp add: fm_sum_def)

lemma fm_sum_superset:
  assumes "finite A" and "fmdom' m \<subseteq> A"
  shows "fm_sum f m = (\<Sum>k\<in>A. fm_part f m k)"
proof -
  have "(\<Sum>k\<in>A. fm_part f m k) = (\<Sum>k\<in>fmdom' m. fm_part f m k)"
    using assms
    by (intro sum.mono_neutral_right) (auto simp: fm_part_def fmlookup_dom'_iff split: option.splits)
  then show ?thesis
    by (auto simp: fm_sum_def fm_part_def fmlookup_dom'_iff intro!: sum.cong)
qed

lemma fm_sum_remove:
  "fm_sum f m = fm_part f m k + (\<Sum>j\<in>fmdom' m - {k}. fm_part f m j)"
proof -
  have "fm_sum f m = (\<Sum>j\<in>insert k (fmdom' m). fm_part f m j)"
    by (rule fm_sum_superset) auto
  then show ?thesis
    by (simp add: sum.insert_remove)
qed

lemma fm_sum_upd [map_simps]:
  "fm_sum f (fmupd k v m) = fm_sum f m - fm_part f m k + f v"
proof -
  have "(\<Sum>j\<in>fmdom' m - {k}. fm_part f (fmupd k v m) j) = (\<Sum>j\<in>fmdom' m - {k}. fm_part f m j)"
    by (rule sum.cong) auto
  then show ?thesis
    using fm_sum_remove [of f m k] fm_sum_remove [of f "fmupd k v m" k] by simp
qed

lemma fm_sum_drop [map_simps]:
  "fm_sum f (fmdrop k m) = fm_sum f m - fm_part f m k"
proof -
  have "(\<Sum>j\<in>fmdom' m - {k}. fm_part f (fmdrop k m) j) = (\<Sum>j\<in>fmdom' m - {k}. fm_part f m j)"
    by (rule sum.cong) auto
  then show ?thesis
    using fm_sum_remove [of f m k] fm_sum_remove [of f "fmdrop k m" k] by simp
qed

lemma fm_sum_list:
  assumes "distinct ks" and "set ks = fmdom' m"
  shows "sum_list (map (\<lambda>k. f (the (fmlookup m k))) ks) = fm_sum f m"
  using assms by (simp add: fm_sum_def sum_list_distinct_conv_sum_set)

section \<open>Loops over lists\<close>

lemma fold_invariant_list:
  assumes "\<And>x s. x \<in> set xs \<Longrightarrow> P s \<Longrightarrow> P (f x s)" and "P s"
  shows "P (fold f xs s)"
  using assms by (induction xs arbitrary: s) auto

lemma take_filter_length: "length (take n (filter P xs)) \<le> length xs"
  by (metis length_filter_le length_take min.coboundedI1)

end
