(* ===== verification/Pool_Errors.thy ===== *)
theory Pool_Errors
  imports Go_Prelude
begin

text \<open>
  The errors of the program. A Go \<^verbatim>\<open>error\<close> is an interface value: here it is one
  datatype with a constructor for each error variable and each error type the sources
  declare, \<open>ErrNew\<close> for a message made with \<^verbatim>\<open>errors.New\<close> or \<^verbatim>\<open>fmt.Errorf\<close>,
  \<open>ErrExternal\<close> for an error that code outside the repository returned, and
  \<open>GoPanic\<close> for a run-time panic, which ends the call without a result. A fallible
  operation returns a value of \<open>'a result\<close>, with the error on the left.
\<close>

section \<open>Error values\<close>

datatype go_error =
    \<comment> \<open>pool/store/errors.go\<close>
    ErrInvalidNonce
  | ErrUnregisteredNode
  | ErrMalformedNode
  | ErrNotAuthorized
    \<comment> \<open>pool/balance: minimum, current\<close>
  | LowBalanceError int int
  | InvalidIntervalSettings int int
    \<comment> \<open>pool/errors.go\<close>
  | NoHostNodesError int
  | VerifyFailedError go_error string
  | RemoteHostErrors string "go_error list"
    \<comment> \<open>pool/payment: balance, minimum\<close>
  | ErrDepositTimelocked
  | ErrWithdrawDisabled
  | WithdrawBalanceMinimumError int int
  | AddressMismatchError string string string
    \<comment> \<open>request\<close>
  | ErrBadSignature
    \<comment> \<open>jsonrpc2: code, message\<close>
  | ErrResponse int string
  | ContextMissingValueError string
  | ErrNoPublicMethods
  | InvalidParamsError string
  | HTTPRequestError string
    \<comment> \<open>ethnode: cause, explanation\<close>
  | CompatibilityError go_error string
    \<comment> \<open>pool/store/badger\<close>
  | ErrKeyNotFound
  | MigrationError int int string go_error
    \<comment> \<open>agent\<close>
  | AgentPoolError go_error string
  | ErrAlreadyStarted
  | ErrNoPeers
    \<comment> \<open>made in place, from outside, and panics\<close>
  | ErrNew string
  | ErrExternal string
  | GoPanic string

type_synonym 'a result = "go_error + 'a"

definition is_ok :: "'a result \<Rightarrow> bool" where
  "is_ok r \<longleftrightarrow> (case r of Inl _ \<Rightarrow> False | Inr _ \<Rightarrow> True)"

fun is_panic :: "go_error \<Rightarrow> bool" where
  "is_panic (GoPanic _) = True"
| "is_panic _ = False"

lemma is_ok_simps [simp]: "is_ok (Inr x)" "\<not> is_ok (Inl e)"
  by (simp_all add: is_ok_def)

lemma is_ok_iff: "is_ok r \<longleftrightarrow> (\<exists>x. r = Inr x)"
  by (cases r) simp_all

section \<open>Error messages\<close>

text \<open>Decimal digits, as \<^verbatim>\<open>%d\<close> prints them.\<close>

definition digit_char :: "nat \<Rightarrow> char" where
  "digit_char d = char_of (48 + d)"

fun nat_digits :: "nat \<Rightarrow> string" where
  "nat_digits n = (if n < 10 then [digit_char n] else nat_digits (n div 10) @ [digit_char (n mod 10)])"

declare nat_digits.simps [simp del]

definition int_digits :: "int \<Rightarrow> string" where
  "int_digits i = (if i < 0 then ''-'' @ nat_digits (nat (- i)) else nat_digits (nat i))"

text \<open>The message of \<^verbatim>\<open>NoHostNodesError\<close>.\<close>
definition NoHostNodesError_Error :: "int \<Rightarrow> string" where
  "NoHostNodesError_Error numTried =
     (if numTried = 0 then ''no host nodes available''
      else ''no available host nodes found after trying '' @ int_digits numTried @ '' nodes'')"

lemma nat_digits_nonempty [simp]: "nat_digits n \<noteq> []"
  by (subst nat_digits.simps) simp

lemma digit_char_inj: "a < 10 \<Longrightarrow> b < 10 \<Longrightarrow> digit_char a = digit_char b \<Longrightarrow> a = b"
  by (simp add: digit_char_def char_of_eq_iff take_bit_eq_mod)

end
