(* ===== verification/Store_Types.thy ===== *)
theory Store_Types
  imports Pool_Errors
begin

text \<open>
  The data model of the pool's storage (\<^verbatim>\<open>pool/store/store.go\<close>): balances, nodes,
  aggregate statistics, the constants that govern expiry, and the storage interfaces.

  A Go interface value is a dictionary of operations: \<open>BalanceStore\<close>,
  \<open>AccountStore\<close> and \<open>Store\<close> are records of functions over the state \<open>'s\<close> of
  a driver. Every operation takes the state last and returns its result together with the
  next state. Operations that read the clock take the reading as an argument; operations
  that range over a Go map take the order of the visit. A \<^verbatim>\<open>big.Int\<close> is an
  \<open>int\<close>.
\<close>

section \<open>Constants\<close>

type_synonym account = string
type_synonym node_id = string

definition KeepaliveInterval :: duration where
  "KeepaliveInterval = 60 * second"

definition ExpireInterval :: duration where
  "ExpireInterval = KeepaliveInterval * 2"

definition ExpireNonce :: duration where
  "ExpireNonce = 15 * minute"

lemma interval_values:
  "KeepaliveInterval = 60000000000" "ExpireInterval = 120000000000" "ExpireNonce = 900000000000"
  by (simp_all add: KeepaliveInterval_def ExpireInterval_def ExpireNonce_def minute_def second_def)

definition NodeID_IsZero :: "node_id \<Rightarrow> bool" where
  "NodeID_IsZero i \<longleftrightarrow> i = ''''"

definition ParseNodeID :: "string \<Rightarrow> node_id result" where
  "ParseNodeID s = Inr s"

section \<open>Balances and nodes\<close>

record balance =
  b_Account :: account
  b_Deposit :: int
  b_Credit :: int
  b_NextWithdraw :: time

definition zero_balance :: balance where
  "zero_balance = \<lparr>b_Account = '''', b_Deposit = 0, b_Credit = 0, b_NextWithdraw = zero_time\<rparr>"

lemma zero_balance_fields [simp]:
  "b_Account zero_balance = ''''" "b_Deposit zero_balance = 0" "b_Credit zero_balance = 0"
  by (simp_all add: zero_balance_def)

record node =
  n_ID :: node_id
  n_URI :: string
  n_LastSeen :: time
  n_Kind :: string
  n_IsHost :: bool
  n_Payout :: account
  n_BlockNumber :: uint64
  n_NodeVersion :: string
  n_VipnodeVersion :: string

definition zero_node :: node where
  "zero_node = \<lparr>n_ID = '''', n_URI = '''', n_LastSeen = zero_time, n_Kind = '''', n_IsHost = False,
     n_Payout = '''', n_BlockNumber = 0, n_NodeVersion = '''', n_VipnodeVersion = ''''\<rparr>"

section \<open>Statistics\<close>

record stats =
  st_NumActiveHosts :: int
  st_NumTotalHosts :: int
  st_NumActiveClients :: int
  st_NumTotalClients :: int
  st_LatestBlockNumber :: uint64
  st_TotalCredit :: int
  st_TotalDeposit :: int
  st_NumTrialBalances :: int
  st_activeSince :: time

definition zero_stats :: stats where
  "zero_stats = \<lparr>st_NumActiveHosts = 0, st_NumTotalHosts = 0, st_NumActiveClients = 0,
     st_NumTotalClients = 0, st_LatestBlockNumber = 0, st_TotalCredit = 0, st_TotalDeposit = 0,
     st_NumTrialBalances = 0, st_activeSince = zero_time\<rparr>"

definition CountNode :: "time \<Rightarrow> node \<Rightarrow> stats \<Rightarrow> stats" where
  "CountNode now n st0 =
     (let st = (if time_IsZero (st_activeSince st0)
                then st0\<lparr>st_activeSince := time_Add now (- ExpireInterval)\<rparr> else st0);
          isActive = time_After (n_LastSeen n) (st_activeSince st);
          st1 = (if n_IsHost n then
                   (let s1 = st\<lparr>st_NumTotalHosts := st_NumTotalHosts st + 1\<rparr>
                    in if isActive then s1\<lparr>st_NumActiveHosts := st_NumActiveHosts s1 + 1\<rparr> else s1)
                 else
                   (let s1 = st\<lparr>st_NumTotalClients := st_NumTotalClients st + 1\<rparr>
                    in if isActive then s1\<lparr>st_NumActiveClients := st_NumActiveClients s1 + 1\<rparr> else s1))
      in if st_LatestBlockNumber st1 < n_BlockNumber n
         then st1\<lparr>st_LatestBlockNumber := n_BlockNumber n\<rparr> else st1)"

definition CountBalance :: "balance \<Rightarrow> stats \<Rightarrow> stats" where
  "CountBalance b st0 =
     (let st = st0\<lparr>st_TotalCredit := st_TotalCredit st0 + b_Credit b,
                    st_TotalDeposit := st_TotalDeposit st0 + b_Deposit b\<rparr>
      in if b_Account b = '''' then st\<lparr>st_NumTrialBalances := st_NumTrialBalances st + 1\<rparr> else st)"

section \<open>Storage interfaces\<close>

record 's BalanceStore =
  GetNodeBalance :: "time \<Rightarrow> node_id \<Rightarrow> 's \<Rightarrow> balance result \<times> 's"
  AddNodeBalance :: "node_id \<Rightarrow> int \<Rightarrow> 's \<Rightarrow> unit result \<times> 's"
  GetAccountBalance :: "time \<Rightarrow> account \<Rightarrow> 's \<Rightarrow> balance result \<times> 's"
  AddAccountBalance :: "account \<Rightarrow> int \<Rightarrow> 's \<Rightarrow> unit result \<times> 's"

record 's AccountStore = "'s BalanceStore" +
  AddAccountNode :: "account \<Rightarrow> node_id \<Rightarrow> 's \<Rightarrow> unit result \<times> 's"
  IsAccountNode :: "account \<Rightarrow> node_id \<Rightarrow> 's \<Rightarrow> unit result \<times> 's"
  GetAccountNodes :: "iter_order \<Rightarrow> account \<Rightarrow> 's \<Rightarrow> node_id list result \<times> 's"

record 's Store = "'s AccountStore" +
  CheckAndSaveNonce :: "time \<Rightarrow> string \<Rightarrow> int \<Rightarrow> 's \<Rightarrow> unit result \<times> 's"
  GetNode :: "node_id \<Rightarrow> 's \<Rightarrow> node result \<times> 's"
  SetNode :: "node \<Rightarrow> 's \<Rightarrow> unit result \<times> 's"
  ActiveHosts :: "time \<Rightarrow> iter_order \<Rightarrow> string \<Rightarrow> int \<Rightarrow> 's \<Rightarrow> node list result \<times> 's"
  NodePeers :: "iter_order \<Rightarrow> node_id \<Rightarrow> 's \<Rightarrow> node list result \<times> 's"
  UpdateNodePeers ::
    "time \<Rightarrow> iter_order \<Rightarrow> node_id \<Rightarrow> string list \<Rightarrow> uint64 \<Rightarrow> 's \<Rightarrow> node_id list result \<times> 's"
  Stats :: "time \<Rightarrow> (nat \<Rightarrow> iter_order) \<Rightarrow> 's \<Rightarrow> stats result \<times> 's"

section \<open>What the counters compute\<close>

text \<open>The nodes seen after a given moment.\<close>
definition node_active :: "time \<Rightarrow> node \<Rightarrow> bool" where
  "node_active since n \<longleftrightarrow> time_After (n_LastSeen n) since"

lemma CountNode_fields:
  assumes "\<not> time_IsZero (st_activeSince st)"
  shows "st_activeSince (CountNode now n st) = st_activeSince st"
    and "st_NumTotalHosts (CountNode now n st) = st_NumTotalHosts st + (if n_IsHost n then 1 else 0)"
    and "st_NumTotalClients (CountNode now n st) = st_NumTotalClients st + (if n_IsHost n then 0 else 1)"
    and "st_NumActiveHosts (CountNode now n st) =
           st_NumActiveHosts st + (if n_IsHost n \<and> node_active (st_activeSince st) n then 1 else 0)"
    and "st_NumActiveClients (CountNode now n st) =
           st_NumActiveClients st + (if \<not> n_IsHost n \<and> node_active (st_activeSince st) n then 1 else 0)"
    and "st_LatestBlockNumber (CountNode now n st) = max (st_LatestBlockNumber st) (n_BlockNumber n)"
    and "st_TotalCredit (CountNode now n st) = st_TotalCredit st"
    and "st_TotalDeposit (CountNode now n st) = st_TotalDeposit st"
    and "st_NumTrialBalances (CountNode now n st) = st_NumTrialBalances st"
  using assms by (auto simp: CountNode_def Let_def node_active_def max_def)

lemma CountNode_start:
  "time_IsZero (st_activeSince st) \<Longrightarrow>
   CountNode now n st = CountNode now n (st\<lparr>st_activeSince := time_Add now (- ExpireInterval)\<rparr>)"
  by (simp add: CountNode_def Let_def)

lemma CountBalance_fields:
  "st_TotalCredit (CountBalance b st) = st_TotalCredit st + b_Credit b"
  "st_TotalDeposit (CountBalance b st) = st_TotalDeposit st + b_Deposit b"
  "st_NumTrialBalances (CountBalance b st) = st_NumTrialBalances st + (if b_Account b = '''' then 1 else 0)"
  "st_NumActiveHosts (CountBalance b st) = st_NumActiveHosts st"
  "st_NumTotalHosts (CountBalance b st) = st_NumTotalHosts st"
  "st_NumActiveClients (CountBalance b st) = st_NumActiveClients st"
  "st_NumTotalClients (CountBalance b st) = st_NumTotalClients st"
  "st_LatestBlockNumber (CountBalance b st) = st_LatestBlockNumber st"
  "st_activeSince (CountBalance b st) = st_activeSince st"
  by (simp_all add: CountBalance_def Let_def)

end
