(* ===== verification/Store_Runs.thy ===== *)
theory Store_Runs
  imports Store_Types
begin

text \<open>
  Interleavings and contracts of the storage interface.

  The pool answers requests concurrently, but every method of a driver is atomic (a mutex
  in one driver, a transaction in the other). Whatever the handlers do, the store
  therefore goes through some sequence of calls: \<open>Store_run\<close> executes one and records
  what each call returned.

  \<open>nonce_store\<close> is what \<^verbatim>\<open>VipnodePool.verify\<close> and \<^verbatim>\<open>PaymentService.verify\<close> rely
  on: a nonce is accepted only above the last one of its owner. \<open>ledger_store\<close> is what the
  balance manager relies on: a registered node draws on one purse (the balance of its
  account, or its own trial balance), adding credit changes that purse only, and reading
  a balance changes nothing.
\<close>

section \<open>Sequences of calls\<close>

datatype store_call =
    CGetNodeBalance time node_id
  | CAddNodeBalance node_id int
  | CGetAccountBalance time account
  | CAddAccountBalance account int
  | CAddAccountNode account node_id
  | CIsAccountNode account node_id
  | CGetAccountNodes iter_order account
  | CCheckAndSaveNonce time string int
  | CGetNode node_id
  | CSetNode node
  | CActiveHosts time iter_order string int
  | CNodePeers iter_order node_id
  | CUpdateNodePeers time iter_order node_id "string list" uint64
  | CStats time "nat \<Rightarrow> iter_order"

datatype store_ret =
    RUnit "unit result"
  | RBalance "balance result"
  | RIDs "node_id list result"
  | RNode "node result"
  | RNodes "node list result"
  | RStats "stats result"

fun Store_exec :: "'s Store \<Rightarrow> store_call \<Rightarrow> 's \<Rightarrow> store_ret \<times> 's" where
  "Store_exec St (CGetNodeBalance now i) s = apfst RBalance (GetNodeBalance St now i s)"
| "Store_exec St (CAddNodeBalance i c) s = apfst RUnit (AddNodeBalance St i c s)"
| "Store_exec St (CGetAccountBalance now a) s = apfst RBalance (GetAccountBalance St now a s)"
| "Store_exec St (CAddAccountBalance a c) s = apfst RUnit (AddAccountBalance St a c s)"
| "Store_exec St (CAddAccountNode a i) s = apfst RUnit (AddAccountNode St a i s)"
| "Store_exec St (CIsAccountNode a i) s = apfst RUnit (IsAccountNode St a i s)"
| "Store_exec St (CGetAccountNodes ord a) s = apfst RIDs (GetAccountNodes St ord a s)"
| "Store_exec St (CCheckAndSaveNonce now i n) s = apfst RUnit (CheckAndSaveNonce St now i n s)"
| "Store_exec St (CGetNode i) s = apfst RNode (GetNode St i s)"
| "Store_exec St (CSetNode n) s = apfst RUnit (SetNode St n s)"
| "Store_exec St (CActiveHosts now ord k l) s = apfst RNodes (ActiveHosts St now ord k l s)"
| "Store_exec St (CNodePeers ord i) s = apfst RNodes (NodePeers St ord i s)"
| "Store_exec St (CUpdateNodePeers now ord i ps b) s = apfst RIDs (UpdateNodePeers St now ord i ps b s)"
| "Store_exec St (CStats now ords) s = apfst RStats (Stats St now ords s)"

type_synonym store_trace = "(store_call \<times> store_ret) list"

primrec Store_run :: "'s Store \<Rightarrow> store_call list \<Rightarrow> 's \<Rightarrow> store_trace \<times> 's" where
  "Store_run St [] s = ([], s)"
| "Store_run St (c # cs) s =
     (let (r, s1) = Store_exec St c s; (tr, s2) = Store_run St cs s1 in ((c, r) # tr, s2))"

text \<open>An invariant that every call keeps holds after every run.\<close>
lemma Store_run_invariant:
  assumes step: "\<And>c s. c \<in> set cs \<Longrightarrow> P s \<Longrightarrow> P (snd (Store_exec St c s))"
    and start: "P s"
  shows "P (snd (Store_run St cs s))"
  using assms
proof (induction cs arbitrary: s)
  case Nil
  then show ?case by simp
next
  case (Cons c cs)
  obtain r s1 where exec: "Store_exec St c s = (r, s1)" by (cases "Store_exec St c s")
  have "P s1" using Cons.prems(1) [of c s] Cons.prems(2) exec by simp
  then have "P (snd (Store_run St cs s1))" using Cons.IH Cons.prems(1) by simp
  then show ?case using exec by (simp add: split_beta)
qed

section \<open>Nonces\<close>

fun is_nonce_call :: "store_call \<Rightarrow> bool" where
  "is_nonce_call (CCheckAndSaveNonce _ _ _) = True"
| "is_nonce_call _ = False"

text \<open>The nonces of one owner that a run accepted, in order.\<close>
fun accepted_nonces :: "string \<Rightarrow> store_trace \<Rightarrow> int list" where
  "accepted_nonces i [] = []"
| "accepted_nonces i ((CCheckAndSaveNonce now j n, RUnit (Inr u)) # tr) =
     (if j = i then n # accepted_nonces i tr else accepted_nonces i tr)"
| "accepted_nonces i (_ # tr) = accepted_nonces i tr"

lemma accepted_nonces_other [simp]:
  "\<not> is_nonce_call c \<Longrightarrow> accepted_nonces i ((c, r) # tr) = accepted_nonces i tr"
  by (cases c) simp_all

locale nonce_store =
  fixes St :: "'s Store"
    and last_nonce :: "'s \<Rightarrow> string \<Rightarrow> int"
  assumes nonce_accept:
      "CheckAndSaveNonce St now i n s = (Inr u, s') \<Longrightarrow>
       last_nonce s i < n \<and> last_nonce s' = (last_nonce s)(i := n)"
    and nonce_reject:
      "CheckAndSaveNonce St now i n s = (Inl e, s') \<Longrightarrow> last_nonce s' = last_nonce s"
    and nonce_frame:
      "\<not> is_nonce_call c \<Longrightarrow> last_nonce (snd (Store_exec St c s)) = last_nonce s"
begin

text \<open>Along any run the accepted nonces of an owner strictly increase.\<close>
lemma run_accepted_increasing:
  "sorted_wrt (<) (last_nonce s i # accepted_nonces i (fst (Store_run St cs s)))"
proof (induction cs arbitrary: s)
  case Nil
  then show ?case by simp
next
  case (Cons c cs)
  obtain r s1 where exec: "Store_exec St c s = (r, s1)" by (cases "Store_exec St c s")
  note IH = Cons.IH [of s1]
  show ?case
  proof (cases "is_nonce_call c")
    case False
    then have "last_nonce s1 = last_nonce s" using nonce_frame [of c s] exec by simp
    then show ?thesis using IH exec False by (simp add: split_beta)
  next
    case True
    then obtain now j n where c: "c = CCheckAndSaveNonce now j n" by (cases c) auto
    obtain q where q: "CheckAndSaveNonce St now j n s = (q, s1)" and r: "r = RUnit q"
      using exec c by (cases "CheckAndSaveNonce St now j n s") auto
    show ?thesis
    proof (cases q)
      case (Inl e)
      then have "last_nonce s1 = last_nonce s" using nonce_reject q by simp
      then show ?thesis using IH exec c r Inl by (simp add: split_beta)
    next
      case (Inr u)
      then have "last_nonce s j < n \<and> last_nonce s1 = (last_nonce s)(j := n)"
        using nonce_accept q by simp
      then show ?thesis using IH exec c r Inr by (fastforce simp: split_beta)
    qed
  qed
qed

lemma run_accepted_distinct: "distinct (accepted_nonces i (fst (Store_run St cs s)))"
  using run_accepted_increasing [of s i cs] by (simp add: strict_sorted_iff)

lemma replay_rejected:
  assumes "CheckAndSaveNonce St now i n s = (Inr u, s')"
    and "m \<in> set (accepted_nonces i (fst (Store_run St cs s')))"
  shows "n < m"
proof -
  have "last_nonce s' i = n" using nonce_accept [OF assms(1)] by simp
  then show ?thesis using run_accepted_increasing [of s' i cs] assms(2) by simp
qed

end

section \<open>Purses\<close>

text \<open>A purse is the balance of an account or the trial balance of a node.\<close>
type_synonym purse_id = "account + node_id"

locale ledger_store =
  fixes BS :: "('s, 'm) BalanceStore_scheme"
    and inv :: "'s \<Rightarrow> bool"
    and registered :: "'s \<Rightarrow> node_id \<Rightarrow> bool"
    and purse_of :: "'s \<Rightarrow> node_id \<Rightarrow> purse_id"
    and purse :: "'s \<Rightarrow> purse_id \<Rightarrow> int"
    and total :: "'s \<Rightarrow> int"
  assumes add_registered:
      "inv s \<Longrightarrow> registered s i \<Longrightarrow> AddNodeBalance BS i c s = (r, s') \<Longrightarrow>
       r = Inr () \<and> inv s' \<and> registered s' = registered s \<and> purse_of s' = purse_of s \<and>
       purse s' = (purse s)(purse_of s i := purse s (purse_of s i) + c) \<and> total s' = total s + c"
    and add_unregistered:
      "inv s \<Longrightarrow> \<not> registered s i \<Longrightarrow> AddNodeBalance BS i c s = (Inl ErrUnregisteredNode, s)"
    and get_frame:
      "inv s \<Longrightarrow> GetNodeBalance BS now i s = (q, s') \<Longrightarrow>
       inv s' \<and> registered s' = registered s \<and> purse_of s' = purse_of s \<and> purse s' = purse s \<and>
       total s' = total s"
    and get_credit:
      "inv s \<Longrightarrow> GetNodeBalance BS now i s = (Inr b, s') \<Longrightarrow> b_Credit b = purse s (purse_of s i)"
    and get_unregistered:
      "inv s \<Longrightarrow> \<not> registered s i \<Longrightarrow> GetNodeBalance BS now i s = (Inl ErrUnregisteredNode, s)"

section \<open>Credit put into a store by a run\<close>

text \<open>The amount a call added, and the sum of these amounts over a run.\<close>
fun call_credit :: "store_call \<Rightarrow> store_ret \<Rightarrow> int" where
  "call_credit (CAddNodeBalance i c) (RUnit (Inr u)) = c"
| "call_credit (CAddAccountBalance a c) (RUnit (Inr u)) = c"
| "call_credit _ _ = 0"

definition credited :: "store_trace \<Rightarrow> int" where
  "credited tr = sum_list (map (\<lambda>(c, r). call_credit c r) tr)"

locale audited_store =
  fixes St :: "'s Store"
    and inv :: "'s \<Rightarrow> bool"
    and total :: "'s \<Rightarrow> int"
  assumes exec_inv: "inv s \<Longrightarrow> inv (snd (Store_exec St c s))"
    and exec_total: "inv s \<Longrightarrow> Store_exec St c s = (r, s') \<Longrightarrow> total s' = total s + call_credit c r"
begin

lemma run_inv: "inv s \<Longrightarrow> inv (snd (Store_run St cs s))"
  by (rule Store_run_invariant [where P = inv]) (simp_all add: exec_inv)

text \<open>After any run the store holds exactly what it held plus what the run credited.\<close>
lemma run_total:
  "inv s \<Longrightarrow> total (snd (Store_run St cs s)) = total s + credited (fst (Store_run St cs s))"
proof (induction cs arbitrary: s)
  case Nil
  then show ?case by (simp add: credited_def)
next
  case (Cons c cs)
  obtain r s1 where exec: "Store_exec St c s = (r, s1)" by (cases "Store_exec St c s")
  have "inv s1" using exec_inv [OF Cons.prems, of c] exec by simp
  then have "total (snd (Store_run St cs s1)) = total s1 + credited (fst (Store_run St cs s1))"
    by (rule Cons.IH)
  then show ?case
    using exec exec_total [OF Cons.prems exec] by (simp add: split_beta credited_def)
qed

end

end
