(* ===== verification/Memory_Store.thy ===== *)
theory Memory_Store
  imports Store_Runs
begin

text \<open>
  The in-memory storage driver (\<^verbatim>\<open>pool/store/memory/memory.go\<close>). Every method locks
  the store's mutex for its whole body, so a method is one atomic operation on the state
  \<open>memoryStore\<close>. After the operations, in the order of the file, the theory shows what
  each computes, the invariant they keep (\<open>mem_inv\<close>), how they move credit
  (\<open>mem_credit\<close>) and what they answer to the keepalive protocol.
\<close>

section \<open>State\<close>

record memNode =
  mn_Node :: node
  mn_peers :: "(node_id, time) fmap"

record memoryStore =
  ms_balances :: "(account, balance) fmap"
  ms_nodes :: "(node_id, memNode) fmap"
  ms_accounts :: "(node_id, account) fmap"
  ms_trials :: "(node_id, balance) fmap"
  ms_nonces :: "(string, int) fmap"

definition mem_New :: memoryStore where
  "mem_New = \<lparr>ms_balances = fmempty, ms_nodes = fmempty, ms_accounts = fmempty,
     ms_trials = fmempty, ms_nonces = fmempty\<rparr>"

section \<open>Operations\<close>

definition mem_CheckAndSaveNonce ::
  "time \<Rightarrow> string \<Rightarrow> int \<Rightarrow> memoryStore \<Rightarrow> unit result \<times> memoryStore" where
  "mem_CheckAndSaveNonce now i nonce s =
     (if 0 < ExpireNonce \<and> nonce \<le> UnixNano (time_Add now (- ExpireNonce)) then (Inl ErrInvalidNonce, s)
      else if nonce \<le> index 0 (ms_nonces s) i then (Inl ErrInvalidNonce, s)
      else (Inr (), s\<lparr>ms_nonces := fmupd i nonce (ms_nonces s)\<rparr>))"

definition mem_GetNodeBalance :: "node_id \<Rightarrow> memoryStore \<Rightarrow> balance result \<times> memoryStore" where
  "mem_GetNodeBalance nodeID s =
     (case fmlookup (ms_nodes s) nodeID of
        None \<Rightarrow> (Inl ErrUnregisteredNode, s)
      | Some _ \<Rightarrow>
          (case fmlookup (ms_accounts s) nodeID of
             None \<Rightarrow> (Inr (index zero_balance (ms_trials s) nodeID), s)
           | Some account \<Rightarrow> (Inr (index zero_balance (ms_balances s) account), s)))"

text \<open>\<^verbatim>\<open>balance.Credit.Add(&balance.Credit, credit)\<close> on the local copy of a balance.\<close>
definition add_credit :: "int \<Rightarrow> balance \<Rightarrow> balance" where
  "add_credit c b = b\<lparr>b_Credit := b_Credit b + c\<rparr>"

definition mem_AddNodeBalance :: "node_id \<Rightarrow> int \<Rightarrow> memoryStore \<Rightarrow> unit result \<times> memoryStore" where
  "mem_AddNodeBalance nodeID credit s =
     (case fmlookup (ms_nodes s) nodeID of
        None \<Rightarrow> (Inl ErrUnregisteredNode, s)
      | Some _ \<Rightarrow>
          (case fmlookup (ms_accounts s) nodeID of
             Some account \<Rightarrow>
               (let balance = add_credit credit (index zero_balance (ms_balances s) account)
                in (Inr (), s\<lparr>ms_balances := fmupd account balance (ms_balances s)\<rparr>))
           | None \<Rightarrow>
               (let balance = add_credit credit (index zero_balance (ms_trials s) nodeID)
                in (Inr (), s\<lparr>ms_trials := fmupd nodeID balance (ms_trials s)\<rparr>))))"

definition mem_GetAccountBalance :: "account \<Rightarrow> memoryStore \<Rightarrow> balance result \<times> memoryStore" where
  "mem_GetAccountBalance account s = (Inr (index zero_balance (ms_balances s) account), s)"

definition mem_AddAccountBalance :: "account \<Rightarrow> int \<Rightarrow> memoryStore \<Rightarrow> unit result \<times> memoryStore" where
  "mem_AddAccountBalance account credit s =
     (let balance = add_credit credit (index zero_balance (ms_balances s) account)
      in (Inr (), s\<lparr>ms_balances := fmupd account balance (ms_balances s)\<rparr>))"

definition mem_AddAccountNode :: "account \<Rightarrow> node_id \<Rightarrow> memoryStore \<Rightarrow> unit result \<times> memoryStore" where
  "mem_AddAccountNode account nodeID s =
     (case fmlookup (ms_nodes s) nodeID of
        None \<Rightarrow> (Inl ErrUnregisteredNode, s)
      | Some _ \<Rightarrow>
          (let balance = index zero_balance (ms_balances s) account;
               trialBalance = index zero_balance (ms_trials s) nodeID;
               balance' = (add_credit (b_Credit trialBalance) balance)\<lparr>b_Account := account\<rparr>
           in (Inr (), s\<lparr>ms_accounts := fmupd nodeID account (ms_accounts s),
                          ms_trials := fmdrop nodeID (ms_trials s),
                          ms_balances := fmupd account balance' (ms_balances s)\<rparr>)))"

definition mem_IsAccountNode :: "account \<Rightarrow> node_id \<Rightarrow> memoryStore \<Rightarrow> unit result \<times> memoryStore" where
  "mem_IsAccountNode account nodeID s =
     (case fmlookup (ms_accounts s) nodeID of
        None \<Rightarrow> (Inl ErrNotAuthorized, s)
      | Some nodeAccount \<Rightarrow>
          (if nodeAccount \<noteq> account then (Inl ErrNotAuthorized, s) else (Inr (), s)))"

definition mem_GetAccountNodes ::
  "iter_order \<Rightarrow> account \<Rightarrow> memoryStore \<Rightarrow> node_id list result \<times> memoryStore" where
  "mem_GetAccountNodes ord account s =
     (Inr (filter (\<lambda>nodeID. fmlookup (ms_accounts s) nodeID = Some account) (ord (fmdom (ms_accounts s)))), s)"

definition mem_GetNode :: "node_id \<Rightarrow> memoryStore \<Rightarrow> node result \<times> memoryStore" where
  "mem_GetNode i s =
     (case fmlookup (ms_nodes s) i of
        None \<Rightarrow> (Inl ErrUnregisteredNode, s)
      | Some nd \<Rightarrow> (Inr (mn_Node nd), s))"

definition mem_SetNode :: "node \<Rightarrow> memoryStore \<Rightarrow> unit result \<times> memoryStore" where
  "mem_SetNode n s =
     (if NodeID_IsZero (n_ID n) then (Inl ErrMalformedNode, s)
      else (Inr (), s\<lparr>ms_nodes := fmupd (n_ID n) \<lparr>mn_Node = n, mn_peers = fmempty\<rparr> (ms_nodes s)\<rparr>))"

definition mem_RemoveNode :: "node_id \<Rightarrow> memoryStore \<Rightarrow> unit result \<times> memoryStore" where
  "mem_RemoveNode nodeID s = (Inr (), s\<lparr>ms_nodes := fmdrop nodeID (ms_nodes s)\<rparr>)"

text \<open>
  The loop of \<^verbatim>\<open>ActiveHosts\<close> over the visited nodes. The counter \<open>limit\<close> goes down
  with each host taken and the loop stops when it reaches 0; a counter that starts at 0
  turns negative and never stops the loop.
\<close>
definition host_matches :: "string \<Rightarrow> time \<Rightarrow> node \<Rightarrow> bool" where
  "host_matches kind seenSince n \<longleftrightarrow>
     n_IsHost n \<and> \<not> (kind \<noteq> '''' \<and> n_Kind n \<noteq> kind) \<and> time_After (n_LastSeen n) seenSince"

primrec mem_active_loop :: "string \<Rightarrow> time \<Rightarrow> node list \<Rightarrow> int \<Rightarrow> node list" where
  "mem_active_loop kind seenSince [] limit = []"
| "mem_active_loop kind seenSince (n # ns) limit =
     (if host_matches kind seenSince n
      then n # (if limit - 1 = 0 then [] else mem_active_loop kind seenSince ns (limit - 1))
      else mem_active_loop kind seenSince ns limit)"

text \<open>The nodes of the map in the order of the visit.\<close>
definition mem_node_list :: "iter_order \<Rightarrow> memoryStore \<Rightarrow> node list" where
  "mem_node_list ord s = map (\<lambda>k. mn_Node (the (fmlookup (ms_nodes s) k))) (ord (fmdom (ms_nodes s)))"

text \<open>\<^verbatim>\<open>make([]store.Node, 0, limit)\<close> panics for a negative capacity.\<close>
definition mem_ActiveHosts ::
  "time \<Rightarrow> iter_order \<Rightarrow> string \<Rightarrow> int \<Rightarrow> memoryStore \<Rightarrow> node list result \<times> memoryStore" where
  "mem_ActiveHosts now ord kind limit s =
     (if limit < 0 then (Inl (GoPanic ''makeslice: cap out of range''), s)
      else (Inr (mem_active_loop kind (time_Add now (- ExpireInterval)) (mem_node_list ord s) limit), s))"

definition mem_NodePeers :: "iter_order \<Rightarrow> node_id \<Rightarrow> memoryStore \<Rightarrow> node list result \<times> memoryStore" where
  "mem_NodePeers ord nodeID s =
     (case fmlookup (ms_nodes s) nodeID of
        None \<Rightarrow> (Inl ErrUnregisteredNode, s)
      | Some nd \<Rightarrow>
          (Inr (map mn_Node (List.map_filter (fmlookup (ms_nodes s)) (ord (fmdom (mn_peers nd))))), s))"

text \<open>First loop of \<^verbatim>\<open>UpdateNodePeers\<close>: stamp the reported peers the store knows.\<close>
primrec mem_mark_peers ::
  "(node_id, memNode) fmap \<Rightarrow> string list \<Rightarrow> (node_id, time) fmap \<Rightarrow> (node_id, time) fmap" where
  "mem_mark_peers nodes [] peers = peers"
| "mem_mark_peers nodes (p # ps) peers =
     (case ParseNodeID p of
        Inl _ \<Rightarrow> mem_mark_peers nodes ps peers
      | Inr peerID \<Rightarrow>
          (case fmlookup nodes peerID of
             None \<Rightarrow> mem_mark_peers nodes ps peers
           | Some peer \<Rightarrow> mem_mark_peers nodes ps (fmupd peerID (n_LastSeen (mn_Node peer)) peers)))"

text \<open>Second loop: drop and report the peers whose stamp is not after the deadline.\<close>
primrec expire_peers ::
  "time \<Rightarrow> node_id list \<Rightarrow> (node_id, time) fmap \<Rightarrow> node_id list \<Rightarrow> node_id list \<times> (node_id, time) fmap" where
  "expire_peers deadline [] peers inactive = (inactive, peers)"
| "expire_peers deadline (k # ks) peers inactive =
     (case fmlookup peers k of
        None \<Rightarrow> expire_peers deadline ks peers inactive
      | Some timestamp \<Rightarrow>
          (if time_After timestamp deadline then expire_peers deadline ks peers inactive
           else expire_peers deadline ks (fmdrop k peers) (inactive @ [k])))"

definition mem_UpdateNodePeers ::
  "time \<Rightarrow> iter_order \<Rightarrow> node_id \<Rightarrow> string list \<Rightarrow> uint64 \<Rightarrow> memoryStore
     \<Rightarrow> node_id list result \<times> memoryStore" where
  "mem_UpdateNodePeers now ord nodeID peers blockNumber s =
     (case fmlookup (ms_nodes s) nodeID of
        None \<Rightarrow> (Inl ErrUnregisteredNode, s)
      | Some nd \<Rightarrow>
          (let n = (mn_Node nd)\<lparr>n_LastSeen := now, n_BlockNumber := blockNumber\<rparr>;
               marked = mem_mark_peers (ms_nodes s) peers (mn_peers nd);
               inactiveDeadline = time_Add now (- ExpireInterval);
               (inactive, kept) = expire_peers inactiveDeadline (ord (fmdom marked)) marked []
           in (Inr inactive, s\<lparr>ms_nodes := fmupd nodeID \<lparr>mn_Node = n, mn_peers = kept\<rparr> (ms_nodes s)\<rparr>)))"

definition mem_Stats :: "time \<Rightarrow> (nat \<Rightarrow> iter_order) \<Rightarrow> memoryStore \<Rightarrow> stats result \<times> memoryStore" where
  "mem_Stats now ords s =
     (let st1 = fold (CountNode now) (mem_node_list (ords 0) s) zero_stats;
          st2 = fold (\<lambda>k. CountBalance (index zero_balance (ms_balances s) k)) (ords 1 (fmdom (ms_balances s))) st1;
          st3 = fold (\<lambda>k. CountBalance (index zero_balance (ms_trials s) k)) (ords 2 (fmdom (ms_trials s))) st2
      in (Inr st3, s))"

text \<open>The driver as a value of the \<^verbatim>\<open>store.Store\<close> interface.\<close>
definition mem_Store :: "memoryStore Store" where
  "mem_Store = \<lparr>GetNodeBalance = (\<lambda>_. mem_GetNodeBalance), AddNodeBalance = mem_AddNodeBalance,
     GetAccountBalance = (\<lambda>_. mem_GetAccountBalance), AddAccountBalance = mem_AddAccountBalance,
     AddAccountNode = mem_AddAccountNode, IsAccountNode = mem_IsAccountNode,
     GetAccountNodes = mem_GetAccountNodes, CheckAndSaveNonce = mem_CheckAndSaveNonce,
     GetNode = mem_GetNode, SetNode = mem_SetNode, ActiveHosts = mem_ActiveHosts,
     NodePeers = mem_NodePeers, UpdateNodePeers = mem_UpdateNodePeers, Stats = mem_Stats\<rparr>"

section \<open>The invariant\<close>

text \<open>
  A node is stored under its own non-empty ID; a node that spends from an account has no
  trial balance; the balance of such an account exists and carries the account's name; a
  trial balance carries no account; and only registered nodes have accounts or trial
  balances. (\<^verbatim>\<open>RemoveNode\<close>, which nothing calls and the interface does not have, would
  break the last part only.)
\<close>
definition mem_inv :: "memoryStore \<Rightarrow> bool" where
  "mem_inv s \<longleftrightarrow>
     (\<forall>i nd. fmlookup (ms_nodes s) i = Some nd \<longrightarrow> n_ID (mn_Node nd) = i \<and> i \<noteq> '''') \<and>
     (\<forall>i a. fmlookup (ms_accounts s) i = Some a \<longrightarrow>
        fmlookup (ms_trials s) i = None \<and> fmlookup (ms_nodes s) i \<noteq> None \<and>
        fmlookup (ms_balances s) a \<noteq> None \<and> b_Account (index zero_balance (ms_balances s) a) = a) \<and>
     (\<forall>i b. fmlookup (ms_trials s) i = Some b \<longrightarrow> b_Account b = '''' \<and> fmlookup (ms_nodes s) i \<noteq> None)"

lemma mem_inv_node_ID:
  "mem_inv s \<Longrightarrow> fmlookup (ms_nodes s) i = Some nd \<Longrightarrow> n_ID (mn_Node nd) = i"
  by (simp add: mem_inv_def)

lemma mem_inv_trial_None:
  "mem_inv s \<Longrightarrow> fmlookup (ms_accounts s) i = Some a \<Longrightarrow> fmlookup (ms_trials s) i = None"
  by (simp add: mem_inv_def)

lemma mem_inv_account:
  "mem_inv s \<Longrightarrow> fmlookup (ms_accounts s) i = Some a \<Longrightarrow>
   b_Account (index zero_balance (ms_balances s) a) = a"
  by (simp add: mem_inv_def)

lemma mem_inv_New: "mem_inv mem_New"
  by (simp add: mem_inv_def mem_New_def)

lemma add_credit_fields [simp]:
  "b_Credit (add_credit c b) = b_Credit b + c"
  "b_Account (add_credit c b) = b_Account b"
  "b_Deposit (add_credit c b) = b_Deposit b"
  by (simp_all add: add_credit_def)

lemma mem_inv_CheckAndSaveNonce: "mem_inv s \<Longrightarrow> mem_inv (snd (mem_CheckAndSaveNonce now i n s))"
  by (simp add: mem_CheckAndSaveNonce_def mem_inv_def)

lemma mem_inv_AddNodeBalance: "mem_inv s \<Longrightarrow> mem_inv (snd (mem_AddNodeBalance i c s))"
  by (auto simp: mem_AddNodeBalance_def mem_inv_def index_def [of _ "ms_trials s"] split: option.splits)

lemma mem_inv_AddAccountBalance: "mem_inv s \<Longrightarrow> mem_inv (snd (mem_AddAccountBalance a c s))"
  by (auto simp: mem_AddAccountBalance_def mem_inv_def)

lemma mem_inv_AddAccountNode: "mem_inv s \<Longrightarrow> mem_inv (snd (mem_AddAccountNode a i s))"
  by (auto simp: mem_AddAccountNode_def mem_inv_def Let_def split: option.splits)

lemma mem_inv_SetNode: "mem_inv s \<Longrightarrow> mem_inv (snd (mem_SetNode n s))"
  by (auto simp: mem_SetNode_def mem_inv_def NodeID_IsZero_def)

lemma mem_inv_UpdateNodePeers:
  "mem_inv s \<Longrightarrow> mem_inv (snd (mem_UpdateNodePeers now ord i ps b s))"
  by (auto simp: mem_UpdateNodePeers_def mem_inv_def Let_def split_beta split: option.splits)

text \<open>The operations that only read leave the state alone.\<close>
lemma mem_read_only [simp]:
  "snd (mem_GetNodeBalance i s) = s"
  "snd (mem_GetAccountBalance a s) = s"
  "snd (mem_IsAccountNode a i s) = s"
  "snd (mem_GetAccountNodes ord a s) = s"
  "snd (mem_GetNode i s) = s"
  "snd (mem_ActiveHosts now ord k l s) = s"
  "snd (mem_NodePeers ord i s) = s"
  "snd (mem_Stats now ords s) = s"
  by (simp_all add: mem_GetNodeBalance_def mem_GetAccountBalance_def mem_IsAccountNode_def
      mem_GetAccountNodes_def mem_GetNode_def mem_ActiveHosts_def mem_NodePeers_def mem_Stats_def
      Let_def split: option.splits)

lemmas mem_inv_writes =
  mem_inv_CheckAndSaveNonce mem_inv_AddNodeBalance mem_inv_AddAccountBalance
  mem_inv_AddAccountNode mem_inv_SetNode mem_inv_UpdateNodePeers

lemma mem_inv_exec: "mem_inv s \<Longrightarrow> mem_inv (snd (Store_exec mem_Store c s))"
  by (cases c) (simp_all add: mem_Store_def mem_inv_writes)

section \<open>Credit\<close>

definition mem_registered :: "memoryStore \<Rightarrow> node_id \<Rightarrow> bool" where
  "mem_registered s i \<longleftrightarrow> fmlookup (ms_nodes s) i \<noteq> None"

definition mem_purse_of :: "memoryStore \<Rightarrow> node_id \<Rightarrow> purse_id" where
  "mem_purse_of s i = (case fmlookup (ms_accounts s) i of None \<Rightarrow> Inr i | Some a \<Rightarrow> Inl a)"

definition mem_purse :: "memoryStore \<Rightarrow> purse_id \<Rightarrow> int" where
  "mem_purse s w =
     (case w of Inl a \<Rightarrow> b_Credit (index zero_balance (ms_balances s) a)
      | Inr i \<Rightarrow> b_Credit (index zero_balance (ms_trials s) i))"

definition mem_credit :: "memoryStore \<Rightarrow> int" where
  "mem_credit s = fm_sum b_Credit (ms_balances s) + fm_sum b_Credit (ms_trials s)"

lemma fm_part_credit: "fm_part b_Credit m k = b_Credit (index zero_balance m k)"
  by (rule fm_part_index) simp

lemma mem_credit_AddAccountNode: "mem_credit (snd (mem_AddAccountNode a i s)) = mem_credit s"
  by (simp add: mem_AddAccountNode_def mem_credit_def Let_def fm_sum_upd fm_sum_drop fm_part_credit
      split: option.splits)

lemma mem_credit_AddNodeBalance:
  "mem_AddNodeBalance i c s = (r, s') \<Longrightarrow> mem_credit s' = mem_credit s + (if is_ok r then c else 0)"
  by (auto simp: mem_AddNodeBalance_def mem_credit_def fm_sum_upd fm_part_credit Let_def
      split: option.splits)

lemma mem_credit_AddAccountBalance:
  "mem_AddAccountBalance a c s = (r, s') \<Longrightarrow> mem_credit s' = mem_credit s + c \<and> r = Inr ()"
  by (auto simp: mem_AddAccountBalance_def mem_credit_def fm_sum_upd fm_part_credit Let_def)

lemma mem_credit_others:
  "mem_credit (snd (mem_CheckAndSaveNonce now i n s)) = mem_credit s"
  "mem_credit (snd (mem_SetNode nd s)) = mem_credit s"
  "mem_credit (snd (mem_UpdateNodePeers now ord i ps b s)) = mem_credit s"
  by (simp_all add: mem_credit_def mem_CheckAndSaveNonce_def mem_SetNode_def mem_UpdateNodePeers_def
      Let_def split_beta split: option.splits)

section \<open>The driver keeps the contracts of the interface\<close>

definition mem_last_nonce :: "memoryStore \<Rightarrow> string \<Rightarrow> int" where
  "mem_last_nonce s i = index 0 (ms_nonces s) i"

lemma mem_nonces_frame:
  "\<not> is_nonce_call c \<Longrightarrow> ms_nonces (snd (Store_exec mem_Store c s)) = ms_nonces s"
  by (cases c) (simp_all add: mem_Store_def mem_AddNodeBalance_def mem_AddAccountBalance_def
      mem_AddAccountNode_def mem_SetNode_def mem_UpdateNodePeers_def Let_def split_beta
      split: option.splits)

interpretation mem_nonce: nonce_store mem_Store mem_last_nonce
proof (standard, goal_cases)
  case (1 now i n s u s')
  then show ?case
    by (auto simp: mem_Store_def mem_CheckAndSaveNonce_def mem_last_nonce_def fun_eq_iff split: if_splits)
next
  case (2 now i n s e s')
  then show ?case
    by (auto simp: mem_Store_def mem_CheckAndSaveNonce_def split: if_splits)
next
  case (3 c s)
  then show ?case
    by (simp add: mem_last_nonce_def fun_eq_iff mem_nonces_frame)
qed

lemma mem_purse_add:
  assumes "mem_registered s i" and "mem_AddNodeBalance i c s = (r, s')"
  shows "r = Inr () \<and> mem_registered s' = mem_registered s \<and> mem_purse_of s' = mem_purse_of s \<and>
    mem_purse s' = (mem_purse s)(mem_purse_of s i := mem_purse s (mem_purse_of s i) + c)"
  using assms
  by (auto simp: mem_AddNodeBalance_def mem_registered_def mem_purse_of_def mem_purse_def Let_def
      fun_eq_iff split: option.splits sum.splits)

interpretation mem_ledger: ledger_store mem_Store mem_inv mem_registered mem_purse_of mem_purse mem_credit
proof (standard, goal_cases)
  case (1 s i c r s')
  then have op: "mem_AddNodeBalance i c s = (r, s')" by (simp add: mem_Store_def)
  with 1 mem_purse_add [of s i c r s'] mem_credit_AddNodeBalance [OF op] mem_inv_AddNodeBalance [of s i c]
  show ?case by simp
next
  case (2 s i c)
  then show ?case by (simp add: mem_Store_def mem_AddNodeBalance_def mem_registered_def)
next
  case (3 s now i q s')
  then have "s' = s" using mem_read_only(1) [of i s] by (simp add: mem_Store_def)
  with 3 show ?case by simp
next
  case (4 s now i b s')
  then show ?case
    by (auto simp: mem_Store_def mem_GetNodeBalance_def mem_purse_def mem_purse_of_def split: option.splits)
next
  case (5 s i now)
  then show ?case by (simp add: mem_Store_def mem_GetNodeBalance_def mem_registered_def)
qed

lemma mem_exec_credit:
  "Store_exec mem_Store c s = (r, s') \<Longrightarrow> mem_credit s' = mem_credit s + call_credit c r"
proof (cases c)
  case (CAddNodeBalance i x)
  assume "Store_exec mem_Store c s = (r, s')"
  then obtain q where q: "mem_AddNodeBalance i x s = (q, s')" and r: "r = RUnit q"
    using CAddNodeBalance by (auto simp: mem_Store_def apfst_def map_prod_def split: prod.splits)
  then show ?thesis
    using mem_credit_AddNodeBalance [OF q] CAddNodeBalance by (cases q) simp_all
next
  case (CAddAccountBalance a x)
  assume "Store_exec mem_Store c s = (r, s')"
  then obtain q where q: "mem_AddAccountBalance a x s = (q, s')" and r: "r = RUnit q"
    using CAddAccountBalance by (auto simp: mem_Store_def apfst_def map_prod_def split: prod.splits)
  then show ?thesis
    using mem_credit_AddAccountBalance [OF q] CAddAccountBalance by simp
qed (auto simp: mem_Store_def mem_credit_others mem_credit_AddAccountNode apfst_def map_prod_def
    split: prod.splits dest!: arg_cong [where f = snd])

interpretation mem_audit: audited_store mem_Store mem_inv mem_credit
proof (standard, goal_cases)
  case (1 s c)
  then show ?case by (rule mem_inv_exec)
next
  case (2 s c r s')
  then show ?case by (simp add: mem_exec_credit)
qed

section \<open>Keepalive\<close>

lemma mem_mark_peers_lookup:
  "fmlookup (mem_mark_peers nodes ps m) k =
     (if k \<in> set ps \<and> fmlookup nodes k \<noteq> None
      then Some (n_LastSeen (mn_Node (the (fmlookup nodes k)))) else fmlookup m k)"
  by (induction ps arbitrary: m) (auto simp: ParseNodeID_def split: option.splits)

text \<open>
  The second loop keeps the entries whose stamp is after the deadline and reports the
  others, whatever the order of the visit.
\<close>
lemma expire_peers_spec:
  assumes "distinct ks"
  shows "fst (expire_peers d ks m acc) =
           acc @ filter (\<lambda>k. \<exists>t. fmlookup m k = Some t \<and> \<not> time_After t d) ks"
    and "fmlookup (snd (expire_peers d ks m acc)) k =
           (case fmlookup m k of None \<Rightarrow> None
            | Some t \<Rightarrow> if k \<in> set ks \<and> \<not> time_After t d then None else Some t)"
  using assms
proof (induction ks arbitrary: m acc)
  case Nil
  { case 1 then show ?case by simp next case 2 then show ?case by (simp split: option.splits) }
next
  case (Cons k0 ks)
  { case 1
    have drop: "filter (\<lambda>k. \<exists>t. fmlookup (fmdrop k0 m) k = Some t \<and> \<not> time_After t d) ks =
        filter (\<lambda>k. \<exists>t. fmlookup m k = Some t \<and> \<not> time_After t d) ks"
      using 1 by (intro filter_cong) auto
    show ?case using 1 Cons.IH(1) drop by (auto split: option.splits)
  next
    case 2
    then show ?case using Cons.IH(2) by (auto split: option.splits)
  }
qed

text \<open>What a successful \<^verbatim>\<open>UpdateNodePeers\<close> leaves behind.\<close>
definition mem_known_stamp :: "memoryStore \<Rightarrow> memNode \<Rightarrow> string list \<Rightarrow> node_id \<Rightarrow> time option" where
  "mem_known_stamp s nd ps k =
     (if k \<in> set ps \<and> fmlookup (ms_nodes s) k \<noteq> None
      then Some (n_LastSeen (mn_Node (the (fmlookup (ms_nodes s) k)))) else fmlookup (mn_peers nd) k)"

lemma mem_UpdateNodePeers_spec:
  assumes ord: "range_order ord" and nd: "fmlookup (ms_nodes s) i = Some nd"
    and upd: "mem_UpdateNodePeers now ord i ps b s = (r, s')"
  obtains inactive nd' where "r = Inr inactive"
    and "s' = s\<lparr>ms_nodes := fmupd i nd' (ms_nodes s)\<rparr>"
    and "mn_Node nd' = (mn_Node nd)\<lparr>n_LastSeen := now, n_BlockNumber := b\<rparr>"
    and "distinct inactive"
    and "\<And>k. k \<in> set inactive \<longleftrightarrow>
           (\<exists>t. mem_known_stamp s nd ps k = Some t \<and> t \<le> now - ExpireInterval)"
    and "\<And>k. fmlookup (mn_peers nd') k =
           (case mem_known_stamp s nd ps k of None \<Rightarrow> None
            | Some t \<Rightarrow> if t \<le> now - ExpireInterval then None else Some t)"
proof -
  define m where "m = mem_mark_peers (ms_nodes s) ps (mn_peers nd)"
  define ks where "ks = ord (fmdom m)"
  define d where "d = time_Add now (- ExpireInterval)"
  have m: "fmlookup m k = mem_known_stamp s nd ps k" for k
    by (simp add: m_def mem_mark_peers_lookup mem_known_stamp_def)
  have ks: "distinct ks" "k \<in> set ks \<longleftrightarrow> fmlookup m k \<noteq> None" for k
    using ord by (simp_all add: ks_def range_order_distinct range_order_mem)
  have eq: "mem_UpdateNodePeers now ord i ps b s =
      (Inr (fst (expire_peers d ks m [])),
       s\<lparr>ms_nodes := fmupd i \<lparr>mn_Node = (mn_Node nd)\<lparr>n_LastSeen := now, n_BlockNumber := b\<rparr>,
          mn_peers = snd (expire_peers d ks m [])\<rparr> (ms_nodes s)\<rparr>)"
    using nd by (simp add: mem_UpdateNodePeers_def Let_def split_beta m_def ks_def d_def)
  show thesis
  proof (rule that)
    show "r = Inr (fst (expire_peers d ks m []))" using upd eq by simp
    show "s' = s\<lparr>ms_nodes := fmupd i \<lparr>mn_Node = (mn_Node nd)\<lparr>n_LastSeen := now, n_BlockNumber := b\<rparr>,
          mn_peers = snd (expire_peers d ks m [])\<rparr> (ms_nodes s)\<rparr>" using upd eq by simp
  qed (use ks m in \<open>auto simp: expire_peers_spec d_def time_simps not_less split: option.splits\<close>)
qed

section \<open>Peers and hosts\<close>

lemma mem_node_list_set:
  "range_order ord \<Longrightarrow> set (mem_node_list ord s) = {mn_Node nd | nd i. fmlookup (ms_nodes s) i = Some nd}"
  by (force simp: mem_node_list_def range_order_mem image_def)

lemma mem_node_list_IDs:
  "mem_inv s \<Longrightarrow> range_order ord \<Longrightarrow> map n_ID (mem_node_list ord s) = ord (fmdom (ms_nodes s))"
  by (auto simp: mem_node_list_def range_order_mem mem_inv_node_ID intro!: map_idI)

text \<open>The hosts taken are the first \<open>limit\<close> that match, or all of them when the limit is 0.\<close>
lemma mem_active_loop_take:
  "0 < limit \<Longrightarrow> mem_active_loop kind d ns limit = take (nat limit) (filter (host_matches kind d) ns)"
proof (induction ns arbitrary: limit)
  case Nil
  then show ?case by simp
next
  case (Cons n ns)
  show ?case
  proof (cases "limit = 1")
    case True
    then show ?thesis using Cons by simp
  next
    case False
    then have "nat limit = Suc (nat (limit - 1))" and "0 < limit - 1" using Cons.prems by simp_all
    then show ?thesis using Cons.IH [of "limit - 1"] Cons.IH [of limit] Cons.prems by simp
  qed
qed

lemma mem_active_loop_all:
  "limit \<le> 0 \<Longrightarrow> mem_active_loop kind d ns limit = filter (host_matches kind d) ns"
  by (induction ns arbitrary: limit) simp_all

lemma mem_ActiveHosts_eq:
  "0 \<le> limit \<Longrightarrow> mem_ActiveHosts now ord kind limit s =
     (Inr (let hosts = filter (host_matches kind (time_Add now (- ExpireInterval))) (mem_node_list ord s)
           in if limit = 0 then hosts else take (nat limit) hosts), s)"
  by (simp add: mem_ActiveHosts_def mem_active_loop_take mem_active_loop_all Let_def)

lemma mem_NodePeers_eq:
  assumes "range_order ord" and "fmlookup (ms_nodes s) i = Some nd"
  shows "mem_NodePeers ord i s =
     (Inr (map (\<lambda>k. mn_Node (the (fmlookup (ms_nodes s) k)))
        (filter (\<lambda>k. fmlookup (ms_nodes s) k \<noteq> None) (ord (fmdom (mn_peers nd))))), s)"
  using assms by (simp add: mem_NodePeers_def List.map_filter_def comp_def)

lemma mem_NodePeers_IDs:
  assumes "mem_inv s" and "range_order ord" and "mem_NodePeers ord i s = (Inr ps, s')"
  shows "distinct (map n_ID ps)" and "\<forall>p\<in>set ps. mem_registered s (n_ID p)"
proof -
  from assms(3) obtain nd where nd: "fmlookup (ms_nodes s) i = Some nd"
    by (auto simp: mem_NodePeers_def split: option.splits)
  define ks where "ks = filter (\<lambda>k. fmlookup (ms_nodes s) k \<noteq> None) (ord (fmdom (mn_peers nd)))"
  have ps: "ps = map (\<lambda>k. mn_Node (the (fmlookup (ms_nodes s) k))) ks"
    using assms(3) mem_NodePeers_eq [OF assms(2) nd] unfolding ks_def by (metis Inr_inject fst_conv)
  have IDs: "map n_ID ps = ks"
    using mem_inv_node_ID [OF assms(1)] by (auto simp: ps ks_def intro!: map_idI)
  then show "distinct (map n_ID ps)"
    using assms(2) by (simp add: ks_def range_order_distinct)
  have "set (map n_ID ps) = set ks" using IDs by simp
  then show "\<forall>p\<in>set ps. mem_registered s (n_ID p)"
    by (auto simp: ks_def mem_registered_def)
qed

section \<open>Statistics\<close>

lemma fold_CountNode:
  assumes "\<not> time_IsZero (st_activeSince st)"
  shows "\<not> time_IsZero (st_activeSince (fold (CountNode now) ns st))"
    and "st_NumTotalHosts (fold (CountNode now) ns st) = st_NumTotalHosts st + int (length (filter n_IsHost ns))"
    and "st_NumTotalClients (fold (CountNode now) ns st) =
           st_NumTotalClients st + int (length (filter (\<lambda>n. \<not> n_IsHost n) ns))"
    and "st_NumActiveHosts (fold (CountNode now) ns st) =
           st_NumActiveHosts st + int (length (filter (\<lambda>n. n_IsHost n \<and> node_active (st_activeSince st) n) ns))"
    and "st_NumActiveClients (fold (CountNode now) ns st) =
           st_NumActiveClients st + int (length (filter (\<lambda>n. \<not> n_IsHost n \<and> node_active (st_activeSince st) n) ns))"
    and "st_LatestBlockNumber (fold (CountNode now) ns st) =
           fold max (map n_BlockNumber ns) (st_LatestBlockNumber st)"
    and "st_TotalCredit (fold (CountNode now) ns st) = st_TotalCredit st"
    and "st_TotalDeposit (fold (CountNode now) ns st) = st_TotalDeposit st"
    and "st_NumTrialBalances (fold (CountNode now) ns st) = st_NumTrialBalances st"
  using assms
  by (induction ns arbitrary: st) (simp_all add: CountNode_fields max.commute)

lemma fold_CountBalance:
  "st_TotalCredit (fold (\<lambda>k. CountBalance (f k)) ks st) = st_TotalCredit st + sum_list (map (\<lambda>k. b_Credit (f k)) ks)"
  "st_TotalDeposit (fold (\<lambda>k. CountBalance (f k)) ks st) = st_TotalDeposit st + sum_list (map (\<lambda>k. b_Deposit (f k)) ks)"
  "st_NumTrialBalances (fold (\<lambda>k. CountBalance (f k)) ks st) =
     st_NumTrialBalances st + int (length (filter (\<lambda>k. b_Account (f k) = '''') ks))"
  "st_NumTotalHosts (fold (\<lambda>k. CountBalance (f k)) ks st) = st_NumTotalHosts st"
  "st_NumTotalClients (fold (\<lambda>k. CountBalance (f k)) ks st) = st_NumTotalClients st"
  "st_NumActiveHosts (fold (\<lambda>k. CountBalance (f k)) ks st) = st_NumActiveHosts st"
  "st_NumActiveClients (fold (\<lambda>k. CountBalance (f k)) ks st) = st_NumActiveClients st"
  "st_LatestBlockNumber (fold (\<lambda>k. CountBalance (f k)) ks st) = st_LatestBlockNumber st"
  by (induction ks arbitrary: st) (simp_all add: CountBalance_fields)

lemma sum_over_range:
  assumes "range_order ord"
  shows "sum_list (map (\<lambda>k. f (index z m k)) (ord (fmdom m))) = fm_sum f m"
proof -
  have eq: "map (\<lambda>k. f (index z m k)) (ord (fmdom m)) = map (\<lambda>k. f (the (fmlookup m k))) (ord (fmdom m))"
    using assms by (auto simp: range_order_mem index_def)
  show ?thesis
    unfolding eq by (rule fm_sum_list) (use assms in \<open>simp_all add: range_order_facts\<close>)
qed

lemma mem_Stats_fields:
  assumes "mem_Stats now ords s = (Inr st, s')" and "range_order (ords 0)" "range_order (ords 1)" "range_order (ords 2)"
    and "zero_time + ExpireInterval < now"
  shows "st_TotalCredit st = mem_credit s"
    and "st_TotalDeposit st = fm_sum b_Deposit (ms_balances s) + fm_sum b_Deposit (ms_trials s)"
    and "st_NumTotalHosts st = int (length (filter n_IsHost (mem_node_list (ords 0) s)))"
    and "st_NumTotalClients st = int (length (filter (\<lambda>n. \<not> n_IsHost n) (mem_node_list (ords 0) s)))"
    and "st_NumActiveHosts st =
      int (length (filter (\<lambda>n. n_IsHost n \<and> node_active (now - ExpireInterval) n) (mem_node_list (ords 0) s)))"
    and "st_NumActiveClients st =
      int (length (filter (\<lambda>n. \<not> n_IsHost n \<and> node_active (now - ExpireInterval) n) (mem_node_list (ords 0) s)))"
    and "st_LatestBlockNumber st = fold max (map n_BlockNumber (mem_node_list (ords 0) s)) 0"
proof -
  define ns where "ns = mem_node_list (ords 0) s"
  define z where "z = zero_stats\<lparr>st_activeSince := now - ExpireInterval\<rparr>"
  have z: "\<not> time_IsZero (st_activeSince z)" using assms(5) by (simp add: z_def time_simps)
  have start: "fold (CountNode now) ns zero_stats = fold (CountNode now) ns z" if "ns \<noteq> []"
  proof (cases ns)
    case (Cons n ns')
    have "CountNode now n zero_stats = CountNode now n z"
      using CountNode_start [of zero_stats now n] by (simp add: z_def time_simps zero_stats_def)
    then show ?thesis by (simp add: Cons)
  qed (use that in simp)
  have fields: "st_NumTotalHosts z = 0" "st_NumTotalClients z = 0" "st_NumActiveHosts z = 0"
    "st_NumActiveClients z = 0" "st_LatestBlockNumber z = 0" "st_TotalCredit z = 0" "st_TotalDeposit z = 0"
    "st_activeSince z = now - ExpireInterval" by (simp_all add: z_def zero_stats_def)
  define st1 where "st1 = fold (CountNode now) ns zero_stats"
  have st1: "st_NumTotalHosts st1 = int (length (filter n_IsHost ns))"
    "st_NumTotalClients st1 = int (length (filter (\<lambda>n. \<not> n_IsHost n) ns))"
    "st_NumActiveHosts st1 = int (length (filter (\<lambda>n. n_IsHost n \<and> node_active (now - ExpireInterval) n) ns))"
    "st_NumActiveClients st1 = int (length (filter (\<lambda>n. \<not> n_IsHost n \<and> node_active (now - ExpireInterval) n) ns))"
    "st_LatestBlockNumber st1 = fold max (map n_BlockNumber ns) 0"
    "st_TotalCredit st1 = 0" "st_TotalDeposit st1 = 0"
    using start fold_CountNode [OF z, of now ns] unfolding fields st1_def
    by (cases "ns = []"; simp add: zero_stats_def)+
  have st: "st = fold (\<lambda>k. CountBalance (index zero_balance (ms_trials s) k)) (ords 2 (fmdom (ms_trials s)))
      (fold (\<lambda>k. CountBalance (index zero_balance (ms_balances s) k)) (ords 1 (fmdom (ms_balances s))) st1)"
    using assms(1) by (auto simp: mem_Stats_def Let_def st1_def ns_def)
  note sums = sum_over_range [OF assms(3)] sum_over_range [OF assms(4)]
  show "st_TotalCredit st = mem_credit s"
    and "st_TotalDeposit st = fm_sum b_Deposit (ms_balances s) + fm_sum b_Deposit (ms_trials s)"
    and "st_NumTotalHosts st = int (length (filter n_IsHost (mem_node_list (ords 0) s)))"
    and "st_NumTotalClients st = int (length (filter (\<lambda>n. \<not> n_IsHost n) (mem_node_list (ords 0) s)))"
    and "st_NumActiveHosts st =
      int (length (filter (\<lambda>n. n_IsHost n \<and> node_active (now - ExpireInterval) n) (mem_node_list (ords 0) s)))"
    and "st_NumActiveClients st =
      int (length (filter (\<lambda>n. \<not> n_IsHost n \<and> node_active (now - ExpireInterval) n) (mem_node_list (ords 0) s)))"
    and "st_LatestBlockNumber st = fold max (map n_BlockNumber (mem_node_list (ords 0) s)) 0"
    unfolding st fold_CountBalance st1 sums by (simp_all add: mem_credit_def ns_def)
qed

section \<open>Properties\<close>

text \<open>
  in every sequence of store calls, from every state, the nonces accepted for an owner strictly
  increase and lie above the one saved at the start. As each method holds the lock, this
  covers every interleaving of concurrent requests.
\<close>
theorem mem_nonces_increase:
  "sorted_wrt (<) (mem_last_nonce s i # accepted_nonces i (fst (Store_run mem_Store cs s)))"
  by (rule mem_nonce.run_accepted_increasing)

text \<open>
  C8: every sequence of calls on a new store leaves it well formed, and the credit it holds
  is exactly the sum of the amounts that successful \<^verbatim>\<open>AddNodeBalance\<close> and
  \<^verbatim>\<open>AddAccountBalance\<close> calls added: none is lost or made when nodes
  connect, are assigned to accounts, or update their peers.
\<close>
theorem mem_credit_audit:
  "mem_inv (snd (Store_run mem_Store cs mem_New)) \<and>
   mem_credit (snd (Store_run mem_Store cs mem_New)) = credited (fst (Store_run mem_Store cs mem_New))"
  using mem_audit.run_inv [OF mem_inv_New] mem_audit.run_total [OF mem_inv_New]
  by (simp add: mem_credit_def mem_New_def)

text \<open>
  \<^verbatim>\<open>AddAccountNode\<close> on a registered node moves the node's trial credit to the account: the
  node then spends from the account and is authorized for it, its trial balance is gone,
  no other purse changes, and the total stays the same.
\<close>
theorem mem_AddAccountNode_migrates:
  assumes "mem_registered s i" and "mem_AddAccountNode a i s = (r, s')"
  shows "r = Inr () \<and> mem_purse_of s' i = Inl a \<and>
    fst (mem_IsAccountNode a i s') = Inr () \<and> fmlookup (ms_trials s') i = None \<and>
    mem_purse s' (Inl a) = mem_purse s (Inl a) + mem_purse s (Inr i) \<and>
    (\<forall>w. w \<noteq> Inl a \<longrightarrow> w \<noteq> Inr i \<longrightarrow> mem_purse s' w = mem_purse s w) \<and>
    mem_credit s' = mem_credit s"
proof -
  have "mem_credit s' = mem_credit s" using mem_credit_AddAccountNode [of a i s] assms(2) by simp
  then show ?thesis
    using assms
    by (auto simp: mem_AddAccountNode_def mem_registered_def mem_purse_of_def mem_purse_def mem_IsAccountNode_def
        Let_def split: option.splits sum.splits)
qed

definition demo_node :: "string \<Rightarrow> bool \<Rightarrow> time \<Rightarrow> node" where
  "demo_node i isHost t = zero_node\<lparr>n_ID := i, n_Kind := ''geth'', n_IsHost := isHost, n_LastSeen := t\<rparr>"

definition demo_store :: memoryStore where
  "demo_store = snd (Store_run mem_Store
     [CSetNode (demo_node ''h1'' True 1000), CSetNode (demo_node ''h2'' True (- 200000000000)),
      CSetNode (demo_node ''c'' False 1000), CAddNodeBalance ''c'' 70] mem_New)"

theorem mem_AddAccountNode_migrates_witness:
  "mem_purse (snd (mem_AddAccountNode ''acct'' ''c'' demo_store)) (Inl ''acct'') =
     mem_purse demo_store (Inl ''acct'') + mem_purse demo_store (Inr ''c'')"
proof -
  have "mem_registered demo_store ''c''" by code_simp
  from mem_AddAccountNode_migrates [OF this prod.collapse [symmetric]] show ?thesis by blast
qed



text \<open>
  C32: \<^verbatim>\<open>ActiveHosts\<close> with a non-negative limit returns registered hosts of the wanted kind (of any kind when
  none is named) seen within two keepalive intervals, without repetition; at most
  \<open>limit\<close> of them when the limit is positive, and all of them when the limit is 0 or not reached.
\<close>
theorem mem_ActiveHosts_selects:
  assumes "mem_inv s" and "range_order ord" and "0 \<le> limit"
  shows "\<exists>hosts. mem_ActiveHosts now ord kind limit s = (Inr hosts, s) \<and> distinct (map n_ID hosts) \<and>
    (\<forall>h\<in>set hosts. \<exists>nd. fmlookup (ms_nodes s) (n_ID h) = Some nd \<and> mn_Node nd = h \<and> n_IsHost h \<and>
        (kind = '''' \<or> n_Kind h = kind) \<and> now - ExpireInterval < n_LastSeen h) \<and>
    (0 < limit \<longrightarrow> int (length hosts) \<le> limit) \<and>
    (limit = 0 \<or> int (length hosts) < limit \<longrightarrow>
       (\<forall>i nd. fmlookup (ms_nodes s) i = Some nd \<longrightarrow> n_IsHost (mn_Node nd) \<longrightarrow>
          (kind = '''' \<or> n_Kind (mn_Node nd) = kind) \<longrightarrow> now - ExpireInterval < n_LastSeen (mn_Node nd) \<longrightarrow>
          mn_Node nd \<in> set hosts))"
proof -
  define hs where "hs = filter (host_matches kind (time_Add now (- ExpireInterval))) (mem_node_list ord s)"
  define hosts where "hosts = (if limit = 0 then hs else take (nat limit) hs)"
  have op: "mem_ActiveHosts now ord kind limit s = (Inr hosts, s)"
    using assms(3) by (simp add: mem_ActiveHosts_eq Let_def hosts_def hs_def)
  have sub: "set hosts \<subseteq> set hs" by (simp add: hosts_def set_take_subset)
  have "distinct (map n_ID (mem_node_list ord s))"
    using assms(1,2) by (simp add: mem_node_list_IDs range_order_distinct)
  then have dist: "distinct (map n_ID hosts)"
    by (simp add: hosts_def hs_def distinct_map_filter take_map [symmetric])
  have all: "hosts = hs" if "limit = 0 \<or> int (length hosts) < limit"
    using that assms(3) by (auto simp: hosts_def split: if_splits)
  have mem: "h \<in> set hs \<longleftrightarrow> (\<exists>i nd. fmlookup (ms_nodes s) i = Some nd \<and> mn_Node nd = h \<and> n_IsHost h \<and>
      (kind = '''' \<or> n_Kind h = kind) \<and> now - ExpireInterval < n_LastSeen h)" for h
    using assms(2) by (auto simp: hs_def mem_node_list_set host_matches_def time_simps)
  show ?thesis
  proof (intro exI conjI)
    show "\<forall>h\<in>set hosts. \<exists>nd. fmlookup (ms_nodes s) (n_ID h) = Some nd \<and> mn_Node nd = h \<and> n_IsHost h \<and>
        (kind = '''' \<or> n_Kind h = kind) \<and> now - ExpireInterval < n_LastSeen h"
    proof
      fix h assume "h \<in> set hosts"
      then have "h \<in> set hs" using sub by (rule rev_subsetD)
      then obtain i nd where nd: "fmlookup (ms_nodes s) i = Some nd" and h: "mn_Node nd = h" "n_IsHost h"
          "kind = '''' \<or> n_Kind h = kind" "now - ExpireInterval < n_LastSeen h" using mem by blast
      have "n_ID h = i" using mem_inv_node_ID [OF assms(1) nd] h(1) by simp
      then show "\<exists>nd. fmlookup (ms_nodes s) (n_ID h) = Some nd \<and> mn_Node nd = h \<and> n_IsHost h \<and>
        (kind = '''' \<or> n_Kind h = kind) \<and> now - ExpireInterval < n_LastSeen h" using nd h by blast
    qed
    show "0 < limit \<longrightarrow> int (length hosts) \<le> limit" by (auto simp: hosts_def min_def)
    show "limit = 0 \<or> int (length hosts) < limit \<longrightarrow>
       (\<forall>i nd. fmlookup (ms_nodes s) i = Some nd \<longrightarrow> n_IsHost (mn_Node nd) \<longrightarrow>
          (kind = '''' \<or> n_Kind (mn_Node nd) = kind) \<longrightarrow> now - ExpireInterval < n_LastSeen (mn_Node nd) \<longrightarrow>
          mn_Node nd \<in> set hosts)"
      using all mem by blast
  qed (use op dist in auto)
qed

theorem mem_ActiveHosts_selects_witness:
  "\<exists>hosts. mem_ActiveHosts 2000 sorted_list_of_fset ''geth'' 1 demo_store = (Inr hosts, demo_store) \<and>
     int (length hosts) \<le> 1"
proof -
  have "mem_inv demo_store" unfolding demo_store_def by (rule mem_audit.run_inv [OF mem_inv_New])
  from mem_ActiveHosts_selects [OF this range_order_sorted, of 1 2000 "''geth''"] show ?thesis by auto
qed

text \<open>
  the statistics are exact. At any time more than two keepalive intervals after the zero time,
  \<^verbatim>\<open>Stats\<close> counts every host and client once, as active when it was seen within two keepalive
  intervals, gives the highest block number any node reported, and adds up all credit and
  all deposits, whatever the orders in which it visits its maps.
\<close>
theorem mem_Stats_exact:
  assumes "range_order (ords 0)" "range_order (ords 1)" "range_order (ords 2)" and "zero_time + ExpireInterval < now"
  shows "\<exists>st. mem_Stats now ords s = (Inr st, s) \<and>
    (let ns = mem_node_list (ords 0) s; active = node_active (now - ExpireInterval) in
     st_NumTotalHosts st = int (length (filter n_IsHost ns)) \<and>
     st_NumTotalClients st = int (length (filter (\<lambda>n. \<not> n_IsHost n) ns)) \<and>
     st_NumActiveHosts st = int (length (filter (\<lambda>n. n_IsHost n \<and> active n) ns)) \<and>
     st_NumActiveClients st = int (length (filter (\<lambda>n. \<not> n_IsHost n \<and> active n) ns)) \<and>
     st_LatestBlockNumber st = fold max (map n_BlockNumber ns) 0) \<and>
    st_TotalCredit st = mem_credit s \<and>
    st_TotalDeposit st = fm_sum b_Deposit (ms_balances s) + fm_sum b_Deposit (ms_trials s)"
proof -
  obtain st where st: "mem_Stats now ords s = (Inr st, s)" by (simp add: mem_Stats_def Let_def)
  show ?thesis unfolding Let_def using st mem_Stats_fields [OF st assms] by blast
qed

theorem mem_Stats_exact_witness:
  "\<exists>st. mem_Stats 2000 (\<lambda>_. sorted_list_of_fset) demo_store = (Inr st, demo_store) \<and>
     st_TotalCredit st = mem_credit demo_store"
proof -
  have "zero_time + ExpireInterval < 2000" by (simp add: zero_time_def interval_values)
  from mem_Stats_exact [OF range_order_sorted range_order_sorted range_order_sorted this, of demo_store]
  show ?thesis by auto
qed

end
