(* ===== verification/Balance_Manager.thy ===== *)
theory Balance_Manager
  imports Memory_Store
begin

text \<open>
  The balance managers (\<^verbatim>\<open>pool/balance\<close>): \<^verbatim>\<open>NoBalance\<close> and the pay-per-interval scheme
  that charges a client for every active host it is connected to. The manager works on any
  \<^verbatim>\<open>store.BalanceStore\<close>, so its operations take the dictionary of the store; the lemmas
  inside \<open>ledger_store\<close> hold for every store that keeps that contract.

  A \<open>Manager\<close> is the dictionary of the \<^verbatim>\<open>balance.Manager\<close> interface. Its operations
  take the readings of the clock during the call.
\<close>

section \<open>The interface\<close>

record 's Manager =
  OnClient :: "clock \<Rightarrow> node \<Rightarrow> 's \<Rightarrow> unit result \<times> 's"
  OnUpdate :: "clock \<Rightarrow> node \<Rightarrow> node list \<Rightarrow> 's \<Rightarrow> balance result \<times> 's"

section \<open>NoBalance\<close>

definition NoBalance_OnUpdate :: "clock \<Rightarrow> node \<Rightarrow> node list \<Rightarrow> 's \<Rightarrow> balance result \<times> 's" where
  "NoBalance_OnUpdate clk node peers s = (Inr zero_balance, s)"

definition NoBalance_OnClient :: "clock \<Rightarrow> node \<Rightarrow> 's \<Rightarrow> unit result \<times> 's" where
  "NoBalance_OnClient clk node s = (Inr (), s)"

definition NoBalance :: "'s Manager" where
  "NoBalance = \<lparr>OnClient = NoBalance_OnClient, OnUpdate = NoBalance_OnUpdate\<rparr>"

section \<open>Pay per interval\<close>

record payPerInterval =
  pp_Interval :: duration
  pp_CreditPerInterval :: int
  pp_MinBalance :: "int option"

definition PayPerInterval :: "duration \<Rightarrow> int \<Rightarrow> payPerInterval" where
  "PayPerInterval interval creditPerInterval =
     \<lparr>pp_Interval = interval, pp_CreditPerInterval = creditPerInterval, pp_MinBalance = None\<rparr>"

text \<open>\<^verbatim>\<open>big.Int.Div\<close>: Euclidean division, with a non-negative remainder.\<close>
definition big_Div :: "int \<Rightarrow> int \<Rightarrow> int" where
  "big_Div x y = (if 0 < y then x div y else - (x div (- y)))"

definition intervalCredit :: "payPerInterval \<Rightarrow> time \<Rightarrow> time \<Rightarrow> int" where
  "intervalCredit b now lastSeen =
     (let delta = time_Sub now lastSeen;
          interval = pp_Interval b;
          credit = delta * pp_CreditPerInterval b
      in big_Div credit interval)"

definition pay_OnClient ::
  "('s, 'm) BalanceStore_scheme \<Rightarrow> payPerInterval \<Rightarrow> clock \<Rightarrow> node \<Rightarrow> 's \<Rightarrow> unit result \<times> 's" where
  "pay_OnClient BS b clk node s =
     (case pp_MinBalance b of
        None \<Rightarrow> (Inr (), s)
      | Some minBalance \<Rightarrow>
          (case GetNodeBalance BS (clk 0) (n_ID node) s of
             (Inl e, s1) \<Rightarrow> (Inl e, s1)
           | (Inr balance, s1) \<Rightarrow>
               (let tot = b_Credit balance + b_Deposit balance
                in if tot < minBalance then (Inl (LowBalanceError minBalance tot), s1)
                   else (Inr (), s1))))"

text \<open>The loop that credits each peer. The error of \<^verbatim>\<open>AddNodeBalance\<close> is discarded.\<close>
primrec credit_peers ::
  "('s, 'm) BalanceStore_scheme \<Rightarrow> int \<Rightarrow> node list \<Rightarrow> int \<Rightarrow> 's \<Rightarrow> int \<times> 's" where
  "credit_peers BS credit [] tot s = (tot, s)"
| "credit_peers BS credit (peer # peers) tot s =
     (let (_, s1) = AddNodeBalance BS (n_ID peer) credit s
      in credit_peers BS credit peers (tot + credit) s1)"

text \<open>The end of \<^verbatim>\<open>OnUpdate\<close>: debit the client and read its balance back, twice.\<close>
definition charge_client ::
  "('s, 'm) BalanceStore_scheme \<Rightarrow> clock \<Rightarrow> node \<Rightarrow> int \<Rightarrow> 's \<Rightarrow> balance result \<times> 's" where
  "charge_client BS clk node tot s =
     (case AddNodeBalance BS (n_ID node) (- tot) s of
        (Inl e, s1) \<Rightarrow> (Inl e, s1)
      | (Inr _, s1) \<Rightarrow>
          (case GetNodeBalance BS (clk 1) (n_ID node) s1 of
             (Inl e, s2) \<Rightarrow> (Inl e, s2)
           | (Inr balance, s2) \<Rightarrow> GetNodeBalance BS (clk 2) (n_ID node) s2))"

definition pay_OnUpdate ::
  "('s, 'm) BalanceStore_scheme \<Rightarrow> payPerInterval \<Rightarrow> clock \<Rightarrow> node \<Rightarrow> node list \<Rightarrow> 's
     \<Rightarrow> balance result \<times> 's" where
  "pay_OnUpdate BS b clk node peers s =
     (if n_IsHost node then GetNodeBalance BS (clk 0) (n_ID node) s
      else if pp_Interval b \<le> 0 \<or> pp_CreditPerInterval b = 0
      then (Inl (InvalidIntervalSettings (pp_CreditPerInterval b) (pp_Interval b)), s)
      else
        (let credit = intervalCredit b (clk 0) (n_LastSeen node)
         in if credit = 0 then GetNodeBalance BS (clk 1) (n_ID node) s
            else
              (let (tot, s1) = credit_peers BS credit peers 0 s
               in case pp_MinBalance b of
                    Some minBalance \<Rightarrow>
                      (if tot < minBalance then (Inl (LowBalanceError minBalance tot), s1)
                       else charge_client BS clk node tot s1)
                  | None \<Rightarrow> charge_client BS clk node tot s1)))"

definition pay_Manager :: "('s, 'm) BalanceStore_scheme \<Rightarrow> payPerInterval \<Rightarrow> 's Manager" where
  "pay_Manager BS b = \<lparr>OnClient = pay_OnClient BS b, OnUpdate = pay_OnUpdate BS b\<rparr>"

section \<open>The interval credit\<close>

lemma big_Div_pos: "0 < y \<Longrightarrow> big_Div x y = x div y"
  by (simp add: big_Div_def)

lemma intervalCredit_eq:
  "0 < pp_Interval b \<Longrightarrow>
   intervalCredit b now t = (time_Sub now t * pp_CreditPerInterval b) div pp_Interval b"
  by (simp add: intervalCredit_def Let_def big_Div_pos)

lemma intervalCredit_nonneg:
  assumes "0 < pp_Interval b" and "0 \<le> pp_CreditPerInterval b" and "t \<le> now"
  shows "0 \<le> intervalCredit b now t"
  using assms time_Sub_nonneg [OF assms(3)] by (simp add: intervalCredit_eq pos_imp_zdiv_nonneg_iff)

section \<open>Charging over any store that keeps the ledger contract\<close>

text \<open>How many of the given nodes draw on a purse.\<close>
definition draws_on :: "(node_id \<Rightarrow> purse_id) \<Rightarrow> node list \<Rightarrow> purse_id \<Rightarrow> int" where
  "draws_on pof peers w = int (length (filter (\<lambda>p. pof (n_ID p) = w) peers))"

lemma draws_on_simps [simp]:
  "draws_on pof [] w = 0"
  "draws_on pof (p # ps) w = (if pof (n_ID p) = w then 1 else 0) + draws_on pof ps w"
  by (simp_all add: draws_on_def)

text \<open>The settings under which a client update charges.\<close>
definition charging :: "payPerInterval \<Rightarrow> time \<Rightarrow> node \<Rightarrow> bool" where
  "charging b now nd \<longleftrightarrow> \<not> n_IsHost nd \<and> 0 < pp_Interval b \<and> pp_CreditPerInterval b \<noteq> 0 \<and>
     intervalCredit b now (n_LastSeen nd) \<noteq> 0"

context ledger_store begin

text \<open>The credit of each peer goes to the purse the peer draws on.\<close>
lemma credit_peers_spec:
  assumes "inv s" and "\<forall>p\<in>set peers. registered s (n_ID p)"
    and "credit_peers BS c peers t s = (tot, s')"
  shows "inv s' \<and> registered s' = registered s \<and> purse_of s' = purse_of s \<and>
    tot = t + c * int (length peers) \<and>
    (\<forall>w. purse s' w = purse s w + c * draws_on (purse_of s) peers w) \<and>
    total s' = total s + c * int (length peers)"
  using assms
proof (induction peers arbitrary: t s)
  case Nil
  then show ?case by simp
next
  case (Cons p ps)
  obtain r s1 where add: "AddNodeBalance BS (n_ID p) c s = (r, s1)"
    by (cases "AddNodeBalance BS (n_ID p) c s")
  have reg: "registered s (n_ID p)" using Cons.prems(2) by simp
  note one = add_registered [OF Cons.prems(1) reg add]
  have rest: "credit_peers BS c ps (t + c) s1 = (tot, s')" using Cons.prems(3) add by simp
  have "\<forall>q\<in>set ps. registered s1 (n_ID q)" using Cons.prems(2) one by simp
  note IH = Cons.IH [OF _ this rest]
  show ?case using one IH by (simp add: algebra_simps)
qed

text \<open>Whatever the peers are, the invariant stays and only credits were added.\<close>
lemma credit_peers_frame:
  assumes "inv s" and "credit_peers BS c peers t s = (tot, s')"
  shows "inv s' \<and> registered s' = registered s \<and> purse_of s' = purse_of s \<and> tot = t + c * int (length peers)"
  using assms
proof (induction peers arbitrary: t s)
  case Nil
  then show ?case by simp
next
  case (Cons p ps)
  obtain r s1 where add: "AddNodeBalance BS (n_ID p) c s = (r, s1)"
    by (cases "AddNodeBalance BS (n_ID p) c s")
  have one: "inv s1 \<and> registered s1 = registered s \<and> purse_of s1 = purse_of s"
    using add_registered [OF Cons.prems(1) _ add] add_unregistered [OF Cons.prems(1), of "n_ID p" c]
      Cons.prems(1) add by (cases "registered s (n_ID p)") simp_all
  have rest: "credit_peers BS c ps (t + c) s1 = (tot, s')" using Cons.prems(2) add by simp
  then show ?case using Cons.IH [OF _ rest] one by (simp add: algebra_simps)
qed

lemma charge_client_spec:
  assumes "inv s" and "registered s (n_ID nd)" and "charge_client BS clk nd tot s = (r, s')"
  shows "inv s' \<and> registered s' = registered s \<and> purse_of s' = purse_of s \<and>
    purse s' = (purse s)(purse_of s (n_ID nd) := purse s (purse_of s (n_ID nd)) - tot) \<and>
    total s' = total s - tot \<and>
    (\<forall>bal. r = Inr bal \<longrightarrow> b_Credit bal = purse s' (purse_of s (n_ID nd)))"
proof -
  obtain r1 s1 where add: "AddNodeBalance BS (n_ID nd) (- tot) s = (r1, s1)"
    by (cases "AddNodeBalance BS (n_ID nd) (- tot) s")
  note one = add_registered [OF assms(1,2) add]
  obtain r2 s2 where get1: "GetNodeBalance BS (clk 1) (n_ID nd) s1 = (r2, s2)"
    by (cases "GetNodeBalance BS (clk 1) (n_ID nd) s1")
  have "inv s1" using one by simp
  note two = get_frame [OF this get1]
  show ?thesis
  proof (cases r2)
    case (Inl e)
    then show ?thesis using assms(3) one two add get1 by (auto simp: charge_client_def)
  next
    case (Inr bal1)
    then have get2: "GetNodeBalance BS (clk 2) (n_ID nd) s2 = (r, s')"
      using assms(3) one add get1 by (simp add: charge_client_def)
    have "inv s2" using two by simp
    note three = get_frame [OF this get2]
    have "b_Credit bal = purse s2 (purse_of s2 (n_ID nd))" if "r = Inr bal" for bal
      using get_credit [OF \<open>inv s2\<close>] get2 that by blast
    then show ?thesis using one two three by auto
  qed
qed

text \<open>A host update, or one with nothing to charge, moves no credit.\<close>
lemma OnUpdate_host:
  assumes "inv s" and "n_IsHost nd" and "pay_OnUpdate BS b clk nd peers s = (r, s')"
  shows "inv s' \<and> purse s' = purse s \<and> total s' = total s"
  using get_frame [OF assms(1)] assms(2,3) by (simp add: pay_OnUpdate_def)

lemma OnUpdate_charging:
  assumes "charging b (clk 0) nd"
    and "credit_peers BS (intervalCredit b (clk 0) (n_LastSeen nd)) peers 0 s = (tot, s1)"
  shows "pay_OnUpdate BS b clk nd peers s =
    (if \<exists>m. pp_MinBalance b = Some m \<and> tot < m
     then (Inl (LowBalanceError (the (pp_MinBalance b)) tot), s1)
     else charge_client BS clk nd tot s1)"
  using assms by (auto simp: pay_OnUpdate_def charging_def Let_def split: option.splits)

text \<open>A charged update moves credit from the client's purse to the peers' purses.\<close>
lemma OnUpdate_transfer:
  assumes "inv s" and "registered s (n_ID nd)" and "\<forall>p\<in>set peers. registered s (n_ID p)"
    and "pay_OnUpdate BS b clk nd peers s = (Inr bal, s')"
    and "charging b (clk 0) nd"
    and "c = intervalCredit b (clk 0) (n_LastSeen nd)"
  shows "purse s' w = purse s w + c * draws_on (purse_of s) peers w
      - (if w = purse_of s (n_ID nd) then c * int (length peers) else 0)"
    and "b_Credit bal = purse s' (purse_of s (n_ID nd))"
    and "total s' = total s" and "inv s'"
proof -
  obtain tot s1 where cr: "credit_peers BS c peers 0 s = (tot, s1)"
    by (cases "credit_peers BS c peers 0 s")
  note one = credit_peers_spec [OF assms(1,3) cr]
  have ch: "charge_client BS clk nd tot s1 = (Inr bal, s')"
    using OnUpdate_charging [of b clk nd peers s tot s1] cr assms(4-6) by (auto split: if_splits)
  have "inv s1" and "registered s1 (n_ID nd)" using one assms(2) by simp_all
  note two = charge_client_spec [OF this ch]
  show "purse s' w = purse s w + c * draws_on (purse_of s) peers w
      - (if w = purse_of s (n_ID nd) then c * int (length peers) else 0)"
    and "b_Credit bal = purse s' (purse_of s (n_ID nd))"
    and "total s' = total s" and "inv s'"
    using one two by auto
qed

text \<open>The minimum check comes after the peers were credited: refusing keeps their credit.\<close>
lemma OnUpdate_low_balance:
  assumes "inv s" and "\<forall>p\<in>set peers. registered s (n_ID p)"
    and "charging b (clk 0) nd" and "c = intervalCredit b (clk 0) (n_LastSeen nd)"
    and "pp_MinBalance b = Some m" and "c * int (length peers) < m"
  shows "\<exists>s'. pay_OnUpdate BS b clk nd peers s = (Inl (LowBalanceError m (c * int (length peers))), s') \<and>
    total s' = total s + c * int (length peers)"
proof -
  obtain tot s1 where cr: "credit_peers BS c peers 0 s = (tot, s1)"
    by (cases "credit_peers BS c peers 0 s")
  note one = credit_peers_spec [OF assms(1,2) cr]
  then show ?thesis
    using OnUpdate_charging [of b clk nd peers s tot s1] cr assms(3-6) by simp
qed

end

section \<open>Charging over time\<close>

lemma div_add_bounds:
  fixes x y z :: int
  assumes "0 < z"
  shows "x div z + y div z \<le> (x + y) div z" and "(x + y) div z \<le> x div z + y div z + 1"
proof -
  have "(x + y) div z = x div z + y div z + (x mod z + y mod z) div z"
    by (rule div_add1_eq)
  moreover have "0 \<le> (x mod z + y mod z) div z"
    using assms by (simp add: pos_imp_zdiv_nonneg_iff)
  moreover have "x mod z + y mod z < 2 * z"
    using assms pos_mod_bound [of z x] pos_mod_bound [of z y] by linarith
  then have "z * ((x mod z + y mod z) div z) < z * 2"
    using assms pos_mod_sign [of z "x mod z + y mod z"] mult_div_mod_eq [of z "x mod z + y mod z"]
    by linarith
  then have "(x mod z + y mod z) div z < 2"
    using assms by (simp only: mult_less_cancel_left_pos)
  ultimately show "x div z + y div z \<le> (x + y) div z" and "(x + y) div z \<le> x div z + y div z + 1"
    by linarith+
qed

lemma time_Sub_add:
  "t0 \<le> t1 \<Longrightarrow> t1 \<le> t2 \<Longrightarrow> t2 - t0 \<le> max_int64 \<Longrightarrow> time_Sub t2 t0 = time_Sub t1 t0 + time_Sub t2 t1"
  by (simp add: time_Sub_def min_int64_def max_int64_def)

lemma intervalCredit_split:
  assumes "0 < pp_Interval b" and "t0 \<le> t1" and "t1 \<le> t2" and "t2 - t0 \<le> max_int64"
  shows "intervalCredit b t1 t0 + intervalCredit b t2 t1 \<le> intervalCredit b t2 t0"
    and "intervalCredit b t2 t0 \<le> intervalCredit b t1 t0 + intervalCredit b t2 t1 + 1"
  using div_add_bounds [OF assms(1), of "time_Sub t1 t0 * pp_CreditPerInterval b"
      "time_Sub t2 t1 * pp_CreditPerInterval b"] assms
  by (simp_all add: intervalCredit_eq time_Sub_add [OF assms(2-4)] distrib_right)

text \<open>The charges of a client that updates at the given moments, the first being its last update.\<close>
fun charges :: "payPerInterval \<Rightarrow> time list \<Rightarrow> int" where
  "charges b (t0 # t1 # ts) = intervalCredit b t1 t0 + charges b (t1 # ts)"
| "charges b _ = 0"

lemma charges_bounds:
  assumes "0 < pp_Interval b" and "sorted (t0 # ts)" and "last (t0 # ts) - t0 \<le> max_int64"
  shows "charges b (t0 # ts) \<le> intervalCredit b (last (t0 # ts)) t0 \<and>
    intervalCredit b (last (t0 # ts)) t0 \<le> charges b (t0 # ts) + int (length ts)"
  using assms(2,3)
proof (induction ts arbitrary: t0)
  case Nil
  then show ?case using assms(1) by (simp add: intervalCredit_eq time_Sub_def min_int64_def max_int64_def)
next
  case (Cons t1 ts)
  define l where "l = last (t1 # ts)"
  have "t1 \<le> l" using Cons.prems(1) by (auto simp: l_def)
  have "l - t1 \<le> max_int64" using Cons.prems by (simp add: l_def split: if_splits)
  then have "charges b (t1 # ts) \<le> intervalCredit b l t1 \<and>
      intervalCredit b l t1 \<le> charges b (t1 # ts) + int (length ts)"
    using Cons.IH [of t1] Cons.prems(1) by (simp add: l_def)
  moreover have "t0 \<le> t1" and "l - t0 \<le> max_int64" using Cons.prems by (simp_all add: l_def)
  note intervalCredit_split [OF assms(1) this(1) \<open>t1 \<le> l\<close> this(2)]
  ultimately show ?case by (simp add: l_def)
qed

section \<open>Properties\<close>

text \<open>
  C6: a client pays its hosts exactly. When the pay-per-interval manager answers a client update without
  error (peers and client being registered, settings valid and the credit of the interval not zero), each peer's
  purse gains the interval credit once for every peer that draws on it, the client's purse
  loses the sum, no other purse changes, the credit of the reply is the client's new
  credit, and the total in the store is unchanged.
\<close>
theorem update_pays_hosts_exactly:
  assumes "mem_inv s" and "mem_registered s (n_ID nd)" and "\<forall>p\<in>set peers. mem_registered s (n_ID p)"
    and "pay_OnUpdate mem_Store b clk nd peers s = (Inr bal, s')"
    and "charging b (clk 0) nd"
  shows "(\<forall>w. mem_purse s' w = mem_purse s w
        + intervalCredit b (clk 0) (n_LastSeen nd) * draws_on (mem_purse_of s) peers w
        - (if w = mem_purse_of s (n_ID nd) then intervalCredit b (clk 0) (n_LastSeen nd) * int (length peers) else 0)) \<and>
    b_Credit bal = mem_purse s' (mem_purse_of s (n_ID nd)) \<and> mem_credit s' = mem_credit s"
  using mem_ledger.OnUpdate_transfer [OF assms refl] by blast

definition demo_pay :: payPerInterval where
  "demo_pay = PayPerInterval minute 1000"

theorem update_pays_hosts_exactly_witness:
  "\<exists>bal s'. pay_OnUpdate mem_Store demo_pay (\<lambda>_. 60000001000) (demo_node ''c'' False 1000) [demo_node ''h1'' True 1000] demo_store
     = (Inr bal, s') \<and> mem_credit s' = mem_credit demo_store"
proof -
  define r where "r = pay_OnUpdate mem_Store demo_pay (\<lambda>_. 60000001000) (demo_node ''c'' False 1000) [demo_node ''h1'' True 1000] demo_store"
  have inv: "mem_inv demo_store" unfolding demo_store_def by (rule mem_audit.run_inv [OF mem_inv_New])
  have reg: "mem_registered demo_store (n_ID (demo_node ''c'' False 1000))"
      "\<forall>p\<in>set [demo_node ''h1'' True 1000]. mem_registered demo_store (n_ID p)" by code_simp+
  have "charging demo_pay 60000001000 (demo_node ''c'' False 1000)" by code_simp
  moreover have "is_ok (fst (pay_OnUpdate mem_Store demo_pay (\<lambda>_. 60000001000) (demo_node ''c'' False 1000)
      [demo_node ''h1'' True 1000] demo_store))" by code_simp
  then obtain bal where bal: "fst r = Inr bal" unfolding r_def is_ok_iff by blast
  ultimately have "mem_credit (snd r) = mem_credit demo_store"
    using update_pays_hosts_exactly [OF inv reg, of demo_pay "\<lambda>_. 60000001000" bal "snd r"]
    unfolding r_def by (metis prod.collapse)
  then show ?thesis unfolding r_def [symmetric] using bal by (metis prod.collapse)
qed



text \<open>
  the minimum on connecting. With a minimum balance set, \<^verbatim>\<open>OnClient\<close> of a registered node
  changes nothing and refuses the node, naming both amounts, exactly when its credit plus deposit is
  below the minimum; with none set every node passes.
\<close>
theorem OnClient_minimum:
  assumes "mem_GetNodeBalance (n_ID nd) s = (Inr bal, s)"
  shows "pay_OnClient mem_Store b clk nd s =
    (case pp_MinBalance b of
       None \<Rightarrow> (Inr (), s)
     | Some m \<Rightarrow> if b_Credit bal + b_Deposit bal < m
         then (Inl (LowBalanceError m (b_Credit bal + b_Deposit bal)), s) else (Inr (), s))"
  using assms by (simp add: pay_OnClient_def mem_Store_def Let_def split: option.split)

theorem OnClient_minimum_witness:
  "pay_OnClient mem_Store (demo_pay\<lparr>pp_MinBalance := Some 100\<rparr>) (\<lambda>_. 0) (demo_node ''c'' False 1000) demo_store =
     (Inl (LowBalanceError 100 70), demo_store)"
proof -
  have "map_sum (\<lambda>e. ()) (\<lambda>b. b_Credit b + b_Deposit b) (fst (mem_GetNodeBalance (n_ID (demo_node ''c'' False 1000)) demo_store)) = Inr 70"
    by code_simp
  then obtain bal where bal: "fst (mem_GetNodeBalance (n_ID (demo_node ''c'' False 1000)) demo_store) = Inr bal"
      "b_Credit bal + b_Deposit bal = 70"
    by (cases "fst (mem_GetNodeBalance (n_ID (demo_node ''c'' False 1000)) demo_store)") auto
  have "mem_GetNodeBalance (n_ID (demo_node ''c'' False 1000)) demo_store = (Inr bal, demo_store)"
    using bal(1) mem_read_only(1) by (metis prod.collapse)
  from OnClient_minimum [OF this, of "demo_pay\<lparr>pp_MinBalance := Some 100\<rparr>" "\<lambda>_. 0"] bal(2) show ?thesis by simp
qed

text \<open>
  C34: the minimum on updating is compared with the charge and not with the balance, and after the
  hosts were paid. When a client is connected to registered peers and the sum to pay is below the minimum, the
  update fails however large the client's balance is, and the hosts keep their pay, which nobody was charged: the store then holds that sum
  more than before.
\<close>
theorem low_charge_refused_and_minted:
  assumes "mem_inv s" and "\<forall>p\<in>set peers. mem_registered s (n_ID p)"
    and "charging b (clk 0) nd" and "pp_MinBalance b = Some m"
    and "intervalCredit b (clk 0) (n_LastSeen nd) * int (length peers) < m"
  shows "\<exists>s'. pay_OnUpdate mem_Store b clk nd peers s =
      (Inl (LowBalanceError m (intervalCredit b (clk 0) (n_LastSeen nd) * int (length peers))), s') \<and>
    mem_credit s' = mem_credit s + intervalCredit b (clk 0) (n_LastSeen nd) * int (length peers)"
  using mem_ledger.OnUpdate_low_balance [of s peers b clk nd _ m] assms by blast

theorem low_charge_refused_and_minted_witness:
  "\<exists>s'. pay_OnUpdate mem_Store (demo_pay\<lparr>pp_MinBalance := Some 5000\<rparr>) (\<lambda>_. 60000001000) (demo_node ''c'' False 1000)
      [demo_node ''h1'' True 1000] demo_store = (Inl (LowBalanceError 5000 1000), s') \<and>
    mem_credit s' = mem_credit demo_store + 1000"
proof -
  let ?b = "demo_pay\<lparr>pp_MinBalance := Some 5000\<rparr>"
  have inv: "mem_inv demo_store" unfolding demo_store_def by (rule mem_audit.run_inv [OF mem_inv_New])
  have reg: "\<forall>p\<in>set [demo_node ''h1'' True 1000]. mem_registered demo_store (n_ID p)" by code_simp
  have ch: "charging ?b 60000001000 (demo_node ''c'' False 1000)" by code_simp
  have credit: "intervalCredit ?b 60000001000 (n_LastSeen (demo_node ''c'' False 1000)) = 1000" by code_simp
  show ?thesis
    using low_charge_refused_and_minted [OF inv reg, of ?b "\<lambda>_. 60000001000" "demo_node ''c'' False 1000" 5000] ch credit
    by simp
qed

end
