(* ===== verification/Go_URL.thy ===== *)
theory Go_URL
  imports Pool_Errors
begin

text \<open>
  What the program uses of the Go packages \<^verbatim>\<open>strings\<close> and \<^verbatim>\<open>net/url\<close>: prefixes,
  lower case (of ASCII letters), cutting at a separator, parsing a URL into its components
  with percent-decoding and the checks on user info, host and port, the accessors
  \<^verbatim>\<open>Hostname\<close>, \<^verbatim>\<open>Port\<close> and \<^verbatim>\<open>Username\<close>, and printing a URL that has a scheme, user
  and host. Strings are sequences of bytes. The lemmas at the end give the round trip of
  such a URL.
\<close>

section \<open>Strings\<close>

definition HasPrefix :: "string \<Rightarrow> string \<Rightarrow> bool" where
  "HasPrefix s p \<longleftrightarrow> take (length p) s = p"

definition HasSuffix :: "string \<Rightarrow> string \<Rightarrow> bool" where
  "HasSuffix s p \<longleftrightarrow> HasPrefix (rev s) (rev p)"

fun Contains :: "string \<Rightarrow> string \<Rightarrow> bool" where
  "Contains [] p \<longleftrightarrow> p = []"
| "Contains (c # s) p \<longleftrightarrow> HasPrefix (c # s) p \<or> Contains s p"

definition code :: "char \<Rightarrow> nat" where
  "code c = of_char c"

definition is_upper :: "char \<Rightarrow> bool" where
  "is_upper c \<longleftrightarrow> 65 \<le> code c \<and> code c \<le> 90"

definition is_lower :: "char \<Rightarrow> bool" where
  "is_lower c \<longleftrightarrow> 97 \<le> code c \<and> code c \<le> 122"

definition is_digit :: "char \<Rightarrow> bool" where
  "is_digit c \<longleftrightarrow> 48 \<le> code c \<and> code c \<le> 57"

definition is_alnum :: "char \<Rightarrow> bool" where
  "is_alnum c \<longleftrightarrow> is_upper c \<or> is_lower c \<or> is_digit c"

definition ToLower :: "string \<Rightarrow> string" where
  "ToLower s = map (\<lambda>c. if is_upper c then char_of (code c + 32) else c) s"

text \<open>Before and after the first, respectively the last, occurrence of a byte.\<close>
definition cut_first :: "char \<Rightarrow> string \<Rightarrow> string \<times> string" where
  "cut_first c s = (takeWhile (\<lambda>x. x \<noteq> c) s, tl (dropWhile (\<lambda>x. x \<noteq> c) s))"

definition cut_last :: "char \<Rightarrow> string \<Rightarrow> (string \<times> string) option" where
  "cut_last c s =
     (if c \<in> set s
      then Some (rev (tl (dropWhile (\<lambda>x. x \<noteq> c) (rev s))), rev (takeWhile (\<lambda>x. x \<noteq> c) (rev s)))
      else None)"

section \<open>Percent encoding\<close>

datatype url_mode = EncodePath | EncodeHost | EncodeUserPassword | EncodeFragment

definition host_extra :: "char list" where
  "host_extra = ''!$&'' @ [char_of (39::nat)] @ ''()*+,;=:[]<>'' @ [char_of (34::nat)]"

definition shouldEscape :: "char \<Rightarrow> url_mode \<Rightarrow> bool" where
  "shouldEscape c m \<longleftrightarrow>
     (if is_alnum c then False
      else if m = EncodeHost \<and> c \<in> set host_extra then False
      else if c \<in> set ''-_.~'' then False
      else if c \<in> set ''$&+,/:;=?@''
      then (case m of EncodePath \<Rightarrow> c = CHR ''?'' | EncodeUserPassword \<Rightarrow> c \<in> set ''@/?:''
            | EncodeHost \<Rightarrow> True | EncodeFragment \<Rightarrow> False)
      else if m = EncodeFragment \<and> c \<in> set ''!()*'' then False
      else True)"

definition hex_digit :: "nat \<Rightarrow> char" where
  "hex_digit n = (if n < 10 then char_of (48 + n) else char_of (55 + n))"

definition unhex :: "char \<Rightarrow> nat option" where
  "unhex c =
     (if is_digit c then Some (code c - 48)
      else if 97 \<le> code c \<and> code c \<le> 102 then Some (code c - 87)
      else if 65 \<le> code c \<and> code c \<le> 70 then Some (code c - 55)
      else None)"

primrec url_escape :: "url_mode \<Rightarrow> string \<Rightarrow> string" where
  "url_escape m [] = []"
| "url_escape m (c # s) =
     (if shouldEscape c m then CHR ''%'' # hex_digit (code c div 16) # hex_digit (code c mod 16) # url_escape m s
      else c # url_escape m s)"

text \<open>
  Decoding fails on a malformed escape, in a host on an escape of an ASCII byte other
  than \<^verbatim>\<open>%25\<close>, and in a host on an ASCII byte that must be escaped.
\<close>
fun url_unescape :: "url_mode \<Rightarrow> string \<Rightarrow> string option" where
  "url_unescape m [] = Some []"
| "url_unescape m (c # s) =
     (if c = CHR ''%'' then
        (case s of
           a # b # r \<Rightarrow>
             (case (unhex a, unhex b) of
                (Some x, Some y) \<Rightarrow>
                  (if m = EncodeHost \<and> x < 8 \<and> (a, b) \<noteq> (CHR ''2'', CHR ''5'') then None
                   else map_option ((#) (char_of (16 * x + y))) (url_unescape m r))
              | _ \<Rightarrow> None)
         | _ \<Rightarrow> None)
      else if m = EncodeHost \<and> code c < 128 \<and> shouldEscape c m then None
      else map_option ((#) c) (url_unescape m s))"

section \<open>URLs\<close>

record url =
  u_Scheme :: string
  u_Opaque :: string
  u_User :: "(string \<times> string option) option"
  u_Host :: string
  u_Path :: string
  u_RawQuery :: string
  u_Fragment :: string

definition empty_url :: url where
  "empty_url = \<lparr>u_Scheme = '''', u_Opaque = '''', u_User = None, u_Host = '''', u_Path = '''',
     u_RawQuery = '''', u_Fragment = ''''\<rparr>"

text \<open>The scheme and the rest: \<open>None\<close> when the string starts with a colon.\<close>
fun getscheme_from :: "string \<Rightarrow> string \<Rightarrow> string \<Rightarrow> (string \<times> string) option" where
  "getscheme_from raw acc [] = Some ([], raw)"
| "getscheme_from raw acc (c # s) =
     (if is_upper c \<or> is_lower c then getscheme_from raw (acc @ [c]) s
      else if is_digit c \<or> c \<in> set ''+-.''
      then (if acc = [] then Some ([], raw) else getscheme_from raw (acc @ [c]) s)
      else if c = CHR '':'' then (if acc = [] then None else Some (acc, s))
      else Some ([], raw))"

definition getscheme :: "string \<Rightarrow> (string \<times> string) option" where
  "getscheme raw = getscheme_from raw [] raw"

fun validOptionalPort :: "string \<Rightarrow> bool" where
  "validOptionalPort [] = True"
| "validOptionalPort (c # ds) = (c = CHR '':'' \<and> list_all is_digit ds)"

definition url_error :: "string \<Rightarrow> go_error" where
  "url_error msg = ErrNew (''parse: '' @ msg)"

text \<open>The host part. The zone of an IPv6 literal is decoded with the rest.\<close>
definition parseHost :: "string \<Rightarrow> string result" where
  "parseHost host =
     (let portOK =
        (if HasPrefix host ''['' then
           (case cut_last (CHR '']'') host of None \<Rightarrow> False | Some (_, after) \<Rightarrow> validOptionalPort after)
         else
           (case cut_last (CHR '':'') host of None \<Rightarrow> True | Some (_, after) \<Rightarrow> validOptionalPort (CHR '':'' # after)))
      in if \<not> portOK then Inl (url_error ''invalid port or missing ] in host'')
         else (case url_unescape EncodeHost host of
                 None \<Rightarrow> Inl (url_error ''invalid URL escape or host'')
               | Some h \<Rightarrow> Inr h))"

definition validUserinfo :: "string \<Rightarrow> bool" where
  "validUserinfo s \<longleftrightarrow>
     list_all (\<lambda>c. is_alnum c \<or> c \<in> set ''-._:~!$&()*+,;=%@'' \<or> c = char_of (39::nat)) s"

definition parseUserinfo :: "string \<Rightarrow> (string \<times> string option) result" where
  "parseUserinfo userinfo =
     (if \<not> validUserinfo userinfo then Inl (url_error ''net/url: invalid userinfo'')
      else if CHR '':'' \<notin> set userinfo then
        (case url_unescape EncodeUserPassword userinfo of
           None \<Rightarrow> Inl (url_error ''invalid URL escape'')
         | Some u \<Rightarrow> Inr (u, None))
      else
        (let (u, p) = cut_first (CHR '':'') userinfo
         in case (url_unescape EncodeUserPassword u, url_unescape EncodeUserPassword p) of
              (Some u', Some p') \<Rightarrow> Inr (u', Some p')
            | _ \<Rightarrow> Inl (url_error ''invalid URL escape'')))"

definition parseAuthority :: "string \<Rightarrow> ((string \<times> string option) option \<times> string) result" where
  "parseAuthority authority =
     (case cut_last (CHR ''@'') authority of
        None \<Rightarrow> (case parseHost authority of Inl e \<Rightarrow> Inl e | Inr h \<Rightarrow> Inr (None, h))
      | Some (userinfo, rawhost) \<Rightarrow>
          (case parseHost rawhost of
             Inl e \<Rightarrow> Inl e
           | Inr h \<Rightarrow> (case parseUserinfo userinfo of Inl e \<Rightarrow> Inl e | Inr ui \<Rightarrow> Inr (Some ui, h))))"

definition is_ctl :: "char \<Rightarrow> bool" where
  "is_ctl c \<longleftrightarrow> code c < 32 \<or> code c = 127"

definition url_setPath :: "string \<Rightarrow> url \<Rightarrow> url result" where
  "url_setPath path u =
     (case url_unescape EncodePath path of
        None \<Rightarrow> Inl (url_error ''invalid URL escape'')
      | Some p \<Rightarrow> Inr (u\<lparr>u_Path := p\<rparr>))"

definition url_parse_hier :: "string \<Rightarrow> string \<Rightarrow> url \<Rightarrow> url result" where
  "url_parse_hier scheme rest u =
     (if HasPrefix rest ''//'' \<and> (scheme \<noteq> '''' \<or> \<not> HasPrefix rest ''///'') then
        (let authority = takeWhile (\<lambda>c. c \<noteq> CHR ''/'') (drop 2 rest);
             path = dropWhile (\<lambda>c. c \<noteq> CHR ''/'') (drop 2 rest)
         in case parseAuthority authority of
              Inl e \<Rightarrow> Inl e
            | Inr (user, host) \<Rightarrow> url_setPath path (u\<lparr>u_User := user, u_Host := host\<rparr>))
      else url_setPath rest u)"

definition url_parse_nofrag :: "string \<Rightarrow> url result" where
  "url_parse_nofrag raw =
     (if list_ex is_ctl raw then Inl (url_error ''net/url: invalid control character in URL'')
      else if raw = ''*'' then Inr (empty_url\<lparr>u_Path := ''*''\<rparr>)
      else case getscheme raw of
             None \<Rightarrow> Inl (url_error ''missing protocol scheme'')
           | Some (scheme0, rest0) \<Rightarrow>
               (let scheme = ToLower scheme0;
                    (rest, query) = cut_first (CHR ''?'') rest0;
                    u = empty_url\<lparr>u_Scheme := scheme, u_RawQuery := query\<rparr>
                in if \<not> HasPrefix rest ''/'' \<and> scheme \<noteq> '''' then Inr (u\<lparr>u_Opaque := rest\<rparr>)
                   else if \<not> HasPrefix rest ''/'' \<and> CHR '':'' \<in> set (takeWhile (\<lambda>c. c \<noteq> CHR ''/'') rest)
                   then Inl (url_error ''first path segment in URL cannot contain colon'')
                   else url_parse_hier scheme rest u))"

definition url_Parse :: "string \<Rightarrow> url result" where
  "url_Parse raw =
     (let (u, frag) = cut_first (CHR ''#'') raw
      in case url_parse_nofrag u of
           Inl e \<Rightarrow> Inl e
         | Inr v \<Rightarrow>
             (if frag = [] then Inr v
              else case url_unescape EncodeFragment frag of
                     None \<Rightarrow> Inl (url_error ''invalid URL escape'')
                   | Some f \<Rightarrow> Inr (v\<lparr>u_Fragment := f\<rparr>)))"

definition strip_brackets :: "string \<Rightarrow> string" where
  "strip_brackets h =
     (if HasPrefix h ''['' \<and> HasSuffix h '']'' \<and> 2 \<le> length h then butlast (tl h) else h)"

definition splitHostPort :: "string \<Rightarrow> string \<times> string" where
  "splitHostPort hostport =
     (case cut_last (CHR '':'') hostport of
        Some (h, p) \<Rightarrow>
          (if validOptionalPort (CHR '':'' # p) then (strip_brackets h, p) else (strip_brackets hostport, ''''))
      | None \<Rightarrow> (strip_brackets hostport, ''''))"

definition url_Hostname :: "url \<Rightarrow> string" where
  "url_Hostname u = fst (splitHostPort (u_Host u))"

definition url_Port :: "url \<Rightarrow> string" where
  "url_Port u = snd (splitHostPort (u_Host u))"

text \<open>\<^verbatim>\<open>u.User.Username()\<close>: the empty string for a nil \<^verbatim>\<open>*Userinfo\<close>.\<close>
definition url_Username :: "url \<Rightarrow> string" where
  "url_Username u = (case u_User u of None \<Rightarrow> '''' | Some (name, _) \<Rightarrow> name)"

text \<open>\<^verbatim>\<open>URL.String\<close> of a URL made of a scheme, a user without password and a host.\<close>
definition url_String :: "string \<Rightarrow> string \<Rightarrow> string \<Rightarrow> string" where
  "url_String scheme user host =
     scheme @ ''://'' @ url_escape EncodeUserPassword user @ ''@'' @ url_escape EncodeHost host"

section \<open>Round trip of plain URLs\<close>

text \<open>Letters and digits; letters, digits, dots and dashes, as in host names and IPv4 addresses.\<close>
definition plain_id :: "string \<Rightarrow> bool" where
  "plain_id s \<longleftrightarrow> list_all is_alnum s"

definition plain_host :: "string \<Rightarrow> bool" where
  "plain_host s \<longleftrightarrow> list_all (\<lambda>c. is_alnum c \<or> c = CHR ''.'' \<or> c = CHR ''-'') s"

definition plain_port :: "string \<Rightarrow> bool" where
  "plain_port s \<longleftrightarrow> list_all is_digit s"

lemma code_of_CHR [simp]:
  "code (CHR ''#'') = 35" "code (CHR ''%'') = 37" "code (CHR ''-'') = 45" "code (CHR ''.'') = 46"
  "code (CHR ''/'') = 47" "code (CHR '':'') = 58" "code (CHR ''?'') = 63" "code (CHR ''@'') = 64"
  "code (CHR ''['') = 91" "code (CHR '']'') = 93"
  "code (CHR ''d'') = 100" "code (CHR ''e'') = 101" "code (CHR ''n'') = 110" "code (CHR ''o'') = 111"
  by (simp_all add: code_def)

lemma alnum_code: "is_alnum c \<Longrightarrow> 48 \<le> code c \<and> code c \<le> 122 \<and> code c \<notin> {58, 63, 64, 91, 93}"
  by (auto simp: is_alnum_def is_upper_def is_lower_def is_digit_def)

lemma digit_alnum: "is_digit c \<Longrightarrow> is_alnum c"
  by (simp add: is_alnum_def)

text \<open>The bytes of the printed authority avoid every separator but the intended ones.\<close>
definition auth_char :: "char \<Rightarrow> bool" where
  "auth_char c \<longleftrightarrow> is_alnum c \<or> c = CHR ''.'' \<or> c = CHR ''-'' \<or> c = CHR '':'' \<or> c = CHR ''@''"

lemma auth_char_not:
  assumes "auth_char c"
  shows "c \<noteq> CHR ''#''" "c \<noteq> CHR ''?''" "c \<noteq> CHR ''/''" "c \<noteq> CHR ''%''" "c \<noteq> CHR ''['' " "\<not> is_ctl c"
  using assms alnum_code [of c] by (auto simp: auth_char_def is_ctl_def)

lemma plain_chars:
  "plain_id s \<Longrightarrow> c \<in> set s \<Longrightarrow> is_alnum c"
  "plain_host s \<Longrightarrow> c \<in> set s \<Longrightarrow> is_alnum c \<or> c = CHR ''.'' \<or> c = CHR ''-''"
  "plain_port s \<Longrightarrow> c \<in> set s \<Longrightarrow> is_digit c"
  by (auto simp: plain_id_def plain_host_def plain_port_def list_all_iff)

lemma url_escape_id: "(\<And>c. c \<in> set s \<Longrightarrow> \<not> shouldEscape c m) \<Longrightarrow> url_escape m s = s"
  by (induction s) auto

lemma url_unescape_id:
  "(\<And>c. c \<in> set s \<Longrightarrow> c \<noteq> CHR ''%'' \<and> \<not> shouldEscape c m) \<Longrightarrow> url_unescape m s = Some s"
proof (induction s)
  case (Cons c s)
  have c: "c \<noteq> CHR ''%''" "\<not> shouldEscape c m" using Cons.prems [of c] by simp_all
  have "url_unescape m s = Some s" using Cons by simp
  then show ?case using c by simp
qed simp

lemma cut_first_none: "c \<notin> set s \<Longrightarrow> cut_first c s = (s, [])"
  by (metis (mono_tags, lifting) cut_first_def dropWhile_eq_Nil_conv list.sel(2) takeWhile_eq_all_conv)

lemma cut_last_none: "c \<notin> set s \<Longrightarrow> cut_last c s = None"
  by (simp add: cut_last_def)

lemma cut_last_append:
  assumes "c \<notin> set t"
  shows "cut_last c (s @ c # t) = Some (s, t)"
proof -
  have "takeWhile (\<lambda>x. x \<noteq> c) (rev t @ c # rev s) = rev t"
    and "dropWhile (\<lambda>x. x \<noteq> c) (rev t @ c # rev s) = c # rev s"
    using assms by (auto simp: takeWhile_append dropWhile_append takeWhile_eq_all_conv)
  then show ?thesis by (simp add: cut_last_def)
qed

lemma shouldEscape_plain:
  "is_alnum c \<Longrightarrow> \<not> shouldEscape c m"
  "c = CHR ''.'' \<or> c = CHR ''-'' \<Longrightarrow> \<not> shouldEscape c m"
  "c = CHR '':'' \<Longrightarrow> \<not> shouldEscape c EncodeHost"
  by (auto simp: shouldEscape_def host_extra_def)

lemma host_unescape:
  assumes "plain_host h" and "plain_port p"
  shows "url_unescape EncodeHost (h @ CHR '':'' # p) = Some (h @ CHR '':'' # p)"
    and "url_escape EncodeHost (h @ CHR '':'' # p) = h @ CHR '':'' # p"
proof -
  have *: "c \<noteq> CHR ''%'' \<and> \<not> shouldEscape c EncodeHost" if "c \<in> set (h @ CHR '':'' # p)" for c
    using that plain_chars(2) [OF assms(1), of c] plain_chars(3) [OF assms(2), of c] digit_alnum [of c]
      shouldEscape_plain [of c] alnum_code [of c] by auto
  from * show "url_unescape EncodeHost (h @ CHR '':'' # p) = Some (h @ CHR '':'' # p)"
    by (rule url_unescape_id)
  from * show "url_escape EncodeHost (h @ CHR '':'' # p) = h @ CHR '':'' # p"
    by (intro url_escape_id) blast
qed

lemma colon_notin_port: "plain_port p \<Longrightarrow> CHR '':'' \<notin> set p"
  using plain_chars(3) [of p "CHR '':''"] by (auto simp: is_digit_def)

lemma parseHost_plain:
  assumes "plain_host h" and "plain_port p" and "h \<noteq> []"
  shows "parseHost (h @ CHR '':'' # p) = Inr (h @ CHR '':'' # p)"
proof -
  obtain c h' where h: "h = c # h'" using assms(3) by (cases h) auto
  have "c \<noteq> CHR ''[''" using plain_chars(2) [OF assms(1), of c] h alnum_code [of c] by auto
  then have "\<not> HasPrefix (h @ CHR '':'' # p) ''[''" by (simp add: HasPrefix_def h)
  moreover have "validOptionalPort (CHR '':'' # p)" using assms(2) by (simp add: plain_port_def)
  ultimately show ?thesis
    using host_unescape [OF assms(1,2)] cut_last_append [OF colon_notin_port [OF assms(2)], of h]
    by (simp add: parseHost_def)
qed

lemma parseUserinfo_plain:
  assumes "plain_id i"
  shows "parseUserinfo i = Inr (i, None)" and "url_escape EncodeUserPassword i = i"
proof -
  have *: "c \<noteq> CHR ''%'' \<and> \<not> shouldEscape c EncodeUserPassword" if "c \<in> set i" for c
    using plain_chars(1) [OF assms that] shouldEscape_plain(1) [of c] alnum_code [of c] by auto
  have "CHR '':'' \<notin> set i" using plain_chars(1) [OF assms, of "CHR '':''"] alnum_code by fastforce
  moreover have "validUserinfo i" using assms by (auto simp: plain_id_def validUserinfo_def list_all_iff)
  ultimately show "parseUserinfo i = Inr (i, None)"
    using url_unescape_id [of i EncodeUserPassword] * by (simp add: parseUserinfo_def)
  show "url_escape EncodeUserPassword i = i" using * by (intro url_escape_id) blast
qed

lemma splitHostPort_plain:
  assumes "plain_host h" and "plain_port p" and "h \<noteq> []"
  shows "splitHostPort (h @ CHR '':'' # p) = (h, p)"
proof -
  obtain c h' where h: "h = c # h'" using assms(3) by (cases h) auto
  have "c \<noteq> CHR ''[''" using plain_chars(2) [OF assms(1), of c] h alnum_code [of c] by auto
  then have "strip_brackets h = h" by (simp add: strip_brackets_def HasPrefix_def h)
  then show ?thesis
    using cut_last_append [OF colon_notin_port [OF assms(2)], of h] assms(2)
    by (simp add: splitHostPort_def plain_port_def)
qed

lemma parseAuthority_plain:
  assumes "plain_id i" and "plain_host h" and "plain_port p" and "h \<noteq> []"
  shows "parseAuthority (i @ CHR ''@'' # h @ CHR '':'' # p) = Inr (Some (i, None), h @ CHR '':'' # p)"
proof -
  have "CHR ''@'' \<notin> set (h @ CHR '':'' # p)"
    using plain_chars(2) [OF assms(2), of "CHR ''@''"] plain_chars(3) [OF assms(3), of "CHR ''@''"]
      alnum_code [of "CHR ''@''"] by (auto simp: is_digit_def)
  from cut_last_append [OF this, of i] show ?thesis
    using parseHost_plain [OF assms(2-4)] parseUserinfo_plain(1) [OF assms(1)]
    by (simp add: parseAuthority_def)
qed

lemma getscheme_enode: "getscheme (''enode:'' @ s) = Some (''enode'', s)"
  by (simp add: getscheme_def is_lower_def is_digit_def is_upper_def)

lemma ToLower_enode: "ToLower ''enode'' = ''enode''"
  by (simp add: ToLower_def is_upper_def)

lemma takeWhile_notin: "c \<notin> set s \<Longrightarrow> takeWhile (\<lambda>x. x \<noteq> c) s = s"
  by (metis (mono_tags, lifting) takeWhile_eq_all_conv)

lemma dropWhile_notin: "c \<notin> set s \<Longrightarrow> dropWhile (\<lambda>x. x \<noteq> c) s = []"
  by (metis (mono_tags, lifting) dropWhile_eq_Nil_conv)

lemma url_parse_hier_authority:
  assumes "CHR ''/'' \<notin> set a" and "parseAuthority a = Inr (user, host)"
  shows "url_parse_hier ''enode'' (''//'' @ a) u = Inr (u\<lparr>u_User := user, u_Host := host, u_Path := ''''\<rparr>)"
proof -
  have "HasPrefix (''//'' @ a) ''//''" "drop 2 (''//'' @ a) = a" by (simp_all add: HasPrefix_def)
  then show ?thesis
    unfolding url_parse_hier_def Let_def
    by (simp only: assms(2) takeWhile_notin [OF assms(1)] dropWhile_notin [OF assms(1)] sum.case prod.case
        url_setPath_def url_unescape.simps option.case if_True list.distinct(2) not_False_eq_True simp_thms)
qed

lemma url_parse_nofrag_enode:
  assumes "\<not> list_ex is_ctl (''enode:'' @ ''//'' @ a)" and "CHR ''?'' \<notin> set a"
  shows "url_parse_nofrag (''enode:'' @ ''//'' @ a) =
    url_parse_hier ''enode'' (''//'' @ a) (empty_url\<lparr>u_Scheme := ''enode''\<rparr>)"
proof -
  have query: "cut_first (CHR ''?'') (''//'' @ a) = (''//'' @ a, [])"
    using assms(2) by (intro cut_first_none) simp
  have slash: "HasPrefix (''//'' @ a) ''/''" by (simp add: HasPrefix_def)
  have q: "empty_url\<lparr>u_Scheme := ''enode'', u_RawQuery := []\<rparr> = empty_url\<lparr>u_Scheme := ''enode''\<rparr>"
    by (simp add: empty_url_def)
  have star: "''enode:'' @ ''//'' @ a \<noteq> ''*''" by simp
  show ?thesis
    unfolding url_parse_nofrag_def
    by (simp only: assms(1) star if_False getscheme_enode option.case prod.case Let_def ToLower_enode query
        slash simp_thms q)
qed

lemma url_Parse_authority:
  assumes auth: "\<forall>c\<in>set a. auth_char c" and pa: "parseAuthority a = Inr (user, host)"
  shows "url_Parse (''enode:'' @ ''//'' @ a) =
    Inr (empty_url\<lparr>u_Scheme := ''enode'', u_User := user, u_Host := host\<rparr>)"
proof -
  have no: "CHR ''#'' \<notin> set a" "CHR ''?'' \<notin> set a" "CHR ''/'' \<notin> set a"
    using auth auth_char_not(1) [of "CHR ''#''"] auth_char_not(2) [of "CHR ''?''"]
      auth_char_not(3) [of "CHR ''/''"] by (metis, metis, metis)
  have "\<not> list_ex is_ctl a" unfolding list_ex_iff using auth auth_char_not(6) by metis
  then have ctl: "\<not> list_ex is_ctl (''enode:'' @ ''//'' @ a)" by (simp add: is_ctl_def)
  have frag: "cut_first (CHR ''#'') (''enode:'' @ ''//'' @ a) = (''enode:'' @ ''//'' @ a, [])"
    using no(1) by (intro cut_first_none) simp
  have r: "empty_url\<lparr>u_Scheme := ''enode'', u_User := user, u_Host := host, u_Path := ''''\<rparr> =
      empty_url\<lparr>u_Scheme := ''enode'', u_User := user, u_Host := host\<rparr>" by (simp add: empty_url_def)
  show ?thesis
    unfolding url_Parse_def frag
    by (simp only: Let_def prod.case url_parse_nofrag_enode [OF ctl no(2)] url_parse_hier_authority [OF no(3) pa]
        sum.case if_True simp_thms r)
qed

lemma url_Parse_plain:
  assumes "plain_id i" and "plain_host h" and "plain_port p" and "h \<noteq> []"
  shows "url_Parse (url_String ''enode'' i (h @ '':'' @ p)) =
    Inr (empty_url\<lparr>u_Scheme := ''enode'', u_User := Some (i, None), u_Host := h @ '':'' @ p\<rparr>)"
proof -
  have "\<forall>c\<in>set (i @ CHR ''@'' # h @ CHR '':'' # p). auth_char c"
    using plain_chars(1) [OF assms(1)] plain_chars(2) [OF assms(2)] plain_chars(3) [OF assms(3)] digit_alnum
    by (auto simp: auth_char_def)
  then show ?thesis
    using url_Parse_authority [OF _ parseAuthority_plain [OF assms]]
      parseUserinfo_plain(2) [OF assms(1)] host_unescape(2) [OF assms(2,3)]
    by (simp add: url_String_def)
qed

end
