(* ===== verification/Go_Encoding.thy ===== *)
theory Go_Encoding
  imports Go_URL
begin

text \<open>
  The encodings of the Go library that signed requests go through: \<^verbatim>\<open>encoding/json\<close>
  (\<^verbatim>\<open>Marshal\<close> of the values that occur in requests), \<^verbatim>\<open>encoding/hex\<close> and
  \<^verbatim>\<open>encoding/base64\<close>. The lemmas show that the JSON encoding is unambiguous, and
  that decoding undoes encoding for the other two.
\<close>

section \<open>JSON\<close>

text \<open>
  JSON values, with the members of an object in the order they are printed. Numbers are
  the integers the requests carry.
\<close>
datatype json =
    JNull
  | JBool bool
  | JNum int
  | JStr string
  | JArr "json list"
  | JObj "(string \<times> json) list"

abbreviation quote_char :: char where "quote_char \<equiv> CHR 0x22"
abbreviation backslash :: char where "backslash \<equiv> CHR 0x5C"

definition hex_lower :: "nat \<Rightarrow> char" where
  "hex_lower n = (if n < 10 then char_of (48 + n) else char_of (87 + n))"

text \<open>
  One byte of a string. \<^verbatim>\<open>Marshal\<close> also escapes the three HTML characters; bytes of
  multi-byte runes are copied (strings are taken to be valid UTF-8 without the two line
  separators U+2028 and U+2029).
\<close>
definition json_escape :: "char \<Rightarrow> string" where
  "json_escape c =
     (if c = quote_char \<or> c = backslash then [backslash, c]
      else if c = CHR 0x0A then [backslash, CHR ''n'']
      else if c = CHR 0x0D then [backslash, CHR ''r'']
      else if c = CHR 0x09 then [backslash, CHR ''t'']
      else if code c < 32 \<or> c = CHR ''<'' \<or> c = CHR ''>'' \<or> c = CHR ''&''
      then [backslash, CHR ''u'', CHR ''0'', CHR ''0'', hex_lower (code c div 16), hex_lower (code c mod 16)]
      else [c])"

definition json_string :: "string \<Rightarrow> string" where
  "json_string s = quote_char # concat (map json_escape s) @ [quote_char]"

function json_Marshal :: "json \<Rightarrow> string"
  and json_elems :: "json list \<Rightarrow> string"
  and json_members :: "(string \<times> json) list \<Rightarrow> string" where
  "json_Marshal JNull = ''null''"
| "json_Marshal (JBool b) = (if b then ''true'' else ''false'')"
| "json_Marshal (JNum i) = int_digits i"
| "json_Marshal (JStr s) = json_string s"
| "json_Marshal (JArr xs) = CHR ''['' # json_elems xs"
| "json_Marshal (JObj ms) = CHR ''{'' # json_members ms"
| "json_elems [] = '']''"
| "json_elems (x # xs) = json_Marshal x @ (if xs = [] then '']'' else CHR '','' # json_elems xs)"
| "json_members [] = ''}''"
| "json_members ((k, x) # ms) =
     json_string k @ CHR '':'' # json_Marshal x @ (if ms = [] then ''}'' else CHR '','' # json_members ms)"
  by pat_completeness auto
termination
  by (relation "measure (\<lambda>v. case v of Inl j \<Rightarrow> size j | Inr (Inl xs) \<Rightarrow> size_list size xs
      | Inr (Inr ms) \<Rightarrow> size_list (size_prod (\<lambda>_. 0) size) ms)") auto

subsection \<open>The encoding is unambiguous\<close>

lemma code_less: "code c < 256"
  by (simp add: code_def)

lemma char_of_code [simp]: "char_of (code c) = c"
  by (simp add: code_def)

lemma code_char_of: "n < 256 \<Longrightarrow> code (char_of n) = n"
  by (simp add: code_def)

lemma unhex_lower: "n < 16 \<Longrightarrow> unhex (hex_lower n) = Some n"
  by (auto simp: unhex_def hex_lower_def is_digit_def code_char_of)

text \<open>Reading back one escaped byte.\<close>
definition json_unescape :: "string \<Rightarrow> char \<times> string" where
  "json_unescape s =
     (if hd s \<noteq> backslash then (hd s, tl s)
      else if s ! 1 = CHR ''n'' then (CHR 0x0A, drop 2 s)
      else if s ! 1 = CHR ''r'' then (CHR 0x0D, drop 2 s)
      else if s ! 1 = CHR ''t'' then (CHR 0x09, drop 2 s)
      else if s ! 1 = CHR ''u''
      then (char_of (16 * the (unhex (s ! 4)) + the (unhex (s ! 5))), drop 6 s)
      else (s ! 1, drop 2 s))"

lemma json_unescape_escape: "json_unescape (json_escape c @ s) = (c, s)"
proof (cases "c = quote_char \<or> c = backslash \<or> c = CHR 0x0A \<or> c = CHR 0x0D \<or> c = CHR 0x09")
  case True
  then show ?thesis by (elim disjE) (simp_all add: json_escape_def json_unescape_def)
next
  case False
  have "code c div 16 < 16" using code_less [of c] by simp
  then have hex: "unhex (hex_lower (code c div 16)) = Some (code c div 16)"
    "unhex (hex_lower (code c mod 16)) = Some (code c mod 16)" by (simp_all add: unhex_lower)
  show ?thesis
  proof (cases "code c < 32 \<or> c = CHR ''<'' \<or> c = CHR ''>'' \<or> c = CHR ''&''")
    case True
    then have "json_escape c = [backslash, CHR ''u'', CHR ''0'', CHR ''0'', hex_lower (code c div 16),
        hex_lower (code c mod 16)]" using False unfolding json_escape_def by simp
    then show ?thesis by (simp add: json_unescape_def hex)
  next
    case no: False
    then have "json_escape c = [c]" using False unfolding json_escape_def by simp
    then show ?thesis using False by (simp add: json_unescape_def)
  qed
qed

lemma json_escape_inj: "json_escape c @ s = json_escape d @ t \<Longrightarrow> c = d \<and> s = t"
  by (metis json_unescape_escape prod.inject)

lemma json_escape_hd: "json_escape c \<noteq> [] \<and> hd (json_escape c) \<noteq> quote_char"
  unfolding json_escape_def by simp

lemma json_escape_not_quote: "json_escape c @ s \<noteq> quote_char # t"
  by (metis json_escape_hd hd_append2 list.sel(1))

lemma json_chars_inj:
  "concat (map json_escape a) @ quote_char # s = concat (map json_escape b) @ quote_char # t \<Longrightarrow> a = b \<and> s = t"
proof (induction a arbitrary: b)
  case Nil
  show ?case
  proof (cases b)
    case Nil
    with Nil.prems show ?thesis by simp
  next
    case (Cons d b')
    have "quote_char # s = json_escape d @ (concat (map json_escape b') @ quote_char # t)"
      using Nil.prems unfolding Cons by simp
    then show ?thesis using json_escape_not_quote by metis
  qed
next
  case (Cons c a)
  have eq: "json_escape c @ (concat (map json_escape a) @ quote_char # s) = concat (map json_escape b) @ quote_char # t"
    using Cons.prems by (simp only: list.map concat.simps append_assoc)
  show ?case
  proof (cases b)
    case Nil
    then have "json_escape c @ (concat (map json_escape a) @ quote_char # s) = quote_char # t"
      using eq by (simp only: list.map concat.simps append_Nil)
    then show ?thesis using json_escape_not_quote by metis
  next
    case (Cons d b')
    then have "json_escape c @ (concat (map json_escape a) @ quote_char # s) =
        json_escape d @ (concat (map json_escape b') @ quote_char # t)"
      using eq by (simp only: list.map concat.simps append_assoc)
    from json_escape_inj [OF this] show ?thesis using Cons Cons.IH [of b'] by simp
  qed
qed

lemma json_string_inj: "json_string a @ s = json_string b @ t \<Longrightarrow> a = b \<and> s = t"
  unfolding json_string_def append_Cons append_assoc list.inject append_Nil
  by (elim conjE) (rule json_chars_inj)

text \<open>The value of a string of decimal digits.\<close>
definition decimal :: "string \<Rightarrow> nat" where
  "decimal s = foldl (\<lambda>n c. 10 * n + (code c - 48)) 0 s"

lemma digit_char_code: "d < 10 \<Longrightarrow> code (digit_char d) = 48 + d"
  by (simp add: digit_char_def code_char_of)

lemma decimal_nat_digits: "decimal (nat_digits n) = n"
proof (induction n rule: nat_digits.induct)
  case (1 n)
  then show ?case
    by (subst nat_digits.simps) (auto simp: decimal_def digit_char_code)
qed

lemma nat_digits_digits: "c \<in> set (nat_digits n) \<Longrightarrow> is_digit c"
proof (induction n rule: nat_digits.induct)
  case (1 n)
  have "is_digit (digit_char (n mod 10))" and "n < 10 \<Longrightarrow> is_digit (digit_char n)"
    by (simp_all add: is_digit_def digit_char_code)
  then show ?case
    using 1 nat_digits.simps [of n] by (auto split: if_splits)
qed

definition num_char :: "char \<Rightarrow> bool" where
  "num_char c \<longleftrightarrow> is_digit c \<or> c = CHR ''-''"

text \<open>A number is followed by a separator or by nothing.\<close>
definition json_delim :: "string \<Rightarrow> bool" where
  "json_delim s \<longleftrightarrow> s = [] \<or> \<not> num_char (hd s)"

lemma int_digits_chars: "c \<in> set (int_digits i) \<Longrightarrow> num_char c"
  using nat_digits_digits by (auto simp: int_digits_def num_char_def split: if_splits)

lemma int_digits_nonempty: "int_digits i \<noteq> []"
  by (simp add: int_digits_def)

lemma int_digits_inj: "int_digits i = int_digits j \<Longrightarrow> i = j"
proof -
  have sign: "nat_digits n \<noteq> CHR ''-'' # s" for n s
    using nat_digits_digits [of "CHR ''-''" n] by (force simp: is_digit_def)
  have inj: "m = n" if "nat_digits m = nat_digits n" for m n
    using that decimal_nat_digits by metis
  assume eq: "int_digits i = int_digits j"
  show "i = j"
  proof (cases "i < 0 \<longleftrightarrow> j < 0")
    case True
    then show ?thesis using eq by (auto simp: int_digits_def split: if_splits dest!: inj)
  next
    case False
    then show ?thesis using eq sign sign [symmetric] by (auto simp: int_digits_def split: if_splits)
  qed
qed

lemma takeWhile_int_digits: "json_delim s \<Longrightarrow> takeWhile num_char (int_digits i @ s) = int_digits i"
proof -
  assume "json_delim s"
  then have "takeWhile num_char s = []" by (cases s) (simp_all add: json_delim_def)
  then show ?thesis by (simp add: takeWhile_append int_digits_chars)
qed

lemma int_digits_append_inj:
  assumes "json_delim s" and "json_delim t" and "int_digits i @ s = int_digits j @ t"
  shows "i = j \<and> s = t"
proof -
  have "int_digits i = int_digits j"
    using takeWhile_int_digits [OF assms(1), of i] takeWhile_int_digits [OF assms(2), of j] assms(3) by simp
  then show ?thesis using int_digits_inj assms(3) by auto
qed

text \<open>The first byte tells the kind of the value.\<close>
definition json_lead :: "char \<Rightarrow> nat" where
  "json_lead c =
     (if c = CHR ''n'' then 0 else if c = CHR ''t'' then 1 else if c = CHR ''f'' then 2
      else if c = quote_char then 3 else if c = CHR ''['' then 4 else if c = CHR ''{'' then 5
      else if num_char c then 6 else 7)"

fun json_kind :: "json \<Rightarrow> nat" where
  "json_kind JNull = 0"
| "json_kind (JBool b) = (if b then 1 else 2)"
| "json_kind (JStr _) = 3"
| "json_kind (JArr _) = 4"
| "json_kind (JObj _) = 5"
| "json_kind (JNum _) = 6"

lemma json_lead_num: "num_char c \<Longrightarrow> json_lead c = 6"
  by (auto simp: json_lead_def num_char_def is_digit_def code_def)

lemma json_Marshal_lead: "json_Marshal a \<noteq> [] \<and> json_lead (hd (json_Marshal a)) = json_kind a"
proof (cases a)
  case (JNum i)
  have "num_char (hd (int_digits i))" using int_digits_chars hd_in_set int_digits_nonempty by metis
  then show ?thesis by (simp add: JNum json_lead_num int_digits_nonempty)
qed (simp_all add: json_lead_def json_string_def)

lemma json_kind_eq: "json_Marshal a @ s = json_Marshal b @ t \<Longrightarrow> json_kind a = json_kind b"
  using json_Marshal_lead [of a] json_Marshal_lead [of b] by (metis hd_append2)

lemma json_Marshal_not:
  assumes "json_lead c = 7"
  shows "json_Marshal a @ s \<noteq> c # t"
proof
  assume "json_Marshal a @ s = c # t"
  then have "hd (json_Marshal a) = c" using json_Marshal_lead [of a] by (metis hd_append2 list.sel(1))
  then have "json_kind a = 7" using json_Marshal_lead [of a] assms by simp
  then show False by (cases a) (simp_all split: if_splits)
qed

lemma json_lead_close: "json_lead (CHR '']'') = 7" "json_lead (CHR '','') = 7" "json_lead (CHR ''}'') = 7"
  by (simp_all add: json_lead_def num_char_def is_digit_def code_def)

lemma json_delim_close:
  "json_delim (CHR '']'' # s)" "json_delim (CHR '','' # s)" "json_delim (CHR ''}'' # s)"
  by (simp_all add: json_delim_def num_char_def is_digit_def code_def)

lemma json_elems_inj_step:
  assumes one: "\<And>b s t. json_delim s \<Longrightarrow> json_delim t \<Longrightarrow> json_Marshal x @ s = json_Marshal b @ t \<Longrightarrow> x = b \<and> s = t"
    and rest: "\<And>ys s t. xs \<noteq> [] \<Longrightarrow> json_elems xs @ s = json_elems ys @ t \<Longrightarrow> xs = ys \<and> s = t"
    and eq: "json_elems (x # xs) @ s = json_elems ys @ t"
  shows "x # xs = ys \<and> s = t"
proof (cases ys)
  case Nil
  then have "json_Marshal x @ ((if xs = [] then '']'' else CHR '','' # json_elems xs) @ s) = CHR '']'' # t"
    using eq by simp
  then show ?thesis using json_Marshal_not [OF json_lead_close(1)] by blast
next
  case (Cons y ys')
  define s' where "s' = (if xs = [] then '']'' else CHR '','' # json_elems xs) @ s"
  define t' where "t' = (if ys' = [] then '']'' else CHR '','' # json_elems ys') @ t"
  have "json_Marshal x @ s' = json_Marshal y @ t'" using eq by (simp add: s'_def t'_def Cons)
  moreover have "json_delim s'" and "json_delim t'" by (simp_all add: s'_def t'_def json_delim_close)
  ultimately have "x = y" and st: "s' = t'" using one by blast+
  have "xs = ys' \<and> s = t"
  proof (cases "xs = []")
    case True
    then show ?thesis using st by (auto simp: s'_def t'_def split: if_splits)
  next
    case False
    then have "ys' \<noteq> []" and "json_elems xs @ s = json_elems ys' @ t"
      using st by (auto simp: s'_def t'_def split: if_splits)
    then show ?thesis using rest [OF False] by simp
  qed
  then show ?thesis using \<open>x = y\<close> Cons by simp
qed

lemma json_members_inj_step:
  assumes one: "\<And>b s t. json_delim s \<Longrightarrow> json_delim t \<Longrightarrow> json_Marshal x @ s = json_Marshal b @ t \<Longrightarrow> x = b \<and> s = t"
    and rest: "\<And>ys s t. ms \<noteq> [] \<Longrightarrow> json_members ms @ s = json_members ys @ t \<Longrightarrow> ms = ys \<and> s = t"
    and eq: "json_members ((k, x) # ms) @ s = json_members ys @ t"
  shows "(k, x) # ms = ys \<and> s = t"
proof (cases ys)
  case Nil
  then show ?thesis using eq by (simp add: json_string_def)
next
  case (Cons my ys')
  obtain l y where my: "my = (l, y)" by (cases my)
  define s' where "s' = (if ms = [] then ''}'' else CHR '','' # json_members ms) @ s"
  define t' where "t' = (if ys' = [] then ''}'' else CHR '','' # json_members ys') @ t"
  have "json_string k @ (CHR '':'' # json_Marshal x @ s') = json_string l @ (CHR '':'' # json_Marshal y @ t')"
    using eq by (simp add: s'_def t'_def Cons my)
  from json_string_inj [OF this] have "k = l" and "json_Marshal x @ s' = json_Marshal y @ t'" by simp_all
  moreover have "json_delim s'" and "json_delim t'" by (simp_all add: s'_def t'_def json_delim_close)
  ultimately have "x = y" and st: "s' = t'" using one by blast+
  have "ms = ys' \<and> s = t"
  proof (cases "ms = []")
    case True
    then show ?thesis using st by (auto simp: s'_def t'_def split: if_splits)
  next
    case False
    then have "ys' \<noteq> []" and "json_members ms @ s = json_members ys' @ t"
      using st by (auto simp: s'_def t'_def split: if_splits)
    then show ?thesis using rest [OF False] by simp
  qed
  then show ?thesis using \<open>x = y\<close> \<open>k = l\<close> Cons my by simp
qed

lemma json_atom_inj:
  "json_Marshal JNull @ s = json_Marshal b @ t \<Longrightarrow> JNull = b \<and> s = t"
  "json_Marshal (JBool v) @ s = json_Marshal b @ t \<Longrightarrow> JBool v = b \<and> s = t"
  "json_delim s \<Longrightarrow> json_delim t \<Longrightarrow> json_Marshal (JNum i) @ s = json_Marshal b @ t \<Longrightarrow> JNum i = b \<and> s = t"
  "json_Marshal (JStr r) @ s = json_Marshal b @ t \<Longrightarrow> JStr r = b \<and> s = t"
  using json_kind_eq [of JNull s b t] json_kind_eq [of "JBool v" s b t] json_kind_eq [of "JNum i" s b t]
    json_kind_eq [of "JStr r" s b t] int_digits_append_inj [of s t i] json_string_inj [of r s _ t]
  by (cases b; auto split: if_splits)+

text \<open>Two values with the same encoding are equal, even inside a longer text.\<close>
lemma json_Marshal_append_inj:
  "json_delim s \<Longrightarrow> json_delim t \<Longrightarrow> json_Marshal a @ s = json_Marshal b @ t \<Longrightarrow> a = b \<and> s = t"
  and json_elems_append_inj: "json_elems xs @ s = json_elems ys @ t \<Longrightarrow> xs = ys \<and> s = t"
  and json_members_append_inj: "json_members ms @ s = json_members ns @ t \<Longrightarrow> ms = ns \<and> s = t"
proof (induction a and xs and ms arbitrary: b s t and ys s t and ns s t
    rule: json_Marshal_json_elems_json_members.induct)
  case (5 xs)
  have "json_kind (JArr xs) = json_kind b" using json_kind_eq [OF 5(4)] .
  then obtain ys where "b = JArr ys" by (cases b) (auto split: if_splits)
  then show ?case using 5(1) [of s ys t] 5(4) by simp
next
  case (6 ms)
  have "json_kind (JObj ms) = json_kind b" using json_kind_eq [OF 6(4)] .
  then obtain ns where "b = JObj ns" by (cases b) (auto split: if_splits)
  then show ?case using 6(1) [of s ns t] 6(4) by simp
next
  case 7
  show ?case
  proof (cases ys)
    case Nil
    then show ?thesis using 7 by simp
  next
    case (Cons y ys')
    then have "json_Marshal y @ ((if ys' = [] then '']'' else CHR '','' # json_elems ys') @ t) = CHR '']'' # s"
      using 7 by simp
    then show ?thesis using json_Marshal_not [OF json_lead_close(1)] by blast
  qed
next
  case (8 x xs)
  show ?case by (rule json_elems_inj_step [OF 8(1) 8(2) 8(3)])
next
  case 9
  then show ?case by (cases ns) (auto simp: json_string_def)
next
  case (10 k x ms)
  show ?case by (rule json_members_inj_step [OF 10(1) 10(2) 10(3)])
qed (blast dest: json_atom_inj)+

lemma json_Marshal_inj: "json_Marshal a = json_Marshal b \<Longrightarrow> a = b"
  using json_Marshal_append_inj [of "[]" "[]" a b] by (simp add: json_delim_def)

section \<open>Hexadecimal\<close>

definition hex_EncodeToString :: "string \<Rightarrow> string" where
  "hex_EncodeToString s = concat (map (\<lambda>c. [hex_lower (code c div 16), hex_lower (code c mod 16)]) s)"

fun hex_DecodeString :: "string \<Rightarrow> string option" where
  "hex_DecodeString [] = Some []"
| "hex_DecodeString [c] = None"
| "hex_DecodeString (a # b # s) =
     (case (unhex a, unhex b) of
        (Some x, Some y) \<Rightarrow> map_option ((#) (char_of (16 * x + y))) (hex_DecodeString s)
      | _ \<Rightarrow> None)"

lemma hex_roundtrip: "hex_DecodeString (hex_EncodeToString s) = Some s"
proof (induction s)
  case (Cons c s)
  have "code c div 16 < 16" using code_less [of c] by simp
  then have "unhex (hex_lower (code c div 16)) = Some (code c div 16)"
    "unhex (hex_lower (code c mod 16)) = Some (code c mod 16)" by (simp_all add: unhex_lower)
  then show ?case using Cons by (simp add: hex_EncodeToString_def)
qed (simp add: hex_EncodeToString_def)

section \<open>Base 64\<close>

definition b64_char :: "nat \<Rightarrow> char" where
  "b64_char n =
     (if n < 26 then char_of (65 + n) else if n < 52 then char_of (71 + n)
      else if n < 62 then char_of (n - 4) else if n = 62 then CHR ''+'' else CHR ''/'')"

definition b64_val :: "char \<Rightarrow> nat option" where
  "b64_val c =
     (if is_upper c then Some (code c - 65) else if is_lower c then Some (code c - 71)
      else if is_digit c then Some (code c + 4) else if c = CHR ''+'' then Some 62
      else if c = CHR ''/'' then Some 63 else None)"

fun base64_EncodeToString :: "string \<Rightarrow> string" where
  "base64_EncodeToString [] = []"
| "base64_EncodeToString [a] = [b64_char (code a div 4), b64_char (code a mod 4 * 16), CHR ''='', CHR ''='']"
| "base64_EncodeToString [a, b] =
     [b64_char (code a div 4), b64_char (code a mod 4 * 16 + code b div 16), b64_char (code b mod 16 * 4), CHR ''='']"
| "base64_EncodeToString (a # b # c # s) =
     b64_char (code a div 4) # b64_char (code a mod 4 * 16 + code b div 16) #
     b64_char (code b mod 16 * 4 + code c div 64) # b64_char (code c mod 64) # base64_EncodeToString s"

text \<open>Decoding, after line breaks were removed: groups of four, with padding in the last only.\<close>
fun b64_decode :: "string \<Rightarrow> string option" where
  "b64_decode [] = Some []"
| "b64_decode (a # b # c # d # r) =
     (if c = CHR ''='' then
        (case (b64_val a, b64_val b) of
           (Some x, Some y) \<Rightarrow> if d = CHR ''='' \<and> r = [] then Some [char_of (x * 4 + y div 16)] else None
         | _ \<Rightarrow> None)
      else if d = CHR ''='' then
        (case (b64_val a, b64_val b, b64_val c) of
           (Some x, Some y, Some z) \<Rightarrow>
             if r = [] then Some [char_of (x * 4 + y div 16), char_of (y mod 16 * 16 + z div 4)] else None
         | _ \<Rightarrow> None)
      else
        (case (b64_val a, b64_val b, b64_val c, b64_val d) of
           (Some x, Some y, Some z, Some w) \<Rightarrow>
             map_option (\<lambda>s. char_of (x * 4 + y div 16) # char_of (y mod 16 * 16 + z div 4) #
                char_of (z mod 4 * 64 + w) # s) (b64_decode r)
         | _ \<Rightarrow> None))"
| "b64_decode _ = None"

definition base64_DecodeString :: "string \<Rightarrow> string option" where
  "base64_DecodeString s = b64_decode (filter (\<lambda>c. c \<noteq> CHR 0x0A \<and> c \<noteq> CHR 0x0D) s)"

lemma b64_val_char: "n < 64 \<Longrightarrow> b64_val (b64_char n) = Some n"
  by (auto simp: b64_val_def b64_char_def is_upper_def is_lower_def is_digit_def code_char_of code_def)

lemma b64_char_plain:
  assumes "n < 64"
  shows "b64_char n \<noteq> CHR ''=''" and "b64_char n \<noteq> CHR 0x0A" and "b64_char n \<noteq> CHR 0x0D"
proof -
  have "b64_val (CHR ''='') = None" "b64_val (CHR 0x0A) = None" "b64_val (CHR 0x0D) = None"
    by (simp_all add: b64_val_def is_upper_def is_lower_def is_digit_def code_def)
  then show "b64_char n \<noteq> CHR ''=''" and "b64_char n \<noteq> CHR 0x0A" and "b64_char n \<noteq> CHR 0x0D"
    using b64_val_char [OF assms] by (metis option.distinct(1))+
qed

lemma b64_indices:
  "code a div 4 < 64" "code a mod 4 * 16 < 64" "code a mod 4 * 16 + code b div 16 < 64"
  "code b mod 16 * 4 < 64" "code b mod 16 * 4 + code c div 64 < 64" "code c mod 64 < 64"
  using code_less [of a] code_less [of b] code_less [of c] by (auto; presburger)+

lemma b64_bytes [simp]:
  "code b div 16 div 16 = 0" "code b div 16 mod 16 * 16 + code b mod 16 = code b"
  "code c div 64 div 4 = 0" "code c div 64 mod 4 * 64 + code c mod 64 = code c"
proof -
  have "code b div 16 < 16" "code c div 64 < 4" using code_less [of b] code_less [of c] by auto
  then show "code b div 16 div 16 = 0" "code b div 16 mod 16 * 16 + code b mod 16 = code b"
    "code c div 64 div 4 = 0" "code c div 64 mod 4 * 64 + code c mod 64 = code c"
    using div_mult_mod_eq [of "code b" 16] div_mult_mod_eq [of "code c" 64] by simp_all
qed

lemma base64_no_breaks:
  "filter (\<lambda>c. c \<noteq> CHR 0x0A \<and> c \<noteq> CHR 0x0D) (base64_EncodeToString s) = base64_EncodeToString s"
  by (induction s rule: base64_EncodeToString.induct) (simp_all add: b64_char_plain b64_indices)

lemma b64_decode_encode: "b64_decode (base64_EncodeToString s) = Some s"
  by (induction s rule: base64_EncodeToString.induct)
    (simp_all add: b64_char_plain b64_indices b64_val_char)

lemma base64_roundtrip: "base64_DecodeString (base64_EncodeToString s) = Some s"
  by (simp add: base64_DecodeString_def base64_no_breaks b64_decode_encode)

end
