(* ===== verification/Ethnode.thy ===== *)
theory Ethnode
  imports Store_Types Go_Encoding
begin

text \<open>
  The data the pool and the agent exchange about Ethereum nodes (\<^verbatim>\<open>ethnode\<close>): node kinds,
  networks, user agents, peers, and enode URIs. Node kinds and networks are Go integers
  that come off the wire, so they are integers here and not enumerations. The IP address
  parser of the Go package \<^verbatim>\<open>net\<close> is modelled as far as \<^verbatim>\<open>hasRemote\<close> uses it.
\<close>

section \<open>Node kinds and networks\<close>

type_synonym NodeKind = int
type_synonym NetworkID = int

definition Unknown :: NodeKind where "Unknown = 0"
definition Geth :: NodeKind where "Geth = 1"
definition Parity :: NodeKind where "Parity = 2"
definition Pantheon :: NodeKind where "Pantheon = 3"

lemmas kind_defs = Unknown_def Geth_def Parity_def Pantheon_def

definition ParseNodeKind :: "string \<Rightarrow> NodeKind" where
  "ParseNodeKind s =
     (let l = ToLower s
      in if l = ''geth'' then Geth else if l = ''parity'' then Parity
         else if l = ''pantheon'' then Pantheon else Unknown)"

definition NodeKind_String :: "NodeKind \<Rightarrow> string" where
  "NodeKind_String n =
     (if n = Geth then ''geth'' else if n = Parity then ''parity''
      else if n = Pantheon then ''pantheon'' else ''unknown'')"

definition UnknownNetwork :: NetworkID where "UnknownNetwork = 0"
definition Mainnet :: NetworkID where "Mainnet = 1"
definition Morden :: NetworkID where "Morden = 2"
definition Ropsten :: NetworkID where "Ropsten = 3"
definition Rinkeby :: NetworkID where "Rinkeby = 4"
definition Goerli :: NetworkID where "Goerli = 5"
definition Kotti :: NetworkID where "Kotti = 6"
definition Kovan :: NetworkID where "Kovan = 42"

lemmas network_defs =
  UnknownNetwork_def Mainnet_def Morden_def Ropsten_def Rinkeby_def Goerli_def Kotti_def Kovan_def

definition NetworkID_String :: "NetworkID \<Rightarrow> string" where
  "NetworkID_String i =
     (if i = Mainnet then ''mainnet'' else if i = Morden then ''morden''
      else if i = Ropsten then ''ropsten'' else if i = Rinkeby then ''rinkeby''
      else if i = Kovan then ''kovan'' else if i = Goerli then ''goerli''
      else if i = Kotti then ''kotti'' else ''unknown'')"

definition NetworkID_Is :: "NetworkID \<Rightarrow> string \<Rightarrow> bool" where
  "NetworkID_Is i network \<longleftrightarrow> NetworkID_String i = ToLower network"

definition ParseNetwork :: "string \<Rightarrow> NetworkID" where
  "ParseNetwork network =
     (let l = ToLower network
      in if l = ''mainnet'' then Mainnet else if l = ''morden'' then Morden
         else if l = ''ropsten'' then Ropsten else if l = ''rinkeby'' then Rinkeby
         else if l = ''kovan'' then Kovan else if l = ''goerli'' then Goerli
         else if l = ''kotti'' then Kotti else UnknownNetwork)"

section \<open>User agents\<close>

record UserAgent =
  ua_Version :: string
  ua_EthProtocol :: string
  ua_Kind :: NodeKind
  ua_Network :: NetworkID
  ua_IsFullNode :: bool

definition KindType :: "UserAgent \<Rightarrow> string" where
  "KindType ua =
     (if ua_IsFullNode ua then NodeKind_String (ua_Kind ua) @ ''-full''
      else NodeKind_String (ua_Kind ua) @ ''-light'')"

text \<open>\<^verbatim>\<open>strconv.Atoi\<close>: an optional sign and decimal digits, in the range of \<^verbatim>\<open>int64\<close>.\<close>

definition in_bits :: "nat \<Rightarrow> int \<Rightarrow> int result" where
  "in_bits bits i =
     (if - (2 ^ (bits - 1)) \<le> i \<and> i < 2 ^ (bits - 1) then Inr i
      else Inl (ErrNew ''strconv: value out of range''))"

fun split_sign :: "string \<Rightarrow> bool \<times> string" where
  "split_sign (c # s) = (if c = CHR ''-'' then (True, s) else if c = CHR ''+'' then (False, s) else (False, c # s))"
| "split_sign [] = (False, [])"

definition Atoi :: "string \<Rightarrow> int result" where
  "Atoi s =
     (let (neg, ds) = split_sign s
      in if ds = [] \<or> \<not> list_all is_digit ds then Inl (ErrNew ''strconv.Atoi: invalid syntax'')
         else in_bits 64 (if neg then - int (decimal ds) else int (decimal ds)))"

text \<open>
  \<^verbatim>\<open>strconv.ParseInt(s, 0, bits)\<close>: the base is 16 after \<^verbatim>\<open>0x\<close>, 8 after a leading
  \<^verbatim>\<open>0\<close> and 10 otherwise (the binary prefix and the underscores of later releases of
  the library are left out).
\<close>

definition digits_in :: "nat \<Rightarrow> string \<Rightarrow> nat option" where
  "digits_in base ds =
     (if ds = [] then None
      else foldl (\<lambda>acc c. case (acc, unhex c) of
                    (Some n, Some d) \<Rightarrow> (if d < base then Some (base * n + d) else None)
                  | _ \<Rightarrow> None) (Some 0) ds)"

definition unsigned_base0 :: "string \<Rightarrow> nat option" where
  "unsigned_base0 ds =
     (if HasPrefix ds ''0x'' \<or> HasPrefix ds ''0X'' then digits_in 16 (drop 2 ds)
      else if HasPrefix ds ''0'' \<and> ds \<noteq> ''0'' then digits_in 8 (drop 1 ds)
      else digits_in 10 ds)"

definition ParseInt0 :: "nat \<Rightarrow> string \<Rightarrow> int result" where
  "ParseInt0 bits s =
     (let (neg, ds) = split_sign s
      in case unsigned_base0 ds of
           None \<Rightarrow> Inl (ErrNew ''strconv.ParseInt: invalid syntax'')
         | Some n \<Rightarrow> in_bits bits (if neg then - int n else int n))"

definition agent_kind :: "string \<Rightarrow> NodeKind" where
  "agent_kind version =
     (if HasPrefix version ''Geth/'' then Geth
      else if HasPrefix version ''pantheon/'' then Pantheon
      else if HasPrefix version ''Parity-Ethereum/'' \<or> HasPrefix version ''Parity/'' then Parity
      else Unknown)"

definition ParseUserAgent :: "string \<Rightarrow> string \<Rightarrow> string \<Rightarrow> UserAgent result" where
  "ParseUserAgent clientVersion protocolVersion netVersion =
     (case Atoi netVersion of
        Inl e \<Rightarrow> Inl e
      | Inr networkID \<Rightarrow>
          (let agent = \<lparr>ua_Version = clientVersion, ua_EthProtocol = protocolVersion,
                 ua_Kind = agent_kind clientVersion, ua_Network = networkID, ua_IsFullNode = True\<rparr>
           in case ParseInt0 32 protocolVersion of
                Inl e \<Rightarrow> Inl e
              | Inr protocol \<Rightarrow>
                  Inr (if ua_Kind agent = Parity \<and> protocol = 1 then agent\<lparr>ua_IsFullNode := False\<rparr>
                       else if ua_Kind agent = Geth \<and> protocol = 10002 then agent\<lparr>ua_IsFullNode := False\<rparr>
                       else agent)))"

section \<open>Peers\<close>

text \<open>
  \<open>pi_Protocols\<close> is the map of raw protocol data. \<open>None\<close> is the nil map or the nil
  slice, which JSON prints as \<^verbatim>\<open>null\<close>.
\<close>
record PeerInfo =
  pi_ID :: string
  pi_Name :: string
  pi_Caps :: "string list option"
  pi_Protocols :: "(string, json) fmap option"
  pi_Enode :: string
  pi_LocalAddress :: string
  pi_RemoteAddress :: string

definition EnodeID :: "PeerInfo \<Rightarrow> string" where
  "EnodeID p = (if length (pi_Enode p) \<le> 8 + 128 then pi_ID p else take 128 (drop 8 (pi_Enode p)))"

definition EnodeURI :: "PeerInfo \<Rightarrow> string" where
  "EnodeURI p = ''enode://'' @ EnodeID p @ ''@'' @ pi_RemoteAddress p"

definition PeerInfo_IsFullNode :: "PeerInfo \<Rightarrow> bool" where
  "PeerInfo_IsFullNode p =
     (case pi_Protocols p of None \<Rightarrow> False | Some m \<Rightarrow> fmlookup m ''eth'' \<noteq> None)"

definition Peers_IDs :: "PeerInfo list \<Rightarrow> string list" where
  "Peers_IDs peers = map EnodeID peers"

definition Peers_URIs :: "PeerInfo list \<Rightarrow> string list" where
  "Peers_URIs peers = map EnodeURI peers"

section \<open>Identifiers as each kind of node wants them\<close>

definition encodeNodeID :: "string \<Rightarrow> string" where
  "encodeNodeID nodeID = (if HasPrefix nodeID ''enode://'' then nodeID else ''enode://'' @ nodeID)"

definition parityNodeID :: "string \<Rightarrow> string" where
  "parityNodeID nodeID =
     (if HasPrefix nodeID ''enode://'' then nodeID else ''enode://'' @ nodeID @ ''@[::]:30303'')"

section \<open>IP addresses\<close>

text \<open>
  \<^verbatim>\<open>net.ParseIP\<close>: the sixteen bytes of the address, an IPv4 address in its mapped form,
  or \<open>None\<close>.
\<close>

definition take_number :: "nat \<Rightarrow> string \<Rightarrow> (nat \<times> string) option" where
  "take_number base s =
     (let ok = (\<lambda>c. case unhex c of None \<Rightarrow> False | Some d \<Rightarrow> d < base);
          ds = takeWhile ok s
      in case digits_in base ds of
           None \<Rightarrow> None
         | Some n \<Rightarrow> (if n < 16777215 then Some (n, dropWhile ok s) else None))"

fun parseIPv4_from :: "nat \<Rightarrow> string \<Rightarrow> nat list option" where
  "parseIPv4_from 0 s = (if s = [] then Some [] else None)"
| "parseIPv4_from (Suc k) s =
     (case take_number 10 s of
        None \<Rightarrow> None
      | Some (n, rest) \<Rightarrow>
          (if 255 < n then None
           else if k = 0 then map_option ((#) n) (parseIPv4_from 0 rest)
           else (case rest of
                   [] \<Rightarrow> None
                 | c # rest' \<Rightarrow>
                     (if c \<noteq> CHR ''.'' then None else map_option ((#) n) (parseIPv4_from k rest')))))"

definition parseIPv4 :: "string \<Rightarrow> nat list option" where
  "parseIPv4 s = map_option (\<lambda>ip. replicate 10 0 @ [255, 255] @ ip) (parseIPv4_from 4 s)"

text \<open>
  The groups of an IPv6 address. \<open>k\<close> two-byte groups are still free, \<open>acc\<close> holds the
  bytes so far and \<open>ell\<close> the number of bytes before the double colon, once seen. The
  result also has what is left of the string.
\<close>
fun ipv6_groups ::
  "nat \<Rightarrow> nat list \<Rightarrow> nat option \<Rightarrow> string \<Rightarrow> (nat list \<times> nat option \<times> string) option" where
  "ipv6_groups 0 acc ell s = Some (acc, ell, s)"
| "ipv6_groups (Suc k) acc ell s =
     (case take_number 16 s of
        None \<Rightarrow> None
      | Some (n, rest) \<Rightarrow>
          (if 65535 < n then None
           else case rest of
             [] \<Rightarrow> Some (acc @ [n div 256, n mod 256], ell, [])
           | c # rest' \<Rightarrow>
               (if c = CHR ''.'' then
                  (if (ell = None \<and> length acc \<noteq> 12) \<or> k = 0 then None
                   else map_option (\<lambda>ip. (acc @ ip, ell, [])) (parseIPv4_from 4 s))
                else if c \<noteq> CHR '':'' \<or> rest' = [] then None
                else
                  (let acc' = acc @ [n div 256, n mod 256]
                   in if hd rest' = CHR '':''
                      then (if ell \<noteq> None then None
                            else if tl rest' = [] then Some (acc', Some (length acc'), [])
                            else ipv6_groups k acc' (Some (length acc')) (tl rest'))
                      else ipv6_groups k acc' ell rest'))))"

definition parseIPv6 :: "string \<Rightarrow> nat list option" where
  "parseIPv6 s =
     (if s = ''::'' then Some (replicate 16 0)
      else
        (let (ell0, s0) = (if HasPrefix s ''::'' then (Some 0, drop 2 s) else (None, s))
         in case ipv6_groups 8 [] ell0 s0 of
              None \<Rightarrow> None
            | Some (bytes, ell, rest) \<Rightarrow>
                (if rest \<noteq> [] then None
                 else if length bytes < 16 then
                   (case ell of
                      None \<Rightarrow> None
                    | Some e \<Rightarrow> Some (take e bytes @ replicate (16 - length bytes) 0 @ drop e bytes))
                 else if ell \<noteq> None then None
                 else Some bytes)))"

definition ParseIP :: "string \<Rightarrow> nat list option" where
  "ParseIP s =
     (case List.find (\<lambda>c. c = CHR ''.'' \<or> c = CHR '':'') s of
        None \<Rightarrow> None
      | Some c \<Rightarrow> if c = CHR ''.'' then parseIPv4 s else parseIPv6 s)"

definition IP_IsUnspecified :: "nat list option \<Rightarrow> bool" where
  "IP_IsUnspecified ip \<longleftrightarrow> ip = Some (replicate 10 0 @ [255, 255, 0, 0, 0, 0]) \<or> ip = Some (replicate 16 0)"

definition IP_IsLoopback :: "nat list option \<Rightarrow> bool" where
  "IP_IsLoopback ip \<longleftrightarrow>
     (case ip of
        None \<Rightarrow> False
      | Some b \<Rightarrow> take 13 b = replicate 10 0 @ [255, 255, 127] \<or> b = replicate 15 0 @ [1])"

section \<open>Node URIs\<close>

definition ParseNodeURI :: "string \<Rightarrow> url result" where
  "ParseNodeURI enode =
     (let enode' = (if \<not> HasPrefix enode ''enode://'' \<and> \<not> Contains enode ''://''
                    then ''enode://'' @ enode else enode)
      in case url_Parse enode' of
           Inl e \<Rightarrow> Inl e
         | Inr u \<Rightarrow>
             (if u_Scheme u \<noteq> ''enode'' then Inl (ErrNew (''invalid enode scheme: '' @ u_Scheme u))
              else Inr u))"

definition NodeURI_ID :: "url \<Rightarrow> string" where
  "NodeURI_ID u =
     (if u_Scheme u = '''' then u_Path u
      else case u_User u of None \<Rightarrow> u_Host u | Some _ \<Rightarrow> url_Username u)"

definition hasRemote :: "url \<Rightarrow> bool" where
  "hasRemote u =
     (if u_User u = None then False
      else
        (let hostname = url_Hostname u
         in if hostname = ''localhost'' then False
            else
              (let ip = ParseIP hostname
               in if IP_IsUnspecified ip \<or> IP_IsLoopback ip then False else True)))"

definition RemoteAddress :: "url \<Rightarrow> string" where
  "RemoteAddress u = (if \<not> hasRemote u then '''' else u_Host u)"

definition RemoteHost :: "url \<Rightarrow> string" where
  "RemoteHost u = (if \<not> hasRemote u then '''' else url_Hostname u)"

section \<open>JSON forms\<close>

text \<open>Struct fields in their order, those marked \<^verbatim>\<open>omitempty\<close> only when not empty.\<close>

definition json_slice :: "('a \<Rightarrow> json) \<Rightarrow> 'a list option \<Rightarrow> json" where
  "json_slice f xs = (case xs of None \<Rightarrow> JNull | Some ys \<Rightarrow> JArr (map f ys))"

definition omitempty_str :: "string \<Rightarrow> string \<Rightarrow> (string \<times> json) list" where
  "omitempty_str k s = (if s = '''' then [] else [(k, JStr s)])"

definition json_map :: "('a \<Rightarrow> json) \<Rightarrow> (string, 'a) fmap option \<Rightarrow> json" where
  "json_map f m =
     (case m of None \<Rightarrow> JNull
      | Some t \<Rightarrow> JObj (map (\<lambda>k. (k, f (the (fmlookup t k)))) (sorted_list_of_fset (fmdom t))))"

definition UserAgent_json :: "UserAgent \<Rightarrow> json" where
  "UserAgent_json ua = JObj [(''version'', JStr (ua_Version ua)), (''eth_protocol'', JStr (ua_EthProtocol ua)),
     (''kind'', JNum (ua_Kind ua)), (''network'', JNum (ua_Network ua)), (''is_full_node'', JBool (ua_IsFullNode ua))]"

definition PeerInfo_json :: "PeerInfo \<Rightarrow> json" where
  "PeerInfo_json p = JObj ([(''id'', JStr (pi_ID p)), (''name'', JStr (pi_Name p)),
     (''caps'', json_slice JStr (pi_Caps p)), (''protocols'', json_map (\<lambda>j. j) (pi_Protocols p))] @
     omitempty_str ''enode'' (pi_Enode p) @
     [(''network'', JObj [(''localAddress'', JStr (pi_LocalAddress p)), (''remoteAddress'', JStr (pi_RemoteAddress p))])])"

end
