(* ===== verification/Request_Signing.thy ===== *)
theory Request_Signing
  imports Go_Encoding
begin

text \<open>
  Signed requests (\<^verbatim>\<open>request\<close>). A request is signed by a node key (\<^verbatim>\<open>NodeRequest\<close>, with the
  node ID as the public key) or by a wallet (\<^verbatim>\<open>AddressRequest\<close>, with the address of the key).
  The elliptic-curve and hash functions come from outside the repository: they are the
  fields of \<open>crypto\<close>, an argument of every definition that uses them, and \<open>node_key\<close>
  and \<open>wallet_key\<close> state what signing and verifying promise of one key pair.

  The arguments of a request are JSON values, as \<^verbatim>\<open>json.Marshal\<close> sees them.
\<close>

record crypto =
  Keccak256 :: "string \<Rightarrow> string"
  HexID :: "string \<Rightarrow> string result"
  Pubkey :: "string \<Rightarrow> string result"
  FromECDSAPub :: "string \<Rightarrow> string"
  VerifySignature :: "string \<Rightarrow> string \<Rightarrow> string \<Rightarrow> bool"
  SigToPub :: "string \<Rightarrow> string \<Rightarrow> string result"
  PubkeyToAddress :: "string \<Rightarrow> string"
  crypto_Sign :: "string \<Rightarrow> string \<Rightarrow> string result"

section \<open>The signed payload\<close>

definition assemble :: "string \<Rightarrow> string \<Rightarrow> int \<Rightarrow> json list \<Rightarrow> string result" where
  "assemble method pubkey nonce args =
     (let payload = [JStr pubkey, JNum nonce] @ args;
          out = json_Marshal (JArr payload)
      in Inr (method @ out))"

record rpc_request =
  rq_Method :: string
  rq_Key :: string
  rq_Nonce :: int
  rq_ExtraArgs :: "json list"

section \<open>Requests signed by a node\<close>

definition NodeRequest_hash :: "crypto \<Rightarrow> rpc_request \<Rightarrow> string result" where
  "NodeRequest_hash C r =
     (case assemble (rq_Method r) (rq_Key r) (rq_Nonce r) (rq_ExtraArgs r) of
        Inl e \<Rightarrow> Inl e
      | Inr req \<Rightarrow> Inr (Keccak256 C req))"

definition NodeRequest_Sign :: "crypto \<Rightarrow> string \<Rightarrow> rpc_request \<Rightarrow> string result" where
  "NodeRequest_Sign C privkey r =
     (case NodeRequest_hash C r of
        Inl e \<Rightarrow> Inl e
      | Inr hashed \<Rightarrow>
          (case crypto_Sign C hashed privkey of
             Inl e \<Rightarrow> Inl e
           | Inr sigbytes \<Rightarrow> Inr (base64_EncodeToString sigbytes)))"

definition NodeRequest_SignedArgs :: "crypto \<Rightarrow> string \<Rightarrow> rpc_request \<Rightarrow> json list result" where
  "NodeRequest_SignedArgs C privkey r =
     (case NodeRequest_Sign C privkey r of
        Inl e \<Rightarrow> Inl e
      | Inr sig \<Rightarrow> Inr ([JStr sig, JStr (rq_Key r), JNum (rq_Nonce r)] @ rq_ExtraArgs r))"

text \<open>
  \<^verbatim>\<open>sigbytes[:64]\<close> reslices the decode buffer: it panics when the capacity of the buffer,
  three bytes for every four of the input, is below 64, and otherwise extends a shorter
  signature with the zero bytes of the buffer.
\<close>
definition base64_cap :: "string \<Rightarrow> nat" where
  "base64_cap s = length s div 4 * 3"

definition first64 :: "string \<Rightarrow> string" where
  "first64 sigbytes = take 64 (sigbytes @ replicate 64 (CHR 0x00))"
definition NodeRequest_Verify :: "crypto \<Rightarrow> string \<Rightarrow> rpc_request \<Rightarrow> unit result" where
  "NodeRequest_Verify C sig r =
     (case HexID C (rq_Key r) of
        Inl e \<Rightarrow> Inl e
      | Inr node \<Rightarrow>
          (case Pubkey C node of
             Inl e \<Rightarrow> Inl e
           | Inr pubkey \<Rightarrow>
               (case base64_DecodeString sig of
                  None \<Rightarrow> Inl (ErrNew ''illegal base64 data'')
                | Some sigbytes \<Rightarrow>
                    (if base64_cap sig < 64 then Inl (GoPanic ''slice bounds out of range'')
                     else
                       (case NodeRequest_hash C r of
                          Inl e \<Rightarrow> Inl e
                        | Inr hashed \<Rightarrow>
                            (if VerifySignature C (FromECDSAPub C pubkey) hashed (first64 sigbytes)
                             then Inr () else Inl ErrBadSignature))))))"

section \<open>Requests signed by a wallet\<close>

definition AddressRequest_hash :: "crypto \<Rightarrow> rpc_request \<Rightarrow> string result" where
  "AddressRequest_hash C r =
     (case assemble (rq_Method r) (rq_Key r) (rq_Nonce r) (rq_ExtraArgs r) of
        Inl e \<Rightarrow> Inl e
      | Inr req \<Rightarrow>
          Inr (Keccak256 C ([CHR 0x19] @ ''Ethereum Signed Message:'' @ [CHR 0x0A] @
            int_digits (int (length req)) @ req)))"

definition AddressRequest_Sign :: "crypto \<Rightarrow> string \<Rightarrow> rpc_request \<Rightarrow> string result" where
  "AddressRequest_Sign C privkey r =
     (case AddressRequest_hash C r of
        Inl e \<Rightarrow> Inl e
      | Inr hashed \<Rightarrow>
          (case crypto_Sign C hashed privkey of
             Inl e \<Rightarrow> Inl e
           | Inr sigbytes \<Rightarrow> Inr (hex_EncodeToString sigbytes)))"

definition AddressRequest_SignedArgs :: "crypto \<Rightarrow> string \<Rightarrow> rpc_request \<Rightarrow> json list result" where
  "AddressRequest_SignedArgs C privkey r =
     (case AddressRequest_Sign C privkey r of
        Inl e \<Rightarrow> Inl e
      | Inr sig \<Rightarrow> Inr ([JStr sig, JStr (rq_Key r), JNum (rq_Nonce r)] @ rq_ExtraArgs r))"

text \<open>The recovery byte: 27 and 28 stand for 0 and 1.\<close>
definition legacy_v :: "string \<Rightarrow> string" where
  "legacy_v sigbytes =
     (if code (sigbytes ! 64) = 27 \<or> code (sigbytes ! 64) = 28
      then sigbytes[64 := char_of (code (sigbytes ! 64) - 27)] else sigbytes)"

definition AddressRequest_Verify :: "crypto \<Rightarrow> string \<Rightarrow> rpc_request \<Rightarrow> unit result" where
  "AddressRequest_Verify C sig r =
     (let sig' = (if HasPrefix sig ''0x'' then drop 2 sig else sig)
      in case hex_DecodeString sig' of
           None \<Rightarrow> Inl (ErrNew ''failed to decode sig'')
         | Some sigbytes0 \<Rightarrow>
             (if length sigbytes0 \<noteq> 65 then Inl (ErrNew ''signature wrong length'')
              else
                (case AddressRequest_hash C r of
                   Inl e \<Rightarrow> Inl (ErrNew ''failed to hash request'')
                 | Inr hashed \<Rightarrow>
                     (case SigToPub C hashed (legacy_v sigbytes0) of
                        Inl e \<Rightarrow> Inl e
                      | Inr pubkey \<Rightarrow>
                          (let address = PubkeyToAddress C pubkey
                           in if ToLower address \<noteq> ToLower (rq_Key r) then Inl ErrBadSignature
                              else Inr ())))))"

section \<open>Dispatch on the length of the key\<close>

definition mk_request :: "string \<Rightarrow> string \<Rightarrow> int \<Rightarrow> json list \<Rightarrow> rpc_request" where
  "mk_request method pubkey nonce args =
     \<lparr>rq_Method = method, rq_Key = pubkey, rq_Nonce = nonce, rq_ExtraArgs = args\<rparr>"

definition request_Sign :: "crypto \<Rightarrow> string \<Rightarrow> string \<Rightarrow> string \<Rightarrow> int \<Rightarrow> json list \<Rightarrow> string result" where
  "request_Sign C privkey method pubkey nonce args =
     (if length pubkey \<le> 42 then AddressRequest_Sign C privkey (mk_request method pubkey nonce args)
      else NodeRequest_Sign C privkey (mk_request method pubkey nonce args))"

definition request_Verify :: "crypto \<Rightarrow> string \<Rightarrow> string \<Rightarrow> string \<Rightarrow> int \<Rightarrow> json list \<Rightarrow> unit result" where
  "request_Verify C sig method pubkey nonce args =
     (if length pubkey \<le> 42 then AddressRequest_Verify C sig (mk_request method pubkey nonce args)
      else NodeRequest_Verify C sig (mk_request method pubkey nonce args))"

section \<open>What is signed determines the request\<close>

lemma append_cut_inj:
  assumes "x \<notin> set a" and "x \<notin> set b" and "a @ x # s = b @ x # t"
  shows "a = b \<and> s = t"
  using assms by (induction a arbitrary: b) (case_tac b; auto)+

lemma assemble_eq:
  "assemble m k n args = Inr (m @ CHR ''['' # json_elems ([JStr k, JNum n] @ args))"
  by (simp add: assemble_def)

lemma assemble_inj_aux:
  assumes "CHR ''['' \<notin> set m" and "CHR ''['' \<notin> set m'"
    and "assemble m k n args = assemble m' k' n' args'"
  shows "m = m' \<and> k = k' \<and> n = n' \<and> args = args'"
proof -
  have "m @ CHR ''['' # json_elems ([JStr k, JNum n] @ args) =
      m' @ CHR ''['' # json_elems ([JStr k', JNum n'] @ args')"
    using assms(3) unfolding assemble_eq by (rule Inr_inject)
  from append_cut_inj [OF assms(1,2) this]
  have "m = m'" and "json_elems ([JStr k, JNum n] @ args) = json_elems ([JStr k', JNum n'] @ args')"
    by blast+
  moreover from this(2) have "[JStr k, JNum n] @ args = [JStr k', JNum n'] @ args'"
    using json_elems_append_inj [of _ "[]" _ "[]"] unfolding append_Nil2 by blast
  ultimately show ?thesis by simp
qed

section \<open>Keys\<close>

text \<open>
  A node key: the ID is the hexadecimal form of the public key, and a signature made with
  the private key consists of 64 bytes that verify under the public key and a recovery byte.
\<close>
definition node_key :: "crypto \<Rightarrow> string \<Rightarrow> string \<Rightarrow> bool" where
  "node_key C privkey nodeID \<longleftrightarrow>
     42 < length nodeID \<and>
     (\<exists>raw pub. HexID C nodeID = Inr raw \<and> Pubkey C raw = Inr pub \<and>
        (\<forall>h. \<exists>sig. crypto_Sign C h privkey = Inr sig \<and> length sig = 65 \<and>
           VerifySignature C (FromECDSAPub C pub) h (take 64 sig)))"

text \<open>A wallet key: the signer's public key is recovered from the signature, and has the address.\<close>
definition wallet_key :: "crypto \<Rightarrow> string \<Rightarrow> string \<Rightarrow> bool" where
  "wallet_key C privkey address \<longleftrightarrow>
     length address \<le> 42 \<and>
     (\<exists>pub. ToLower (PubkeyToAddress C pub) = ToLower address \<and>
        (\<forall>h. \<exists>sig. crypto_Sign C h privkey = Inr sig \<and> length sig = 65 \<and>
           code (sig ! 64) \<le> 1 \<and> SigToPub C h sig = Inr pub))"

lemma base64_length: "length (base64_EncodeToString s) = 4 * ((length s + 2) div 3)"
proof (induction s rule: base64_EncodeToString.induct)
  case (4 a b c s)
  have "(n + 3 + 2) div 3 = (n + 2) div 3 + 1" for n :: nat by presburger
  from this [of "length s"] show ?case using 4 by (simp add: add.commute)
qed simp_all

lemma node_sign_verify:
  assumes "node_key C privkey nodeID"
  shows "\<exists>sig. request_Sign C privkey method nodeID nonce args = Inr sig \<and>
    request_Verify C sig method nodeID nonce args = Inr ()"
proof -
  from assms obtain raw pub where key: "42 < length nodeID" "HexID C nodeID = Inr raw" "Pubkey C raw = Inr pub"
    and sign: "\<And>h. \<exists>sig. crypto_Sign C h privkey = Inr sig \<and> length sig = 65 \<and>
           VerifySignature C (FromECDSAPub C pub) h (take 64 sig)"
    unfolding node_key_def by blast
  obtain h where h: "NodeRequest_hash C (mk_request method nodeID nonce args) = Inr h"
    by (simp add: NodeRequest_hash_def assemble_eq)
  obtain sg where "crypto_Sign C h privkey = Inr sg" "length sg = 65"
      "VerifySignature C (FromECDSAPub C pub) h (take 64 sg)" using sign by blast
  moreover from this have "first64 sg = take 64 sg" by (simp add: first64_def)
  moreover have "64 \<le> base64_cap (base64_EncodeToString sg)"
    using \<open>length sg = 65\<close> by (simp add: base64_cap_def base64_length)
  ultimately show ?thesis
    using key h by (simp add: request_Sign_def request_Verify_def NodeRequest_Sign_def NodeRequest_Verify_def
        mk_request_def base64_roundtrip)
qed

lemma hex_no_0x: "\<not> HasPrefix (hex_EncodeToString s) ''0x''"
proof (cases s)
  case (Cons c s')
  have "hex_lower (code c mod 16) \<noteq> CHR ''x''"
    using unhex_lower [of "code c mod 16"] by (auto simp: unhex_def is_digit_def code_def)
  then show ?thesis by (simp add: Cons HasPrefix_def hex_EncodeToString_def)
qed (simp add: HasPrefix_def hex_EncodeToString_def)

lemma wallet_sign_verify:
  assumes "wallet_key C privkey address"
  shows "\<exists>sig. request_Sign C privkey method address nonce args = Inr sig \<and>
    request_Verify C sig method address nonce args = Inr ()"
proof -
  from assms obtain pub where key: "length address \<le> 42" "ToLower (PubkeyToAddress C pub) = ToLower address"
    and sign: "\<And>h. \<exists>sig. crypto_Sign C h privkey = Inr sig \<and> length sig = 65 \<and>
           code (sig ! 64) \<le> 1 \<and> SigToPub C h sig = Inr pub"
    unfolding wallet_key_def by blast
  obtain h where h: "AddressRequest_hash C (mk_request method address nonce args) = Inr h"
    by (simp add: AddressRequest_hash_def assemble_eq)
  obtain sg where "crypto_Sign C h privkey = Inr sg" "length sg = 65" "code (sg ! 64) \<le> 1"
      "SigToPub C h sg = Inr pub" using sign by blast
  moreover from this have "legacy_v sg = sg" by (simp add: legacy_v_def)
  ultimately show ?thesis
    using key h by (simp add: request_Sign_def request_Verify_def AddressRequest_Sign_def
        AddressRequest_Verify_def mk_request_def hex_roundtrip hex_no_0x Let_def)
qed

section \<open>Properties\<close>



text \<open>
  C26: signing and verifying fit together. For a node key and for a wallet key, \<^verbatim>\<open>Sign\<close>
  succeeds on every method, nonce and arguments, and \<^verbatim>\<open>Verify\<close> accepts its output for the same
  request, through the base-64 or hexadecimal form of the signature.
\<close>
theorem sign_verify_roundtrip:
  assumes "node_key C privkey key \<or> wallet_key C privkey key"
  shows "\<exists>sig. request_Sign C privkey method key nonce args = Inr sig \<and>
    request_Verify C sig method key nonce args = Inr ()"
  using assms node_sign_verify wallet_sign_verify by blast

definition toy_crypto :: crypto where
  "toy_crypto = \<lparr>Keccak256 = (\<lambda>s. s), HexID = Inr, Pubkey = Inr, FromECDSAPub = (\<lambda>p. p),
     VerifySignature = (\<lambda>p h s. s = replicate 64 (CHR ''s'')),
     SigToPub = (\<lambda>h s. Inr ''0xAB''), PubkeyToAddress = (\<lambda>p. p),
     crypto_Sign = (\<lambda>h k. Inr (replicate 64 (CHR ''s'') @ [CHR 0x01]))\<rparr>"

theorem sign_verify_roundtrip_witness:
  "\<exists>sig. request_Sign toy_crypto ''k'' ''pool_withdraw'' ''0xab'' 5 [] = Inr sig \<and>
     request_Verify toy_crypto sig ''pool_withdraw'' ''0xab'' 5 [] = Inr ()"
proof (rule sign_verify_roundtrip, rule disjI2)
  have "ToLower ''0xAB'' = ToLower ''0xab''" by code_simp
  then show "wallet_key toy_crypto ''k'' ''0xab''"
    by (simp add: wallet_key_def toy_crypto_def nth_append code_def)
qed

text \<open>
  C35: a signature that is too short takes the process down. For every node ID that is a
  public key, \<^verbatim>\<open>Verify\<close> of a base-64 string of fewer than 88 characters panics (nothing
  recovers from panics), whoever sent it.
\<close>
theorem short_signature_panics:
  assumes "42 < length nodeID" and "HexID C nodeID = Inr raw" and "Pubkey C raw = Inr pub"
    and "base64_DecodeString sig = Some sigbytes" and "length sig < 88"
  shows "request_Verify C sig method nodeID nonce args = Inl (GoPanic ''slice bounds out of range'')"
proof -
  have "length sig div 4 < 22" using assms(5) by simp
  then have "base64_cap sig < 64" by (simp add: base64_cap_def)
  then show ?thesis
    using assms by (simp add: request_Verify_def NodeRequest_Verify_def mk_request_def)
qed

theorem short_signature_panics_witness:
  "request_Verify toy_crypto ''AAAA'' ''vipnode_update'' (replicate 128 (CHR ''a'')) 1 [] =
     Inl (GoPanic ''slice bounds out of range'')"
proof (rule short_signature_panics)
  show "base64_DecodeString ''AAAA'' = Some [CHR 0x00, CHR 0x00, CHR 0x00]" by code_simp
qed (simp_all add: toy_crypto_def)

end
