(* ===== verification/Pool_Service.thy ===== *)
theory Pool_Service
  imports Balance_Manager Ethnode Request_Signing
begin

text \<open>
  The pool service (\<^verbatim>\<open>pool/service.go\<close>, \<^verbatim>\<open>pool/pool.go\<close>, \<^verbatim>\<open>pool/nodeuri.go\<close>): the RPC
  handlers that agents call. A handler is a function on the state of the pool. What it
  reads from outside is in the record \<open>env\<close>: the readings of the clock, the orders in which
  maps are visited, the service the call came in on, the outcome of the reverse calls to
  hosts and the order in which their answers arrive. The calls made to hosts are recorded
  in \<open>p_sent\<close>. The configuration, with the storage driver and the balance manager, is
  in \<open>pool_config\<close>.

  A connection (\<^verbatim>\<open>jsonrpc2.Service\<close>) is a number, as its identity is all the pool uses
  besides calling it. Logging is left out.
\<close>

section \<open>Requests and responses\<close>

record ConnectRequest =
  cr_VipnodeVersion :: string
  cr_NodeInfo :: UserAgent
  cr_NodeURI :: string
  cr_Payout :: string

record ConnectResponse =
  cs_PoolVersion :: string
  cs_Hosts :: "node list"
  cs_Message :: string

record HostRequest =
  hr_Kind :: string
  hr_Payout :: string
  hr_NodeURI :: string

record HostResponse =
  hs_PoolVersion :: string

record ClientRequest =
  lr_Kind :: string
  lr_NumHosts :: int

record ClientResponse =
  ls_Hosts :: "node list"
  ls_PoolVersion :: string
  ls_Message :: string

record UpdateRequest =
  ur_Peers :: "string list option"
  ur_PeerInfo :: "PeerInfo list option"
  ur_BlockNumber :: uint64

record UpdateResponse =
  us_Balance :: "balance option"
  us_InvalidPeers :: "string list"
  us_ActivePeers :: "string list"
  us_LatestBlockNumber :: uint64

record PeerRequest =
  pr_Num :: int
  pr_Kind :: string

record PeerResponse =
  ps_Peers :: "node list"

text \<open>The JSON forms over which requests are signed.\<close>

definition ConnectRequest_json :: "ConnectRequest \<Rightarrow> json" where
  "ConnectRequest_json r = JObj ([(''vipnode_version'', JStr (cr_VipnodeVersion r)),
     (''node_info'', UserAgent_json (cr_NodeInfo r))] @ omitempty_str ''node_uri'' (cr_NodeURI r) @
     [(''payout'', JStr (cr_Payout r))])"

definition HostRequest_json :: "HostRequest \<Rightarrow> json" where
  "HostRequest_json r = JObj (omitempty_str ''kind'' (hr_Kind r) @ [(''payout'', JStr (hr_Payout r))] @
     omitempty_str ''node_uri'' (hr_NodeURI r))"

definition ClientRequest_json :: "ClientRequest \<Rightarrow> json" where
  "ClientRequest_json r = JObj (omitempty_str ''kind'' (lr_Kind r) @
     (if lr_NumHosts r = 0 then [] else [(''num_hosts'', JNum (lr_NumHosts r))]))"

definition UpdateRequest_json :: "UpdateRequest \<Rightarrow> json" where
  "UpdateRequest_json r = JObj ((case ur_Peers r of None \<Rightarrow> [] | Some [] \<Rightarrow> []
        | Some ps \<Rightarrow> [(''peers'', JArr (map JStr ps))]) @
     [(''peers_info'', json_slice PeerInfo_json (ur_PeerInfo r)), (''block_number'', JNum (uint (ur_BlockNumber r)))])"

text \<open>\<^verbatim>\<open>oldUpdateRequest\<close>: the fields that requests of old agents were signed over.\<close>
definition oldUpdateRequest_json :: "UpdateRequest \<Rightarrow> json" where
  "oldUpdateRequest_json r = JObj [(''peers'', json_slice JStr (ur_Peers r)),
     (''block_number'', JNum (uint (ur_BlockNumber r)))]"

section \<open>State, configuration and environment\<close>

type_synonym service = nat

record 's pool =
  p_Store :: 's
  p_remoteHosts :: "(node_id, service) fmap"
  p_remoteNodeLookup :: "(service, node_id) fmap"
  p_sent :: "(service \<times> string \<times> string) list"

record 's pool_config =
  pc_Version :: string
  pc_Store :: "'s Store"
  pc_Manager :: "'s Manager"
  pc_crypto :: crypto
  pc_ClientMessager :: "(string \<Rightarrow> string) option"
  pc_MaxRequestHosts :: int
  pc_RestrictNetwork :: NetworkID
  pc_BlockNumberProvider :: "(NetworkID \<Rightarrow> time \<Rightarrow> (nat \<Rightarrow> iter_order) \<Rightarrow> 's \<Rightarrow> uint64 result) option"
  pc_skipWhitelist :: bool

record env =
  e_clock :: clock
  e_ord :: "nat \<Rightarrow> iter_order"
  e_service :: "service option"
  e_RemoteAddr :: "string option"
  e_Call :: "service \<Rightarrow> string \<Rightarrow> string \<Rightarrow> unit result"
  e_arrival :: "nat \<Rightarrow> nat list"

text \<open>Answers arrive in some order: every one of them exactly once.\<close>
definition arrival_order :: "(nat \<Rightarrow> nat list) \<Rightarrow> bool" where
  "arrival_order f \<longleftrightarrow> (\<forall>n. distinct (f n) \<and> set (f n) = {0..<n})"

definition pool_New :: "'s \<Rightarrow> 's pool" where
  "pool_New s = \<lparr>p_Store = s, p_remoteHosts = fmempty, p_remoteNodeLookup = fmempty, p_sent = []\<rparr>"

text \<open>The configuration \<^verbatim>\<open>New\<close> returns; without a manager it uses \<^verbatim>\<open>NoBalance\<close>.\<close>
definition pool_New_config :: "crypto \<Rightarrow> 's Store \<Rightarrow> 's Manager option \<Rightarrow> 's pool_config" where
  "pool_New_config C storeDriver manager =
     \<lparr>pc_Version = ''dev'', pc_Store = storeDriver,
      pc_Manager = (case manager of None \<Rightarrow> NoBalance | Some m \<Rightarrow> m), pc_crypto = C,
      pc_ClientMessager = None, pc_MaxRequestHosts = 0, pc_RestrictNetwork = UnknownNetwork,
      pc_BlockNumberProvider = None, pc_skipWhitelist = False\<rparr>"

definition defaultRequestNumHosts :: int where
  "defaultRequestNumHosts = 3"

text \<open>A call of the storage driver or the manager, on the store inside the pool.\<close>
definition on_store :: "('s \<Rightarrow> 'a result \<times> 's) \<Rightarrow> 's pool \<Rightarrow> 'a result \<times> 's pool" where
  "on_store f p = (let (r, s) = f (p_Store p) in (r, p\<lparr>p_Store := s\<rparr>))"

section \<open>Connections\<close>

definition CloseRemote :: "service \<Rightarrow> 's pool \<Rightarrow> unit result \<times> 's pool" where
  "CloseRemote remote p =
     (case fmlookup (p_remoteNodeLookup p) remote of
        None \<Rightarrow> (Inr (), p)
      | Some nodeID \<Rightarrow>
          (Inr (), p\<lparr>p_remoteNodeLookup := fmdrop remote (p_remoteNodeLookup p),
                     p_remoteHosts := fmdrop nodeID (p_remoteHosts p)\<rparr>))"

definition NumRemotes :: "'s pool \<Rightarrow> int" where
  "NumRemotes p = int (fcard (fmdom (p_remoteHosts p)))"

section \<open>Verification\<close>

text \<open>A panic is not an error value: it passes through.\<close>
definition verify_error :: "string \<Rightarrow> go_error \<Rightarrow> go_error" where
  "verify_error method e = (case e of GoPanic m \<Rightarrow> GoPanic m | _ \<Rightarrow> VerifyFailedError e method)"

definition pool_verify ::
  "'s pool_config \<Rightarrow> time \<Rightarrow> string \<Rightarrow> string \<Rightarrow> string \<Rightarrow> int \<Rightarrow> json \<Rightarrow> 's pool \<Rightarrow> unit result \<times> 's pool" where
  "pool_verify cfg now sig method nodeID nonce arg p =
     (case request_Verify (pc_crypto cfg) sig method nodeID nonce [arg] of
        Inl e \<Rightarrow> (Inl (verify_error method e), p)
      | Inr _ \<Rightarrow>
          (case on_store (CheckAndSaveNonce (pc_Store cfg) now nodeID nonce) p of
             (Inl e, p1) \<Rightarrow> (Inl (verify_error method e), p1)
           | (Inr _, p1) \<Rightarrow> (Inr (), p1)))"

section \<open>Calls to hosts\<close>

text \<open>The errors among the answers, in the order they arrive.\<close>
definition errors_of :: "'a result list \<Rightarrow> go_error list" where
  "errors_of rs = List.map_filter (\<lambda>r. case r of Inl e \<Rightarrow> Some e | Inr _ \<Rightarrow> None) rs"

definition record_calls :: "string \<Rightarrow> string \<Rightarrow> service list \<Rightarrow> 's pool \<Rightarrow> 's pool" where
  "record_calls method arg remotes p = p\<lparr>p_sent := p_sent p @ map (\<lambda>r. (r, method, arg)) remotes\<rparr>"

definition disconnectPeers :: "env \<Rightarrow> string \<Rightarrow> node list \<Rightarrow> 's pool \<Rightarrow> unit result \<times> 's pool" where
  "disconnectPeers env nodeID peers p =
     (let remotes = List.map_filter (\<lambda>peer. fmlookup (p_remoteHosts p) (n_ID peer)) peers;
          p1 = record_calls ''vipnode_disconnect'' nodeID remotes p;
          answers = map (\<lambda>i. e_Call env (remotes ! i) ''vipnode_disconnect'' nodeID) (e_arrival env (length remotes));
          errors = errors_of answers
      in if errors \<noteq> [] then (Inl (RemoteHostErrors ''vipnode_disconnect'' errors), p1) else (Inr (), p1))"

section \<open>Update\<close>

definition Update_verify ::
  "'s pool_config \<Rightarrow> env \<Rightarrow> string \<Rightarrow> string \<Rightarrow> int \<Rightarrow> UpdateRequest \<Rightarrow> 's pool \<Rightarrow> unit result \<times> 's pool" where
  "Update_verify cfg env sig nodeID nonce req p =
     (case pool_verify cfg (e_clock env 0) sig ''vipnode_update'' nodeID nonce (UpdateRequest_json req) p of
        (Inr _, p1) \<Rightarrow> (Inr (), p1)
      | (Inl e, p1) \<Rightarrow>
          (if is_panic e then (Inl e, p1)
           else
             (case pool_verify cfg (e_clock env 1) sig ''vipnode_update'' nodeID nonce (oldUpdateRequest_json req) p1 of
                (Inr _, p2) \<Rightarrow> (Inr (), p2)
              | (Inl e2, p2) \<Rightarrow> (Inl (if is_panic e2 then e2 else e), p2))))"

text \<open>The end of \<^verbatim>\<open>Update\<close>: charge the client, and cut it off from its peers when it cannot pay.\<close>
definition Update_charge ::
  "'s pool_config \<Rightarrow> env \<Rightarrow> string \<Rightarrow> node \<Rightarrow> node list \<Rightarrow> 's pool \<Rightarrow> balance result \<times> 's pool" where
  "Update_charge cfg env nodeID nodeBeforeUpdate active p =
     (case on_store (OnUpdate (pc_Manager cfg) (\<lambda>k. e_clock env (3 + k)) nodeBeforeUpdate active) p of
        (Inl (LowBalanceError m c), p1) \<Rightarrow>
          (let (_, p2) = disconnectPeers env nodeID active p1 in (Inl (LowBalanceError m c), p2))
      | (Inl e, p1) \<Rightarrow> (Inl e, p1)
      | (Inr nodeBalance, p1) \<Rightarrow> (Inr nodeBalance, p1))"

text \<open>The provider of the block number may read the clock and the store.\<close>
definition latest_block :: "'s pool_config \<Rightarrow> env \<Rightarrow> 's \<Rightarrow> uint64 result" where
  "latest_block cfg env s =
     (case pc_BlockNumberProvider cfg of
        None \<Rightarrow> Inr 0
      | Some f \<Rightarrow> f (pc_RestrictNetwork cfg) (e_clock env 6) (\<lambda>k. e_ord env (2 + k)) s)"

definition Update_body ::
  "'s pool_config \<Rightarrow> env \<Rightarrow> string \<Rightarrow> UpdateRequest \<Rightarrow> 's pool \<Rightarrow> UpdateResponse result \<times> 's pool" where
  "Update_body cfg env nodeID req p1 =
     (case on_store (GetNode (pc_Store cfg) nodeID) p1 of
        (Inl e, p2) \<Rightarrow> (Inl e, p2)
      | (Inr node, p2) \<Rightarrow>
          (let nodeBeforeUpdate = node;
               peerIDs = Peers_IDs (case ur_PeerInfo req of None \<Rightarrow> [] | Some ps \<Rightarrow> ps)
           in
     case on_store (UpdateNodePeers (pc_Store cfg) (e_clock env 2) (e_ord env 0) nodeID peerIDs (ur_BlockNumber req)) p2 of
        (Inl e, p3) \<Rightarrow> (Inl e, p3)
      | (Inr inactive, p3) \<Rightarrow>
     (case on_store (NodePeers (pc_Store cfg) (e_ord env 1) nodeID) p3 of
        (Inl e, p4) \<Rightarrow> (Inl e, p4)
      | (Inr active, p4) \<Rightarrow>
     (case latest_block cfg env (p_Store p4) of
        Inl e \<Rightarrow> (Inl e, p4)
      | Inr latest \<Rightarrow>
     (case Update_charge cfg env nodeID nodeBeforeUpdate active p4 of
        (Inl e, p5) \<Rightarrow> (Inl e, p5)
      | (Inr nodeBalance, p5) \<Rightarrow>
          (Inr \<lparr>us_Balance = Some nodeBalance, us_InvalidPeers = inactive,
                us_ActivePeers = map n_URI active, us_LatestBlockNumber = latest\<rparr>, p5))))))"

definition pool_Update ::
  "'s pool_config \<Rightarrow> env \<Rightarrow> string \<Rightarrow> string \<Rightarrow> int \<Rightarrow> UpdateRequest \<Rightarrow> 's pool
     \<Rightarrow> UpdateResponse result \<times> 's pool" where
  "pool_Update cfg env sig nodeID nonce req p =
     (case Update_verify cfg env sig nodeID nonce req p of
        (Inl e, p1) \<Rightarrow> (Inl e, p1)
      | (Inr _, p1) \<Rightarrow> Update_body cfg env nodeID req p1)"

section \<open>Node URIs\<close>

text \<open>\<^verbatim>\<open>pretty.Abbrev\<close> with its default lengths: 12 bytes and an ellipsis.\<close>
definition Abbrev :: "string \<Rightarrow> string" where
  "Abbrev s = (if 12 < length s then take 12 s @ [CHR 0xE2, CHR 0x80, CHR 0xA6] else s)"

definition normalizeNodeURI :: "string \<Rightarrow> string \<Rightarrow> string \<Rightarrow> string \<Rightarrow> string result" where
  "normalizeNodeURI nodeURI nodeID defaultHost defaultPort =
     (let hostport =
        (if nodeURI = '''' then Inr (defaultHost, defaultPort)
         else
           (case url_Parse nodeURI of
              Inl e \<Rightarrow> Inl e
            | Inr uri \<Rightarrow>
                (let h = url_Hostname uri;
                     host = (if h \<noteq> ''::'' \<and> h \<noteq> '''' then h else defaultHost);
                     pt = url_Port uri;
                     port = (if pt \<noteq> '''' then pt else defaultPort);
                     username = url_Username uri
                 in if username \<noteq> '''' \<and> username \<noteq> nodeID
                    then Inl (ErrNew (''nodeID '' @ [quote_char] @ Abbrev nodeID @ [quote_char] @
                           '' does not match nodeURI: '' @ nodeURI))
                    else Inr (host, port))))
      in case hostport of
           Inl e \<Rightarrow> Inl e
         | Inr (host, port) \<Rightarrow>
             (if host = '''' \<or> host = ''[::]'' then Inl (ErrNew ''NodeURI is missing host'')
              else Inr (url_String ''enode'' nodeID (host @ '':'' @ port))))"

section \<open>Connect\<close>

definition CtxService :: "env \<Rightarrow> service result" where
  "CtxService env =
     (case e_service env of None \<Rightarrow> Inl (ContextMissingValueError ''service'') | Some svc \<Rightarrow> Inr svc)"

text \<open>The part of \<^verbatim>\<open>connect\<close> for hosts: its service and its public URI, then the registration.\<close>
definition connect_host :: "env \<Rightarrow> string \<Rightarrow> string \<Rightarrow> 's pool \<Rightarrow> string result \<times> 's pool" where
  "connect_host env nodeID nodeURI p =
     (case CtxService env of
        Inl e \<Rightarrow> (Inl e, p)
      | Inr svc \<Rightarrow>
          (let remoteHost = (case e_RemoteAddr env of None \<Rightarrow> '''' | Some addr \<Rightarrow> fst (splitHostPort addr))
           in case normalizeNodeURI nodeURI nodeID remoteHost ''30303'' of
                Inl e \<Rightarrow> (Inl e, p)
              | Inr uri \<Rightarrow>
                  (Inr uri, p\<lparr>p_remoteHosts := fmupd nodeID svc (p_remoteHosts p),
                              p_remoteNodeLookup := fmupd svc nodeID (p_remoteNodeLookup p)\<rparr>)))"

definition pool_connect ::
  "'s pool_config \<Rightarrow> env \<Rightarrow> string \<Rightarrow> ConnectRequest \<Rightarrow> 's pool \<Rightarrow> ConnectResponse result \<times> 's pool" where
  "pool_connect cfg env nodeID req p =
     (let kind0 = NodeKind_String (ua_Kind (cr_NodeInfo req));
          kind = (if kind0 = ''unknown'' then '''' else kind0);
          isHost = ua_IsFullNode (cr_NodeInfo req)
      in if pc_RestrictNetwork cfg \<noteq> 0 \<and> pc_RestrictNetwork cfg \<noteq> ua_Network (cr_NodeInfo req)
         then (Inl (ErrNew (''node is on the wrong network, pool requires: '' @
                 NetworkID_String (pc_RestrictNetwork cfg))), p)
         else
           (let response = \<lparr>cs_PoolVersion = pc_Version cfg, cs_Hosts = [],
                  cs_Message = (case pc_ClientMessager cfg of None \<Rightarrow> '''' | Some f \<Rightarrow> f nodeID)\<rparr>;
                node = zero_node\<lparr>n_ID := nodeID, n_Kind := kind, n_LastSeen := e_clock env 10, n_IsHost := isHost,
                  n_Payout := cr_Payout req, n_NodeVersion := ua_Version (cr_NodeInfo req),
                  n_VipnodeVersion := cr_VipnodeVersion req\<rparr>
            in case (if isHost then connect_host env nodeID (cr_NodeURI req) p else (Inr '''', p)) of
                 (Inl e, p1) \<Rightarrow> (Inl e, p1)
               | (Inr uri, p1) \<Rightarrow>
                   (let node' = node\<lparr>n_URI := uri\<rparr>
                    in case on_store (SetNode (pc_Store cfg) node') p1 of
                         (Inl e, p2) \<Rightarrow> (Inl e, p2)
                       | (Inr _, p2) \<Rightarrow>
                           (case on_store (OnClient (pc_Manager cfg) (\<lambda>k. e_clock env (11 + k)) node') p2 of
                              (Inl e, p3) \<Rightarrow> (Inl e, p3)
                            | (Inr _, p3) \<Rightarrow> (Inr response, p3)))))"

definition pool_Connect ::
  "'s pool_config \<Rightarrow> env \<Rightarrow> string \<Rightarrow> string \<Rightarrow> int \<Rightarrow> ConnectRequest \<Rightarrow> 's pool
     \<Rightarrow> ConnectResponse result \<times> 's pool" where
  "pool_Connect cfg env sig nodeID nonce req p =
     (case pool_verify cfg (e_clock env 0) sig ''vipnode_connect'' nodeID nonce (ConnectRequest_json req) p of
        (Inl e, p1) \<Rightarrow> (Inl e, p1)
      | (Inr _, p1) \<Rightarrow> pool_connect cfg env nodeID req p1)"

section \<open>Peering requests\<close>

text \<open>The candidates that are neither skipped nor without a connection, with their connections.\<close>
definition host_services :: "node_id set \<Rightarrow> (node_id, service) fmap \<Rightarrow> node list \<Rightarrow> (node \<times> service) list" where
  "host_services skipPeers remoteHosts r =
     List.map_filter (\<lambda>node. if n_ID node \<in> skipPeers then None
        else map_option (Pair node) (fmlookup remoteHosts (n_ID node))) r"

text \<open>Ask every remote to whitelist the node; collect acceptances and errors as they arrive.\<close>
definition whitelist_calls :: "env \<Rightarrow> string \<Rightarrow> (node \<times> service) list \<Rightarrow> (node + go_error) list" where
  "whitelist_calls env nodeID remotes =
     map (\<lambda>i. case e_Call env (snd (remotes ! i)) ''vipnode_whitelist'' nodeID of
                Inr _ \<Rightarrow> Inl (fst (remotes ! i)) | Inl e \<Rightarrow> Inr e)
       (e_arrival env (length remotes))"

definition accepted_of :: "(node + go_error) list \<Rightarrow> node list" where
  "accepted_of as = List.map_filter (\<lambda>a. case a of Inl n \<Rightarrow> Some n | Inr _ \<Rightarrow> None) as"

definition failures_of :: "(node + go_error) list \<Rightarrow> go_error list" where
  "failures_of as = List.map_filter (\<lambda>a. case a of Inl _ \<Rightarrow> None | Inr e \<Rightarrow> Some e) as"

definition requestHosts ::
  "'s pool_config \<Rightarrow> env \<Rightarrow> string \<Rightarrow> int \<Rightarrow> string \<Rightarrow> 's pool \<Rightarrow> node list result \<times> 's pool" where
  "requestHosts cfg env nodeID numRequestHosts0 kind p =
     (let numRequestHosts = (if 0 < pc_MaxRequestHosts cfg \<and> pc_MaxRequestHosts cfg < numRequestHosts0
                             then pc_MaxRequestHosts cfg else numRequestHosts0)
      in if numRequestHosts = 0 then (Inr [], p)
         else
     (case on_store (NodePeers (pc_Store cfg) (e_ord env 2) nodeID) p of
        (Inl e, p1) \<Rightarrow> (Inl e, p1)
      | (Inr peers, p1) \<Rightarrow>
          (let skipPeers = set (nodeID # map n_ID peers)
           in
     case on_store (ActiveHosts (pc_Store cfg) (e_clock env 20) (e_ord env 3) kind
            (int64 (numRequestHosts + int (card skipPeers)))) p1 of
        (Inl e, p2) \<Rightarrow> (Inl e, p2)
      | (Inr r, p2) \<Rightarrow>
          (if pc_skipWhitelist cfg then (Inr r, p2)
           else
             (let remotes = host_services skipPeers (p_remoteHosts p2) r;
                  p3 = record_calls ''vipnode_whitelist'' nodeID (map snd remotes) p2;
                  answers = whitelist_calls env nodeID remotes;
                  accepted = accepted_of answers;
                  errors = failures_of answers
              in if accepted \<noteq> [] then (Inr accepted, p3)
                 else if errors \<noteq> [] then (Inl (RemoteHostErrors ''vipnode_whitelist'' errors), p3)
                 else (Inl (NoHostNodesError (int (length r))), p3))))))"

definition pool_Peer ::
  "'s pool_config \<Rightarrow> env \<Rightarrow> string \<Rightarrow> string \<Rightarrow> int \<Rightarrow> PeerRequest \<Rightarrow> 's pool
     \<Rightarrow> PeerResponse result \<times> 's pool" where
  "pool_Peer cfg env sig nodeID nonce req p =
     (case requestHosts cfg env nodeID (pr_Num req) (pr_Kind req) p of
        (Inl e, p1) \<Rightarrow> (Inl e, p1)
      | (Inr hosts, p1) \<Rightarrow> (Inr \<lparr>ps_Peers = hosts\<rparr>, p1))"

section \<open>The deprecated handlers\<close>

text \<open>The user agent with the given kind and fullness and zero values elsewhere.\<close>
definition legacy_agent :: "string \<Rightarrow> bool \<Rightarrow> UserAgent" where
  "legacy_agent kind full =
     \<lparr>ua_Version = '''', ua_EthProtocol = '''', ua_Kind = ParseNodeKind kind, ua_Network = 0, ua_IsFullNode = full\<rparr>"

definition pool_Host ::
  "'s pool_config \<Rightarrow> env \<Rightarrow> string \<Rightarrow> string \<Rightarrow> int \<Rightarrow> HostRequest \<Rightarrow> 's pool
     \<Rightarrow> HostResponse result \<times> 's pool" where
  "pool_Host cfg env sig nodeID nonce req p =
     (case pool_verify cfg (e_clock env 0) sig ''vipnode_host'' nodeID nonce (HostRequest_json req) p of
        (Inl e, p1) \<Rightarrow> (Inl e, p1)
      | (Inr _, p1) \<Rightarrow>
          (let connectReq = \<lparr>cr_VipnodeVersion = '''', cr_NodeInfo = legacy_agent (hr_Kind req) True,
                 cr_NodeURI = hr_NodeURI req, cr_Payout = hr_Payout req\<rparr>
           in case pool_connect cfg env nodeID connectReq p1 of
                (Inl e, p2) \<Rightarrow> (Inl e, p2)
              | (Inr connectResp, p2) \<Rightarrow> (Inr \<lparr>hs_PoolVersion = cs_PoolVersion connectResp\<rparr>, p2)))"

definition pool_Client ::
  "'s pool_config \<Rightarrow> env \<Rightarrow> string \<Rightarrow> string \<Rightarrow> int \<Rightarrow> ClientRequest \<Rightarrow> 's pool
     \<Rightarrow> ClientResponse result \<times> 's pool" where
  "pool_Client cfg env sig nodeID nonce req p =
     (case pool_verify cfg (e_clock env 0) sig ''vipnode_client'' nodeID nonce (ClientRequest_json req) p of
        (Inl e, p1) \<Rightarrow> (Inl e, p1)
      | (Inr _, p1) \<Rightarrow>
          (let connectReq = \<lparr>cr_VipnodeVersion = '''', cr_NodeInfo = legacy_agent (lr_Kind req) False,
                 cr_NodeURI = '''', cr_Payout = ''''\<rparr>
           in case pool_connect cfg env nodeID connectReq p1 of
                (Inl e, p2) \<Rightarrow> (Inl e, p2)
              | (Inr connectResp, p2) \<Rightarrow>
                  (let numRequestHosts = (if 0 < lr_NumHosts req then lr_NumHosts req else defaultRequestNumHosts)
                   in case requestHosts cfg env nodeID numRequestHosts (lr_Kind req) p2 of
                        (Inl e, p3) \<Rightarrow> (Inl e, p3)
                      | (Inr hosts, p3) \<Rightarrow>
                          (Inr \<lparr>ls_Hosts = hosts, ls_PoolVersion = cs_PoolVersion connectResp,
                                ls_Message = cs_Message connectResp\<rparr>, p3))))"

definition pool_Ping :: string where
  "pool_Ping = ''pong''"

section \<open>The RPC surface\<close>

text \<open>What an agent can make the pool do: the calls of the RPC server and the end of a connection.\<close>
datatype pool_call =
    Connect string string int ConnectRequest
  | Update string string int UpdateRequest
  | Peer string string int PeerRequest
  | Host string string int HostRequest
  | Client string string int ClientRequest
  | Close service

definition pool_exec :: "'s pool_config \<Rightarrow> env \<Rightarrow> pool_call \<Rightarrow> 's pool \<Rightarrow> bool \<times> 's pool" where
  "pool_exec cfg env c p =
     (case c of
        Connect sig i n req \<Rightarrow> apfst is_ok (pool_Connect cfg env sig i n req p)
      | Update sig i n req \<Rightarrow> apfst is_ok (pool_Update cfg env sig i n req p)
      | Peer sig i n req \<Rightarrow> apfst is_ok (pool_Peer cfg env sig i n req p)
      | Host sig i n req \<Rightarrow> apfst is_ok (pool_Host cfg env sig i n req p)
      | Client sig i n req \<Rightarrow> apfst is_ok (pool_Client cfg env sig i n req p)
      | Close svc \<Rightarrow> apfst is_ok (CloseRemote svc p))"

text \<open>One step of the pool: some call, in some environment, with the answer it gets.\<close>
inductive pool_step :: "'s pool_config \<Rightarrow> 's pool \<Rightarrow> env \<times> pool_call \<times> bool \<Rightarrow> 's pool \<Rightarrow> bool"
  for cfg where
  pool_call: "pool_exec cfg env c p = (ok, p') \<Longrightarrow> pool_step cfg p (env, c, ok) p'"

inductive_cases pool_stepE: "pool_step cfg p l p'"

inductive pool_steps ::
  "'s pool_config \<Rightarrow> 's pool \<Rightarrow> (env \<times> pool_call \<times> bool) list \<Rightarrow> 's pool \<Rightarrow> bool"
  for cfg where
  pool_done: "pool_steps cfg p [] p"
| pool_more: "pool_step cfg p l p1 \<Longrightarrow> pool_steps cfg p1 ls p2 \<Longrightarrow> pool_steps cfg p (l # ls) p2"

inductive_cases pool_steps_NilE: "pool_steps cfg p [] p'"
inductive_cases pool_steps_ConsE: "pool_steps cfg p (l # ls) p'"

lemma pool_steps_invariant:
  assumes "pool_steps cfg p ls p'" and "P p"
    and "\<And>q l q'. l \<in> set ls \<Longrightarrow> P q \<Longrightarrow> pool_step cfg q l q' \<Longrightarrow> P q'"
  shows "P p'"
  using assms
proof (induction rule: pool_steps.induct)
  case (pool_more p l p1 ls p2)
  have "P p1" using pool_more.prems pool_more.hyps(1) by (meson list.set_intros(1))
  then show ?case using pool_more.IH pool_more.prems(2) by (meson list.set_intros(2))
qed

section \<open>What every handler keeps\<close>

text \<open>
  A predicate on stores that no call other than \<^verbatim>\<open>CheckAndSaveNonce\<close> breaks. Instances are
  the invariants of a driver and, for each value, the fact that the saved nonces have that
  value.
\<close>
locale stable_store =
  fixes St :: "'s Store" and P :: "'s \<Rightarrow> bool"
  assumes exec_stable: "P s \<Longrightarrow> \<not> is_nonce_call c \<Longrightarrow> P (snd (Store_exec St c s))"
begin

lemma op_stable:
  assumes "P s"
  shows "P (snd (GetNodeBalance St now i s))" "P (snd (AddNodeBalance St i x s))"
    "P (snd (GetNode St i s))" "P (snd (SetNode St n s))" "P (snd (ActiveHosts St now ord k l s))"
    "P (snd (NodePeers St ord i s))" "P (snd (UpdateNodePeers St now ord i ps b s))"
  using exec_stable [OF assms, of "CGetNodeBalance now i"] exec_stable [OF assms, of "CAddNodeBalance i x"]
    exec_stable [OF assms, of "CGetNode i"] exec_stable [OF assms, of "CSetNode n"]
    exec_stable [OF assms, of "CActiveHosts now ord k l"] exec_stable [OF assms, of "CNodePeers ord i"]
    exec_stable [OF assms, of "CUpdateNodePeers now ord i ps b"]
  by simp_all

lemma pay_OnClient_stable: "P s \<Longrightarrow> P (snd (pay_OnClient St b clk n s))"
  using op_stable(1) [of s "clk 0" "n_ID n"]
  by (auto simp: pay_OnClient_def Let_def split: option.splits prod.splits sum.splits)

lemma credit_peers_stable: "P s \<Longrightarrow> P (snd (credit_peers St c peers t s))"
  by (induction peers arbitrary: t s) (simp_all add: split_beta op_stable)

lemma charge_client_stable: "P s \<Longrightarrow> P (snd (charge_client St clk n t s))"
proof -
  assume "P s"
  then have 1: "P (snd (AddNodeBalance St (n_ID n) (- t) s))" by (rule op_stable)
  note 2 = op_stable(1) [OF 1, of "clk 1" "n_ID n"]
  note 3 = op_stable(1) [OF 2, of "clk 2" "n_ID n"]
  show ?thesis using 1 2 3 by (auto simp: charge_client_def split: prod.splits sum.splits)
qed

lemma pay_OnUpdate_stable: "P s \<Longrightarrow> P (snd (pay_OnUpdate St b clk n peers s))"
  using credit_peers_stable [of s] charge_client_stable op_stable(1) [of s]
  by (auto simp: pay_OnUpdate_def Let_def split_beta split: option.splits)

end

lemma record_calls_store [simp]: "p_Store (record_calls m a rs p) = p_Store p"
  by (simp add: record_calls_def)

lemma disconnectPeers_store: "p_Store (snd (disconnectPeers env i peers p)) = p_Store p"
  by (simp add: disconnectPeers_def Let_def)

lemma connect_host_store: "connect_host env i uri p = (r, p') \<Longrightarrow> p_Store p' = p_Store p"
  by (auto simp: connect_host_def Let_def split: sum.splits option.splits)

lemma Update_charge_store:
  "p_Store (snd (Update_charge cfg env i n active p)) =
   p_Store (snd (on_store (OnUpdate (pc_Manager cfg) (\<lambda>k. e_clock env (3 + k)) n active) p))"
proof (cases "on_store (OnUpdate (pc_Manager cfg) (\<lambda>k. e_clock env (3 + k)) n active) p")
  case (Pair r p1)
  show ?thesis
  proof (cases r)
    case (Inl e)
    then show ?thesis using Pair by (cases e) (simp_all add: Update_charge_def split_beta disconnectPeers_store)
  qed (simp add: Update_charge_def Pair)
qed

locale stable_pool = stable_store "pc_Store cfg" P
  for cfg :: "'s pool_config" and P +
  assumes OnClient_stable: "P s \<Longrightarrow> P (snd (OnClient (pc_Manager cfg) clk n s))"
    and OnUpdate_stable: "P s \<Longrightarrow> P (snd (OnUpdate (pc_Manager cfg) clk n peers s))"
begin

abbreviation holds :: "'s pool \<Rightarrow> bool" where "holds p \<equiv> P (p_Store p)"

lemma on_store_stable:
  "(\<And>s. P s \<Longrightarrow> P (snd (f s))) \<Longrightarrow> holds p \<Longrightarrow> on_store f p = (r, p') \<Longrightarrow> holds p'"
  by (auto simp: on_store_def split_beta Let_def)

lemma on_op_stable:
  "on_store (GetNode (pc_Store cfg) i) p = (r1, p') \<Longrightarrow> holds p \<Longrightarrow> holds p'"
  "on_store (UpdateNodePeers (pc_Store cfg) now ord i ps b) p = (r2, p') \<Longrightarrow> holds p \<Longrightarrow> holds p'"
  "on_store (NodePeers (pc_Store cfg) ord i) p = (r3, p') \<Longrightarrow> holds p \<Longrightarrow> holds p'"
  "on_store (ActiveHosts (pc_Store cfg) now ord k l) p = (r3, p') \<Longrightarrow> holds p \<Longrightarrow> holds p'"
  "on_store (SetNode (pc_Store cfg) n) p = (r4, p') \<Longrightarrow> holds p \<Longrightarrow> holds p'"
  "on_store (OnClient (pc_Manager cfg) clk n) p = (r4, p') \<Longrightarrow> holds p \<Longrightarrow> holds p'"
  by (rule on_store_stable [rotated 2], assumption, simp_all add: op_stable OnClient_stable)+

lemma pool_connect_stable: "holds p \<Longrightarrow> pool_connect cfg env i req p = (r, p') \<Longrightarrow> holds p'"
  unfolding pool_connect_def Let_def
  by (auto split: if_splits prod.splits sum.splits dest!: connect_host_store on_op_stable)

lemma requestHosts_stable: "holds p \<Longrightarrow> requestHosts cfg env i num kind p = (r, p') \<Longrightarrow> holds p'"
  unfolding requestHosts_def Let_def
  by (auto split: if_splits prod.splits sum.splits dest!: on_op_stable)

lemma Update_charge_stable: "holds p \<Longrightarrow> Update_charge cfg env i n active p = (r, p') \<Longrightarrow> holds p'"
  using Update_charge_store [of cfg env i n active p] OnUpdate_stable by (simp add: on_store_def split_beta Let_def)

lemma Update_body_stable: "holds p \<Longrightarrow> Update_body cfg env i req p = (r, p') \<Longrightarrow> holds p'"
  unfolding Update_body_def Let_def
  by (auto split: prod.splits sum.splits dest!: on_op_stable dest: Update_charge_stable)

end

section \<open>Authentication\<close>

text \<open>Who signed a call, and with which nonce. \<^verbatim>\<open>Peer\<close> takes a signature but does not look at it.\<close>
fun signed_by :: "pool_call \<Rightarrow> (string \<times> int) option" where
  "signed_by (Connect sig i n req) = Some (i, n)"
| "signed_by (Update sig i n req) = Some (i, n)"
| "signed_by (Host sig i n req) = Some (i, n)"
| "signed_by (Client sig i n req) = Some (i, n)"
| "signed_by (Peer sig i n req) = None"
| "signed_by (Close svc) = None"

text \<open>The signature of a call verifies. \<^verbatim>\<open>Update\<close> has two forms of the payload.\<close>
fun call_verified :: "crypto \<Rightarrow> pool_call \<Rightarrow> bool" where
  "call_verified C (Connect sig i n req) \<longleftrightarrow>
     request_Verify C sig ''vipnode_connect'' i n [ConnectRequest_json req] = Inr ()"
| "call_verified C (Update sig i n req) \<longleftrightarrow>
     request_Verify C sig ''vipnode_update'' i n [UpdateRequest_json req] = Inr () \<or>
     request_Verify C sig ''vipnode_update'' i n [oldUpdateRequest_json req] = Inr ()"
| "call_verified C (Host sig i n req) \<longleftrightarrow>
     request_Verify C sig ''vipnode_host'' i n [HostRequest_json req] = Inr ()"
| "call_verified C (Client sig i n req) \<longleftrightarrow>
     request_Verify C sig ''vipnode_client'' i n [ClientRequest_json req] = Inr ()"
| "call_verified C (Peer sig i n req) \<longleftrightarrow> True"
| "call_verified C (Close svc) \<longleftrightarrow> True"

lemma apfst_is_ok: "apfst is_ok x = (ok, p') \<longleftrightarrow> ok = is_ok (fst x) \<and> p' = snd x"
  by (cases x) auto

lemma pool_verify_unverified:
  "request_Verify (pc_crypto cfg) sig m i n [arg] \<noteq> Inr () \<Longrightarrow>
   \<exists>e. pool_verify cfg now sig m i n arg p = (Inl e, p)"
  by (cases "request_Verify (pc_crypto cfg) sig m i n [arg]") (simp_all add: pool_verify_def)

lemma unverified_refused:
  assumes "\<not> call_verified (pc_crypto cfg) c"
  shows "pool_exec cfg env c p = (False, p)"
proof (cases c)
  case (Connect sig i n req)
  then show ?thesis
    using assms pool_verify_unverified [of cfg sig "''vipnode_connect''" i n "ConnectRequest_json req" "e_clock env 0" p]
    by (auto simp: pool_exec_def pool_Connect_def)
next
  case (Update sig i n req)
  then show ?thesis
    using assms
      pool_verify_unverified [of cfg sig "''vipnode_update''" i n "UpdateRequest_json req" "e_clock env 0" p]
      pool_verify_unverified [of cfg sig "''vipnode_update''" i n "oldUpdateRequest_json req" "e_clock env 1" p]
    by (auto simp: pool_exec_def pool_Update_def Update_verify_def)
next
  case (Host sig i n req)
  then show ?thesis
    using assms pool_verify_unverified [of cfg sig "''vipnode_host''" i n "HostRequest_json req" "e_clock env 0" p]
    by (auto simp: pool_exec_def pool_Host_def)
next
  case (Client sig i n req)
  then show ?thesis
    using assms pool_verify_unverified [of cfg sig "''vipnode_client''" i n "ClientRequest_json req" "e_clock env 0" p]
    by (auto simp: pool_exec_def pool_Client_def)
qed (use assms in simp_all)

text \<open>The nonces of the requests of a node that a run of the pool accepted, in order.\<close>
definition accepted_requests :: "string \<Rightarrow> (env \<times> pool_call \<times> bool) list \<Rightarrow> int list" where
  "accepted_requests i ls =
     List.map_filter (\<lambda>(env, c, ok). if ok then (case signed_by c of
        Some (j, n) \<Rightarrow> if j = i then Some n else None | None \<Rightarrow> None) else None) ls"

locale nonce_pool = nonce_store "pc_Store cfg" last_nonce
  for cfg :: "'s pool_config" and last_nonce :: "'s \<Rightarrow> string \<Rightarrow> int" +
  assumes nonces_stable: "stable_pool cfg (\<lambda>s. last_nonce s = L)"
begin

lemmas kept = stable_pool.pool_connect_stable [OF nonces_stable] stable_pool.requestHosts_stable [OF nonces_stable]
  stable_pool.Update_body_stable [OF nonces_stable]

text \<open>The nonces of the store inside a pool.\<close>
definition nonces :: "'s pool \<Rightarrow> string \<Rightarrow> int" where
  "nonces p = last_nonce (p_Store p)"

text \<open>Either the nonces are as before, or the nonce of one owner went up to the given one.\<close>
definition raised :: "string \<Rightarrow> int \<Rightarrow> 's pool \<Rightarrow> 's pool \<Rightarrow> bool" where
  "raised i n p p' \<longleftrightarrow> nonces p i < n \<and> nonces p' = (nonces p)(i := n)"

lemma verify_ok:
  "pool_verify cfg now sig m i n arg p = (Inr u, p') \<Longrightarrow> raised i n p p'"
  using nonce_accept [of now i n "p_Store p"]
  by (auto simp: pool_verify_def on_store_def nonces_def raised_def Let_def split: sum.splits prod.splits)

lemma verify_err:
  "pool_verify cfg now sig m i n arg p = (Inl e, p') \<Longrightarrow> nonces p' = nonces p"
  using nonce_reject [of now i n "p_Store p"]
  by (auto simp: pool_verify_def on_store_def nonces_def Let_def split: sum.splits prod.splits)

lemma Update_verify_ok: "Update_verify cfg env sig i n req p = (Inr u, p') \<Longrightarrow> raised i n p p'"
  by (auto simp: Update_verify_def raised_def split: prod.splits sum.splits if_splits dest!: verify_ok verify_err)

lemma Update_verify_err: "Update_verify cfg env sig i n req p = (Inl e, p') \<Longrightarrow> nonces p' = nonces p"
  by (auto simp: Update_verify_def split: prod.splits sum.splits if_splits dest!: verify_err)

lemma kept_nonces:
  "pool_connect cfg env i creq p = (r1, p') \<Longrightarrow> nonces p' = nonces p"
  "requestHosts cfg env i num kind p = (r2, p') \<Longrightarrow> nonces p' = nonces p"
  "Update_body cfg env i ureq p = (r3, p') \<Longrightarrow> nonces p' = nonces p"
  unfolding nonces_def by (erule kept(1) [OF refl], erule kept(2) [OF refl], erule kept(3) [OF refl])

lemmas kept_snd = kept_nonces(1) [OF prod.collapse [symmetric]] kept_nonces(3) [OF prod.collapse [symmetric]]

lemma exec_raised:
  assumes "pool_exec cfg env c p = (ok, p')" and "signed_by c = Some (i, n)"
  shows "if ok then raised i n p p' else nonces p' = nonces p \<or> raised i n p p'"
proof (cases c)
  case (Connect sig j m req)
  then show ?thesis
    using assms by (auto simp: pool_exec_def pool_Connect_def raised_def apfst_is_ok kept_snd
        split: prod.splits sum.splits dest!: verify_ok verify_err)
next
  case (Update sig j m req)
  then show ?thesis
    using assms by (auto simp: pool_exec_def pool_Update_def raised_def apfst_is_ok kept_snd
        split: prod.splits sum.splits dest!: Update_verify_ok Update_verify_err)
next
  case (Host sig j m req)
  then show ?thesis
    using assms by (auto simp: pool_exec_def pool_Host_def raised_def Let_def apfst_is_ok
        split: prod.splits sum.splits dest!: verify_ok verify_err kept_nonces)
next
  case (Client sig j m req)
  then show ?thesis
    using assms by (auto simp: pool_exec_def pool_Client_def raised_def Let_def apfst_is_ok
        split: prod.splits sum.splits dest!: verify_ok verify_err kept_nonces)
qed (use assms in simp_all)

lemma exec_unsigned:
  "pool_exec cfg env c p = (ok, p') \<Longrightarrow> signed_by c = None \<Longrightarrow> nonces p' = nonces p"
proof (cases c)
  case (Peer sig i n req)
  assume "pool_exec cfg env c p = (ok, p')"
  then show ?thesis
    using Peer by (auto simp: pool_exec_def pool_Peer_def apfst_is_ok split: prod.splits sum.splits
        dest!: kept_nonces(2))
next
  case (Close svc)
  assume "pool_exec cfg env c p = (ok, p')"
  then show ?thesis
    using Close by (auto simp: pool_exec_def CloseRemote_def apfst_is_ok nonces_def split: option.splits)
qed simp_all

text \<open>Along a run of the pool the accepted requests of a node carry increasing nonces.\<close>
lemma run_increasing:
  "pool_steps cfg p ls p' \<Longrightarrow> sorted_wrt (<) (nonces p i # accepted_requests i ls)"
proof (induction rule: pool_steps.induct)
  case (pool_done p)
  then show ?case by (simp add: accepted_requests_def List.map_filter_def)
next
  case (pool_more p l p1 ls p2)
  obtain env c ok where l: "l = (env, c, ok)" by (cases l)
  have exec: "pool_exec cfg env c p = (ok, p1)" using pool_more.hyps(1) l by (auto elim: pool_stepE)
  have acc: "accepted_requests i (l # ls) =
      (if ok \<and> (\<exists>n. signed_by c = Some (i, n)) then [snd (the (signed_by c))] else []) @ accepted_requests i ls"
    by (auto simp: accepted_requests_def List.map_filter_simps l split: option.splits)
  show ?case
  proof (cases "signed_by c")
    case None
    then show ?thesis using pool_more.IH exec_unsigned [OF exec] acc by simp
  next
    case (Some jn)
    obtain j n where jn: "jn = (j, n)" by (cases jn)
    have "raised j n p p1 \<or> \<not> ok \<and> nonces p1 = nonces p"
      using exec_raised [OF exec] Some jn by (auto split: if_splits)
    then consider "raised j n p p1" | "\<not> ok" "nonces p1 = nonces p" by blast
    then show ?thesis
    proof cases
      case 1
      then show ?thesis using pool_more.IH acc Some jn by (cases "i = j") (auto simp: raised_def)
    next
      case 2
      then show ?thesis using pool_more.IH acc by simp
    qed
  qed
qed

end

text \<open>An invariant of the store that the nonce check keeps too is kept by every call.\<close>
locale invariant_pool = stable_pool cfg P
  for cfg :: "'s pool_config" and P +
  assumes nonce_inv: "P s \<Longrightarrow> P (snd (CheckAndSaveNonce (pc_Store cfg) now i n s))"
begin

lemma verify_inv: "pool_verify cfg now sig m i n arg p = (r, p') \<Longrightarrow> holds p \<Longrightarrow> holds p'"
  using nonce_inv [of "p_Store p" now i n]
  by (auto simp: pool_verify_def on_store_def split_beta Let_def split: sum.splits)

lemma Update_verify_inv: "Update_verify cfg env sig i n req p = (r, p') \<Longrightarrow> holds p \<Longrightarrow> holds p'"
  by (auto simp: Update_verify_def split: prod.splits sum.splits if_splits dest!: verify_inv)

lemma exec_inv: "holds p \<Longrightarrow> holds (snd (pool_exec cfg env c p))"
proof (cases c)
  case (Connect sig i n req)
  assume "holds p"
  then show ?thesis
    using Connect by (auto simp: pool_exec_def pool_Connect_def split: prod.splits sum.splits
        dest!: verify_inv intro: pool_connect_stable [OF _ prod.collapse [symmetric]])
next
  case (Update sig i n req)
  assume "holds p"
  then show ?thesis
    using Update by (auto simp: pool_exec_def pool_Update_def split: prod.splits sum.splits
        dest!: Update_verify_inv intro: Update_body_stable [OF _ prod.collapse [symmetric]])
next
  case (Peer sig i n req)
  assume "holds p"
  then show ?thesis
    using Peer requestHosts_stable [OF _ prod.collapse [symmetric], of p]
    by (auto simp: pool_exec_def pool_Peer_def split_beta split: prod.splits sum.splits)
next
  case (Host sig i n req)
  assume "holds p"
  then show ?thesis
    using Host by (auto simp: pool_exec_def pool_Host_def Let_def split: prod.splits sum.splits
        dest!: verify_inv dest: pool_connect_stable)
next
  case (Client sig i n req)
  assume "holds p"
  then show ?thesis
    using Client by (auto simp: pool_exec_def pool_Client_def Let_def split: prod.splits sum.splits
        dest!: verify_inv dest: pool_connect_stable requestHosts_stable)
next
  case (Close svc)
  assume "holds p"
  then show ?thesis using Close by (simp add: pool_exec_def CloseRemote_def split: option.splits)
qed

lemma run_inv: "pool_steps cfg p ls p' \<Longrightarrow> holds p \<Longrightarrow> holds p'"
proof (erule pool_steps_invariant [where P = holds], assumption)
  fix q l q' assume "holds q" and "pool_step cfg q l q'"
  then show "holds q'" using exec_inv [of q] by (auto elim!: pool_stepE dest!: arg_cong [where f = snd])
qed

end

end
