(* ===== verification/Pool_Correctness.thy ===== *)
theory Pool_Correctness
  imports Pool_Service
begin

text \<open>
  The pool over the in-memory driver. \<open>mem_cfg\<close> is a pool configuration with that driver
  and with either balance manager. The theory interprets the pool's contracts on it and
  shows how requests for hosts are answered, what an update does to the ledger and what the
  registry of connections keeps.
\<close>

section \<open>The pool over the in-memory store\<close>

definition mem_cfg :: "memoryStore pool_config \<Rightarrow> payPerInterval option \<Rightarrow> memoryStore pool_config" where
  "mem_cfg cfg pay = cfg\<lparr>pc_Store := mem_Store,
     pc_Manager := (case pay of None \<Rightarrow> NoBalance | Some b \<Rightarrow> pay_Manager mem_Store b)\<rparr>"

lemma mem_cfg_fields [simp]:
  "pc_Store (mem_cfg cfg pay) = mem_Store"
  "pc_Manager (mem_cfg cfg pay) = (case pay of None \<Rightarrow> NoBalance | Some b \<Rightarrow> pay_Manager mem_Store b)"
  "pc_crypto (mem_cfg cfg pay) = pc_crypto cfg"
  "pc_MaxRequestHosts (mem_cfg cfg pay) = pc_MaxRequestHosts cfg"
  "pc_skipWhitelist (mem_cfg cfg pay) = pc_skipWhitelist cfg"
  "pc_RestrictNetwork (mem_cfg cfg pay) = pc_RestrictNetwork cfg"
  "latest_block (mem_cfg cfg pay) env s = latest_block cfg env s"
  by (simp_all add: mem_cfg_def latest_block_def split: option.split)

lemma stable_manager:
  assumes "stable_store mem_Store P"
  shows "stable_pool (mem_cfg cfg pay) P"
proof -
  have "P (snd (OnClient (pc_Manager (mem_cfg cfg pay)) clk n s))" if "P s" for clk n s
    using that stable_store.pay_OnClient_stable [OF assms that]
    by (cases pay) (simp_all add: NoBalance_def NoBalance_OnClient_def pay_Manager_def)
  moreover have "P (snd (OnUpdate (pc_Manager (mem_cfg cfg pay)) clk n peers s))" if "P s" for clk n peers s
    using that stable_store.pay_OnUpdate_stable [OF assms that]
    by (cases pay) (simp_all add: NoBalance_def NoBalance_OnUpdate_def pay_Manager_def)
  ultimately show ?thesis using assms by (simp add: stable_pool_def stable_pool_axioms_def)
qed

lemma mem_stable_inv: "stable_store mem_Store mem_inv"
  by unfold_locales (rule mem_inv_exec)

lemma mem_stable_nonces: "stable_store mem_Store (\<lambda>s. mem_last_nonce s = L)"
  by unfold_locales (simp add: mem_nonce.nonce_frame)

interpretation mem_pool_inv: invariant_pool "mem_cfg cfg pay" mem_inv for cfg pay
proof (intro invariant_pool.intro stable_manager mem_stable_inv invariant_pool_axioms.intro)
  fix s now i n
  assume "mem_inv s"
  then show "mem_inv (snd (CheckAndSaveNonce (pc_Store (mem_cfg cfg pay)) now i n s))"
    using mem_inv_CheckAndSaveNonce by (simp add: mem_Store_def)
qed

interpretation mem_pool_nonce: nonce_pool "mem_cfg cfg pay" mem_last_nonce for cfg pay
proof (intro nonce_pool.intro nonce_pool_axioms.intro stable_manager mem_stable_nonces)
  show "nonce_store (pc_Store (mem_cfg cfg pay)) mem_last_nonce"
    using mem_nonce.nonce_store_axioms by simp
qed

section \<open>A small pool\<close>

text \<open>
  A concrete environment and configuration: every host answers, the service the call came
  in on is number 1, and \<open>toy_crypto\<close> stands for the cryptography.
\<close>
definition demo_env :: env where
  "demo_env = \<lparr>e_clock = int, e_ord = (\<lambda>_. sorted_list_of_fset), e_service = Some 1,
     e_RemoteAddr = Some ''192.0.2.7:5000'', e_Call = (\<lambda>svc m i. Inr ()), e_arrival = (\<lambda>n. [0..<n])\<rparr>"

definition demo_cfg :: "memoryStore pool_config" where
  "demo_cfg = pool_New_config toy_crypto mem_Store None"

definition demo_agent :: "bool \<Rightarrow> UserAgent" where
  "demo_agent full = \<lparr>ua_Version = ''Geth/v1'', ua_EthProtocol = ''63'', ua_Kind = Geth, ua_Network = Mainnet,
     ua_IsFullNode = full\<rparr>"

definition demo_connect :: "int \<Rightarrow> bool \<Rightarrow> pool_call" where
  "demo_connect n full = Connect (replicate 130 (CHR ''0'')) ''0xab'' n \<lparr>cr_VipnodeVersion = ''v2'',
     cr_NodeInfo = demo_agent full, cr_NodeURI = '''', cr_Payout = ''''\<rparr>"

definition demo_pool :: "memoryStore pool" where
  "demo_pool = snd (pool_exec (mem_cfg demo_cfg None) demo_env (demo_connect 5 True) (pool_New mem_New))"

lemma demo_step: "pool_steps (mem_cfg demo_cfg None) (pool_New mem_New) [(demo_env, demo_connect 5 True, True)] demo_pool"
proof -
  have "fst (pool_exec (mem_cfg demo_cfg None) demo_env (demo_connect 5 True) (pool_New mem_New)) = True"
    by code_simp
  then have "pool_step (mem_cfg demo_cfg None) (pool_New mem_New) (demo_env, demo_connect 5 True, True) demo_pool"
    unfolding demo_pool_def by (intro pool_call) (simp add: prod_eq_iff)
  from pool_more [OF this pool_done] show ?thesis .
qed

section \<open>Authentication\<close>







section \<open>Requests for hosts\<close>

lemma map_filter_mset:
  assumes "mset xs = mset ys"
  shows "mset (List.map_filter f xs) = mset (List.map_filter f ys)"
proof -
  have "mset (filter (\<lambda>x. f x \<noteq> None) xs) = mset (filter (\<lambda>x. f x \<noteq> None) ys)" using assms by simp
  then show ?thesis by (simp add: List.map_filter_def)
qed

lemma arrival_mset:
  assumes "arrival_order f"
  shows "mset (map (\<lambda>i. g (xs ! i)) (f (length xs))) = mset (map g xs)"
proof -
  have "mset (f (length xs)) = mset [0..<length xs]"
    using assms set_eq_iff_mset_eq_distinct [of "f (length xs)" "[0..<length xs]"] by (simp add: arrival_order_def)
  then have "mset (map (\<lambda>i. g (xs ! i)) (f (length xs))) = mset (map (\<lambda>i. g (xs ! i)) [0..<length xs])"
    by simp
  also have "map (\<lambda>i. g (xs ! i)) [0..<length xs] = map g xs"
    by (rule nth_equalityI) simp_all
  finally show ?thesis .
qed

text \<open>Whatever the order of arrival, the accepted hosts are those whose call succeeded.\<close>
lemma accepted_whitelist:
  assumes "arrival_order (e_arrival env)"
  shows "mset (accepted_of (whitelist_calls env i remotes)) =
    mset (map fst (filter (\<lambda>(n, svc). is_ok (e_Call env svc ''vipnode_whitelist'' i)) remotes))"
proof -
  define g where "g = (\<lambda>rs. case e_Call env (snd rs) ''vipnode_whitelist'' i of Inr _ \<Rightarrow> Inl (fst rs) | Inl e \<Rightarrow> (Inr e :: node + go_error))"
  have "mset (whitelist_calls env i remotes) = mset (map g remotes)"
    using arrival_mset [OF assms, of g remotes] by (simp add: whitelist_calls_def g_def)
  then have "mset (accepted_of (whitelist_calls env i remotes)) = mset (accepted_of (map g remotes))"
    unfolding accepted_of_def by (rule map_filter_mset)
  also have "accepted_of (map g remotes) =
      map fst (filter (\<lambda>(n, svc). is_ok (e_Call env svc ''vipnode_whitelist'' i)) remotes)"
    by (induction remotes) (auto simp: accepted_of_def g_def List.map_filter_simps is_ok_def split: sum.splits)
  finally show ?thesis .
qed

lemma host_services_set:
  "(n, svc) \<in> set (host_services skip remotes r) \<longleftrightarrow>
   n \<in> set r \<and> n_ID n \<notin> skip \<and> fmlookup remotes (n_ID n) = Some svc"
  by (induction r) (auto simp: host_services_def List.map_filter_simps split: option.splits)

lemma host_services_distinct:
  "distinct (map n_ID r) \<Longrightarrow> distinct (map (n_ID \<circ> fst) (host_services skip remotes r))"
proof (induction r)
  case (Cons n r)
  have "n_ID n \<notin> (n_ID \<circ> fst) ` set (host_services skip remotes r)"
    using Cons.prems by (force simp: host_services_set)
  then show ?case
    using Cons by (auto simp: host_services_def List.map_filter_simps split: option.splits)
qed (simp add: host_services_def List.map_filter_simps)

text \<open>The steps of a request for hosts that was answered after calling the remotes.\<close>
lemma requestHosts_answered:
  assumes "requestHosts cfg env i num kind p = (Inr hosts, p')" and "hosts \<noteq> []" and "\<not> pc_skipWhitelist cfg"
  obtains peers p1 r p2 where
    "on_store (NodePeers (pc_Store cfg) (e_ord env 2) i) p = (Inr peers, p1)"
    "on_store (ActiveHosts (pc_Store cfg) (e_clock env 20) (e_ord env 3) kind
       (int64 ((if 0 < pc_MaxRequestHosts cfg \<and> pc_MaxRequestHosts cfg < num then pc_MaxRequestHosts cfg else num)
          + int (card (set (i # map n_ID peers)))))) p1 = (Inr r, p2)"
    "hosts = accepted_of (whitelist_calls env i (host_services (set (i # map n_ID peers)) (p_remoteHosts p2) r))"
    "p' = record_calls ''vipnode_whitelist'' i
       (map snd (host_services (set (i # map n_ID peers)) (p_remoteHosts p2) r)) p2"
  using assms unfolding requestHosts_def Let_def
  by (auto split: if_splits prod.splits sum.splits intro!: that)

lemma on_store_mem:
  "on_store (NodePeers mem_Store ord i) p = (r1, p1) \<longleftrightarrow> r1 = fst (mem_NodePeers ord i (p_Store p)) \<and> p1 = p"
  "on_store (ActiveHosts mem_Store now ord k l) p = (r2, p2) \<longleftrightarrow> r2 = fst (mem_ActiveHosts now ord k l (p_Store p)) \<and> p2 = p"
  "on_store (GetNode mem_Store i) p = (r3, p3) \<longleftrightarrow> r3 = fst (mem_GetNode i (p_Store p)) \<and> p3 = p"
  by (auto simp: on_store_def mem_Store_def split_beta Let_def)

lemma mem_ActiveHosts_members:
  assumes "mem_inv s" and "range_order ord" and "fst (mem_ActiveHosts now ord kind limit s) = Inr r"
  shows "distinct (map n_ID r)" and "\<And>h. h \<in> set r \<Longrightarrow> \<exists>nd. fmlookup (ms_nodes s) (n_ID h) = Some nd \<and>
     mn_Node nd = h \<and> host_matches kind (now - ExpireInterval) h"
    and "0 < limit \<Longrightarrow> int (length r) \<le> limit"
proof -
  have "0 \<le> limit" using assms(3) by (simp add: mem_ActiveHosts_def split: if_splits)
  define hs where "hs = filter (host_matches kind (now - ExpireInterval)) (mem_node_list ord s)"
  have r: "r = (if limit = 0 then hs else take (nat limit) hs)"
    using assms(3) mem_ActiveHosts_eq [OF \<open>0 \<le> limit\<close>, of now ord kind s] by (auto simp: hs_def Let_def time_simps)
  have "distinct (map n_ID (mem_node_list ord s))"
    using assms(1,2) by (simp add: mem_node_list_IDs range_order_distinct)
  then show "distinct (map n_ID r)" by (simp add: r hs_def distinct_map_filter take_map [symmetric])
  show "0 < limit \<Longrightarrow> int (length r) \<le> limit" by (auto simp: r min_def)
  fix h assume "h \<in> set r"
  then have "h \<in> set hs" by (auto simp: r split: if_splits dest: in_set_takeD)
  then obtain i nd where nd: "fmlookup (ms_nodes s) i = Some nd" "mn_Node nd = h"
      and m: "host_matches kind (now - ExpireInterval) h"
    using assms(2) by (auto simp: hs_def mem_node_list_set)
  have "n_ID h = i" using mem_inv_node_ID [OF assms(1) nd(1)] nd(2) by simp
  then show "\<exists>nd. fmlookup (ms_nodes s) (n_ID h) = Some nd \<and> mn_Node nd = h \<and>
      host_matches kind (now - ExpireInterval) h" using nd m by blast
qed

text \<open>The number of hosts asked for, after the limit of the pool.\<close>
definition effective_num :: "'s pool_config \<Rightarrow> int \<Rightarrow> int" where
  "effective_num cfg num = (if 0 < pc_MaxRequestHosts cfg \<and> pc_MaxRequestHosts cfg < num then pc_MaxRequestHosts cfg else num)"

text \<open>A host that is fit for node \<open>i\<close>: active, of the kind, not itself and not its peer.\<close>
definition fit_host :: "memoryStore \<Rightarrow> time \<Rightarrow> string \<Rightarrow> node_id \<Rightarrow> node \<Rightarrow> bool" where
  "fit_host s now kind i h \<longleftrightarrow>
     (\<exists>nd. fmlookup (ms_nodes s) (n_ID h) = Some nd \<and> mn_Node nd = h) \<and>
     host_matches kind (now - ExpireInterval) h \<and> n_ID h \<noteq> i \<and>
     (\<forall>self. fmlookup (ms_nodes s) i = Some self \<longrightarrow> fmlookup (mn_peers self) (n_ID h) = None)"

lemma mem_NodePeers_set:
  assumes "range_order ord" and "mem_inv s" and "fst (mem_NodePeers ord i s) = Inr peers"
  shows "n_ID ` set peers = {k. fmlookup (ms_nodes s) k \<noteq> None \<and>
    (\<exists>self. fmlookup (ms_nodes s) i = Some self \<and> fmlookup (mn_peers self) k \<noteq> None)}"
proof -
  from assms(3) obtain self where self: "fmlookup (ms_nodes s) i = Some self"
    by (auto simp: mem_NodePeers_def split: option.splits)
  have peers: "peers = map (\<lambda>k. mn_Node (the (fmlookup (ms_nodes s) k)))
      (filter (\<lambda>k. fmlookup (ms_nodes s) k \<noteq> None) (ord (fmdom (mn_peers self))))"
    using assms(3) mem_NodePeers_eq [OF assms(1) self] by (metis Inr_inject fst_conv)
  have "n_ID ` set peers = (\<lambda>k. n_ID (mn_Node (the (fmlookup (ms_nodes s) k)))) `
      {k. fmlookup (ms_nodes s) k \<noteq> None \<and> fmlookup (mn_peers self) k \<noteq> None}"
    using range_order_mem [OF assms(1), of _ "mn_peers self"] by (auto simp: peers image_image)
  also have "\<dots> = id ` {k. fmlookup (ms_nodes s) k \<noteq> None \<and> fmlookup (mn_peers self) k \<noteq> None}"
    using mem_inv_node_ID [OF assms(2)] by (intro image_cong) auto
  finally show ?thesis using self by auto
qed

lemma requestHosts_mem:
  assumes "mem_inv (p_Store p)" and "range_order (e_ord env 2)" and "range_order (e_ord env 3)"
    and "requestHosts (mem_cfg cfg pay) env i num kind p = (Inr hosts, p')" and "hosts \<noteq> []"
    and "\<not> pc_skipWhitelist cfg"
  obtains peers r where
    "fst (mem_NodePeers (e_ord env 2) i (p_Store p)) = Inr peers"
    "fst (mem_ActiveHosts (e_clock env 20) (e_ord env 3) kind
       (int64 (effective_num cfg num + int (card (insert i (n_ID ` set peers))))) (p_Store p)) = Inr r"
    "hosts = accepted_of (whitelist_calls env i (host_services (insert i (n_ID ` set peers)) (p_remoteHosts p) r))"
    "p' = record_calls ''vipnode_whitelist'' i
       (map snd (host_services (insert i (n_ID ` set peers)) (p_remoteHosts p) r)) p"
proof -
  have skip: "\<not> pc_skipWhitelist (mem_cfg cfg pay)" using assms(6) by simp
  from requestHosts_answered [OF assms(4,5) skip] obtain peers p1 r p2 where
    "on_store (NodePeers mem_Store (e_ord env 2) i) p = (Inr peers, p1)"
    "on_store (ActiveHosts mem_Store (e_clock env 20) (e_ord env 3) kind
       (int64 (effective_num cfg num + int (card (set (i # map n_ID peers)))))) p1 = (Inr r, p2)"
    "hosts = accepted_of (whitelist_calls env i (host_services (set (i # map n_ID peers)) (p_remoteHosts p2) r))"
    "p' = record_calls ''vipnode_whitelist'' i
       (map snd (host_services (set (i # map n_ID peers)) (p_remoteHosts p2) r)) p2"
    unfolding effective_num_def mem_cfg_fields by blast
  then show thesis using that [of peers r] unfolding on_store_mem by simp
qed

lemma fit_host_iff:
  assumes "range_order ord" and "mem_inv s" and "fst (mem_NodePeers ord i s) = Inr peers"
    and "fmlookup (ms_nodes s) (n_ID h) = Some nd" and "mn_Node nd = h" and "host_matches kind (now - ExpireInterval) h"
  shows "fit_host s now kind i h \<longleftrightarrow> n_ID h \<notin> insert i (n_ID ` set peers)"
proof -
  from assms(3) obtain self where "fmlookup (ms_nodes s) i = Some self"
    by (auto simp: mem_NodePeers_def split: option.splits)
  then show ?thesis
    unfolding mem_NodePeers_set [OF assms(1-3)] fit_host_def using assms(4-6) by auto
qed

text \<open>
  C28: hosts given to a node are ready for it. Every host in the answer to a request for hosts is
  registered, of the wanted kind, seen within two keepalive intervals, not the node itself and
  not among its current peers; it is connected to the pool and was told, successfully,
  to whitelist the node. No host is named twice.
\<close>
theorem returned_hosts_are_ready:
  assumes "mem_inv (p_Store p)" and "range_order (e_ord env 2)" and "range_order (e_ord env 3)"
    and "arrival_order (e_arrival env)" and "\<not> pc_skipWhitelist cfg"
    and "requestHosts (mem_cfg cfg pay) env i num kind p = (Inr hosts, p')"
  shows "distinct (map n_ID hosts) \<and>
    (\<forall>h\<in>set hosts. fit_host (p_Store p) (e_clock env 20) kind i h \<and>
       (\<exists>svc. fmlookup (p_remoteHosts p) (n_ID h) = Some svc \<and>
          is_ok (e_Call env svc ''vipnode_whitelist'' i) \<and> (svc, ''vipnode_whitelist'', i) \<in> set (p_sent p')))"
proof (cases "hosts = []")
  case False
  from requestHosts_mem [OF assms(1-3,6) False assms(5)] obtain peers r where
    peers: "fst (mem_NodePeers (e_ord env 2) i (p_Store p)) = Inr peers" and
    r: "fst (mem_ActiveHosts (e_clock env 20) (e_ord env 3) kind
       (int64 (effective_num cfg num + int (card (insert i (n_ID ` set peers))))) (p_Store p)) = Inr r" and
    hosts: "hosts = accepted_of (whitelist_calls env i (host_services (insert i (n_ID ` set peers)) (p_remoteHosts p) r))" and
    p': "p' = record_calls ''vipnode_whitelist'' i
       (map snd (host_services (insert i (n_ID ` set peers)) (p_remoteHosts p) r)) p" by metis
  define hsv where "hsv = host_services (insert i (n_ID ` set peers)) (p_remoteHosts p) r"
  have acc: "mset hosts = mset (map fst (filter (\<lambda>(n, svc). is_ok (e_Call env svc ''vipnode_whitelist'' i)) hsv))"
    using accepted_whitelist [OF assms(4), of i hsv] by (simp add: hosts hsv_def)
  note members = mem_ActiveHosts_members [OF assms(1,3) r]
  have "distinct (map (n_ID \<circ> fst) (filter (\<lambda>(n, svc). is_ok (e_Call env svc ''vipnode_whitelist'' i)) hsv))"
    unfolding hsv_def by (intro distinct_map_filter host_services_distinct members(1))
  moreover have "mset (map n_ID hosts) =
      mset (map (n_ID \<circ> fst) (filter (\<lambda>(n, svc). is_ok (e_Call env svc ''vipnode_whitelist'' i)) hsv))"
    using acc by (simp add: multiset.map_comp [symmetric] del: multiset.map_comp)
  ultimately have dist: "distinct (map n_ID hosts)" using mset_eq_imp_distinct_iff by blast
  have "fit_host (p_Store p) (e_clock env 20) kind i h \<and>
       (\<exists>svc. fmlookup (p_remoteHosts p) (n_ID h) = Some svc \<and>
          is_ok (e_Call env svc ''vipnode_whitelist'' i) \<and> (svc, ''vipnode_whitelist'', i) \<in> set (p_sent p'))"
    if h: "h \<in> set hosts" for h
  proof -
    have "h \<in> set (map fst (filter (\<lambda>(n, svc). is_ok (e_Call env svc ''vipnode_whitelist'' i)) hsv))"
      using h acc by (metis set_mset_mset)
    then obtain svc where hs: "(h, svc) \<in> set hsv" and ok: "is_ok (e_Call env svc ''vipnode_whitelist'' i)" by auto
    from hs have in_r: "h \<in> set r" and skip: "n_ID h \<notin> insert i (n_ID ` set peers)"
      and svc: "fmlookup (p_remoteHosts p) (n_ID h) = Some svc"
      unfolding hsv_def host_services_set by blast+
    have "fit_host (p_Store p) (e_clock env 20) kind i h"
      using members(2) [OF in_r] fit_host_iff [OF assms(2,1) peers] skip by metis
    moreover have "(svc, ''vipnode_whitelist'', i) \<in> set (p_sent p')"
      using hs by (force simp: p' record_calls_def hsv_def)
    ultimately show ?thesis using svc ok by blast
  qed
  then show ?thesis using dist by blast
qed simp

text \<open>A pool with two connected hosts and a client that has no peers.\<close>
definition demo_hosts :: "memoryStore pool" where
  "demo_hosts = (pool_New (snd (Store_run mem_Store
     [CSetNode (demo_node ''h1'' True 1000), CSetNode (demo_node ''h2'' True 1000), CSetNode (demo_node ''c'' False 1000)]
     mem_New)))\<lparr>p_remoteHosts := fmupd ''h1'' 1 (fmupd ''h2'' 2 fmempty),
       p_remoteNodeLookup := fmupd 1 ''h1'' (fmupd 2 ''h2'' fmempty)\<rparr>"

lemma demo_hosts_inv: "mem_inv (p_Store demo_hosts)"
  by (simp add: demo_hosts_def pool_New_def mem_audit.run_inv mem_inv_New del: Store_run.simps)

lemma demo_env_orders: "range_order (e_ord demo_env k)" "arrival_order (e_arrival demo_env)"
  by (simp_all add: demo_env_def range_order_sorted arrival_order_def)

theorem returned_hosts_are_ready_witness:
  "\<exists>hosts p'. requestHosts (mem_cfg demo_cfg None) demo_env ''c'' 1 ''geth'' demo_hosts = (Inr hosts, p') \<and>
     distinct (map n_ID hosts)"
proof -
  let ?r = "requestHosts (mem_cfg demo_cfg None) demo_env ''c'' 1 ''geth'' demo_hosts"
  have "is_ok (fst ?r)" by code_simp
  then obtain hosts where "?r = (Inr hosts, snd ?r)" unfolding is_ok_iff by (metis prod.collapse)
  moreover have "\<not> pc_skipWhitelist demo_cfg" by (simp add: demo_cfg_def pool_New_config_def)
  ultimately show ?thesis
    using returned_hosts_are_ready [OF demo_hosts_inv demo_env_orders(1) demo_env_orders(1) demo_env_orders(2)] by blast
qed

text \<open>
  The limit on hosts is not a limit on the answer. A pool that lets clients request one host at most gives a
  client that asked for one host two, since the number of candidates it fetches is raised
  by the number of nodes to skip and never cut back; and a client that asks for minus one host gets
  every active host.
\<close>
theorem more_hosts_than_allowed:
  "map_sum (\<lambda>e. ()) (map n_ID) (fst (requestHosts (mem_cfg (demo_cfg\<lparr>pc_MaxRequestHosts := 1\<rparr>) None) demo_env ''c'' 1 '''' demo_hosts))
     = Inr [''h1'', ''h2''] \<and>
   map_sum (\<lambda>e. ()) (map n_ID) (fst (requestHosts (mem_cfg (demo_cfg\<lparr>pc_MaxRequestHosts := 1\<rparr>) None) demo_env ''c'' (- 1) '''' demo_hosts))
     = Inr [''h1'', ''h2'']"
  by code_simp

text \<open>
  how many hosts an answer can have: not more than the number asked for (after the pool's
  limit) plus one for the node itself and one for each of its peers, when that sum is a positive machine
  integer.
\<close>
theorem returned_hosts_bounded:
  assumes "mem_inv (p_Store p)" and "range_order (e_ord env 2)" and "range_order (e_ord env 3)"
    and "arrival_order (e_arrival env)" and "\<not> pc_skipWhitelist cfg"
    and "fmlookup (ms_nodes (p_Store p)) i = Some self"
    and "requestHosts (mem_cfg cfg pay) env i num kind p = (Inr hosts, p')"
    and "0 < effective_num cfg num" and "effective_num cfg num + int (fcard (fmdom (mn_peers self))) < max_int64"
  shows "int (length hosts) \<le> effective_num cfg num + 1 + int (fcard (fmdom (mn_peers self)))"
proof (cases "hosts = []")
  case False
  from requestHosts_mem [OF assms(1-3,7) False assms(5)] obtain peers r where
    peers: "fst (mem_NodePeers (e_ord env 2) i (p_Store p)) = Inr peers" and
    r: "fst (mem_ActiveHosts (e_clock env 20) (e_ord env 3) kind
       (int64 (effective_num cfg num + int (card (insert i (n_ID ` set peers))))) (p_Store p)) = Inr r" and
    hosts: "hosts = accepted_of (whitelist_calls env i (host_services (insert i (n_ID ` set peers)) (p_remoteHosts p) r))"
    by metis
  have "n_ID ` set peers \<subseteq> fmdom' (mn_peers self)"
    using assms(6) unfolding mem_NodePeers_set [OF assms(2,1) peers] by (auto simp: fmlookup_dom'_iff)
  then have "card (n_ID ` set peers) \<le> card (fmdom' (mn_peers self))" by (rule card_mono [OF finite_fmdom'])
  then have skip: "card (insert i (n_ID ` set peers)) \<le> 1 + fcard (fmdom (mn_peers self))"
    using card_insert_le_m1 [of "Suc (card (n_ID ` set peers))" "n_ID ` set peers" i]
    by (simp add: fcard.rep_eq fmdom'_alt_def)
  define lim where "lim = effective_num cfg num + int (card (insert i (n_ID ` set peers)))"
  have lim: "0 < lim" "lim \<le> max_int64" "lim \<le> effective_num cfg num + 1 + int (fcard (fmdom (mn_peers self)))"
    using assms(8,9) skip by (auto simp: lim_def)
  then have "int64 lim = lim" by (intro int64_id) (simp_all add: min_int64_def)
  then have "int (length r) \<le> lim"
    using mem_ActiveHosts_members(3) [OF assms(1,3) r] lim(1) by (simp add: lim_def)
  moreover have "length hosts \<le> length r"
  proof -
    have "length hosts = length (filter (\<lambda>(n, svc). is_ok (e_Call env svc ''vipnode_whitelist'' i))
        (host_services (insert i (n_ID ` set peers)) (p_remoteHosts p) r))"
      using accepted_whitelist [OF assms(4), THEN mset_eq_length] hosts by simp
    also have "\<dots> \<le> length (host_services (insert i (n_ID ` set peers)) (p_remoteHosts p) r)"
      by (rule length_filter_le)
    also have "\<dots> \<le> length r"
      by (simp add: host_services_def List.map_filter_def)
    finally show ?thesis .
  qed
  ultimately show ?thesis using lim(3) by linarith
qed (use assms(8) in simp)

theorem returned_hosts_bounded_witness:
  "\<exists>hosts p'. requestHosts (mem_cfg demo_cfg None) demo_env ''c'' 1 '''' demo_hosts = (Inr hosts, p') \<and>
     int (length hosts) \<le> 2"
proof -
  let ?r = "requestHosts (mem_cfg demo_cfg None) demo_env ''c'' 1 '''' demo_hosts"
  have "is_ok (fst ?r)" by code_simp
  then obtain hosts where hosts: "?r = (Inr hosts, snd ?r)" unfolding is_ok_iff by (metis prod.collapse)
  have skip: "\<not> pc_skipWhitelist demo_cfg" by (simp add: demo_cfg_def pool_New_config_def)
  have self: "map_option (\<lambda>m. fcard (fmdom (mn_peers m))) (fmlookup (ms_nodes (p_Store demo_hosts)) ''c'') = Some 0"
    by code_simp
  then obtain self where self: "fmlookup (ms_nodes (p_Store demo_hosts)) ''c'' = Some self"
      "fcard (fmdom (mn_peers self)) = 0" by auto
  have "effective_num demo_cfg 1 = 1" by (simp add: effective_num_def demo_cfg_def pool_New_config_def)
  then show ?thesis
    using returned_hosts_bounded [OF demo_hosts_inv demo_env_orders(1) demo_env_orders(1) demo_env_orders(2) skip self(1) hosts]
      self(2) hosts by (auto simp: max_int64_def)
qed

section \<open>Updates\<close>

text \<open>The store and the answer of the steps of an update over the in-memory driver.\<close>
lemma Update_body_mem:
  assumes "Update_body (mem_cfg cfg (Some b)) env i req p = (Inr resp, p')"
  obtains nd inactive s1 active bal s2 where
    "mem_GetNode i (p_Store p) = (Inr nd, p_Store p)"
    "mem_UpdateNodePeers (e_clock env 2) (e_ord env 0) i
       (Peers_IDs (case ur_PeerInfo req of None \<Rightarrow> [] | Some ps \<Rightarrow> ps)) (ur_BlockNumber req) (p_Store p) = (Inr inactive, s1)"
    "mem_NodePeers (e_ord env 1) i s1 = (Inr active, s1)"
    "pay_OnUpdate mem_Store b (\<lambda>k. e_clock env (3 + k)) nd active s1 = (Inr bal, s2)"
    "p_Store p' = s2" "us_Balance resp = Some bal" "us_InvalidPeers resp = inactive"
    "us_ActivePeers resp = map n_URI active"
proof -
  obtain nd where nd: "fst (mem_GetNode i (p_Store p)) = Inr nd"
    using assms by (auto simp: Update_body_def on_store_mem split: prod.splits sum.splits)
  then have get: "on_store (GetNode mem_Store i) p = (Inr nd, p)" by (simp add: on_store_mem)
  obtain q s1 where upd: "mem_UpdateNodePeers (e_clock env 2) (e_ord env 0) i
       (Peers_IDs (case ur_PeerInfo req of None \<Rightarrow> [] | Some ps \<Rightarrow> ps)) (ur_BlockNumber req) (p_Store p) = (q, s1)"
    by (cases "mem_UpdateNodePeers (e_clock env 2) (e_ord env 0) i
       (Peers_IDs (case ur_PeerInfo req of None \<Rightarrow> [] | Some ps \<Rightarrow> ps)) (ur_BlockNumber req) (p_Store p)")
  then have upd': "on_store (UpdateNodePeers mem_Store (e_clock env 2) (e_ord env 0) i
       (Peers_IDs (case ur_PeerInfo req of None \<Rightarrow> [] | Some ps \<Rightarrow> ps)) (ur_BlockNumber req)) p = (q, p\<lparr>p_Store := s1\<rparr>)"
    by (simp add: on_store_def mem_Store_def)
  obtain inactive where q: "q = Inr inactive"
    using assms get upd' by (auto simp: Update_body_def split: sum.splits)
  obtain active where act: "fst (mem_NodePeers (e_ord env 1) i s1) = Inr active"
    using assms get upd' q by (auto simp: Update_body_def on_store_mem split: prod.splits sum.splits)
  then have act': "on_store (NodePeers mem_Store (e_ord env 1) i) (p\<lparr>p_Store := s1\<rparr>) = (Inr active, p\<lparr>p_Store := s1\<rparr>)"
    by (simp add: on_store_mem)
  obtain r2 s2 where pay: "pay_OnUpdate mem_Store b (\<lambda>k. e_clock env (3 + k)) nd active s1 = (r2, s2)"
    by (cases "pay_OnUpdate mem_Store b (\<lambda>k. e_clock env (3 + k)) nd active s1")
  have charge: "on_store (OnUpdate (pay_Manager mem_Store b) (\<lambda>k. e_clock env (3 + k)) nd active) (p\<lparr>p_Store := s1\<rparr>)
      = (r2, p\<lparr>p_Store := s2\<rparr>)" using pay by (simp add: on_store_def pay_Manager_def)
  obtain bal where r2: "r2 = Inr bal"
  proof (cases r2)
    case (Inl e)
    then show ?thesis
      using assms get upd' q act' charge
      by (cases e) (auto simp: Update_body_def Update_charge_def split_beta split: sum.splits)
  qed blast
  have resp: "us_Balance resp = Some bal" "us_InvalidPeers resp = inactive" "us_ActivePeers resp = map n_URI active"
      "p_Store p' = s2"
    using assms get upd' q act' charge r2 by (auto simp: Update_body_def Update_charge_def split: sum.splits)
  show thesis
    using that [OF _ _ _ _ resp(4,1,2,3)] nd upd q act pay r2 mem_read_only(5) [of i "p_Store p"]
      mem_read_only(7) [of "e_ord env 1" i s1] by (simp add: prod_eq_iff)
qed

lemma Update_verify_mem:
  assumes "Update_verify (mem_cfg cfg pay) env sig i n req p = (r, p')"
  shows "\<exists>m. p_Store p' = (p_Store p)\<lparr>ms_nonces := m\<rparr>"
proof -
  have one: "\<exists>m. p_Store q' = (p_Store q)\<lparr>ms_nonces := m\<rparr>"
    if "pool_verify (mem_cfg cfg pay) now sig mt i n arg q = (r', q')" for now mt arg q r' q'
  proof (cases "request_Verify (pc_crypto cfg) sig mt i n [arg]")
    case (Inl e)
    then have "q' = q" using that by (auto simp: pool_verify_def)
    then show ?thesis by (metis memoryStore.surjective memoryStore.update_convs(5))
  next
    case (Inr u)
    then have "p_Store q' = snd (mem_CheckAndSaveNonce now i n (p_Store q))"
      using that by (auto simp: pool_verify_def on_store_def mem_Store_def Let_def split_beta split: sum.splits)
    then show ?thesis
      by (metis (no_types, lifting) mem_CheckAndSaveNonce_def memoryStore.surjective memoryStore.update_convs(5) snd_conv)
  qed
  show ?thesis
    using assms by (auto simp: Update_verify_def split: prod.splits sum.splits if_splits dest!: one intro: exI)
qed

lemma OnUpdate_not_charging:
  assumes "pay_OnUpdate mem_Store b clk nd peers s = (Inr bal, s')" and "\<not> charging b (clk 0) nd"
  shows "s' = s \<and> mem_GetNodeBalance (n_ID nd) s = (Inr bal, s)"
proof -
  have get: "GetNodeBalance mem_Store now (n_ID nd) s = (fst (mem_GetNodeBalance (n_ID nd) s), s)" for now
    by (simp add: mem_Store_def prod_eq_iff)
  have "fst (mem_GetNodeBalance (n_ID nd) s) = Inr bal \<and> s' = s"
    using assms get by (auto simp: pay_OnUpdate_def charging_def Let_def split: if_splits)
  then show ?thesis by (simp add: prod_eq_iff)
qed

lemma mem_purses_frame:
  "mem_purse (s\<lparr>ms_nonces := m\<rparr>) = mem_purse s" "mem_purse_of (s\<lparr>ms_nonces := m\<rparr>) = mem_purse_of s"
  "mem_credit (s\<lparr>ms_nonces := m\<rparr>) = mem_credit s" "mem_inv (s\<lparr>ms_nonces := m\<rparr>) = mem_inv s"
  "mem_GetNode i (s\<lparr>ms_nonces := m\<rparr>) = (fst (mem_GetNode i s), s\<lparr>ms_nonces := m\<rparr>)"
  "mem_purse (s\<lparr>ms_nodes := ns\<rparr>) = mem_purse s" "mem_purse_of (s\<lparr>ms_nodes := ns\<rparr>) = mem_purse_of s"
  "mem_credit (s\<lparr>ms_nodes := ns\<rparr>) = mem_credit s"
  by (auto simp: mem_purse_def mem_purse_of_def mem_credit_def mem_inv_def mem_GetNode_def fun_eq_iff
      split: sum.splits option.splits)

text \<open>What an accepted update moves: the charge of the client, if there is one.\<close>
definition update_charge :: "payPerInterval \<Rightarrow> time \<Rightarrow> node \<Rightarrow> int" where
  "update_charge b now nd = (if charging b now nd then intervalCredit b now (n_LastSeen nd) else 0)"

lemma OnUpdate_moves:
  assumes "mem_inv s" and "mem_registered s (n_ID nd)" and "\<forall>p\<in>set peers. mem_registered s (n_ID p)"
    and "pay_OnUpdate mem_Store b clk nd peers s = (Inr bal, s')"
  shows "(\<forall>w. mem_purse s' w = mem_purse s w + update_charge b (clk 0) nd * draws_on (mem_purse_of s) peers w
      - (if w = mem_purse_of s (n_ID nd) then update_charge b (clk 0) nd * int (length peers) else 0)) \<and>
    b_Credit bal = mem_purse s' (mem_purse_of s (n_ID nd)) \<and> mem_credit s' = mem_credit s"
proof (cases "charging b (clk 0) nd")
  case True
  then show ?thesis
    using mem_ledger.OnUpdate_transfer [OF assms True refl] by (simp add: update_charge_def)
next
  case False
  have "b_Credit bal = mem_purse s (mem_purse_of s (n_ID nd))"
    using OnUpdate_not_charging [OF assms(4) False] mem_ledger.get_credit [OF assms(1), of 0 "n_ID nd" bal s]
    by (simp add: mem_Store_def)
  then show ?thesis
    using OnUpdate_not_charging [OF assms(4) False] False by (simp add: update_charge_def)
qed


definition demo_update :: UpdateRequest where
  "demo_update = \<lparr>ur_Peers = None, ur_PeerInfo = Some [\<lparr>pi_ID = ''h1'', pi_Name = ''geth'', pi_Caps = None,
     pi_Protocols = None, pi_Enode = '''', pi_LocalAddress = '''', pi_RemoteAddress = ''''\<rparr>], ur_BlockNumber = 9\<rparr>"

definition demo_client_pool :: "memoryStore pool" where
  "demo_client_pool = pool_New (snd (Store_run mem_Store
     [CSetNode (demo_node ''h1'' True 1000), CSetNode (demo_node ''0xab'' False 1000)] mem_New))"

definition later :: env where
  "later = demo_env\<lparr>e_clock := (\<lambda>k. 60000001000)\<rparr>"


section \<open>Connections of hosts\<close>

text \<open>
  Every host in the registry is found again from its connection. This holds as long as each
  connection is used by one node, whose ID is given by \<open>owner\<close>.
\<close>
definition reg_inv :: "(service \<Rightarrow> node_id) \<Rightarrow> 's pool \<Rightarrow> bool" where
  "reg_inv owner p \<longleftrightarrow>
     (\<forall>i svc. fmlookup (p_remoteHosts p) i = Some svc \<longrightarrow> fmlookup (p_remoteNodeLookup p) svc = Some i) \<and>
     (\<forall>svc i. fmlookup (p_remoteNodeLookup p) svc = Some i \<longrightarrow> i = owner svc)"

text \<open>The node a call is made for.\<close>
fun call_node :: "pool_call \<Rightarrow> node_id option" where
  "call_node (Connect sig i n req) = Some i"
| "call_node (Update sig i n req) = Some i"
| "call_node (Peer sig i n req) = Some i"
| "call_node (Host sig i n req) = Some i"
| "call_node (Client sig i n req) = Some i"
| "call_node (Close svc) = None"

definition one_node_per_connection :: "(service \<Rightarrow> node_id) \<Rightarrow> env \<times> pool_call \<times> bool \<Rightarrow> bool" where
  "one_node_per_connection owner l \<longleftrightarrow>
     (case l of (env, c, ok) \<Rightarrow> \<forall>svc i. e_service env = Some svc \<longrightarrow> call_node c = Some i \<longrightarrow> owner svc = i)"

lemma reg_inv_same:
  "p_remoteHosts p' = p_remoteHosts p \<Longrightarrow> p_remoteNodeLookup p' = p_remoteNodeLookup p \<Longrightarrow>
   reg_inv owner p' = reg_inv owner p"
  by (simp add: reg_inv_def)

lemma registry_frame:
  "on_store f p = (r1, p') \<Longrightarrow> p_remoteHosts p' = p_remoteHosts p \<and> p_remoteNodeLookup p' = p_remoteNodeLookup p"
  "pool_verify cfg now sig m i n arg p = (r2, p') \<Longrightarrow> p_remoteHosts p' = p_remoteHosts p \<and> p_remoteNodeLookup p' = p_remoteNodeLookup p"
  by (auto simp: on_store_def pool_verify_def split_beta Let_def split: sum.splits)

lemma registry_frame2:
  "Update_verify cfg env sig i n ureq p = (r3, p') \<Longrightarrow> p_remoteHosts p' = p_remoteHosts p \<and> p_remoteNodeLookup p' = p_remoteNodeLookup p"
  "disconnectPeers env i peers p = (r4, p') \<Longrightarrow> p_remoteHosts p' = p_remoteHosts p \<and> p_remoteNodeLookup p' = p_remoteNodeLookup p"
  by (auto simp: Update_verify_def disconnectPeers_def record_calls_def Let_def
      split: prod.splits sum.splits if_splits dest!: registry_frame(2))

lemma registry_charge:
  "Update_charge cfg env i nd active p = (r, p') \<Longrightarrow> p_remoteHosts p' = p_remoteHosts p \<and> p_remoteNodeLookup p' = p_remoteNodeLookup p"
proof (cases "on_store (OnUpdate (pc_Manager cfg) (\<lambda>k. e_clock env (3 + k)) nd active) p")
  case (Pair q p1)
  assume op: "Update_charge cfg env i nd active p = (r, p')"
  note one = registry_frame(1) [OF Pair]
  show ?thesis
  proof (cases q)
    case (Inl e)
    then show ?thesis
      using op Pair one by (cases e) (auto simp: Update_charge_def split: prod.splits dest!: registry_frame2(2))
  next
    case (Inr bal)
    then show ?thesis using op Pair one by (simp add: Update_charge_def)
  qed
qed

lemma registry_body:
  "Update_body cfg env i req p = (r, p') \<Longrightarrow> p_remoteHosts p' = p_remoteHosts p \<and> p_remoteNodeLookup p' = p_remoteNodeLookup p"
  "requestHosts cfg env i num kind p = (r5, p') \<Longrightarrow> p_remoteHosts p' = p_remoteHosts p \<and> p_remoteNodeLookup p' = p_remoteNodeLookup p"
   apply (auto simp: Update_body_def Let_def split: prod.splits sum.splits dest!: registry_frame(1) registry_charge)[1]
  apply (auto simp: requestHosts_def record_calls_def Let_def split: prod.splits sum.splits if_splits dest!: registry_frame(1))
  done

lemma reg_inv_connect_host:
  assumes "reg_inv owner p" and "connect_host env i uri p = (r, p')" and "\<And>svc. e_service env = Some svc \<Longrightarrow> owner svc = i"
  shows "reg_inv owner p'"
proof (cases r)
  case (Inl e)
  then have "p' = p"
    using assms(2) by (auto simp: connect_host_def Let_def split: sum.splits)
  then show ?thesis using assms(1) by simp
next
  case (Inr u)
  then obtain svc where svc: "e_service env = Some svc"
    and p': "p' = p\<lparr>p_remoteHosts := fmupd i svc (p_remoteHosts p), p_remoteNodeLookup := fmupd svc i (p_remoteNodeLookup p)\<rparr>"
    using assms(2) by (auto simp: connect_host_def CtxService_def Let_def split: sum.splits option.splits)
  then show ?thesis using assms(1) assms(3) [OF svc] by (auto simp: reg_inv_def)
qed

lemma reg_inv_connect:
  assumes "reg_inv owner p" and "pool_connect cfg env i req p = (r, p')" and "\<And>svc. e_service env = Some svc \<Longrightarrow> owner svc = i"
  shows "reg_inv owner p'"
proof -
  have *: "reg_inv owner q" if "(if ua_IsFullNode (cr_NodeInfo req) then connect_host env i (cr_NodeURI req) p else (Inr '''', p)) = (x, q)" for x q
    using that assms(1) reg_inv_connect_host [OF assms(1) _ assms(3)] by (auto split: if_splits)
  obtain x q where xq: "(if ua_IsFullNode (cr_NodeInfo req) then connect_host env i (cr_NodeURI req) p else (Inr '''', p)) = (x, q)"
    by fastforce
  have "p' = p \<or> p_remoteHosts p' = p_remoteHosts q \<and> p_remoteNodeLookup p' = p_remoteNodeLookup q"
    using assms(2) unfolding pool_connect_def Let_def xq
    by (auto split: if_splits prod.splits sum.splits dest!: registry_frame(1))
  then show ?thesis using assms(1) * [OF xq] reg_inv_same by metis
qed

lemma registry_body_snd:
  "p_remoteHosts (snd (Update_body cfg env i req p)) = p_remoteHosts p"
  "p_remoteNodeLookup (snd (Update_body cfg env i req p)) = p_remoteNodeLookup p"
  using registry_body(1) [OF prod.collapse [symmetric], of cfg env i req p] by simp_all

lemma reg_inv_close: "reg_inv owner p \<Longrightarrow> reg_inv owner (snd (CloseRemote svc p))"
  by (auto simp: reg_inv_def CloseRemote_def split: option.splits)

lemma reg_inv_exec:
  assumes "reg_inv owner p" and "pool_exec cfg env c p = (ok, p')" and "one_node_per_connection owner (env, c, ok)"
  shows "reg_inv owner p'"
proof -
  have own: "\<And>svc. e_service env = Some svc \<Longrightarrow> owner svc = i" if "call_node c = Some i" for i
    using assms(3) that by (simp add: one_node_per_connection_def)
  show ?thesis
  proof (cases c)
    case (Connect sig i n req)
    then have "call_node c = Some i" by simp
    note conn = reg_inv_connect [OF _ _ own [OF this]]
    obtain v q where v: "pool_verify cfg (e_clock env 0) sig ''vipnode_connect'' i n (ConnectRequest_json req) p = (v, q)"
      by fastforce
    have "reg_inv owner q" using registry_frame(2) [OF v] assms(1) reg_inv_same by metis
    then show ?thesis
      using assms(2) v conn [OF _ prod.collapse [symmetric]] Connect
      by (auto simp: pool_exec_def pool_Connect_def apfst_is_ok split: sum.splits)
  next
    case (Update sig i n req)
    obtain v q where v: "Update_verify cfg env sig i n req p = (v, q)" by fastforce
    have "p' = q \<or> p_remoteHosts p' = p_remoteHosts q \<and> p_remoteNodeLookup p' = p_remoteNodeLookup q"
      using assms(2) v Update
      by (auto simp: pool_exec_def pool_Update_def apfst_is_ok registry_body_snd split: sum.splits)
    then show ?thesis using registry_frame2(1) [OF v] assms(1) reg_inv_same by metis
  next
    case (Peer sig i n req)
    then show ?thesis
      using assms(1,2) by (auto simp: pool_exec_def pool_Peer_def apfst_is_ok reg_inv_def
          split: sum.splits prod.splits dest!: registry_body(2))
  next
    case (Host sig i n req)
    then have "call_node c = Some i" by simp
    note conn = reg_inv_connect [OF _ _ own [OF this]]
    obtain v q where v: "pool_verify cfg (e_clock env 0) sig ''vipnode_host'' i n (HostRequest_json req) p = (v, q)"
      by fastforce
    have "reg_inv owner q" using registry_frame(2) [OF v] assms(1) reg_inv_same by metis
    then show ?thesis
      using assms(2) v conn Host
      by (auto simp: pool_exec_def pool_Host_def Let_def apfst_is_ok split: sum.splits prod.splits)
  next
    case (Client sig i n req)
    then have "call_node c = Some i" by simp
    note conn = reg_inv_connect [OF _ _ own [OF this]]
    obtain v q where v: "pool_verify cfg (e_clock env 0) sig ''vipnode_client'' i n (ClientRequest_json req) p = (v, q)"
      by fastforce
    have q: "reg_inv owner q" using registry_frame(2) [OF v] assms(1) reg_inv_same by metis
    have rest: "p2 = p3 \<or> reg_inv owner p3 = reg_inv owner p2" if "requestHosts cfg env i num kind p2 = (x, p3)" for num kind p2 x p3
      using registry_body(2) [OF that] reg_inv_same by blast
    show ?thesis
      using assms(2) v q Client
      by (auto simp: pool_exec_def pool_Client_def Let_def apfst_is_ok split: sum.splits prod.splits
          dest!: rest dest: conn)
  next
    case (Close svc)
    then show ?thesis using assms(1,2) reg_inv_close by (auto simp: pool_exec_def apfst_is_ok)
  qed
qed

lemma reg_inv_run:
  assumes "pool_steps cfg p ls p'" and "reg_inv owner p" and "\<forall>l\<in>set ls. one_node_per_connection owner l"
  shows "reg_inv owner p'"
  using assms(1,2)
proof (rule pool_steps_invariant [where P = "reg_inv owner"])
  fix q l q' assume "l \<in> set ls" and "reg_inv owner q" and "pool_step cfg q l q'"
  then show "reg_inv owner q'"
    using assms(3) by (auto elim!: pool_stepE intro: reg_inv_exec)
qed

text \<open>
  a closed connection is forgotten. In every run of a new pool in which each connection is used
  by one node only, after \<^verbatim>\<open>CloseRemote\<close> no host is registered with the closed
  connection, so that it is never called again; and a host that is registered is always found from its connection.
\<close>
theorem closed_connection_forgotten:
  assumes "pool_steps cfg (pool_New s) ls p" and "\<forall>l\<in>set ls. one_node_per_connection owner l"
  shows "(\<forall>i. fmlookup (p_remoteHosts (snd (CloseRemote svc p))) i \<noteq> Some svc) \<and>
    (\<forall>i c. fmlookup (p_remoteHosts p) i = Some c \<longrightarrow> fmlookup (p_remoteNodeLookup p) c = Some i)"
proof -
  have "reg_inv owner (pool_New s)" by (simp add: reg_inv_def pool_New_def)
  from reg_inv_run [OF assms(1) this assms(2)] show ?thesis
    by (auto simp: reg_inv_def CloseRemote_def split: option.splits)
qed

theorem closed_connection_forgotten_witness:
  "fmlookup (p_remoteHosts (snd (CloseRemote 1 demo_pool))) ''0xab'' \<noteq> Some 1"
proof -
  have "\<forall>l\<in>set [(demo_env, demo_connect 5 True, True)]. one_node_per_connection (\<lambda>_. ''0xab'') l"
    by (simp add: one_node_per_connection_def demo_connect_def)
  from closed_connection_forgotten [OF demo_step this] show ?thesis by blast
qed

text \<open>
  a stale connection takes the live one down. When a host connects again over a new connection before the
  end of its old one is noticed, closing the old connection removes the host from the registry,
  although the new connection is open: the pool then skips the host until it connects a third time.
\<close>
theorem stale_close_drops_live_host:
  assumes "connect_host env1 i uri1 p = (Inr u1, p1)" and "e_service env1 = Some old"
    and "connect_host env2 i uri2 p1 = (Inr u2, p2)" and "e_service env2 = Some new" and "old \<noteq> new"
  shows "fmlookup (p_remoteHosts p2) i = Some new \<and>
    fmlookup (p_remoteHosts (snd (CloseRemote old p2))) i = None"
  using assms
  by (auto simp: connect_host_def CtxService_def CloseRemote_def Let_def split: sum.splits option.splits)

theorem stale_close_drops_live_host_witness:
  "fmlookup (p_remoteHosts (snd (CloseRemote 1 (snd (connect_host (demo_env\<lparr>e_service := Some 2\<rparr>) ''0xab'' ''''
     (snd (connect_host demo_env ''0xab'' '''' (pool_New mem_New)))))))) ''0xab'' = None"
proof -
  let ?p1 = "snd (connect_host demo_env ''0xab'' '''' (pool_New mem_New))"
  let ?p2 = "snd (connect_host (demo_env\<lparr>e_service := Some 2\<rparr>) ''0xab'' '''' ?p1)"
  have "is_ok (fst (connect_host demo_env ''0xab'' '''' (pool_New mem_New)))" by code_simp
  then obtain u1 where 1: "connect_host demo_env ''0xab'' '''' (pool_New mem_New) = (Inr u1, ?p1)"
    unfolding is_ok_iff by (metis prod.collapse)
  have "is_ok (fst (connect_host (demo_env\<lparr>e_service := Some 2\<rparr>) ''0xab'' '''' ?p1))" by code_simp
  then obtain u2 where 2: "connect_host (demo_env\<lparr>e_service := Some 2\<rparr>) ''0xab'' '''' ?p1 = (Inr u2, ?p2)"
    unfolding is_ok_iff by (metis prod.collapse)
  have "e_service demo_env = Some 1" "e_service (demo_env\<lparr>e_service := Some 2\<rparr>) = Some 2" "(1::nat) \<noteq> 2"
    by (simp_all add: demo_env_def)
  from stale_close_drops_live_host [OF 1 this(1) 2 this(2,3)] show ?thesis by blast
qed

end
