(* ===== verification/Pool_Endpoints.thy ===== *)
theory Pool_Endpoints
  imports Pool_Correctness
begin

text \<open>
  Further properties of single endpoints of the pool: the public URI of a host, what
  connecting records, and the limits of authentication on \<^verbatim>\<open>Peer\<close> and on updates of
  old agents.
\<close>

section \<open>The public URI of a host\<close>

abbreviation enode_uri :: "string \<Rightarrow> string \<Rightarrow> string \<Rightarrow> string" where
  "enode_uri i h p \<equiv> url_String ''enode'' i (h @ '':'' @ p)"

lemma plain_host_not_any: "plain_host h \<Longrightarrow> h \<noteq> ''::'' \<and> h \<noteq> ''[::]''"
  by (auto simp: plain_host_def is_alnum_def is_upper_def is_lower_def is_digit_def)

lemma plain_url_fields:
  assumes "plain_id i" and "plain_host h" and "plain_port p" and "h \<noteq> []"
  shows "\<exists>u. url_Parse (enode_uri i h p) = Inr u \<and> u_Scheme u = ''enode'' \<and> url_Username u = i \<and>
    u_User u = Some (i, None) \<and> url_Hostname u = h \<and> url_Port u = p"
  using url_Parse_plain [OF assms] splitHostPort_plain [OF assms(2-4)]
  by (simp add: empty_url_def url_Username_def url_Hostname_def url_Port_def)

text \<open>
  a public URI is kept and checked. Normalizing a plain enode URI (letters and digits for the ID; letters, digits, dots and
  dashes for the host; a port) for its own node returns it unchanged, whatever the defaults; for any other node
  it is refused; and the URI is read back as that ID, host and port.
\<close>
theorem normalize_keeps_public_uri:
  assumes "plain_id i" and "plain_host h" and "plain_port p" and "i \<noteq> []" and "h \<noteq> []" and "p \<noteq> []"
  shows "normalizeNodeURI (enode_uri i h p) i defaultHost defaultPort = Inr (enode_uri i h p) \<and>
    (\<forall>j. j \<noteq> i \<longrightarrow> \<not> is_ok (normalizeNodeURI (enode_uri i h p) j defaultHost defaultPort)) \<and>
    (\<exists>u. ParseNodeURI (enode_uri i h p) = Inr u \<and> NodeURI_ID u = i \<and> url_Hostname u = h \<and> url_Port u = p)"
proof -
  obtain u where u: "url_Parse (enode_uri i h p) = Inr u" "u_Scheme u = ''enode''" "url_Username u = i"
      "u_User u = Some (i, None)" "url_Hostname u = h" "url_Port u = p"
    using plain_url_fields [OF assms(1-3,5)] by blast
  have ne: "enode_uri i h p \<noteq> ''''" and pre: "HasPrefix (enode_uri i h p) ''enode://''"
    by (simp_all add: url_String_def HasPrefix_def)
  have "ParseNodeURI (enode_uri i h p) = Inr u" using u(1,2) pre by (simp add: ParseNodeURI_def Let_def)
  moreover have "NodeURI_ID u = i" using u(2-4) by (simp add: NodeURI_ID_def)
  moreover have "normalizeNodeURI (enode_uri i h p) i defaultHost defaultPort = Inr (enode_uri i h p)"
    using u ne assms(5,6) plain_host_not_any [OF assms(2)] unfolding normalizeNodeURI_def Let_def by simp
  moreover have "\<not> is_ok (normalizeNodeURI (enode_uri i h p) j defaultHost defaultPort)" if "j \<noteq> i" for j
    using u ne assms(4) that unfolding normalizeNodeURI_def Let_def by simp
  ultimately show ?thesis using u(5,6) by blast
qed

theorem normalize_keeps_public_uri_witness:
  "normalizeNodeURI (enode_uri ''aaaa'' ''abc.com'' ''30303'') ''aaaa'' ''foo.com'' ''1'' =
     Inr (enode_uri ''aaaa'' ''abc.com'' ''30303'')"
proof -
  have "plain_id ''aaaa''" "plain_host ''abc.com''" "plain_port ''30303''" by code_simp+
  from normalize_keeps_public_uri [OF this] show ?thesis by simp
qed

text \<open>
  The brackets of an IPv6 address are lost. The host name is taken without its brackets and put
  back without them, so the stored URI of a host with an IPv6 address has the address and the port run together.
\<close>
theorem normalize_ipv6_loses_brackets:
  "normalizeNodeURI ''enode://aaaa@[2001:db8::1]:30303'' ''aaaa'' '''' ''30303'' =
     Inr ''enode://aaaa@2001:db8::1:30303''"
  by code_simp

section \<open>Connecting\<close>

lemma on_store_SetNode:
  "i \<noteq> '''' \<Longrightarrow> n_ID nd = i \<Longrightarrow> on_store (SetNode mem_Store nd) p =
     (Inr (), p\<lparr>p_Store := (p_Store p)\<lparr>ms_nodes := fmupd i \<lparr>mn_Node = nd, mn_peers = fmempty\<rparr> (ms_nodes (p_Store p))\<rparr>\<rparr>)"
  by (simp add: on_store_def mem_Store_def mem_SetNode_def NodeID_IsZero_def)

lemma OnClient_mem_store:
  "p_Store (snd (on_store (OnClient (pc_Manager (mem_cfg cfg pay)) clk nd) p)) = p_Store p"
proof -
  have "snd (pay_OnClient mem_Store b clk nd s) = s" for b s
  proof -
    have "GetNodeBalance mem_Store (clk 0) (n_ID nd) s = (fst (mem_GetNodeBalance (n_ID nd) s), s)"
      by (simp add: mem_Store_def prod_eq_iff)
    then show ?thesis by (simp add: pay_OnClient_def Let_def split: option.split sum.split)
  qed
  then show ?thesis
    by (cases pay) (simp_all add: on_store_def split_beta Let_def NoBalance_def NoBalance_OnClient_def pay_Manager_def)
qed

lemma registry_on_store:
  "p_remoteHosts (snd (on_store f p)) = p_remoteHosts p" "p_remoteNodeLookup (snd (on_store f p)) = p_remoteNodeLookup p"
  by (simp_all add: on_store_def split_beta Let_def)


definition demo_request :: "bool \<Rightarrow> ConnectRequest" where
  "demo_request full = \<lparr>cr_VipnodeVersion = ''v2'', cr_NodeInfo = demo_agent full, cr_NodeURI = '''', cr_Payout = ''acct''\<rparr>"


text \<open>
  The minimum balance applies to hosts too. \<^verbatim>\<open>OnClient\<close> is called for every node that connects, so a full node whose credit and deposit are below the
  minimum is refused like a client, after it was stored and registered with its connection.
\<close>
theorem hosts_need_the_minimum:
  assumes "pp_MinBalance b = Some m" and "0 < m" and "i \<noteq> ''''" and "ua_IsFullNode (cr_NodeInfo req)"
    and "pc_RestrictNetwork cfg = 0"
    and "connect_host env i (cr_NodeURI req) p = (Inr uri, p1)"
    and "fmlookup (ms_accounts (p_Store p)) i = None" and "fmlookup (ms_trials (p_Store p)) i = None"
  shows "\<exists>p'. pool_connect (mem_cfg cfg (Some b)) env i req p = (Inl (LowBalanceError m 0), p') \<and>
    is_ok (fst (mem_GetNode i (p_Store p'))) \<and> fmlookup (p_remoteHosts p') i = e_service env"
proof -
  define nd where "nd = zero_node\<lparr>n_ID := i, n_Kind := (if NodeKind_String (ua_Kind (cr_NodeInfo req)) = ''unknown'' then ''''
      else NodeKind_String (ua_Kind (cr_NodeInfo req))), n_LastSeen := e_clock env 10, n_IsHost := True,
      n_Payout := cr_Payout req, n_NodeVersion := ua_Version (cr_NodeInfo req),
      n_VipnodeVersion := cr_VipnodeVersion req, n_URI := uri\<rparr>"
  define p2 where "p2 = p1\<lparr>p_Store := (p_Store p1)\<lparr>ms_nodes := fmupd i \<lparr>mn_Node = nd, mn_peers = fmempty\<rparr> (ms_nodes (p_Store p1))\<rparr>\<rparr>"
  have set: "on_store (SetNode mem_Store nd) p1 = (Inr (), p2)"
    using on_store_SetNode [OF assms(3), of nd p1] by (simp add: nd_def p2_def)
  have "p_Store p1 = p_Store p" using connect_host_store [OF assms(6)] .
  then have "GetNodeBalance mem_Store t i (p_Store p2) = (Inr zero_balance, p_Store p2)" for t
    using assms(7,8) by (simp add: p2_def mem_Store_def mem_GetNodeBalance_def index_def)
  then have low: "on_store (OnClient (pay_Manager mem_Store b) (\<lambda>k. e_clock env (11 + k)) nd) p2 = (Inl (LowBalanceError m 0), p2)"
    using assms(1,2) by (simp add: on_store_def pay_Manager_def pay_OnClient_def nd_def Let_def)
  have "pool_connect (mem_cfg cfg (Some b)) env i req p = (Inl (LowBalanceError m 0), p2)"
    using assms(4-6) set low unfolding pool_connect_def Let_def nd_def by simp
  moreover have "fmlookup (p_remoteHosts p2) i = e_service env"
    using assms(6) by (auto simp: p2_def connect_host_def CtxService_def Let_def split: sum.splits option.splits)
  moreover have "is_ok (fst (mem_GetNode i (p_Store p2)))" by (simp add: p2_def mem_GetNode_def)
  ultimately show ?thesis by blast
qed

theorem hosts_need_the_minimum_witness:
  "\<exists>p'. pool_connect (mem_cfg demo_cfg (Some (demo_pay\<lparr>pp_MinBalance := Some 100\<rparr>))) demo_env ''h9'' (demo_request True) demo_hosts
     = (Inl (LowBalanceError 100 0), p')"
proof -
  let ?c = "connect_host demo_env ''h9'' (cr_NodeURI (demo_request True)) demo_hosts"
  have "is_ok (fst ?c)" by code_simp
  then obtain uri where c: "?c = (Inr uri, snd ?c)" unfolding is_ok_iff by (metis prod.collapse)
  have none: "fmlookup (ms_accounts (p_Store demo_hosts)) ''h9'' = None" "fmlookup (ms_trials (p_Store demo_hosts)) ''h9'' = None"
    by code_simp+
  have "pp_MinBalance (demo_pay\<lparr>pp_MinBalance := Some 100\<rparr>) = Some 100" "(0::int) < 100" "''h9'' \<noteq> ''''"
      "ua_IsFullNode (cr_NodeInfo (demo_request True))" "pc_RestrictNetwork demo_cfg = 0"
    by (simp_all add: demo_request_def demo_agent_def demo_cfg_def pool_New_config_def UnknownNetwork_def)
  from hosts_need_the_minimum [OF this c none] show ?thesis by blast
qed

section \<open>Limits of authentication\<close>

text \<open>
  \<^verbatim>\<open>Peer\<close> needs no signature. Whatever signature and nonce come with it, a peering request for a registered node is
  answered, and makes the pool tell hosts to whitelist that node; no nonce is consumed.
\<close>
theorem peer_request_unauthenticated:
  "is_ok (fst (pool_Peer (mem_cfg demo_cfg None) demo_env sig ''c'' nonce \<lparr>pr_Num = 1, pr_Kind = ''''\<rparr> demo_hosts)) \<and>
   p_sent (snd (pool_Peer (mem_cfg demo_cfg None) demo_env sig ''c'' nonce \<lparr>pr_Num = 1, pr_Kind = ''''\<rparr> demo_hosts)) =
     [(1, ''vipnode_whitelist'', ''c''), (2, ''vipnode_whitelist'', ''c'')]"
proof -
  let ?r = "requestHosts (mem_cfg demo_cfg None) demo_env ''c'' 1 '''' demo_hosts"
  have ok: "is_ok (fst ?r)" and sent: "p_sent (snd ?r) = [(1, ''vipnode_whitelist'', ''c''), (2, ''vipnode_whitelist'', ''c'')]"
    by code_simp+
  from ok obtain hosts where "?r = (Inr hosts, snd ?r)" unfolding is_ok_iff by (metis prod.collapse)
  then have "pool_Peer (mem_cfg demo_cfg None) demo_env sig ''c'' nonce \<lparr>pr_Num = 1, pr_Kind = ''''\<rparr> demo_hosts =
      (Inr \<lparr>ps_Peers = hosts\<rparr>, snd ?r)" unfolding pool_Peer_def by (metis (no_types, lifting) PeerRequest.select_convs old.prod.case old.sum.simps(6))
  then show ?thesis using sent by simp
qed

text \<open>
  The signature of an old agent does not cover its peers. When a signature verifies over the old form of an update
  and the nonce is fresh, the update is accepted with any list of peers in \<^verbatim>\<open>peers_info\<close>, the only list the
  pool then uses.
\<close>
theorem legacy_signature_covers_no_peers:
  assumes "request_Verify (pc_crypto cfg) sig ''vipnode_update'' i n [oldUpdateRequest_json req] = Inr ()"
    and "\<And>arg e. request_Verify (pc_crypto cfg) sig ''vipnode_update'' i n [arg] = Inl e \<Longrightarrow> \<not> is_panic e"
    and "is_ok (fst (mem_CheckAndSaveNonce (e_clock env 0) i n (p_Store p)))"
    and "is_ok (fst (mem_CheckAndSaveNonce (e_clock env 1) i n (p_Store p)))"
  shows "is_ok (fst (Update_verify (mem_cfg cfg pay) env sig i n (req\<lparr>ur_PeerInfo := peers\<rparr>) p))"
proof -
  define ver where "ver = (\<lambda>t arg. pool_verify (mem_cfg cfg pay) t sig ''vipnode_update'' i n arg p)"
  have ok: "is_ok (fst (ver t arg))"
    if "request_Verify (pc_crypto cfg) sig ''vipnode_update'' i n [arg] = Inr ()"
      and "is_ok (fst (mem_CheckAndSaveNonce t i n (p_Store p)))" for t arg
    using that by (auto simp: ver_def pool_verify_def on_store_def mem_Store_def is_ok_iff split: prod.splits)
  have old: "oldUpdateRequest_json (req\<lparr>ur_PeerInfo := peers\<rparr>) = oldUpdateRequest_json req"
    by (simp add: oldUpdateRequest_json_def)
  show ?thesis
  proof (cases "request_Verify (pc_crypto cfg) sig ''vipnode_update'' i n [UpdateRequest_json (req\<lparr>ur_PeerInfo := peers\<rparr>)]")
    case (Inl e)
    then have first: "ver (e_clock env 0) (UpdateRequest_json (req\<lparr>ur_PeerInfo := peers\<rparr>)) = (Inl (verify_error ''vipnode_update'' e), p)"
      by (simp add: ver_def pool_verify_def)
    have "\<not> is_panic (verify_error ''vipnode_update'' e)"
      using assms(2) [OF Inl] by (cases e) (simp_all add: verify_error_def)
    then show ?thesis
      using first ok [OF assms(1,4)] unfolding Update_verify_def old ver_def
      by (auto simp: is_ok_iff split: prod.splits)
  next
    case (Inr u)
    then show ?thesis
      using ok [of "UpdateRequest_json (req\<lparr>ur_PeerInfo := peers\<rparr>)" "e_clock env 0"] assms(3)
      unfolding Update_verify_def ver_def by (auto simp: is_ok_iff split: prod.splits)
  qed
qed

theorem legacy_signature_covers_no_peers_witness:
  "is_ok (fst (Update_verify (mem_cfg demo_cfg None) demo_env (replicate 130 (CHR ''0'')) ''0xab'' 5
     (demo_update\<lparr>ur_PeerInfo := Some []\<rparr>) demo_client_pool))"
proof (rule legacy_signature_covers_no_peers)
  have v: "request_Verify toy_crypto (replicate 130 (CHR ''0'')) ''vipnode_update'' ''0xab'' 5 [arg] = Inr ()" for arg
  proof -
    have dec: "hex_DecodeString (replicate 130 (CHR ''0'')) = Some (replicate 65 (CHR 0x00))"
      and pre: "\<not> HasPrefix (replicate 130 (CHR ''0'')) ''0x''" and low: "ToLower ''0xAB'' = ToLower ''0xab''" by code_simp+
    have "SigToPub toy_crypto h s = Inr ''0xAB''" "PubkeyToAddress toy_crypto ''0xAB'' = ''0xAB''" for h s
      by (simp_all add: toy_crypto_def)
    then show ?thesis
      using dec pre low
      by (simp add: request_Verify_def AddressRequest_Verify_def AddressRequest_hash_def assemble_def mk_request_def Let_def)
  qed
  have crypto: "pc_crypto demo_cfg = toy_crypto" by (simp add: demo_cfg_def pool_New_config_def)
  show "request_Verify (pc_crypto demo_cfg) (replicate 130 (CHR ''0'')) ''vipnode_update'' ''0xab'' 5 [oldUpdateRequest_json demo_update] = Inr ()"
    unfolding crypto by (rule v)
  show "\<not> is_panic e" if "request_Verify (pc_crypto demo_cfg) (replicate 130 (CHR ''0'')) ''vipnode_update'' ''0xab'' 5 [arg] = Inl e" for arg e
    using that unfolding crypto v by simp
  show "is_ok (fst (mem_CheckAndSaveNonce (e_clock demo_env 0) ''0xab'' 5 (p_Store demo_client_pool)))"
    and "is_ok (fst (mem_CheckAndSaveNonce (e_clock demo_env 1) ''0xab'' 5 (p_Store demo_client_pool)))" by code_simp+
qed

text \<open>
  The deprecated handlers do not work on a restricted network. They connect with an unknown network, so a pool that
  requires a network refuses every \<^verbatim>\<open>Host\<close> and \<^verbatim>\<open>Client\<close> call.
\<close>
theorem deprecated_calls_refused_on_restricted_network:
  assumes "pc_RestrictNetwork cfg \<noteq> 0"
  shows "\<not> is_ok (fst (pool_Host cfg env sig i n hreq p)) \<and> \<not> is_ok (fst (pool_Client cfg env sig i n lreq p))"
proof -
  have "pool_connect cfg env i creq q = (Inl (ErrNew (''node is on the wrong network, pool requires: '' @
      NetworkID_String (pc_RestrictNetwork cfg))), q)" if "ua_Network (cr_NodeInfo creq) = 0" for creq q
    using assms that unfolding pool_connect_def Let_def by simp
  then show ?thesis
    by (simp add: pool_Host_def pool_Client_def legacy_agent_def Let_def split: sum.split prod.split)
qed

theorem deprecated_calls_refused_on_restricted_network_witness:
  "\<not> is_ok (fst (pool_Client (demo_cfg\<lparr>pc_RestrictNetwork := Mainnet\<rparr>) demo_env (replicate 130 (CHR ''0'')) ''0xab'' 5
     \<lparr>lr_Kind = ''geth'', lr_NumHosts = 1\<rparr> demo_hosts))"
  using deprecated_calls_refused_on_restricted_network [of "demo_cfg\<lparr>pc_RestrictNetwork := Mainnet\<rparr>"]
  by (simp add: Mainnet_def)

end
