(* ===== verification/Badger_Store.thy ===== *)
theory Badger_Store
  imports Balance_Manager "HOL-Library.Sublist"
begin

text \<open>
  The persistent store (\<^verbatim>\<open>pool/store/badger\<close>): every method of the \<^verbatim>\<open>store.Store\<close> interface as a
  transaction on a key-value database, and the migration of an old database.

  The database engine is outside the repository and a parameter: \<open>badger\<close> is the
  dictionary of the operations the sources call, over a state \<open>'d\<close> that is both the database
  and the view a transaction has of it. The engine reads the clock itself to hide entries whose
  time to live is over; \<open>db_At\<close> is the passing of time up to a reading of the clock. Only
  nonces have a time to live, so only \<^verbatim>\<open>CheckAndSaveNonce\<close> sets it. What the sources rely on
  is the locale \<open>badger_kv\<close>, stated over an abstraction \<open>kv\<close> of the database to a finite map. Writes and commits may
  fail there, as they do on a conflict; \<open>badger_quiet\<close> adds that they do not.

  Values are stored through \<^verbatim>\<open>encoding/gob\<close>, which tags an encoding with its type: a
  \<open>gob\<close> is a value with its type, and decoding into a variable of another type is
  an error.
\<close>

section \<open>The database engine\<close>

datatype gob =
    GInt int
  | GString string
  | GBalance balance
  | GNode node
  | GPeers "(node_id, time) fmap"

definition gob_mismatch :: "'a result" where
  "gob_mismatch = Inl (ErrNew ''gob: wrong type received'')"

fun gob_int :: "gob \<Rightarrow> int result" where
  "gob_int (GInt i) = Inr i"
| "gob_int _ = gob_mismatch"

fun gob_string :: "gob \<Rightarrow> string result" where
  "gob_string (GString s) = Inr s"
| "gob_string _ = gob_mismatch"

fun gob_balance :: "gob \<Rightarrow> balance result" where
  "gob_balance (GBalance b) = Inr b"
| "gob_balance _ = gob_mismatch"

fun gob_node :: "gob \<Rightarrow> node result" where
  "gob_node (GNode n) = Inr n"
| "gob_node _ = gob_mismatch"

fun gob_peers :: "gob \<Rightarrow> (node_id, time) fmap result" where
  "gob_peers (GPeers m) = Inr m"
| "gob_peers _ = gob_mismatch"

record 'd badger =
  db_At :: "time \<Rightarrow> 'd \<Rightarrow> 'd"
  txn_Get :: "string \<Rightarrow> 'd \<Rightarrow> gob result"
  txn_Set :: "string \<Rightarrow> gob \<Rightarrow> 'd \<Rightarrow> unit result \<times> 'd"
  txn_SetEntry :: "string \<Rightarrow> gob \<Rightarrow> duration \<Rightarrow> 'd \<Rightarrow> unit result \<times> 'd"
  txn_Delete :: "string \<Rightarrow> 'd \<Rightarrow> unit result \<times> 'd"
  txn_Iterate :: "string \<Rightarrow> 'd \<Rightarrow> (string \<times> gob) list"
  txn_Commit :: "'d \<Rightarrow> 'd \<Rightarrow> unit result \<times> 'd"

text \<open>
  A read-only transaction, and a read-write transaction: it is dropped when its function returns
  an error and committed otherwise.
\<close>
definition db_View :: "('d \<Rightarrow> 'a result) \<Rightarrow> 'd \<Rightarrow> 'a result \<times> 'd" where
  "db_View f d = (f d, d)"

definition db_Update :: "'d badger \<Rightarrow> ('d \<Rightarrow> 'a result \<times> 'd) \<Rightarrow> 'd \<Rightarrow> 'a result \<times> 'd" where
  "db_Update B f d =
     (case f d of
        (Inl e, _) \<Rightarrow> (Inl e, d)
      | (Inr v, t) \<Rightarrow>
          (case txn_Commit B d t of
             (Inl e, d1) \<Rightarrow> (Inl e, d1)
           | (Inr _, d1) \<Rightarrow> (Inr v, d1)))"

text \<open>Running the rest of a transaction after a write that may fail.\<close>
definition then_txn :: "unit result \<times> 'd \<Rightarrow> ('d \<Rightarrow> 'a result \<times> 'd) \<Rightarrow> 'a result \<times> 'd" where
  "then_txn w f = (case w of (Inl e, t) \<Rightarrow> (Inl e, t) | (Inr _, t) \<Rightarrow> f t)"

section \<open>Helpers\<close>

definition hasKey :: "'d badger \<Rightarrow> string \<Rightarrow> 'd \<Rightarrow> bool" where
  "hasKey B key t \<longleftrightarrow> is_ok (txn_Get B key t)"

definition getItem :: "'d badger \<Rightarrow> (gob \<Rightarrow> 'a result) \<Rightarrow> string \<Rightarrow> 'd \<Rightarrow> 'a result" where
  "getItem B decode key t = (case txn_Get B key t of Inl e \<Rightarrow> Inl e | Inr val \<Rightarrow> decode val)"

definition setItem :: "'d badger \<Rightarrow> string \<Rightarrow> gob \<Rightarrow> 'd \<Rightarrow> unit result \<times> 'd" where
  "setItem B key val t = txn_Set B key val t"

definition setExpiringItem :: "'d badger \<Rightarrow> string \<Rightarrow> gob \<Rightarrow> duration \<Rightarrow> 'd \<Rightarrow> unit result \<times> 'd" where
  "setExpiringItem B key val expire t = txn_SetEntry B key val expire t"

text \<open>The loop over the items of a prefix, decoding each into a fresh value.\<close>
primrec loop_items :: "(gob \<Rightarrow> 'a result) \<Rightarrow> (string \<Rightarrow> 'a \<Rightarrow> 'b \<Rightarrow> 'b) \<Rightarrow> (string \<times> gob) list \<Rightarrow> 'b \<Rightarrow> 'b result" where
  "loop_items decode callback [] acc = Inr acc"
| "loop_items decode callback (item # items) acc =
     (case decode (snd item) of
        Inl e \<Rightarrow> Inl e
      | Inr v \<Rightarrow> loop_items decode callback items (callback (fst item) v acc))"

definition loopItem ::
  "'d badger \<Rightarrow> string \<Rightarrow> (gob \<Rightarrow> 'a result) \<Rightarrow> (string \<Rightarrow> 'a \<Rightarrow> 'b \<Rightarrow> 'b) \<Rightarrow> 'd \<Rightarrow> 'b \<Rightarrow> 'b result" where
  "loopItem B pre decode callback t acc = loop_items decode callback (txn_Iterate B pre t) acc"

text \<open>An item that may be missing: \<^verbatim>\<open>ErrKeyNotFound\<close> leaves the zero value in place.\<close>
definition getItem_or :: "'d badger \<Rightarrow> (gob \<Rightarrow> 'a result) \<Rightarrow> 'a \<Rightarrow> string \<Rightarrow> 'd \<Rightarrow> 'a result" where
  "getItem_or B decode z key t =
     (case getItem B decode key t of
        Inl e \<Rightarrow> (if e = ErrKeyNotFound then Inr z else Inl e)
      | Inr v \<Rightarrow> Inr v)"

section \<open>Keys\<close>

definition nonceKey :: "string \<Rightarrow> string" where "nonceKey i = ''vip:nonce:'' @ i"
definition accountKey :: "node_id \<Rightarrow> string" where "accountKey i = ''vip:account:'' @ i"
definition trialKey :: "node_id \<Rightarrow> string" where "trialKey i = ''vip:trial:'' @ i"
definition balanceKey :: "account \<Rightarrow> string" where "balanceKey a = ''vip:balance:'' @ a"
definition nodeKey :: "node_id \<Rightarrow> string" where "nodeKey i = ''vip:node:'' @ i"
definition peersKey :: "node_id \<Rightarrow> string" where "peersKey i = ''vip:peers:'' @ i"
definition versionKey :: string where "versionKey = ''vip:version''"

section \<open>Nonces and balances\<close>

definition badger_CheckAndSaveNonce ::
  "'d badger \<Rightarrow> duration \<Rightarrow> time \<Rightarrow> string \<Rightarrow> int \<Rightarrow> 'd \<Rightarrow> unit result \<times> 'd" where
  "badger_CheckAndSaveNonce B nonceExpire now ID nonce d =
     (if 0 < nonceExpire \<and> nonce \<le> UnixNano (time_Add now (- nonceExpire)) then (Inl ErrInvalidNonce, d)
      else
        db_Update B (\<lambda>t.
          let save = (if 0 < nonceExpire then setExpiringItem B (nonceKey ID) (GInt nonce) nonceExpire t
                      else setItem B (nonceKey ID) (GInt nonce) t)
          in case getItem B gob_int (nonceKey ID) t of
               Inr lastNonce \<Rightarrow> (if nonce \<le> lastNonce then (Inl ErrInvalidNonce, t) else save)
             | Inl e \<Rightarrow> (if e \<noteq> ErrKeyNotFound then (Inl e, t) else save))
          (db_At B now d))"

text \<open>The key of the balance a node spends from.\<close>
definition spend_key :: "'d badger \<Rightarrow> node_id \<Rightarrow> 'd \<Rightarrow> string result" where
  "spend_key B nodeID t =
     (case getItem B gob_string (accountKey nodeID) t of
        Inl e \<Rightarrow> (if e = ErrKeyNotFound then Inr (trialKey nodeID) else Inl e)
      | Inr account \<Rightarrow> Inr (balanceKey account))"

text \<open>That balance: a registered node without one has an empty balance.\<close>
definition spend_balance :: "'d badger \<Rightarrow> node_id \<Rightarrow> string \<Rightarrow> 'd \<Rightarrow> balance result" where
  "spend_balance B nodeID key t =
     (case getItem B gob_balance key t of
        Inl e \<Rightarrow>
          (if e = ErrKeyNotFound
           then (if \<not> hasKey B (nodeKey nodeID) t then Inl ErrUnregisteredNode else Inr zero_balance)
           else Inl e)
      | Inr r \<Rightarrow> Inr r)"

definition badger_GetNodeBalance :: "'d badger \<Rightarrow> node_id \<Rightarrow> 'd \<Rightarrow> balance result \<times> 'd" where
  "badger_GetNodeBalance B nodeID d =
     db_View (\<lambda>t. case spend_key B nodeID t of
         Inl e \<Rightarrow> Inl e
       | Inr key \<Rightarrow> spend_balance B nodeID key t) d"

definition badger_AddNodeBalance :: "'d badger \<Rightarrow> node_id \<Rightarrow> int \<Rightarrow> 'd \<Rightarrow> unit result \<times> 'd" where
  "badger_AddNodeBalance B nodeID credit d =
     db_Update B (\<lambda>t. case spend_key B nodeID t of
         Inl e \<Rightarrow> (Inl e, t)
       | Inr key \<Rightarrow>
           (case spend_balance B nodeID key t of
              Inl e \<Rightarrow> (Inl e, t)
            | Inr balance \<Rightarrow> setItem B key (GBalance (add_credit credit balance)) t)) d"

definition badger_GetAccountBalance :: "'d badger \<Rightarrow> account \<Rightarrow> 'd \<Rightarrow> balance result \<times> 'd" where
  "badger_GetAccountBalance B account d =
     db_View (getItem_or B gob_balance zero_balance (balanceKey account)) d"

definition badger_AddAccountBalance :: "'d badger \<Rightarrow> account \<Rightarrow> int \<Rightarrow> 'd \<Rightarrow> unit result \<times> 'd" where
  "badger_AddAccountBalance B account credit d =
     db_Update B (\<lambda>t. case getItem_or B gob_balance zero_balance (balanceKey account) t of
         Inl e \<Rightarrow> (Inl e, t)
       | Inr balance \<Rightarrow>
           setItem B (balanceKey account) (GBalance ((add_credit credit balance)\<lparr>b_Account := account\<rparr>)) t) d"

section \<open>Accounts\<close>

definition badger_AddAccountNode :: "'d badger \<Rightarrow> account \<Rightarrow> node_id \<Rightarrow> 'd \<Rightarrow> unit result \<times> 'd" where
  "badger_AddAccountNode B account nodeID d =
     db_Update B (\<lambda>t.
       if \<not> hasKey B (nodeKey nodeID) t then (Inl ErrUnregisteredNode, t)
       else case getItem_or B gob_balance zero_balance (trialKey nodeID) t of
         Inl e \<Rightarrow> (Inl e, t)
       | Inr trialBalance \<Rightarrow>
           (case getItem_or B gob_balance zero_balance (balanceKey account) t of
              Inl e \<Rightarrow> (Inl e, t)
            | Inr balance \<Rightarrow>
                then_txn (setItem B (accountKey nodeID) (GString account) t) (\<lambda>t1.
                then_txn (setItem B (balanceKey account)
                            (GBalance ((add_credit (b_Credit trialBalance) balance)\<lparr>b_Account := account\<rparr>)) t1) (\<lambda>t2.
                then_txn (txn_Delete B (trialKey nodeID) t2) (\<lambda>t3. (Inr (), t3)))))) d"

definition badger_IsAccountNode :: "'d badger \<Rightarrow> account \<Rightarrow> node_id \<Rightarrow> 'd \<Rightarrow> unit result \<times> 'd" where
  "badger_IsAccountNode B account nodeID d =
     db_View (\<lambda>t. case getItem B gob_string (accountKey nodeID) t of
         Inl e \<Rightarrow> (if e = ErrKeyNotFound then Inl ErrNotAuthorized else Inl e)
       | Inr nodeAccount \<Rightarrow> (if nodeAccount \<noteq> account then Inl ErrNotAuthorized else Inr ())) d"

definition badger_GetAccountNodes :: "'d badger \<Rightarrow> account \<Rightarrow> 'd \<Rightarrow> node_id list result \<times> 'd" where
  "badger_GetAccountNodes B account d =
     db_View (\<lambda>t. loopItem B ''vip:account:'' gob_string
       (\<lambda>key gotAccount r. if gotAccount \<noteq> account then r else r @ [drop (length ''vip:account:'') key]) t []) d"

section \<open>Nodes\<close>

definition badger_AllNodes :: "'d badger \<Rightarrow> 'd \<Rightarrow> node list result \<times> 'd" where
  "badger_AllNodes B d = db_View (\<lambda>t. loopItem B ''vip:node:'' gob_node (\<lambda>_ n r. r @ [n]) t []) d"

text \<open>
  \<^verbatim>\<open>rand.Shuffle\<close> leaves the items in an unspecified order: the order in which \<open>ord\<close> lists
  their keys.
\<close>
definition shuffle_items :: "iter_order \<Rightarrow> (string \<times> 'a) list \<Rightarrow> (string \<times> 'a) list" where
  "shuffle_items ord r = map (\<lambda>k. (k, the (map_of r k))) (ord (fset_of_list (map fst r)))"

definition badger_ActiveHosts ::
  "'d badger \<Rightarrow> time \<Rightarrow> iter_order \<Rightarrow> string \<Rightarrow> int \<Rightarrow> 'd \<Rightarrow> node list result \<times> 'd" where
  "badger_ActiveHosts B now ord kind limit d =
     (let seenSince = time_Add now (- ExpireInterval)
      in case db_View (\<lambda>t. loopItem B ''vip:node:'' gob_node
                (\<lambda>key n r. if host_matches kind seenSince n then r @ [(key, n)] else r) t []) d of
           (Inl e, d1) \<Rightarrow> (Inl e, d1)
         | (Inr r, d1) \<Rightarrow>
             (if limit \<le> 0 \<or> int (length r) < limit then (Inr (map snd r), d1)
              else (Inr (map snd (take (nat limit) (shuffle_items ord r))), d1)))"

definition badger_GetNode :: "'d badger \<Rightarrow> node_id \<Rightarrow> 'd \<Rightarrow> node result \<times> 'd" where
  "badger_GetNode B nodeID d =
     (case db_View (getItem B gob_node (nodeKey nodeID)) d of
        (Inl e, d1) \<Rightarrow> (Inl (if e = ErrKeyNotFound then ErrUnregisteredNode else e), d1)
      | (Inr r, d1) \<Rightarrow> (Inr r, d1))"

definition badger_SetNode :: "'d badger \<Rightarrow> node \<Rightarrow> 'd \<Rightarrow> unit result \<times> 'd" where
  "badger_SetNode B n d =
     (if n_ID n = '''' then (Inl ErrMalformedNode, d)
      else db_Update B (setItem B (nodeKey (n_ID n)) (GNode n)) d)"

text \<open>The loop of \<^verbatim>\<open>NodePeers\<close>: peers that are no longer known are skipped.\<close>
primrec load_peers :: "'d badger \<Rightarrow> 'd \<Rightarrow> node_id list \<Rightarrow> node list \<Rightarrow> node list result" where
  "load_peers B t [] r = Inr r"
| "load_peers B t (peerID # peers) r =
     (case getItem B gob_node (nodeKey peerID) t of
        Inl e \<Rightarrow> (if e = ErrKeyNotFound then load_peers B t peers r else Inl e)
      | Inr peerNode \<Rightarrow> load_peers B t peers (r @ [peerNode]))"

definition badger_NodePeers :: "'d badger \<Rightarrow> iter_order \<Rightarrow> node_id \<Rightarrow> 'd \<Rightarrow> node list result \<times> 'd" where
  "badger_NodePeers B ord nodeID d =
     db_View (\<lambda>t. case getItem B gob_peers (peersKey nodeID) t of
         Inl e \<Rightarrow>
           (if e = ErrKeyNotFound
            then (if \<not> hasKey B (nodeKey nodeID) t then Inl ErrUnregisteredNode else Inr [])
            else Inl e)
       | Inr nodePeers \<Rightarrow> load_peers B t (ord (fmdom nodePeers)) []) d"

text \<open>The first loop of \<^verbatim>\<open>UpdateNodePeers\<close>: stamp the reported peers the store knows.\<close>
primrec mark_peers :: "'d badger \<Rightarrow> 'd \<Rightarrow> string list \<Rightarrow> (node_id, time) fmap \<Rightarrow> (node_id, time) fmap result" where
  "mark_peers B t [] nodePeers = Inr nodePeers"
| "mark_peers B t (peerID # peers) nodePeers =
     (case getItem B gob_node (nodeKey peerID) t of
        Inl e \<Rightarrow> (if e = ErrKeyNotFound then mark_peers B t peers nodePeers else Inl e)
      | Inr peerNode \<Rightarrow> mark_peers B t peers (fmupd peerID (n_LastSeen peerNode) nodePeers))"

definition badger_UpdateNodePeers ::
  "'d badger \<Rightarrow> time \<Rightarrow> iter_order \<Rightarrow> node_id \<Rightarrow> string list \<Rightarrow> uint64 \<Rightarrow> 'd \<Rightarrow> node_id list result \<times> 'd" where
  "badger_UpdateNodePeers B now ord nodeID peers blockNumber d =
     db_Update B (\<lambda>t. case getItem B gob_node (nodeKey nodeID) t of
         Inl e \<Rightarrow> (Inl (if e = ErrKeyNotFound then ErrUnregisteredNode else e), t)
       | Inr n \<Rightarrow>
           then_txn (setItem B (nodeKey nodeID) (GNode (n\<lparr>n_LastSeen := now, n_BlockNumber := blockNumber\<rparr>)) t) (\<lambda>t1.
             case getItem_or B gob_peers fmempty (peersKey nodeID) t1 of
               Inl e \<Rightarrow> (Inl e, t1)
             | Inr nodePeers \<Rightarrow>
                 (case mark_peers B t1 peers nodePeers of
                    Inl e \<Rightarrow> (Inl e, t1)
                  | Inr marked \<Rightarrow>
                      (let (inactive, kept) = expire_peers (time_Add now (- ExpireInterval)) (ord (fmdom marked)) marked []
                       in then_txn (setItem B (peersKey nodeID) (GPeers kept) t1) (\<lambda>t2. (Inr inactive, t2)))))) d"

definition badger_Stats :: "'d badger \<Rightarrow> time \<Rightarrow> 'd \<Rightarrow> stats result \<times> 'd" where
  "badger_Stats B now d =
     db_View (\<lambda>t.
       case loopItem B ''vip:node:'' gob_node (\<lambda>_. CountNode now) t zero_stats of
         Inl e \<Rightarrow> Inl e
       | Inr st1 \<Rightarrow>
           (case loopItem B ''vip:balance:'' gob_balance (\<lambda>_. CountBalance) t st1 of
              Inl e \<Rightarrow> Inl e
            | Inr st2 \<Rightarrow> loopItem B ''vip:trial:'' gob_balance (\<lambda>_. CountBalance) t st2)) d"

text \<open>The driver as a value of the \<^verbatim>\<open>store.Store\<close> interface.\<close>
definition badger_Store :: "'d badger \<Rightarrow> duration \<Rightarrow> 'd Store" where
  "badger_Store B nonceExpire =
     \<lparr>GetNodeBalance = (\<lambda>_. badger_GetNodeBalance B), AddNodeBalance = badger_AddNodeBalance B,
      GetAccountBalance = (\<lambda>_. badger_GetAccountBalance B), AddAccountBalance = badger_AddAccountBalance B,
      AddAccountNode = badger_AddAccountNode B, IsAccountNode = badger_IsAccountNode B,
      GetAccountNodes = (\<lambda>_. badger_GetAccountNodes B),
      CheckAndSaveNonce = badger_CheckAndSaveNonce B nonceExpire,
      GetNode = badger_GetNode B, SetNode = badger_SetNode B, ActiveHosts = badger_ActiveHosts B,
      NodePeers = badger_NodePeers B, UpdateNodePeers = badger_UpdateNodePeers B,
      Stats = (\<lambda>now _. badger_Stats B now)\<rparr>"

section \<open>Migration\<close>

definition getVersion :: "'d badger \<Rightarrow> 'd \<Rightarrow> int result" where
  "getVersion B t = getItem_or B gob_int 0 versionKey t"

definition setVersion :: "'d badger \<Rightarrow> int \<Rightarrow> 'd \<Rightarrow> unit result \<times> 'd" where
  "setVersion B version t = setItem B versionKey (GInt version) t"

definition checkVersion :: "'d badger \<Rightarrow> int \<Rightarrow> 'd \<Rightarrow> unit result" where
  "checkVersion B assertVersion t =
     (case getVersion B t of
        Inl e \<Rightarrow> Inl e
      | Inr version \<Rightarrow>
          (if version \<noteq> assertVersion then Inl (ErrNew ''wrong version for migration'') else Inr ()))"

type_synonym 'd migration_step = "'d \<Rightarrow> unit result \<times> 'd"

record 'd migration =
  mg_StartVersion :: int
  mg_LatestVersion :: int
  mg_Steps :: "'d migration_step list"
  mg_DatabaseID :: string

definition migration_error :: "'d migration \<Rightarrow> go_error \<Rightarrow> int \<Rightarrow> go_error" where
  "migration_error m cause version =
     (case cause of GoPanic msg \<Rightarrow> GoPanic msg
      | _ \<Rightarrow> MigrationError version (mg_LatestVersion m) (mg_DatabaseID m) cause)"

text \<open>\<^verbatim>\<open>m.Steps[v-m.StartVersion](txn)\<close>, where an index out of range panics.\<close>
definition run_step :: "'d migration \<Rightarrow> int \<Rightarrow> 'd \<Rightarrow> unit result \<times> 'd" where
  "run_step m v t =
     (let i = v - mg_StartVersion m
      in if 0 \<le> i \<and> i < int (length (mg_Steps m)) then (mg_Steps m ! nat i) t
         else (Inl (GoPanic ''index out of range''), t))"

text \<open>The loop, which ends because a step that does not raise the version is an error.\<close>
function migrate_loop :: "'d badger \<Rightarrow> 'd migration \<Rightarrow> int \<Rightarrow> 'd \<Rightarrow> unit result \<times> 'd" where
  "migrate_loop B m v t =
     (if v < mg_LatestVersion m then
        (case run_step m v t of
           (Inl e, t1) \<Rightarrow> (Inl (migration_error m e v), t1)
         | (Inr _, t1) \<Rightarrow>
             (case getVersion B t1 of
                Inl e \<Rightarrow> (Inl (migration_error m e v), t1)
              | Inr nextVersion \<Rightarrow>
                  (if nextVersion \<le> v
                   then (Inl (migration_error m (ErrNew ''migration failed to increment version'') v), t1)
                   else migrate_loop B m nextVersion t1)))
      else (Inr (), t))"
  by pat_completeness auto
termination
  by (relation "measure (\<lambda>(B, m, v, t). nat (mg_LatestVersion m - v))") auto

declare migrate_loop.simps [simp del]

definition Migrate :: "'d badger \<Rightarrow> 'd migration \<Rightarrow> 'd \<Rightarrow> unit result \<times> 'd" where
  "Migrate B m d =
     db_Update B (\<lambda>t. case getVersion B t of
         Inl e \<Rightarrow> (Inl (migration_error m e 0), t)
       | Inr oldVersion \<Rightarrow>
           (if oldVersion = mg_LatestVersion m then (Inr (), t)
            else if mg_LatestVersion m < oldVersion
            then (Inl (migration_error m (ErrNew ''database is newer than the supported version'') oldVersion), t)
            else if mg_StartVersion m > oldVersion
            then (Inl (migration_error m (ErrNew ''database version too old, migration is not supported'') oldVersion), t)
            else migrate_loop B m oldVersion t)) d"

definition dbVersion :: int where
  "dbVersion = 2"

definition migrate_0_1 :: "'d badger \<Rightarrow> 'd migration_step" where
  "migrate_0_1 B t = (case checkVersion B 0 t of Inl e \<Rightarrow> (Inl e, t) | Inr _ \<Rightarrow> setVersion B 1 t)"

text \<open>The results of the deletions are ignored.\<close>
definition migrate_1_2 :: "'d badger \<Rightarrow> 'd migration_step" where
  "migrate_1_2 B t =
     (case checkVersion B 1 t of
        Inl e \<Rightarrow> (Inl e, t)
      | Inr _ \<Rightarrow> setVersion B 2 (fold (\<lambda>item t1. snd (txn_Delete B (fst item) t1)) (txn_Iterate B ''vip:nonce:'' t) t))"

definition migrations :: "'d badger \<Rightarrow> 'd migration_step list" where
  "migrations B = [migrate_0_1 B, migrate_1_2 B]"

definition MigrateLatest :: "'d badger \<Rightarrow> string \<Rightarrow> 'd \<Rightarrow> unit result \<times> 'd" where
  "MigrateLatest B i d =
     Migrate B \<lparr>mg_StartVersion = 0, mg_LatestVersion = dbVersion, mg_Steps = migrations B, mg_DatabaseID = i\<rparr> d"

text \<open>Opening a database, given what the engine returned, yields the driver and its state.\<close>
definition badger_Open :: "'d badger \<Rightarrow> string \<Rightarrow> 'd result \<Rightarrow> ('d Store \<times> 'd) result" where
  "badger_Open B dir opened =
     (case opened of
        Inl e \<Rightarrow> Inl e
      | Inr db \<Rightarrow>
          (case MigrateLatest B dir db of
             (Inl e, _) \<Rightarrow> Inl e
           | (Inr _, d) \<Rightarrow> Inr (badger_Store B ExpireNonce, d)))"

end
