(* ===== verification/Badger_Laws.thy ===== *)
theory Badger_Laws
  imports Badger_Store
begin

text \<open>
  The persistent store keeps the contracts of the storage interface.

  The map behind the database is typed by the prefix of its keys (\<open>bd_inv\<close>), and every
  method is an update of that map. From this follow the contracts: no credit is
  made or lost (\<open>audited_store\<close>), and each node draws on one purse
  (\<open>ledger_store\<close>).
\<close>

section \<open>Keys\<close>

lemmas key_defs = nonceKey_def accountKey_def trialKey_def balanceKey_def nodeKey_def peersKey_def versionKey_def

lemma key_inject [simp]:
  "nonceKey i = nonceKey j \<longleftrightarrow> i = j" "accountKey i = accountKey j \<longleftrightarrow> i = j"
  "trialKey i = trialKey j \<longleftrightarrow> i = j" "balanceKey i = balanceKey j \<longleftrightarrow> i = j"
  "nodeKey i = nodeKey j \<longleftrightarrow> i = j" "peersKey i = peersKey j \<longleftrightarrow> i = j"
  by (simp_all add: key_defs)

lemma key_distinct [simp]:
  "nonceKey i \<noteq> accountKey j" "nonceKey i \<noteq> trialKey j" "nonceKey i \<noteq> balanceKey j"
  "nonceKey i \<noteq> nodeKey j" "nonceKey i \<noteq> peersKey j" "nonceKey i \<noteq> versionKey"
  "accountKey i \<noteq> trialKey j" "accountKey i \<noteq> balanceKey j" "accountKey i \<noteq> nodeKey j"
  "accountKey i \<noteq> peersKey j" "accountKey i \<noteq> versionKey" "trialKey i \<noteq> balanceKey j"
  "trialKey i \<noteq> nodeKey j" "trialKey i \<noteq> peersKey j" "trialKey i \<noteq> versionKey"
  "balanceKey i \<noteq> nodeKey j" "balanceKey i \<noteq> peersKey j" "balanceKey i \<noteq> versionKey"
  "nodeKey i \<noteq> peersKey j" "nodeKey i \<noteq> versionKey" "peersKey i \<noteq> versionKey"
  by (simp_all add: key_defs)

lemmas key_distinct' [simp] = key_distinct [THEN not_sym]

section \<open>Typed maps\<close>

type_synonym kv_map = "(string, gob \<times> time option) fmap"

text \<open>The decoded value under a key.\<close>
definition item :: "(gob \<Rightarrow> 'a result) \<Rightarrow> kv_map \<Rightarrow> string \<Rightarrow> 'a option" where
  "item decode m k =
     (case fmlookup m k of
        None \<Rightarrow> None
      | Some e \<Rightarrow> (case decode (fst e) of Inl _ \<Rightarrow> None | Inr a \<Rightarrow> Some a))"

definition decodes :: "(gob \<Rightarrow> 'a result) \<Rightarrow> kv_map \<Rightarrow> string \<Rightarrow> bool" where
  "decodes decode m k \<longleftrightarrow> (\<forall>e. fmlookup m k = Some e \<longrightarrow> is_ok (decode (fst e)))"

lemma decodes_code [code]:
  "decodes decode m k \<longleftrightarrow> (case fmlookup m k of None \<Rightarrow> True | Some e \<Rightarrow> is_ok (decode (fst e)))"
  by (simp add: decodes_def split: option.splits)

lemma item_upd: "item decode (fmupd k' e m) k =
    (if k = k' then (case decode (fst e) of Inl _ \<Rightarrow> None | Inr a \<Rightarrow> Some a) else item decode m k)"
  by (simp add: item_def)

lemma item_drop: "item decode (fmdrop k' m) k = (if k = k' then None else item decode m k)"
  by (simp add: item_def)

lemma decodes_upd: "decodes decode (fmupd k' e m) k \<longleftrightarrow> (if k = k' then is_ok (decode (fst e)) else decodes decode m k)"
  by (cases e) (auto simp: decodes_def)

lemma decodes_drop: "decodes decode (fmdrop k' m) k \<longleftrightarrow> k = k' \<or> decodes decode m k"
  by (simp add: decodes_def)

lemma decodes_item: "decodes decode m k \<Longrightarrow> item decode m k = None \<longleftrightarrow> fmlookup m k = None"
  by (auto simp: decodes_def item_def is_ok_def split: option.splits sum.splits)

lemmas item_simps = item_upd item_drop decodes_upd decodes_drop

text \<open>
  Keys determine types; only nonces expire; nodes are stored under their own non-empty
  ID; the balance of an account carries its name; a node with an account has a
  registered node, a balance of the account and no trial balance; a trial balance carries no
  account and belongs to a registered node.
\<close>
definition bd_typed :: "kv_map \<Rightarrow> bool" where
  "bd_typed m \<longleftrightarrow>
     (\<forall>i. decodes gob_int m (nonceKey i) \<and> decodes gob_string m (accountKey i) \<and>
        decodes gob_balance m (trialKey i) \<and> decodes gob_balance m (balanceKey i) \<and>
        decodes gob_node m (nodeKey i) \<and> decodes gob_peers m (peersKey i)) \<and>
     decodes gob_int m versionKey \<and>
     (\<forall>k v t. fmlookup m k = Some (v, Some t) \<longrightarrow> k \<in> range nonceKey)"

definition bd_inv :: "kv_map \<Rightarrow> bool" where
  "bd_inv m \<longleftrightarrow> bd_typed m \<and>
     (\<forall>i n. item gob_node m (nodeKey i) = Some n \<longrightarrow> n_ID n = i \<and> i \<noteq> '''') \<and>
     (\<forall>a b. item gob_balance m (balanceKey a) = Some b \<longrightarrow> b_Account b = a) \<and>
     (\<forall>i a. item gob_string m (accountKey i) = Some a \<longrightarrow>
        item gob_balance m (trialKey i) = None \<and> item gob_node m (nodeKey i) \<noteq> None \<and>
        item gob_balance m (balanceKey a) \<noteq> None) \<and>
     (\<forall>i b. item gob_balance m (trialKey i) = Some b \<longrightarrow> b_Account b = '''' \<and> item gob_node m (nodeKey i) \<noteq> None)"

lemma bd_inv_typed: "bd_inv m \<Longrightarrow> bd_typed m"
  by (simp add: bd_inv_def)

lemma bd_inv_empty: "bd_inv fmempty"
  by (simp add: bd_inv_def bd_typed_def item_def decodes_def)

text \<open>The purses, and the credit of all balances.\<close>
definition bd_registered :: "kv_map \<Rightarrow> node_id \<Rightarrow> bool" where
  "bd_registered m i \<longleftrightarrow> item gob_node m (nodeKey i) \<noteq> None"

definition bd_purse_of :: "kv_map \<Rightarrow> node_id \<Rightarrow> purse_id" where
  "bd_purse_of m i = (case item gob_string m (accountKey i) of None \<Rightarrow> Inr i | Some a \<Rightarrow> Inl a)"

definition purse_key :: "purse_id \<Rightarrow> string" where
  "purse_key w = (case w of Inl a \<Rightarrow> balanceKey a | Inr i \<Rightarrow> trialKey i)"

definition bd_balance :: "kv_map \<Rightarrow> string \<Rightarrow> balance" where
  "bd_balance m k = (case item gob_balance m k of None \<Rightarrow> zero_balance | Some b \<Rightarrow> b)"

definition bd_purse :: "kv_map \<Rightarrow> purse_id \<Rightarrow> int" where
  "bd_purse m w = b_Credit (bd_balance m (purse_key w))"

definition entry_credit :: "gob \<times> time option \<Rightarrow> int" where
  "entry_credit e = (case fst e of GBalance b \<Rightarrow> b_Credit b | _ \<Rightarrow> 0)"

definition bd_credit :: "kv_map \<Rightarrow> int" where
  "bd_credit m = fm_sum entry_credit m"

lemma purse_key_inject [simp]: "purse_key v = purse_key w \<longleftrightarrow> v = w"
  by (auto simp: purse_key_def split: sum.splits)

lemma gob_ok:
  "is_ok (gob_int v) \<longleftrightarrow> (\<exists>x. v = GInt x)" "is_ok (gob_string v) \<longleftrightarrow> (\<exists>x. v = GString x)"
  "is_ok (gob_balance v) \<longleftrightarrow> (\<exists>x. v = GBalance x)" "is_ok (gob_node v) \<longleftrightarrow> (\<exists>x. v = GNode x)"
  "is_ok (gob_peers v) \<longleftrightarrow> (\<exists>x. v = GPeers x)"
  by (cases v; simp add: gob_mismatch_def)+

text \<open>What the entries contribute to the credit: balances their own, other entries nothing.\<close>
lemma entry_part_zero:
  "decodes gob_int m k \<or> decodes gob_string m k \<or> decodes gob_node m k \<or> decodes gob_peers m k \<Longrightarrow>
   fm_part entry_credit m k = 0"
  by (auto simp: fm_part_def decodes_def gob_ok entry_credit_def split: option.splits gob.splits)

lemma entry_part_balance:
  "decodes gob_balance m k \<Longrightarrow> fm_part entry_credit m k = b_Credit (bd_balance m k)"
  by (auto simp: fm_part_def decodes_def gob_ok entry_credit_def bd_balance_def item_def split: option.splits)

lemma bd_credit_upd_plain:
  assumes "decodes gob_int m k \<or> decodes gob_string m k \<or> decodes gob_node m k \<or> decodes gob_peers m k"
    and "entry_credit e = 0"
  shows "bd_credit (fmupd k e m) = bd_credit m"
  using entry_part_zero [OF assms(1)] assms(2) by (simp add: bd_credit_def fm_sum_upd)

lemma bd_credit_upd_balance:
  "decodes gob_balance m k \<Longrightarrow>
   bd_credit (fmupd k (GBalance b, x) m) = bd_credit m - b_Credit (bd_balance m k) + b_Credit b"
  by (simp add: bd_credit_def fm_sum_upd entry_part_balance entry_credit_def)

lemma bd_credit_drop_balance:
  "decodes gob_balance m k \<Longrightarrow> bd_credit (fmdrop k m) = bd_credit m - b_Credit (bd_balance m k)"
  by (simp add: bd_credit_def fm_sum_drop entry_part_balance)

section \<open>Updates that keep the map typed\<close>

lemma bd_typed_upd:
  assumes "bd_typed m" and "x = None \<or> k \<in> range nonceKey"
    and "(\<exists>i. k = nonceKey i \<and> is_ok (gob_int v)) \<or> (\<exists>i. k = accountKey i \<and> is_ok (gob_string v)) \<or>
      (\<exists>i. (k = trialKey i \<or> k = balanceKey i) \<and> is_ok (gob_balance v)) \<or>
      (\<exists>i. k = nodeKey i \<and> is_ok (gob_node v)) \<or> (\<exists>i. k = peersKey i \<and> is_ok (gob_peers v)) \<or>
      k = versionKey \<and> is_ok (gob_int v)"
  shows "bd_typed (fmupd k (v, x) m)"
  using assms unfolding bd_typed_def by (elim disjE exE conjE) (auto simp: decodes_upd)

lemma bd_typed_drop: "bd_typed m \<Longrightarrow> bd_typed (fmdrop k m)"
  by (auto simp: bd_typed_def decodes_drop)

lemma bd_inv_nonce: "bd_inv m \<Longrightarrow> bd_inv (fmupd (nonceKey i) (GInt n, x) m)"
  by (simp add: bd_inv_def bd_typed_upd item_simps)

lemma bd_inv_node:
  "bd_inv m \<Longrightarrow> n_ID n = i \<Longrightarrow> i \<noteq> '''' \<Longrightarrow> bd_inv (fmupd (nodeKey i) (GNode n, None) m)"
  by (auto simp: bd_inv_def bd_typed_upd item_simps)

lemma bd_inv_peers: "bd_inv m \<Longrightarrow> bd_inv (fmupd (peersKey i) (GPeers p, None) m)"
  by (simp add: bd_inv_def bd_typed_upd item_simps)

lemma bd_inv_balance: "bd_inv m \<Longrightarrow> b_Account b = a \<Longrightarrow> bd_inv (fmupd (balanceKey a) (GBalance b, None) m)"
  by (simp add: bd_inv_def bd_typed_upd item_simps)

lemma bd_inv_purse:
  assumes "bd_inv m" and "bd_registered m i" and "k = purse_key (bd_purse_of m i)"
  shows "bd_inv (fmupd k (GBalance (add_credit c (bd_balance m k)), None) m)"
proof (cases "item gob_string m (accountKey i)")
  case None
  then have k: "k = trialKey i" using assms(3) by (simp add: bd_purse_of_def purse_key_def)
  have "b_Account (bd_balance m k) = ''''"
    using assms(1) k by (auto simp: bd_inv_def bd_balance_def split: option.splits)
  then show ?thesis
    using assms(1,2) k None by (auto simp: bd_inv_def bd_typed_upd item_simps bd_registered_def)
next
  case (Some a)
  then have k: "k = balanceKey a" using assms(3) by (simp add: bd_purse_of_def purse_key_def)
  have "b_Account (bd_balance m k) = a"
    using assms(1) k Some by (auto simp: bd_inv_def bd_balance_def split: option.splits)
  then show ?thesis using assms(1) k by (simp add: bd_inv_balance)
qed

lemma bd_inv_account:
  assumes "bd_inv m" and "bd_registered m i" and "b_Account b = a"
  shows "bd_inv (fmdrop (trialKey i) (fmupd (balanceKey a) (GBalance b, None) (fmupd (accountKey i) (GString a, None) m)))"
  using assms
  by (auto simp: bd_inv_def bd_typed_upd bd_typed_drop item_simps bd_registered_def)

section \<open>What the database engine promises\<close>

text \<open>An entry is there until its time to live is over.\<close>
definition unexpired :: "time \<Rightarrow> (gob \<times> time option) option \<Rightarrow> (gob \<times> time option) option" where
  "unexpired t e =
     (case e of Some (v, Some expire) \<Rightarrow> (if t < expire then e else None) | _ \<Rightarrow> e)"

locale badger_kv =
  fixes B :: "'d badger"
    and kv :: "'d \<Rightarrow> kv_map"
    and clock :: "'d \<Rightarrow> time"
  assumes At_kv: "fmlookup (kv (db_At B now d)) k = unexpired now (fmlookup (kv d) k)"
    and At_clock: "clock (db_At B now d) = now"
    and Get_kv: "txn_Get B k d = (case fmlookup (kv d) k of None \<Rightarrow> Inl ErrKeyNotFound | Some e \<Rightarrow> Inr (fst e))"
    and Set_kv: "txn_Set B k v d = (Inr u, d') \<Longrightarrow> kv d' = fmupd k (v, None) (kv d)"
    and SetEntry_kv: "txn_SetEntry B k v ttl d = (Inr u, d') \<Longrightarrow> kv d' = fmupd k (v, Some (clock d + ttl)) (kv d)"
    and Delete_kv: "txn_Delete B k d = (Inr u, d') \<Longrightarrow> kv d' = fmdrop k (kv d)"
    and Iterate_kv: "distinct (map fst (txn_Iterate B p d)) \<and>
      set (txn_Iterate B p d) = {(k, v). prefix p k \<and> (\<exists>x. fmlookup (kv d) k = Some (v, x))}"
    and Commit_ok: "txn_Commit B d t = (Inr u, d') \<Longrightarrow> kv d' = kv t"
    and Commit_err: "txn_Commit B d t = (Inl e, d') \<Longrightarrow> kv d' = kv d"
begin

lemma Update_cases:
  assumes "db_Update B f d = (r, d')"
  obtains (failed) e where "r = Inl e" "kv d' = kv d"
  | (committed) v t where "f d = (Inr v, t)" "r = Inr v" "kv d' = kv t"
proof (cases "f d")
  case (Pair q t)
  show thesis
  proof (cases q)
    case (Inl e)
    then show thesis using that(1) [of e] assms Pair by (simp add: db_Update_def)
  next
    case (Inr v)
    obtain c d1 where c: "txn_Commit B d t = (c, d1)" by (cases "txn_Commit B d t")
    show thesis
    proof (cases c)
      case (Inl e)
      then show thesis using that(1) [of e] assms Pair Inr c Commit_err [of d t e d1] by (simp add: db_Update_def)
    next
      case (Inr u)
      then show thesis using that(2) [of v t] assms Pair \<open>q = Inr v\<close> c Commit_ok [of d t u d1] by (simp add: db_Update_def)
    qed
  qed
qed

lemma getItem_kv:
  "decodes decode (kv d) k \<Longrightarrow>
   getItem B decode k d = (case item decode (kv d) k of None \<Rightarrow> Inl ErrKeyNotFound | Some a \<Rightarrow> Inr a)"
  by (auto simp: getItem_def Get_kv item_def decodes_def is_ok_def split: option.splits sum.splits)

lemma getItem_or_kv:
  "decodes decode (kv d) k \<Longrightarrow>
   getItem_or B decode z k d = Inr (case item decode (kv d) k of None \<Rightarrow> z | Some a \<Rightarrow> a)"
  by (simp add: getItem_or_def getItem_kv split: option.splits)

lemma hasKey_kv: "hasKey B k d \<longleftrightarrow> fmlookup (kv d) k \<noteq> None"
  by (auto simp: hasKey_def Get_kv split: option.splits)

text \<open>The reads.\<close>
lemma typed_items:
  assumes "bd_typed (kv d)"
  shows "getItem B gob_int (nonceKey i) d = (case item gob_int (kv d) (nonceKey i) of None \<Rightarrow> Inl ErrKeyNotFound | Some n \<Rightarrow> Inr n)"
    and "getItem B gob_string (accountKey i) d = (case item gob_string (kv d) (accountKey i) of None \<Rightarrow> Inl ErrKeyNotFound | Some a \<Rightarrow> Inr a)"
    and "getItem B gob_node (nodeKey i) d = (case item gob_node (kv d) (nodeKey i) of None \<Rightarrow> Inl ErrKeyNotFound | Some n \<Rightarrow> Inr n)"
    and "getItem B gob_peers (peersKey i) d = (case item gob_peers (kv d) (peersKey i) of None \<Rightarrow> Inl ErrKeyNotFound | Some n \<Rightarrow> Inr n)"
    and "getItem_or B gob_balance zero_balance (trialKey i) d = Inr (bd_balance (kv d) (trialKey i))"
    and "getItem_or B gob_balance zero_balance (balanceKey i) d = Inr (bd_balance (kv d) (balanceKey i))"
    and "hasKey B (nodeKey i) d \<longleftrightarrow> bd_registered (kv d) i"
  using assms
  by (simp_all add: bd_typed_def getItem_kv getItem_or_kv bd_balance_def hasKey_kv bd_registered_def decodes_item)

lemma spend_key_kv:
  "bd_typed (kv d) \<Longrightarrow> spend_key B i d = Inr (purse_key (bd_purse_of (kv d) i))"
  by (simp add: spend_key_def typed_items purse_key_def bd_purse_of_def split: option.splits)

lemma spend_balance_kv:
  assumes "bd_inv (kv d)"
  shows "spend_balance B i (purse_key (bd_purse_of (kv d) i)) d =
    (if bd_registered (kv d) i then Inr (bd_balance (kv d) (purse_key (bd_purse_of (kv d) i))) else Inl ErrUnregisteredNode)"
proof -
  have typed: "bd_typed (kv d)" and "decodes gob_balance (kv d) (purse_key (bd_purse_of (kv d) i))"
    using assms by (simp_all add: bd_inv_def bd_typed_def purse_key_def split: sum.splits)
  moreover have "bd_registered (kv d) i" if "item gob_balance (kv d) (purse_key (bd_purse_of (kv d) i)) = Some b" for b
    using assms that by (auto simp: bd_inv_def bd_registered_def purse_key_def bd_purse_of_def split: option.splits)
  ultimately show ?thesis
    by (auto simp: spend_balance_def getItem_kv typed_items(7) [OF typed] bd_balance_def split: option.splits)
qed

lemma GetNodeBalance_kv:
  "bd_inv (kv d) \<Longrightarrow> badger_GetNodeBalance B i d =
     (if bd_registered (kv d) i then Inr (bd_balance (kv d) (purse_key (bd_purse_of (kv d) i))) else Inl ErrUnregisteredNode, d)"
  by (simp add: badger_GetNodeBalance_def db_View_def spend_key_kv bd_inv_typed spend_balance_kv)

text \<open>The writes, as updates of the map.\<close>
lemma setItem_kv: "setItem B k v d = (Inr u, d') \<Longrightarrow> kv d' = fmupd k (v, None) (kv d)"
  by (simp add: setItem_def Set_kv)

lemma AddNodeBalance_kv:
  assumes "bd_inv (kv d)" and "badger_AddNodeBalance B i c d = (r, d')"
  obtains (failed) e where "r = Inl e" "kv d' = kv d"
  | (added) "r = Inr ()" "bd_registered (kv d) i"
      "kv d' = (let k = purse_key (bd_purse_of (kv d) i) in fmupd k (GBalance (add_credit c (bd_balance (kv d) k)), None) (kv d))"
  using assms(2) unfolding badger_AddNodeBalance_def
proof (cases rule: Update_cases)
  case (failed e)
  then show thesis by (rule that(1))
next
  case (committed v t)
  then show thesis
    using that(2) assms(1)
    by (auto simp: spend_key_kv bd_inv_typed spend_balance_kv Let_def split: if_splits dest: setItem_kv)
qed

lemma AddNodeBalance_unregistered:
  "bd_inv (kv d) \<Longrightarrow> \<not> bd_registered (kv d) i \<Longrightarrow> badger_AddNodeBalance B i c d = (Inl ErrUnregisteredNode, d)"
  by (simp add: badger_AddNodeBalance_def db_Update_def spend_key_kv bd_inv_typed spend_balance_kv)

lemma AddAccountBalance_kv:
  assumes "bd_inv (kv d)" and "badger_AddAccountBalance B a c d = (r, d')"
  obtains (failed) e where "r = Inl e" "kv d' = kv d"
  | (added) "r = Inr ()"
      "kv d' = fmupd (balanceKey a) (GBalance ((add_credit c (bd_balance (kv d) (balanceKey a)))\<lparr>b_Account := a\<rparr>), None) (kv d)"
  using assms(2) unfolding badger_AddAccountBalance_def
proof (cases rule: Update_cases)
  case (failed e)
  then show thesis by (rule that(1))
next
  case (committed v t)
  then show thesis
    using that(2) assms(1) by (simp add: typed_items bd_inv_typed setItem_kv)
qed

lemma then_txn_ok: "then_txn w f = (Inr v, t) \<longleftrightarrow> (\<exists>u t1. w = (Inr u, t1) \<and> f t1 = (Inr v, t))"
  by (auto simp: then_txn_def split: prod.splits sum.splits)

lemma AddAccountNode_kv:
  assumes "bd_inv (kv d)" and "badger_AddAccountNode B a i d = (r, d')"
  obtains (failed) e where "r = Inl e" "kv d' = kv d"
  | (added) "r = Inr ()" "bd_registered (kv d) i"
      "kv d' = fmdrop (trialKey i) (fmupd (balanceKey a)
         (GBalance ((add_credit (b_Credit (bd_balance (kv d) (trialKey i))) (bd_balance (kv d) (balanceKey a)))\<lparr>b_Account := a\<rparr>), None)
         (fmupd (accountKey i) (GString a, None) (kv d)))"
  using assms(2) unfolding badger_AddAccountNode_def
proof (cases rule: Update_cases)
  case (failed e)
  then show thesis by (rule that(1))
next
  case (committed v t)
  then show thesis
    using that(2) assms(1)
    by (auto simp: typed_items bd_inv_typed then_txn_ok split: if_splits dest!: setItem_kv Delete_kv)
qed

lemma SetNode_kv:
  assumes "badger_SetNode B n d = (r, d')"
  obtains (failed) e where "r = Inl e" "kv d' = kv d"
  | (set) "r = Inr ()" "n_ID n \<noteq> ''''" "kv d' = fmupd (nodeKey (n_ID n)) (GNode n, None) (kv d)"
proof (cases "n_ID n = ''''")
  case True
  then show thesis using that(1) assms by (auto simp: badger_SetNode_def)
next
  case False
  then have "db_Update B (setItem B (nodeKey (n_ID n)) (GNode n)) d = (r, d')"
    using assms by (simp add: badger_SetNode_def)
  then show thesis
  proof (cases rule: Update_cases)
    case (failed e)
    then show thesis by (rule that(1))
  next
    case (committed v t)
    then show thesis using that(2) [OF _ False] setItem_kv [OF committed(1)] by simp
  qed
qed

lemma UpdateNodePeers_kv:
  assumes "bd_inv (kv d)" and "badger_UpdateNodePeers B now ord i ps b d = (r, d')"
  obtains (failed) e where "r = Inl e" "kv d' = kv d"
  | (updated) n t1 marked where "item gob_node (kv d) (nodeKey i) = Some n"
      "kv t1 = fmupd (nodeKey i) (GNode (n\<lparr>n_LastSeen := now, n_BlockNumber := b\<rparr>), None) (kv d)"
      "mark_peers B t1 ps (case item gob_peers (kv d) (peersKey i) of None \<Rightarrow> fmempty | Some m \<Rightarrow> m) = Inr marked"
      "r = Inr (fst (expire_peers (now - ExpireInterval) (ord (fmdom marked)) marked []))"
      "kv d' = fmupd (peersKey i) (GPeers (snd (expire_peers (now - ExpireInterval) (ord (fmdom marked)) marked [])), None) (kv t1)"
  using assms(2) unfolding badger_UpdateNodePeers_def
proof (cases rule: Update_cases)
  case (failed e)
  then show thesis by (rule that(1))
next
  case (committed v t)
  have typed: "bd_typed (kv d)" using assms(1) by (rule bd_inv_typed)
  obtain n where n: "item gob_node (kv d) (nodeKey i) = Some n"
    using committed(1) typed by (auto simp: typed_items split: option.splits)
  obtain u t1 where t1: "setItem B (nodeKey i) (GNode (n\<lparr>n_LastSeen := now, n_BlockNumber := b\<rparr>)) d = (Inr u, t1)"
    and rest: "(case getItem_or B gob_peers fmempty (peersKey i) t1 of
               Inl e \<Rightarrow> (Inl e, t1)
             | Inr nodePeers \<Rightarrow>
                 (case mark_peers B t1 ps nodePeers of
                    Inl e \<Rightarrow> (Inl e, t1)
                  | Inr marked \<Rightarrow>
                      (let (inactive, kept) = expire_peers (time_Add now (- ExpireInterval)) (ord (fmdom marked)) marked []
                       in then_txn (setItem B (peersKey i) (GPeers kept) t1) (\<lambda>t2. (Inr inactive, t2))))) = (Inr v, t)"
    using committed(1) typed n by (auto simp: typed_items then_txn_ok)
  have kv1: "kv t1 = fmupd (nodeKey i) (GNode (n\<lparr>n_LastSeen := now, n_BlockNumber := b\<rparr>), None) (kv d)"
    using t1 by (rule setItem_kv)
  have "decodes gob_peers (kv t1) (peersKey i)" and "item gob_peers (kv t1) (peersKey i) = item gob_peers (kv d) (peersKey i)"
    using typed kv1 by (simp_all add: bd_typed_def item_simps)
  then have "getItem_or B gob_peers fmempty (peersKey i) t1 =
      Inr (case item gob_peers (kv d) (peersKey i) of None \<Rightarrow> fmempty | Some m \<Rightarrow> m)"
    by (simp add: getItem_or_kv)
  with rest obtain marked where marked:
      "mark_peers B t1 ps (case item gob_peers (kv d) (peersKey i) of None \<Rightarrow> fmempty | Some m \<Rightarrow> m) = Inr marked"
    and last: "then_txn (setItem B (peersKey i) (GPeers (snd (expire_peers (now - ExpireInterval) (ord (fmdom marked)) marked []))) t1)
          (\<lambda>t2. (Inr (fst (expire_peers (now - ExpireInterval) (ord (fmdom marked)) marked [])), t2)) = (Inr v, t)"
    by (auto simp: time_simps split_beta split: sum.splits)
  show thesis
    by (rule that(2) [OF n kv1 marked])
      (use last committed(2,3) in \<open>auto simp: then_txn_ok dest!: setItem_kv\<close>)
qed

text \<open>The passing of time only removes nonces.\<close>
lemma At_item:
  assumes "bd_typed (kv d)" and "k \<notin> range nonceKey"
  shows "fmlookup (kv (db_At B now d)) k = fmlookup (kv d) k"
  using assms by (auto simp: At_kv unexpired_def bd_typed_def split: option.splits)

lemma At_sub: "fmlookup (kv (db_At B now d)) k = Some e \<Longrightarrow> fmlookup (kv d) k = Some e"
  by (auto simp: At_kv unexpired_def split: option.splits if_splits)

lemma At_decodes: "decodes dec (kv d) k \<Longrightarrow> decodes dec (kv (db_At B now d)) k"
  unfolding decodes_def by (blast dest: At_sub)

lemma At_typed: "bd_typed (kv d) \<Longrightarrow> bd_typed (kv (db_At B now d))"
  unfolding bd_typed_def by (intro conjI allI impI; blast dest: At_sub intro: At_decodes)

lemma At_items:
  assumes "bd_typed (kv d)"
  shows "item dec (kv (db_At B now d)) (accountKey i) = item dec (kv d) (accountKey i)"
    "item dec (kv (db_At B now d)) (nodeKey i) = item dec (kv d) (nodeKey i)"
    "item dec (kv (db_At B now d)) (trialKey i) = item dec (kv d) (trialKey i)"
    "item dec (kv (db_At B now d)) (balanceKey i) = item dec (kv d) (balanceKey i)"
  using assms by (simp_all add: item_def At_item image_iff)

lemma At_inv: "bd_inv (kv d) \<Longrightarrow> bd_inv (kv (db_At B now d))"
  by (simp add: bd_inv_def At_typed At_items)

lemma At_credit:
  assumes "bd_typed (kv d)"
  shows "bd_credit (kv (db_At B now d)) = bd_credit (kv d)"
proof -
  have "fm_part entry_credit (kv (db_At B now d)) k = fm_part entry_credit (kv d) k" for k
  proof (cases "k \<in> range nonceKey")
    case True
    then have "decodes gob_int (kv d) k" "decodes gob_int (kv (db_At B now d)) k"
      using assms At_typed [OF assms] by (auto simp: bd_typed_def)
    then show ?thesis by (simp add: entry_part_zero)
  next
    case False
    then show ?thesis using At_item [OF assms] by (simp add: fm_part_def)
  qed
  moreover have "fmdom' (kv (db_At B now d)) \<subseteq> fmdom' (kv d)"
    by (auto simp: fmlookup_dom'_iff At_kv unexpired_def split: option.splits if_splits)
  ultimately show ?thesis
    by (simp add: bd_credit_def fm_sum_superset [of "fmdom' (kv d)"])
qed

lemma CheckAndSaveNonce_kv:
  assumes "bd_inv (kv d)" and "badger_CheckAndSaveNonce B X now i n d = (r, d')"
  obtains (early) "r = Inl ErrInvalidNonce" "d' = d"
  | (failed) e where "r = Inl e" "kv d' = kv (db_At B now d)"
  | (saved) "r = Inr ()" "0 < X \<longrightarrow> UnixNano (now - X) < n"
      "\<forall>l. item gob_int (kv (db_At B now d)) (nonceKey i) = Some l \<longrightarrow> l < n"
      "kv d' = fmupd (nonceKey i) (GInt n, if 0 < X then Some (now + X) else None) (kv (db_At B now d))"
proof (cases "0 < X \<and> n \<le> UnixNano (time_Add now (- X))")
  case True
  then show thesis using that(1) assms(2) by (simp add: badger_CheckAndSaveNonce_def)
next
  case False
  have typed: "bd_typed (kv (db_At B now d))" using assms(1) by (simp add: At_typed bd_inv_typed)
  from assms(2) False have "db_Update B (\<lambda>t.
          let save = (if 0 < X then setExpiringItem B (nonceKey i) (GInt n) X t
                      else setItem B (nonceKey i) (GInt n) t)
          in case getItem B gob_int (nonceKey i) t of
               Inr lastNonce \<Rightarrow> (if n \<le> lastNonce then (Inl ErrInvalidNonce, t) else save)
             | Inl e \<Rightarrow> (if e \<noteq> ErrKeyNotFound then (Inl e, t) else save))
          (db_At B now d) = (r, d')"
    unfolding badger_CheckAndSaveNonce_def by argo
  then show thesis
  proof (cases rule: Update_cases)
    case (failed e)
    then show thesis by (rule that(2))
  next
    case (committed v t)
    then have save: "(if 0 < X then setExpiringItem B (nonceKey i) (GInt n) X (db_At B now d)
        else setItem B (nonceKey i) (GInt n) (db_At B now d)) = (Inr v, t)"
      and above: "\<forall>l. item gob_int (kv (db_At B now d)) (nonceKey i) = Some l \<longrightarrow> l < n"
      by (auto simp: typed_items [OF typed] Let_def split: option.splits if_splits)
    have "kv t = fmupd (nonceKey i) (GInt n, if 0 < X then Some (now + X) else None) (kv (db_At B now d))"
      using save by (auto simp: setExpiringItem_def At_clock split: if_splits dest: setItem_kv SetEntry_kv)
    then show thesis
      using that(3) [OF _ _ above] False committed by (simp add: time_simps not_le)
  qed
qed

text \<open>Every method keeps the invariant and the credit, whether it succeeds or fails.\<close>
lemma AddNodeBalance_keeps:
  assumes "bd_inv (kv d)" and "badger_AddNodeBalance B i c d = (r, d')"
  shows "bd_inv (kv d') \<and> bd_credit (kv d') = bd_credit (kv d) + (if is_ok r then c else 0)"
  using assms
proof (cases rule: AddNodeBalance_kv)
  case added
  define k where "k = purse_key (bd_purse_of (kv d) i)"
  have "decodes gob_balance (kv d) k"
    using assms(1) by (simp add: k_def bd_inv_def bd_typed_def purse_key_def split: sum.splits)
  then show ?thesis
    using added bd_inv_purse [OF assms(1) added(2) k_def, of c]
    by (simp add: k_def [symmetric] bd_credit_upd_balance)
qed (use assms in simp)

lemma AddAccountBalance_keeps:
  assumes "bd_inv (kv d)" and "badger_AddAccountBalance B a c d = (r, d')"
  shows "bd_inv (kv d') \<and> bd_credit (kv d') = bd_credit (kv d) + (if is_ok r then c else 0)"
  using assms
proof (cases rule: AddAccountBalance_kv)
  case added
  have "decodes gob_balance (kv d) (balanceKey a)" using assms(1) by (simp add: bd_inv_def bd_typed_def)
  then show ?thesis using added assms(1) by (simp add: bd_inv_balance bd_credit_upd_balance)
qed (use assms in simp)

lemma AddAccountNode_keeps:
  assumes "bd_inv (kv d)" and "badger_AddAccountNode B a i d = (r, d')"
  shows "bd_inv (kv d') \<and> bd_credit (kv d') = bd_credit (kv d)"
  using assms
proof (cases rule: AddAccountNode_kv)
  case added
  have dec: "decodes gob_balance (kv d) (balanceKey a)" "decodes gob_balance (kv d) (trialKey i)"
      "decodes gob_string (kv d) (accountKey i)" using assms(1) by (simp_all add: bd_inv_def bd_typed_def)
  have frame: "bd_balance (fmupd k e m) k' = bd_balance m k'" if "k \<noteq> k'" for k k' e m
    using that by (simp add: bd_balance_def item_upd)
  have "bd_credit (kv d') = bd_credit (kv d)"
    unfolding added(3)
    by (simp add: bd_credit_drop_balance bd_credit_upd_balance bd_credit_upd_plain decodes_upd dec frame entry_credit_def)
  moreover have "bd_inv (kv d')"
    unfolding added(3) by (rule bd_inv_account [OF assms(1) added(2)]) simp
  ultimately show ?thesis by simp
qed (use assms in simp)

lemma SetNode_keeps:
  assumes "bd_inv (kv d)" and "badger_SetNode B n d = (r, d')"
  shows "bd_inv (kv d') \<and> bd_credit (kv d') = bd_credit (kv d)"
  using assms(2)
proof (cases rule: SetNode_kv)
  case set
  have "decodes gob_node (kv d) (nodeKey (n_ID n))" using assms(1) by (simp add: bd_inv_def bd_typed_def)
  then show ?thesis using set assms(1) by (simp add: bd_inv_node bd_credit_upd_plain entry_credit_def)
qed (use assms in simp)

lemma UpdateNodePeers_keeps:
  assumes "bd_inv (kv d)" and "badger_UpdateNodePeers B now ord i ps b d = (r, d')"
  shows "bd_inv (kv d') \<and> bd_credit (kv d') = bd_credit (kv d)"
  using assms
proof (cases rule: UpdateNodePeers_kv)
  case (updated n t1 marked)
  have dec: "decodes gob_node (kv d) (nodeKey i)" "decodes gob_peers (kv d) (peersKey i)"
    and "n_ID n = i \<and> i \<noteq> ''''"
    using assms(1) updated(1) by (simp_all add: bd_inv_def bd_typed_def)
  then show ?thesis
    using updated(2,5) assms(1)
    by (simp add: bd_inv_node bd_inv_peers bd_credit_upd_plain decodes_upd entry_credit_def)
qed (use assms in simp)

lemma CheckAndSaveNonce_keeps:
  assumes "bd_inv (kv d)" and "badger_CheckAndSaveNonce B X now i n d = (r, d')"
  shows "bd_inv (kv d') \<and> bd_credit (kv d') = bd_credit (kv d)"
  using assms
proof (cases rule: CheckAndSaveNonce_kv)
  case saved
  have "decodes gob_int (kv (db_At B now d)) (nonceKey i)"
    using At_inv [OF assms(1), of now] by (simp add: bd_inv_def bd_typed_def)
  then show ?thesis
    using saved(4) assms(1)
    by (simp add: bd_inv_nonce At_inv At_credit bd_inv_typed bd_credit_upd_plain entry_credit_def)
qed (use assms At_inv At_credit bd_inv_typed in auto)

lemma View_read: "snd (db_View f d) = d"
  by (simp add: db_View_def)

lemma read_only:
  "snd (badger_GetNodeBalance B i d) = d" "snd (badger_GetAccountBalance B a d) = d"
  "snd (badger_IsAccountNode B a i d) = d" "snd (badger_GetAccountNodes B a d) = d"
  "snd (badger_GetNode B i d) = d" "snd (badger_ActiveHosts B now ord k l d) = d"
  "snd (badger_NodePeers B ord i d) = d" "snd (badger_Stats B now d) = d"
  by (simp_all add: badger_GetNodeBalance_def badger_GetAccountBalance_def badger_IsAccountNode_def
      badger_GetAccountNodes_def badger_GetNode_def badger_ActiveHosts_def badger_NodePeers_def badger_Stats_def
      db_View_def Let_def split: sum.splits)

lemma exec_keeps:
  assumes "bd_inv (kv d)" and "Store_exec (badger_Store B X) c d = (r, d')"
  shows "bd_inv (kv d') \<and> bd_credit (kv d') = bd_credit (kv d) + call_credit c r"
proof -
  have after: "d' = snd (Store_exec (badger_Store B X) c d)" using assms(2) by simp
  show ?thesis
  proof (cases c)
    case (CAddNodeBalance i x)
    then obtain q where "badger_AddNodeBalance B i x d = (q, d')" and "r = RUnit q"
      using assms(2) by (auto simp: badger_Store_def apfst_def map_prod_def split: prod.splits)
    then show ?thesis using AddNodeBalance_keeps [OF assms(1)] CAddNodeBalance by (cases q) fastforce+
  next
    case (CAddAccountBalance a x)
    then obtain q where "badger_AddAccountBalance B a x d = (q, d')" and "r = RUnit q"
      using assms(2) by (auto simp: badger_Store_def apfst_def map_prod_def split: prod.splits)
    then show ?thesis using AddAccountBalance_keeps [OF assms(1)] CAddAccountBalance by (cases q) fastforce+
  next
    case (CAddAccountNode a i)
    then show ?thesis
      using assms AddAccountNode_keeps [OF assms(1), of a i] by (auto simp: badger_Store_def apfst_def map_prod_def split: prod.splits)
  next
    case (CCheckAndSaveNonce now i n)
    then show ?thesis
      using assms CheckAndSaveNonce_keeps [OF assms(1), of X now i n] by (auto simp: badger_Store_def apfst_def map_prod_def split: prod.splits)
  next
    case (CSetNode n)
    then show ?thesis
      using assms SetNode_keeps [OF assms(1), of n] by (auto simp: badger_Store_def apfst_def map_prod_def split: prod.splits)
  next
    case (CUpdateNodePeers now ord i ps b)
    then show ?thesis
      using assms UpdateNodePeers_keeps [OF assms(1), of now ord i ps b] by (auto simp: badger_Store_def apfst_def map_prod_def split: prod.splits)
  qed (use assms(1) after in \<open>simp_all add: badger_Store_def read_only\<close>)
qed

end

sublocale badger_kv \<subseteq> audit: audited_store "badger_Store B X" "\<lambda>d. bd_inv (kv d)" "\<lambda>d. bd_credit (kv d)" for X
proof (standard, goal_cases)
  case (1 s c)
  then show ?case using exec_keeps [OF _ prod.collapse [symmetric]] by blast
next
  case (2 s c r s')
  then show ?case using exec_keeps by blast
qed

end
