(* ===== verification/Badger_Correctness.thy ===== *)
theory Badger_Correctness
  imports Badger_Laws
begin

text \<open>
  What the persistent store guarantees: the ledger contract, agreement with the in-memory
  store, protection against replayed nonces while clocks agree, and the migration of old databases.
\<close>

section \<open>Replay protection\<close>

definition nonce_floor :: "duration \<Rightarrow> kv_map \<Rightarrow> string \<Rightarrow> time \<Rightarrow> int \<Rightarrow> bool" where
  "nonce_floor X m i t L \<longleftrightarrow>
     (\<exists>n e. fmlookup m (nonceKey i) = Some (GInt n, Some e) \<and> L \<le> n \<and> L \<le> e - X) \<or> L \<le> t - X"

text \<open>The nonce calls of a run: when they happen, and that the nonce is not ahead of the clock.\<close>
fun nonce_time :: "store_call \<Rightarrow> time option" where
  "nonce_time (CCheckAndSaveNonce now i n) = Some now"
| "nonce_time _ = None"

fun nonce_on_time :: "duration \<Rightarrow> store_call \<Rightarrow> bool" where
  "nonce_on_time X (CCheckAndSaveNonce now i n) \<longleftrightarrow> n \<le> now \<and> min_int64 \<le> now - X \<and> now \<le> max_int64"
| "nonce_on_time X _ \<longleftrightarrow> True"

lemma nonce_time_None: "\<not> is_nonce_call c \<Longrightarrow> nonce_time c = None"
  by (cases c) simp_all

context badger_kv
begin

lemma exec_nonce_frame:
  assumes "bd_inv (kv d)" and "\<not> is_nonce_call c" and "Store_exec (badger_Store B X) c d = (r, d')"
  shows "fmlookup (kv d') (nonceKey i) = fmlookup (kv d) (nonceKey i)"
proof -
  have after: "d' = snd (Store_exec (badger_Store B X) c d)" using assms(3) by simp
  show ?thesis
  proof (cases c)
    case (CAddNodeBalance j x)
    then have "badger_AddNodeBalance B j x d = (fst (badger_AddNodeBalance B j x d), d')"
      using after by (simp add: badger_Store_def)
    with assms(1) show ?thesis
      by (cases rule: AddNodeBalance_kv) (simp_all add: Let_def purse_key_def split: sum.splits)
  next
    case (CAddAccountBalance a x)
    then have "badger_AddAccountBalance B a x d = (fst (badger_AddAccountBalance B a x d), d')"
      using after by (simp add: badger_Store_def)
    with assms(1) show ?thesis by (cases rule: AddAccountBalance_kv) simp_all
  next
    case (CAddAccountNode a j)
    then have "badger_AddAccountNode B a j d = (fst (badger_AddAccountNode B a j d), d')"
      using after by (simp add: badger_Store_def)
    with assms(1) show ?thesis by (cases rule: AddAccountNode_kv) simp_all
  next
    case (CSetNode n)
    then have "badger_SetNode B n d = (fst (badger_SetNode B n d), d')"
      using after by (simp add: badger_Store_def)
    then show ?thesis by (cases rule: SetNode_kv) simp_all
  next
    case (CUpdateNodePeers now ord j ps b)
    then have "badger_UpdateNodePeers B now ord j ps b d = (fst (badger_UpdateNodePeers B now ord j ps b d), d')"
      using after by (simp add: badger_Store_def)
    with assms(1) show ?thesis by (cases rule: UpdateNodePeers_kv) simp_all
  qed (use assms(2) after in \<open>simp_all add: badger_Store_def read_only\<close>)
qed

lemma At_floor:
  assumes "nonce_floor X (kv d) i t L" and "t \<le> now"
  shows "nonce_floor X (kv (db_At B now d)) i now L"
  using assms by (fastforce simp: nonce_floor_def At_kv unexpired_def)

lemma CheckAndSaveNonce_floor:
  assumes "0 < X" and "bd_inv (kv d)" and "nonce_floor X (kv d) i t L" and "t \<le> now"
    and "badger_CheckAndSaveNonce B X now j n d = (r, d')" and "nonce_on_time X (CCheckAndSaveNonce now j n)"
  shows "nonce_floor X (kv d') i now (if j = i \<and> is_ok r then n else L) \<and> (j = i \<and> is_ok r \<longrightarrow> L < n)"
  using assms(2,5)
proof (cases rule: CheckAndSaveNonce_kv)
  case early
  then show ?thesis using assms(3,4) by (auto simp: nonce_floor_def)
next
  case (failed e)
  then show ?thesis using At_floor [OF assms(3,4)] by simp
next
  case saved
  have fl: "nonce_floor X (kv (db_At B now d)) i now L" by (rule At_floor [OF assms(3,4)])
  have "UnixNano (now - X) = now - X" using assms(1,6) by (simp add: UnixNano_def int64_id)
  then have recent: "now - X < n" using saved(2) assms(1) by simp
  show ?thesis
  proof (cases "j = i")
    case False
    then show ?thesis using fl saved(4) by (simp add: nonce_floor_def)
  next
    case True
    have "L < n" using fl saved(3) recent True
      unfolding nonce_floor_def by (auto simp: item_def)
    moreover have "nonce_floor X (kv d') i now n"
      using saved(4) True assms(1,6) by (simp add: nonce_floor_def)
    ultimately show ?thesis using True saved(1) by simp
  qed
qed

text \<open>While clocks agree, the accepted nonces of an owner increase along every run.\<close>
lemma run_nonces_increase:
  assumes "0 < X" and "bd_inv (kv d)" and "nonce_floor X (kv d) i t L"
    and "sorted (t # List.map_filter nonce_time cs)" and "\<forall>c\<in>set cs. nonce_on_time X c"
  shows "sorted_wrt (<) (L # accepted_nonces i (fst (Store_run (badger_Store B X) cs d)))"
  using assms(2-)
proof (induction cs arbitrary: d t L)
  case Nil
  then show ?case by simp
next
  case (Cons c cs)
  obtain r d1 where exec: "Store_exec (badger_Store B X) c d = (r, d1)" by (cases "Store_exec (badger_Store B X) c d")
  have inv1: "bd_inv (kv d1)" using exec_keeps [OF Cons.prems(1) exec] by simp
  have rest: "\<forall>c\<in>set cs. nonce_on_time X c" using Cons.prems(4) by simp
  show ?case
  proof (cases "is_nonce_call c")
    case False
    have "nonce_floor X (kv d1) i t L"
      using Cons.prems(2) exec_nonce_frame [OF Cons.prems(1) False exec] by (simp add: nonce_floor_def)
    moreover have "sorted (t # List.map_filter nonce_time cs)"
      using Cons.prems(3) False by (simp add: map_filter_simps nonce_time_None)
    ultimately show ?thesis
      using Cons.IH [OF inv1 _ _ rest] exec False by (simp add: split_beta)
  next
    case True
    then obtain now j n where c: "c = CCheckAndSaveNonce now j n" by (cases c) simp_all
    obtain q where q: "badger_CheckAndSaveNonce B X now j n d = (q, d1)" and r: "r = RUnit q"
      using exec c by (cases "badger_CheckAndSaveNonce B X now j n d") (auto simp: badger_Store_def)
    have "t \<le> now" and sorted: "sorted (now # List.map_filter nonce_time cs)"
      using Cons.prems(3) c by (simp_all add: map_filter_simps)
    have "nonce_on_time X (CCheckAndSaveNonce now j n)" using Cons.prems(4) c by simp
    note step = CheckAndSaveNonce_floor [OF assms(1) Cons.prems(1,2) \<open>t \<le> now\<close> q this]
    show ?thesis
    proof (cases "j = i \<and> is_ok q")
      case True
      then obtain u where "q = Inr u" by (auto simp: is_ok_iff)
      have "sorted_wrt (<) (n # accepted_nonces i (fst (Store_run (badger_Store B X) cs d1)))"
        by (rule Cons.IH [OF inv1 _ sorted rest]) (use step True in simp)
      then show ?thesis using step True exec c r \<open>q = Inr u\<close> by (fastforce simp: split_beta)
    next
      case False
      then have "accepted_nonces i ((c, r) # tr) = accepted_nonces i tr" for tr
        using c r by (cases q) auto
      moreover have "sorted_wrt (<) (L # accepted_nonces i (fst (Store_run (badger_Store B X) cs d1)))"
        by (rule Cons.IH [OF inv1 _ sorted rest]) (use step False in simp)
      ultimately show ?thesis using exec by (simp add: split_beta)
    qed
  qed
qed

end

section \<open>A database without conflicts\<close>

lemma purse_upd:
  "bd_registered (fmupd (purse_key w) e m) = bd_registered m"
  "bd_purse_of (fmupd (purse_key w) e m) = bd_purse_of m"
  "bd_purse (fmupd (purse_key w) (GBalance b, x) m) = (bd_purse m)(w := b_Credit b)"
  by (auto simp: bd_registered_def bd_purse_of_def bd_purse_def bd_balance_def item_upd purse_key_def
      fun_eq_iff split: sum.splits)

locale badger_quiet = badger_kv +
  assumes Set_ok: "is_ok (fst (txn_Set B k v d))"
    and SetEntry_ok: "is_ok (fst (txn_SetEntry B k v ttl d))"
    and Delete_ok: "is_ok (fst (txn_Delete B k d))"
    and Commit_quiet: "is_ok (fst (txn_Commit B d t))"
begin

lemma write_ok:
  obtains (set) d1 where "txn_Set B k v d = (Inr (), d1)"
proof -
  obtain q d1 where "txn_Set B k v d = (q, d1)" by (cases "txn_Set B k v d")
  then show thesis using that Set_ok [of k v d] by (auto simp: is_ok_iff)
qed

lemma expiring_ok:
  obtains d1 where "txn_SetEntry B k v ttl d = (Inr (), d1)"
proof -
  obtain q d1 where "txn_SetEntry B k v ttl d = (q, d1)" by (cases "txn_SetEntry B k v ttl d")
  then show thesis using that SetEntry_ok [of k v ttl d] by (auto simp: is_ok_iff)
qed

lemma delete_ok:
  obtains d1 where "txn_Delete B k d = (Inr (), d1)"
proof -
  obtain q d1 where "txn_Delete B k d = (q, d1)" by (cases "txn_Delete B k d")
  then show thesis using that Delete_ok [of k d] by (auto simp: is_ok_iff)
qed

text \<open>A transaction whose function succeeds is committed.\<close>
lemma Update_quiet:
  assumes "db_Update B f d = (r, d')"
  shows "r = fst (f d)" and "is_ok r \<Longrightarrow> kv d' = kv (snd (f d))" and "\<not> is_ok r \<Longrightarrow> kv d' = kv d"
proof -
  obtain c d1 where c: "txn_Commit B d (snd (f d)) = (c, d1)" by (cases "txn_Commit B d (snd (f d))")
  then have "is_ok c" using Commit_quiet [of d "snd (f d)"] by simp
  then have eq: "db_Update B f d = (case fst (f d) of Inl e \<Rightarrow> (Inl e, d) | Inr v \<Rightarrow> (Inr v, d1))"
    using c by (auto simp: db_Update_def split_beta is_ok_iff split: sum.splits)
  have kv1: "kv d1 = kv (snd (f d))" using c \<open>is_ok c\<close> Commit_ok by (auto simp: is_ok_iff)
  show r: "r = fst (f d)" using assms eq by (auto split: sum.splits)
  show "kv d' = kv (snd (f d))" if ok: "is_ok r"
  proof -
    obtain v where "fst (f d) = Inr v" using ok unfolding r is_ok_iff by blast
    then show ?thesis using assms eq kv1 by simp
  qed
  show "kv d' = kv d" if err: "\<not> is_ok r"
  proof -
    obtain e where "fst (f d) = Inl e" using err unfolding r is_ok_def by (auto split: sum.splits)
    then show ?thesis using assms eq by simp
  qed
qed

lemma Update_fst: "fst (db_Update B f d) = fst (f d)"
  by (rule Update_quiet(1) [OF prod.collapse [symmetric]])

lemma AddNodeBalance_quiet:
  assumes "bd_inv (kv d)" and "badger_AddNodeBalance B i c d = (r, d')"
  shows "r = (if bd_registered (kv d) i then Inr () else Inl ErrUnregisteredNode)"
proof -
  obtain d1 where "txn_Set B (purse_key (bd_purse_of (kv d) i))
      (GBalance (add_credit c (bd_balance (kv d) (purse_key (bd_purse_of (kv d) i))))) d = (Inr (), d1)"
    by (rule write_ok)
  then show ?thesis
    using Update_quiet(1) [OF assms(2) [unfolded badger_AddNodeBalance_def]] assms(1)
    by (simp add: spend_key_kv bd_inv_typed spend_balance_kv setItem_def)
qed

text \<open>Adding credit changes one purse only.\<close>
lemma AddNodeBalance_purse:
  assumes "bd_inv (kv d)" and "bd_registered (kv d) i" and "badger_AddNodeBalance B i c d = (r, d')"
  shows "r = Inr () \<and> bd_registered (kv d') = bd_registered (kv d) \<and> bd_purse_of (kv d') = bd_purse_of (kv d) \<and>
    bd_purse (kv d') = (bd_purse (kv d))(bd_purse_of (kv d) i := bd_purse (kv d) (bd_purse_of (kv d) i) + c)"
  using assms(1,3)
proof (cases rule: AddNodeBalance_kv)
  case (failed e)
  then show ?thesis using AddNodeBalance_quiet [OF assms(1,3)] assms(2) by simp
next
  case added
  then show ?thesis by (simp add: Let_def purse_upd) (simp add: bd_purse_def)
qed

end

sublocale badger_quiet \<subseteq> ledger: ledger_store "badger_Store B X" "\<lambda>d. bd_inv (kv d)" "\<lambda>d. bd_registered (kv d)"
  "\<lambda>d. bd_purse_of (kv d)" "\<lambda>d. bd_purse (kv d)" "\<lambda>d. bd_credit (kv d)" for X
proof (standard, goal_cases)
  case (1 d i c r d')
  then have op: "badger_AddNodeBalance B i c d = (r, d')" by (simp add: badger_Store_def)
  show ?case
    using AddNodeBalance_purse [OF 1(1,2) op] AddNodeBalance_keeps [OF 1(1) op] by simp
next
  case (2 d i c)
  then show ?case by (simp add: badger_Store_def AddNodeBalance_unregistered)
next
  case (3 d now i q d')
  then have "d' = d" using read_only(1) [of i d] by (simp add: badger_Store_def)
  with 3 show ?case by simp
next
  case (4 d now i b d')
  then show ?case by (auto simp: badger_Store_def GetNodeBalance_kv bd_purse_def split: if_splits)
next
  case (5 d i now)
  then show ?case by (simp add: badger_Store_def GetNodeBalance_kv)
qed

section \<open>Migration\<close>

definition drop_nonces :: "kv_map \<Rightarrow> kv_map" where
  "drop_nonces m = fmfilter (\<lambda>k. \<not> prefix ''vip:nonce:'' k) m"

lemma drop_nonces_lookup: "fmlookup (drop_nonces m) k = (if prefix ''vip:nonce:'' k then None else fmlookup m k)"
  by (simp add: drop_nonces_def)

lemma versionKey_no_nonce: "\<not> prefix ''vip:nonce:'' versionKey"
  by (simp add: versionKey_def)

definition bd_version :: "kv_map \<Rightarrow> int" where
  "bd_version m = (case item gob_int m versionKey of None \<Rightarrow> 0 | Some v \<Rightarrow> v)"

context badger_quiet
begin

lemma setVersion_ok: obtains d1 where "setVersion B v d = (Inr (), d1)" "kv d1 = fmupd versionKey (GInt v, None) (kv d)"
proof -
  obtain d1 where "txn_Set B versionKey (GInt v) d = (Inr (), d1)" by (rule write_ok)
  then show thesis using that Set_kv by (auto simp: setVersion_def setItem_def)
qed

lemma getVersion_kv: "decodes gob_int (kv d) versionKey \<Longrightarrow> getVersion B d = Inr (bd_version (kv d))"
  by (simp add: getVersion_def getItem_or_kv bd_version_def)

lemma bd_version_set: "bd_version (fmupd versionKey (GInt v, x) m) = v"
  by (simp add: bd_version_def item_upd)

text \<open>Deleting the items of a list of keys.\<close>
lemma delete_all:
  "kv (fold (\<lambda>it t1. snd (txn_Delete B (fst it) t1)) items d) = fmfilter (\<lambda>k. k \<notin> fst ` set items) (kv d)"
proof (induction items arbitrary: d)
  case Nil
  then show ?case by simp
next
  case (Cons it items)
  obtain d1 where d1: "txn_Delete B (fst it) d = (Inr (), d1)" by (rule delete_ok)
  have "kv d1 = fmdrop (fst it) (kv d)" using d1 by (rule Delete_kv)
  then show ?case using Cons.IH [of d1] d1 by (auto intro!: fmap_ext)
qed

lemma nuke_nonces:
  "kv (fold (\<lambda>it t1. snd (txn_Delete B (fst it) t1)) (txn_Iterate B ''vip:nonce:'' d) d) = drop_nonces (kv d)"
proof (rule fmap_ext)
  fix k
  have "k \<in> fst ` set (txn_Iterate B ''vip:nonce:'' d) \<longleftrightarrow> prefix ''vip:nonce:'' k \<and> fmlookup (kv d) k \<noteq> None"
    using Iterate_kv [of "''vip:nonce:''" d] by force
  then show "fmlookup (kv (fold (\<lambda>it t1. snd (txn_Delete B (fst it) t1)) (txn_Iterate B ''vip:nonce:'' d) d)) k =
      fmlookup (drop_nonces (kv d)) k"
    by (auto simp: delete_all drop_nonces_lookup)
qed

abbreviation latest :: "string \<Rightarrow> 'a migration" where
  "latest i \<equiv> \<lparr>mg_StartVersion = 0, mg_LatestVersion = dbVersion, mg_Steps = migrations B, mg_DatabaseID = i\<rparr>"

lemma migrate_from_2: "migrate_loop B (latest i) 2 d = (Inr (), d)"
  by (subst migrate_loop.simps) (simp add: dbVersion_def)

lemma migrate_from_1:
  assumes "decodes gob_int (kv d) versionKey" and "bd_version (kv d) = 1"
  obtains d1 where "migrate_loop B (latest i) 1 d = (Inr (), d1)"
    "kv d1 = fmupd versionKey (GInt 2, None) (drop_nonces (kv d))"
proof -
  define d0 where "d0 = fold (\<lambda>it t1. snd (txn_Delete B (fst it) t1)) (txn_Iterate B ''vip:nonce:'' d) d"
  obtain d1 where d1: "setVersion B 2 d0 = (Inr (), d1)" "kv d1 = fmupd versionKey (GInt 2, None) (kv d0)"
    by (rule setVersion_ok)
  then have step: "run_step (latest i) 1 d = (Inr (), d1)"
    using assms by (simp add: run_step_def migrations_def migrate_1_2_def checkVersion_def getVersion_kv d0_def)
  have "decodes gob_int (kv d1) versionKey" "bd_version (kv d1) = 2"
    using d1(2) by (simp_all add: decodes_upd bd_version_set)
  then have "migrate_loop B (latest i) 1 d = migrate_loop B (latest i) 2 d1"
    using step by (subst migrate_loop.simps) (simp add: dbVersion_def getVersion_kv)
  then show thesis
    using that [of d1] d1(2) nuke_nonces [of d] by (simp add: migrate_from_2 d0_def)
qed

lemma migrate_from_0:
  assumes "decodes gob_int (kv d) versionKey" and "bd_version (kv d) = 0"
  obtains d1 where "migrate_loop B (latest i) 0 d = (Inr (), d1)"
    "kv d1 = fmupd versionKey (GInt 2, None) (drop_nonces (kv d))"
proof -
  obtain d0 where d0: "setVersion B 1 d = (Inr (), d0)" "kv d0 = fmupd versionKey (GInt 1, None) (kv d)"
    by (rule setVersion_ok)
  then have step: "run_step (latest i) 0 d = (Inr (), d0)"
    using assms by (simp add: run_step_def migrations_def migrate_0_1_def checkVersion_def getVersion_kv)
  have dec: "decodes gob_int (kv d0) versionKey" and v: "bd_version (kv d0) = 1"
    using d0(2) by (simp_all add: decodes_upd bd_version_set)
  obtain d1 where d1: "migrate_loop B (latest i) 1 d0 = (Inr (), d1)"
      "kv d1 = fmupd versionKey (GInt 2, None) (drop_nonces (kv d0))"
    using migrate_from_1 [OF dec v] by blast
  have "migrate_loop B (latest i) 0 d = migrate_loop B (latest i) 1 d0"
    using step dec v by (subst migrate_loop.simps) (simp add: dbVersion_def getVersion_kv)
  moreover have "kv d1 = fmupd versionKey (GInt 2, None) (drop_nonces (kv d))"
    using d1(2) d0(2) by (auto intro!: fmap_ext simp: drop_nonces_lookup versionKey_no_nonce)
  ultimately show thesis using that d1(1) by simp
qed

lemma MigrateLatest_upgrades:
  assumes "decodes gob_int (kv d) versionKey" and "bd_version (kv d) = 0 \<or> bd_version (kv d) = 1"
  obtains d1 where "MigrateLatest B i d = (Inr (), d1)" "kv d1 = fmupd versionKey (GInt 2, None) (drop_nonces (kv d))"
proof -
  obtain d0 where d0: "migrate_loop B (latest i) (bd_version (kv d)) d = (Inr (), d0)"
      "kv d0 = fmupd versionKey (GInt 2, None) (drop_nonces (kv d))"
    using assms by (metis migrate_from_0 migrate_from_1)
  define f where "f = (\<lambda>t. case getVersion B t of
         Inl e \<Rightarrow> (Inl (migration_error (latest i) e 0), t)
       | Inr oldVersion \<Rightarrow>
           (if oldVersion = mg_LatestVersion (latest i) then (Inr (), t)
            else if mg_LatestVersion (latest i) < oldVersion
            then (Inl (migration_error (latest i) (ErrNew ''database is newer than the supported version'') oldVersion), t)
            else if mg_StartVersion (latest i) > oldVersion
            then (Inl (migration_error (latest i) (ErrNew ''database version too old, migration is not supported'') oldVersion), t)
            else migrate_loop B (latest i) oldVersion t))"
  obtain r d1 where r: "db_Update B f d = (r, d1)" by (cases "db_Update B f d")
  have "f d = (Inr (), d0)"
    using assms d0(1) by (auto simp: f_def getVersion_kv dbVersion_def)
  then have "MigrateLatest B i d = (Inr (), d1)" and "kv d1 = kv d0"
    using Update_quiet(1,2) [OF r] r by (simp_all add: MigrateLatest_def Migrate_def f_def [symmetric])
  then show thesis using that d0(2) by simp
qed

end

section \<open>Both drivers agree\<close>

text \<open>The in-memory store that holds the same nodes, peers, accounts and balances.\<close>
definition same_data :: "kv_map \<Rightarrow> memoryStore \<Rightarrow> bool" where
  "same_data m s \<longleftrightarrow>
     (\<forall>i. fmlookup (ms_nodes s) i = map_option (\<lambda>n. \<lparr>mn_Node = n, mn_peers =
        (case item gob_peers m (peersKey i) of None \<Rightarrow> fmempty | Some p \<Rightarrow> p)\<rparr>) (item gob_node m (nodeKey i))) \<and>
     (\<forall>i. item gob_node m (nodeKey i) = None \<longrightarrow> item gob_peers m (peersKey i) = None) \<and>
     (\<forall>a. fmlookup (ms_balances s) a = item gob_balance m (balanceKey a)) \<and>
     (\<forall>i. fmlookup (ms_trials s) i = item gob_balance m (trialKey i)) \<and>
     (\<forall>i. fmlookup (ms_accounts s) i = item gob_string m (accountKey i))"

text \<open>
  The calls on which the drivers agree. They differ when a node registers again (the in-memory
  driver forgets its peers), when an account without a balance is credited (only the
  persistent driver names the account in the balance), when a node reports itself as
  a peer, and in the order of lists.
\<close>
fun agreeing :: "memoryStore \<Rightarrow> store_call \<Rightarrow> bool" where
  "agreeing s (CGetNodeBalance now i) \<longleftrightarrow> True"
| "agreeing s (CAddNodeBalance i c) \<longleftrightarrow> True"
| "agreeing s (CGetAccountBalance now a) \<longleftrightarrow> True"
| "agreeing s (CAddAccountBalance a c) \<longleftrightarrow> fmlookup (ms_balances s) a \<noteq> None"
| "agreeing s (CAddAccountNode a i) \<longleftrightarrow> True"
| "agreeing s (CIsAccountNode a i) \<longleftrightarrow> True"
| "agreeing s (CGetNode i) \<longleftrightarrow> True"
| "agreeing s (CSetNode n) \<longleftrightarrow> (\<forall>nd. fmlookup (ms_nodes s) (n_ID n) = Some nd \<longrightarrow> mn_peers nd = fmempty)"
| "agreeing s (CNodePeers ord i) \<longleftrightarrow> range_order ord"
| "agreeing s (CUpdateNodePeers now ord i ps b) \<longleftrightarrow> i \<notin> set ps"
| "agreeing s _ \<longleftrightarrow> False"

lemma same_dataD:
  assumes "same_data m s"
  shows "fmlookup (ms_nodes s) i = map_option (\<lambda>n. \<lparr>mn_Node = n, mn_peers =
        (case item gob_peers m (peersKey i) of None \<Rightarrow> fmempty | Some p \<Rightarrow> p)\<rparr>) (item gob_node m (nodeKey i))"
    and "fmlookup (ms_balances s) a = item gob_balance m (balanceKey a)"
    and "fmlookup (ms_trials s) i = item gob_balance m (trialKey i)"
    and "fmlookup (ms_accounts s) i = item gob_string m (accountKey i)"
    and "index zero_balance (ms_balances s) a = bd_balance m (balanceKey a)"
    and "index zero_balance (ms_trials s) i = bd_balance m (trialKey i)"
  using assms by (simp_all add: same_data_def index_def bd_balance_def)

lemma same_data_purse:
  assumes "same_data m s"
  shows "same_data (fmupd (balanceKey a) (GBalance b, x) m) (s\<lparr>ms_balances := fmupd a b (ms_balances s)\<rparr>)"
    and "same_data (fmupd (trialKey i) (GBalance b, x) m) (s\<lparr>ms_trials := fmupd i b (ms_trials s)\<rparr>)"
  using assms by (simp_all add: same_data_def item_upd)

lemma same_data_account:
  assumes "same_data m s"
  shows "same_data (fmdrop (trialKey i) (fmupd (balanceKey a) (GBalance b, x) (fmupd (accountKey i) (GString a, y) m)))
    (s\<lparr>ms_accounts := fmupd i a (ms_accounts s), ms_trials := fmdrop i (ms_trials s),
       ms_balances := fmupd a b (ms_balances s)\<rparr>)"
  using assms by (simp add: same_data_def item_simps)

context badger_quiet
begin

lemma agree_reads:
  assumes "bd_inv (kv d)" and "same_data (kv d) s"
  shows "fst (badger_GetNodeBalance B i d) = fst (mem_GetNodeBalance i s)"
    and "fst (badger_GetAccountBalance B a d) = fst (mem_GetAccountBalance a s)"
    and "fst (badger_IsAccountNode B a i d) = fst (mem_IsAccountNode a i s)"
    and "fst (badger_GetNode B i d) = fst (mem_GetNode i s)"
proof -
  note typed = typed_items [OF bd_inv_typed [OF assms(1)]]
  show "fst (badger_GetNodeBalance B i d) = fst (mem_GetNodeBalance i s)"
    using assms(1) by (auto simp: GetNodeBalance_kv mem_GetNodeBalance_def same_dataD [OF assms(2)] bd_registered_def
        bd_purse_of_def purse_key_def split: option.splits)
  show "fst (badger_GetAccountBalance B a d) = fst (mem_GetAccountBalance a s)"
    by (simp add: badger_GetAccountBalance_def db_View_def typed mem_GetAccountBalance_def same_dataD [OF assms(2)])
  show "fst (badger_IsAccountNode B a i d) = fst (mem_IsAccountNode a i s)"
    by (simp add: badger_IsAccountNode_def db_View_def typed mem_IsAccountNode_def same_dataD [OF assms(2)] split: option.splits)
  show "fst (badger_GetNode B i d) = fst (mem_GetNode i s)"
    by (simp add: badger_GetNode_def db_View_def typed mem_GetNode_def same_dataD [OF assms(2)] split: option.splits)
qed

lemma load_peers_kv:
  assumes "bd_typed (kv d)"
  shows "load_peers B d ps r = Inr (r @ List.map_filter (\<lambda>i. item gob_node (kv d) (nodeKey i)) ps)"
  by (induction ps arbitrary: r) (simp_all add: typed_items [OF assms] map_filter_simps split: option.splits)

lemma agree_NodePeers:
  assumes "bd_inv (kv d)" and "same_data (kv d) s" and "range_order ord"
  shows "fst (badger_NodePeers B ord i d) = fst (mem_NodePeers ord i s)"
proof -
  note typed = typed_items [OF bd_inv_typed [OF assms(1)]]
  have empty: "ord {||} = []" using range_order_set [OF assms(3), of "{||}"] by simp
  have pick: "map mn_Node (List.map_filter (fmlookup (ms_nodes s)) ps) =
      List.map_filter (\<lambda>i. item gob_node (kv d) (nodeKey i)) ps" for ps
    by (induction ps) (auto simp: map_filter_simps same_dataD [OF assms(2)] split: option.splits)
  have gone: "item gob_peers (kv d) (peersKey i) = None" if "item gob_node (kv d) (nodeKey i) = None"
    using assms(2) that by (simp add: same_data_def)
  show ?thesis
    using gone by (cases "item gob_node (kv d) (nodeKey i)"; cases "item gob_peers (kv d) (peersKey i)")
      (simp_all add: badger_NodePeers_def db_View_def typed load_peers_kv [OF bd_inv_typed [OF assms(1)]] mem_NodePeers_def pick
        same_dataD(1) [OF assms(2)] bd_registered_def empty map_filter_simps)
qed

lemma quiet_writes:
  assumes "bd_inv (kv d)"
  shows "fst (badger_AddAccountBalance B a c d) = Inr ()"
    and "fst (badger_AddAccountNode B a i d) = (if bd_registered (kv d) i then Inr () else Inl ErrUnregisteredNode)"
    and "fst (badger_SetNode B n d) = (if n_ID n = '''' then Inl ErrMalformedNode else Inr ())"
proof -
  note typed = typed_items [OF bd_inv_typed [OF assms]]
  have set: "\<exists>d1. setItem B k v d0 = (Inr (), d1)" for k v d0 using write_ok by (metis setItem_def)
  have del: "\<exists>d1. txn_Delete B k d0 = (Inr (), d1)" for k d0 using delete_ok by metis
  note upd = Update_fst
  show "fst (badger_AddAccountBalance B a c d) = Inr ()"
    unfolding badger_AddAccountBalance_def upd using set by (simp add: typed) (metis fst_conv)
  have thn: "fst (then_txn w f) = Inr ()" if "\<exists>t. w = (Inr (), t)" "\<And>t. fst (f t) = Inr ()" for w :: "unit result \<times> 'a" and f
    using that by (auto simp: then_txn_def)
  show "fst (badger_AddAccountNode B a i d) = (if bd_registered (kv d) i then Inr () else Inl ErrUnregisteredNode)"
    unfolding badger_AddAccountNode_def upd by (simp add: typed thn set del)
  show "fst (badger_SetNode B n d) = (if n_ID n = '''' then Inl ErrMalformedNode else Inr ())"
    unfolding badger_SetNode_def upd [symmetric] using set by (auto simp: upd) (metis fst_conv)
qed

lemma agree_AddNodeBalance:
  assumes "bd_inv (kv d)" and "same_data (kv d) s"
    and "badger_AddNodeBalance B i c d = (r, d')" and "mem_AddNodeBalance i c s = (r', s')"
  shows "r = r' \<and> same_data (kv d') s'"
  using assms(1,3)
proof (cases rule: AddNodeBalance_kv)
  case (failed e)
  then have "\<not> bd_registered (kv d) i" using AddNodeBalance_quiet [OF assms(1,3)] by (simp split: if_splits)
  then show ?thesis
    using failed AddNodeBalance_quiet [OF assms(1,3)] assms(2,4)
    by (auto simp: mem_AddNodeBalance_def bd_registered_def same_dataD(1))
next
  case added
  then show ?thesis
    using assms(4) same_data_purse [OF assms(2)]
    by (auto simp: mem_AddNodeBalance_def bd_registered_def same_dataD [OF assms(2)] bd_purse_of_def purse_key_def Let_def
        split: option.splits)
qed

lemma agree_AddAccountBalance:
  assumes "bd_inv (kv d)" and "same_data (kv d) s" and "fmlookup (ms_balances s) a \<noteq> None"
    and "badger_AddAccountBalance B a c d = (r, d')" and "mem_AddAccountBalance a c s = (r', s')"
  shows "r = r' \<and> same_data (kv d') s'"
  using assms(1,4)
proof (cases rule: AddAccountBalance_kv)
  case (failed e)
  then show ?thesis using quiet_writes(1) [OF assms(1), of a c] assms(4) by simp
next
  case added
  obtain b where b: "item gob_balance (kv d) (balanceKey a) = Some b" "b_Account b = a"
    using assms(1-3) by (auto simp: same_dataD bd_inv_def)
  then have "(add_credit c b)\<lparr>b_Account := a\<rparr> = add_credit c b" by (simp add: add_credit_def)
  with added b show ?thesis
    using assms(5) same_data_purse(1) [OF assms(2)]
    by (auto simp: mem_AddAccountBalance_def same_dataD [OF assms(2)] bd_balance_def Let_def)
qed

lemma agree_AddAccountNode:
  assumes "bd_inv (kv d)" and "same_data (kv d) s"
    and "badger_AddAccountNode B a i d = (r, d')" and "mem_AddAccountNode a i s = (r', s')"
  shows "r = r' \<and> same_data (kv d') s'"
  using assms(1,3)
proof (cases rule: AddAccountNode_kv)
  case (failed e)
  then show ?thesis
    using quiet_writes(2) [OF assms(1), of a i] assms(2-4)
    by (auto simp: mem_AddAccountNode_def bd_registered_def same_dataD(1) split: if_splits)
next
  case added
  then show ?thesis
    using assms(4) same_data_account [OF assms(2), of i a]
    by (auto simp: mem_AddAccountNode_def bd_registered_def same_dataD [OF assms(2)] Let_def)
qed

lemma agree_SetNode:
  assumes "bd_inv (kv d)" and "same_data (kv d) s" and "agreeing s (CSetNode n)"
    and "badger_SetNode B n d = (r, d')" and "mem_SetNode n s = (r', s')"
  shows "r = r' \<and> same_data (kv d') s'"
  using assms(4)
proof (cases rule: SetNode_kv)
  case (failed e)
  then show ?thesis
    using quiet_writes(3) [OF assms(1), of n] assms(2,4,5) by (auto simp: mem_SetNode_def NodeID_IsZero_def split: if_splits)
next
  case set
  have "(case item gob_peers (kv d) (peersKey (n_ID n)) of None \<Rightarrow> fmempty | Some p \<Rightarrow> p) = fmempty"
    using assms(2,3) by (cases "item gob_node (kv d) (nodeKey (n_ID n))") (auto simp: same_data_def)
  then show ?thesis
    using set assms(2,5) by (auto simp: mem_SetNode_def NodeID_IsZero_def same_data_def item_simps)
qed

lemma mark_peers_kv:
  assumes "\<And>i. decodes gob_node (kv t) (nodeKey i)" and "same_data (kv d) s"
    and "\<And>p. p \<in> set ps \<Longrightarrow> item gob_node (kv t) (nodeKey p) = item gob_node (kv d) (nodeKey p)"
  shows "mark_peers B t ps m = Inr (mem_mark_peers (ms_nodes s) ps m)"
  using assms(3)
  by (induction ps arbitrary: m)
    (simp_all add: getItem_kv [OF assms(1)] same_dataD [OF assms(2)] ParseNodeID_def split: option.splits)

lemma agree_UpdateNodePeers:
  assumes "bd_inv (kv d)" and "same_data (kv d) s" and "i \<notin> set ps"
    and "badger_UpdateNodePeers B now ord i ps b d = (r, d')" and "mem_UpdateNodePeers now ord i ps b s = (r', s')"
  shows "r = r' \<and> same_data (kv d') s'"
proof (cases "item gob_node (kv d) (nodeKey i)")
  case None
  then have "badger_UpdateNodePeers B now ord i ps b d = (Inl ErrUnregisteredNode, d)"
    by (simp add: badger_UpdateNodePeers_def db_Update_def typed_items [OF bd_inv_typed [OF assms(1)]])
  then show ?thesis using assms(2,4,5) None by (auto simp: mem_UpdateNodePeers_def same_dataD(1))
next
  case (Some n)
  obtain t1 where t1: "setItem B (nodeKey i) (GNode (n\<lparr>n_LastSeen := now, n_BlockNumber := b\<rparr>)) d = (Inr (), t1)"
    using write_ok by (metis setItem_def)
  have kv1: "kv t1 = fmupd (nodeKey i) (GNode (n\<lparr>n_LastSeen := now, n_BlockNumber := b\<rparr>), None) (kv d)"
    using t1 by (rule setItem_kv)
  have dec: "decodes gob_node (kv t1) (nodeKey j)" "decodes gob_peers (kv t1) (peersKey j)" for j
    using bd_inv_typed [OF assms(1)] kv1 by (simp_all add: bd_typed_def decodes_upd)
  define p where "p = (case item gob_peers (kv d) (peersKey i) of None \<Rightarrow> fmempty | Some p \<Rightarrow> p)"
  define marked where "marked = mem_mark_peers (ms_nodes s) ps p"
  have mark: "mark_peers B t1 ps p = Inr marked"
    unfolding marked_def by (rule mark_peers_kv [OF dec(1) assms(2)]) (use assms(3) kv1 in \<open>auto simp: item_upd\<close>)
  have get: "getItem_or B gob_peers fmempty (peersKey i) t1 = Inr p"
    using kv1 by (simp add: getItem_or_kv [OF dec(2)] item_upd p_def)
  define ex where "ex = expire_peers (now - ExpireInterval) (ord (fmdom marked)) marked []"
  obtain t2 where t2: "setItem B (peersKey i) (GPeers (snd ex)) t1 = (Inr (), t2)"
    using write_ok by (metis setItem_def)
  have kv2: "kv t2 = fmupd (peersKey i) (GPeers (snd ex), None) (kv t1)" using t2 by (rule setItem_kv)
  note op = assms(4) [unfolded badger_UpdateNodePeers_def]
  have r: "r = Inr (fst ex)" and "kv d' = kv t2"
    using Update_quiet(1,2) [OF op] Some t1 get mark t2
    by (simp_all add: typed_items [OF bd_inv_typed [OF assms(1)]] then_txn_def time_simps split_beta ex_def)
  moreover have "mem_UpdateNodePeers now ord i ps b s =
      (Inr (fst ex), s\<lparr>ms_nodes := fmupd i \<lparr>mn_Node = n\<lparr>n_LastSeen := now, n_BlockNumber := b\<rparr>, mn_peers = snd ex\<rparr> (ms_nodes s)\<rparr>)"
    using Some by (simp add: mem_UpdateNodePeers_def same_dataD(1) [OF assms(2)] p_def [symmetric] marked_def [symmetric]
        time_simps Let_def split_beta ex_def)
  ultimately show ?thesis
    using assms(2,5) kv1 kv2 by (auto simp: same_data_def item_upd)
qed

lemma agree_exec:
  assumes "bd_inv (kv d)" and "same_data (kv d) s" and "agreeing s c"
    and "Store_exec (badger_Store B X) c d = (r, d')" and "Store_exec mem_Store c s = (r', s')"
  shows "r = r' \<and> same_data (kv d') s'"
proof -
  have b: "r = fst (Store_exec (badger_Store B X) c d)" "d' = snd (Store_exec (badger_Store B X) c d)"
    and m: "r' = fst (Store_exec mem_Store c s)" "s' = snd (Store_exec mem_Store c s)" using assms(4,5) by simp_all
  note w = prod.collapse [symmetric]
  show ?thesis
    using assms(3) agree_reads [OF assms(1,2)] agree_NodePeers [OF assms(1,2)]
      agree_AddNodeBalance [OF assms(1,2) w w] agree_AddAccountBalance [OF assms(1,2) _ w w]
      agree_AddAccountNode [OF assms(1,2) w w] agree_SetNode [OF assms(1,2) _ w w] agree_UpdateNodePeers [OF assms(1,2) _ w w]
    unfolding b m by (cases c) (simp_all add: badger_Store_def mem_Store_def read_only assms(2))
qed

end

fun agreeing_run :: "memoryStore \<Rightarrow> store_call list \<Rightarrow> bool" where
  "agreeing_run s [] \<longleftrightarrow> True"
| "agreeing_run s (c # cs) \<longleftrightarrow> agreeing s c \<and> agreeing_run (snd (Store_exec mem_Store c s)) cs"

context badger_kv
begin

lemma run_audit:
  assumes "kv d = fmempty"
  shows "bd_inv (kv (snd (Store_run (badger_Store B X) cs d))) \<and>
    bd_credit (kv (snd (Store_run (badger_Store B X) cs d))) = credited (fst (Store_run (badger_Store B X) cs d))"
proof -
  have inv: "bd_inv (kv d)" using assms by (simp add: bd_inv_empty)
  show ?thesis
    using audit.run_inv [OF inv, of X cs] audit.run_total [OF inv, of X cs] assms by (simp add: bd_credit_def)
qed

end

context badger_quiet
begin

lemma agree_run:
  assumes "bd_inv (kv d)" and "same_data (kv d) s" and "agreeing_run s cs"
  shows "fst (Store_run (badger_Store B X) cs d) = fst (Store_run mem_Store cs s) \<and>
    same_data (kv (snd (Store_run (badger_Store B X) cs d))) (snd (Store_run mem_Store cs s))"
  using assms
proof (induction cs arbitrary: d s)
  case Nil
  then show ?case by simp
next
  case (Cons c cs)
  obtain r d1 where b: "Store_exec (badger_Store B X) c d = (r, d1)" by (cases "Store_exec (badger_Store B X) c d")
  obtain r' s1 where m: "Store_exec mem_Store c s = (r', s1)" by (cases "Store_exec mem_Store c s")
  have "r = r'" and "same_data (kv d1) s1" and "bd_inv (kv d1)"
    using agree_exec [OF Cons.prems(1,2) _ b m] exec_keeps [OF Cons.prems(1) b] Cons.prems(3) by simp_all
  then show ?case using Cons.IH [of d1 s1] Cons.prems(3) b m by (simp add: split_beta)
qed

lemma future_nonce_again:
  assumes "bd_inv (kv d)" and "0 < X" and "badger_CheckAndSaveNonce B X t1 i n d = (Inr u, d1)"
    and "t1 + X \<le> t2" and "UnixNano (t2 - X) < n"
  shows "fst (badger_CheckAndSaveNonce B X t2 i n d1) = Inr ()"
proof -
  have "fmlookup (kv d1) (nonceKey i) = Some (GInt n, Some (t1 + X))"
    using assms(1,3) by (cases rule: CheckAndSaveNonce_kv) (use assms(2) in simp_all)
  then have gone: "fmlookup (kv (db_At B t2 d1)) (nonceKey i) = None"
    using assms(4) by (simp add: At_kv unexpired_def)
  obtain d2 where save: "setExpiringItem B (nonceKey i) (GInt n) X (db_At B t2 d1) = (Inr (), d2)"
    using expiring_ok by (metis setExpiringItem_def)
  have "\<not> (0 < X \<and> n \<le> UnixNano (time_Add t2 (- X)))" using assms(5) by (simp add: time_simps)
  then show ?thesis
    using save gone assms(2) by (simp add: badger_CheckAndSaveNonce_def Update_fst getItem_def Get_kv)
qed

lemma MigrateLatest_result:
  assumes dec: "decodes gob_int (kv d) versionKey" and nonneg: "0 \<le> bd_version (kv d)"
    and "MigrateLatest B i d = (r, d')"
  shows "if bd_version (kv d) < 2 then
      r = Inr () \<and> bd_version (kv d') = 2 \<and>
      (\<forall>k. k \<noteq> versionKey \<longrightarrow> fmlookup (kv d') k = (if prefix ''vip:nonce:'' k then None else fmlookup (kv d) k))
    else
      kv d' = kv d \<and>
      r = (if bd_version (kv d) = 2 then Inr ()
           else Inl (MigrationError (bd_version (kv d)) 2 i (ErrNew ''database is newer than the supported version'')))"
proof (cases "bd_version (kv d) < 2")
  case True
  then have "bd_version (kv d) = 0 \<or> bd_version (kv d) = 1" using nonneg by linarith
  from MigrateLatest_upgrades [OF dec this, of i] obtain d1 where
    "MigrateLatest B i d = (Inr (), d1)" "kv d1 = fmupd versionKey (GInt 2, None) (drop_nonces (kv d))" .
  then show ?thesis using True assms(3) by (simp add: bd_version_set drop_nonces_lookup)
next
  case False
  note upd = Update_quiet [OF assms(3) [unfolded MigrateLatest_def Migrate_def]]
  show ?thesis
  proof (cases "bd_version (kv d) = 2")
    case True
    then show ?thesis using upd dec by (simp add: getVersion_kv dbVersion_def)
  next
    case newer: False
    then show ?thesis using upd(1,3) dec False by (simp add: getVersion_kv dbVersion_def migration_error_def)
  qed
qed

end

section \<open>A database held in a map\<close>

text \<open>The laws of the engine can hold: a map with a clock, whose transactions never conflict.\<close>
type_synonym map_db = "time \<times> kv_map"

definition map_badger :: "map_db badger" where
  "map_badger = \<lparr>
     db_At = (\<lambda>now d. (now, fmfilter (\<lambda>k. unexpired now (fmlookup (snd d) k) \<noteq> None) (snd d))),
     txn_Get = (\<lambda>k d. case fmlookup (snd d) k of None \<Rightarrow> Inl ErrKeyNotFound | Some e \<Rightarrow> Inr (fst e)),
     txn_Set = (\<lambda>k v d. (Inr (), (fst d, fmupd k (v, None) (snd d)))),
     txn_SetEntry = (\<lambda>k v ttl d. (Inr (), (fst d, fmupd k (v, Some (fst d + ttl)) (snd d)))),
     txn_Delete = (\<lambda>k d. (Inr (), (fst d, fmdrop k (snd d)))),
     txn_Iterate = (\<lambda>p d. map (\<lambda>k. (k, fst (the (fmlookup (snd d) k)))) (filter (prefix p) (sorted_list_of_fset (fmdom (snd d))))),
     txn_Commit = (\<lambda>d t. (Inr (), t))\<rparr>"

interpretation map_badger: badger_quiet map_badger snd fst
proof (standard, goal_cases)
  case (1 now d k)
  show ?case by (auto simp: map_badger_def unexpired_def split: option.splits)
next
  case (7 p d)
  show ?case by (auto simp: map_badger_def comp_def sorted_list_of_fset.rep_eq fmlookup_dom_iff image_iff)
qed (auto simp: map_badger_def)

section \<open>Properties\<close>

text \<open>
  C9: the persistent ledger is exact. Whatever calls reach it, and whether or not transactions fail on conflicts, a
  database that starts empty stays well formed and holds exactly the credit that
  successful calls added.
\<close>
theorem badger_credit_audit:
  assumes "badger_kv B kv clock" and "kv d = fmempty"
  shows "bd_inv (kv (snd (Store_run (badger_Store B X) cs d))) \<and>
    bd_credit (kv (snd (Store_run (badger_Store B X) cs d))) = credited (fst (Store_run (badger_Store B X) cs d))"
  by (rule badger_kv.run_audit [OF assms])

definition demo_db :: map_db where
  "demo_db = snd (Store_run (badger_Store map_badger ExpireNonce)
     [CSetNode (demo_node ''h1'' True 1000), CSetNode (demo_node ''c'' False 1000), CAddNodeBalance ''c'' 70] (0, fmempty))"

theorem badger_credit_audit_witness: "bd_inv (snd demo_db)"
proof -
  have "snd (0 :: time, fmempty :: kv_map) = fmempty" by simp
  from badger_credit_audit [OF map_badger.badger_kv_axioms this] show ?thesis unfolding demo_db_def by blast
qed



text \<open>
  a nonce that is ahead of the clock can be replayed. The store remembers a nonce for the expiry time
  only; one that was accepted while it was ahead of the clock is young enough to be
  accepted again when the entry is gone.
\<close>
theorem badger_future_nonce_replayed:
  assumes "badger_quiet B kv clock" and "bd_inv (kv d)" and "0 < X"
    and "badger_CheckAndSaveNonce B X t1 i n d = (Inr u, d1)"
    and "t1 + X \<le> t2" and "UnixNano (t2 - X) < n"
  shows "fst (badger_CheckAndSaveNonce B X t2 i n d1) = Inr ()"
  by (rule badger_quiet.future_nonce_again [OF assms])

theorem badger_future_nonce_replayed_witness:
  "\<exists>d1. badger_CheckAndSaveNonce map_badger ExpireNonce 0 ''c'' 600000000000 demo_db = (Inr (), d1) \<and>
     fst (badger_CheckAndSaveNonce map_badger ExpireNonce 900000000000 ''c'' 600000000000 d1) = Inr ()"
proof -
  define r where "r = badger_CheckAndSaveNonce map_badger ExpireNonce 0 ''c'' 600000000000 demo_db"
  have inv: "bd_inv (snd demo_db)" unfolding demo_db_def by (rule map_badger.audit.run_inv) (simp add: bd_inv_empty)
  have pos: "0 < ExpireNonce" by (simp add: interval_values)
  have "fst r = Inr ()" unfolding r_def by code_simp
  then have first: "badger_CheckAndSaveNonce map_badger ExpireNonce 0 ''c'' 600000000000 demo_db = (Inr (), snd r)"
    unfolding r_def by (metis prod.collapse)
  have "0 + ExpireNonce \<le> 900000000000" "UnixNano (900000000000 - ExpireNonce) < 600000000000"
    by (simp_all add: interval_values UnixNano_def int64_def)
  from badger_future_nonce_replayed [OF map_badger.badger_quiet_axioms inv pos first this] first
  show ?thesis by blast
qed

text \<open>
  both drivers give the same answers. While transactions do not conflict, a sequence of calls on which the drivers
  are meant to agree returns the same values from the persistent store as from an in-memory store that holds
  the same data, and both then hold the same data again.
\<close>
theorem drivers_agree:
  assumes "badger_quiet B kv clock" and "bd_inv (kv d)" and "same_data (kv d) s" and "agreeing_run s cs"
  shows "fst (Store_run (badger_Store B X) cs d) = fst (Store_run mem_Store cs s) \<and>
    same_data (kv (snd (Store_run (badger_Store B X) cs d))) (snd (Store_run mem_Store cs s))"
  by (rule badger_quiet.agree_run [OF assms])

theorem drivers_agree_witness:
  "fst (Store_run (badger_Store map_badger ExpireNonce)
      [CSetNode (demo_node ''h'' True 1), CSetNode (demo_node ''c'' False 1), CAddNodeBalance ''c'' 70,
       CAddAccountNode ''a'' ''c'', CGetNodeBalance 5 ''c''] (0, fmempty)) =
   fst (Store_run mem_Store
      [CSetNode (demo_node ''h'' True 1), CSetNode (demo_node ''c'' False 1), CAddNodeBalance ''c'' 70,
       CAddAccountNode ''a'' ''c'', CGetNodeBalance 5 ''c''] mem_New)"
proof -
  have "bd_inv (snd (0 :: time, fmempty))" by (simp add: bd_inv_empty)
  moreover have "same_data (snd (0 :: time, fmempty)) mem_New" by (simp add: same_data_def mem_New_def item_def)
  moreover have "agreeing_run mem_New [CSetNode (demo_node ''h'' True 1), CSetNode (demo_node ''c'' False 1), CAddNodeBalance ''c'' 70,
       CAddAccountNode ''a'' ''c'', CGetNodeBalance 5 ''c'']"
    by (simp add: mem_Store_def mem_SetNode_def mem_New_def demo_node_def zero_node_def NodeID_IsZero_def)
  ultimately show ?thesis
    using drivers_agree [OF map_badger.badger_quiet_axioms, of "(0, fmempty)" mem_New _ ExpireNonce] by blast
qed



section \<open>Payment on the persistent store\<close>

context badger_quiet
begin

lemma update_pays:
  assumes "bd_inv (kv d)" and "bd_registered (kv d) (n_ID nd)" and "\<forall>p\<in>set peers. bd_registered (kv d) (n_ID p)"
    and "pay_OnUpdate (badger_Store B X) b clk nd peers d = (Inr bal, d')" and "charging b (clk 0) nd"
  shows "(\<forall>w. bd_purse (kv d') w = bd_purse (kv d) w
        + intervalCredit b (clk 0) (n_LastSeen nd) * draws_on (bd_purse_of (kv d)) peers w
        - (if w = bd_purse_of (kv d) (n_ID nd) then intervalCredit b (clk 0) (n_LastSeen nd) * int (length peers) else 0)) \<and>
    b_Credit bal = bd_purse (kv d') (bd_purse_of (kv d) (n_ID nd)) \<and> bd_credit (kv d') = bd_credit (kv d)"
  using ledger.OnUpdate_transfer [OF assms refl] by blast

end

text \<open>
  clients pay their hosts exactly on the persistent store too. While transactions do not conflict, an update that
  the pay-per-interval manager answers without error moves the interval credit from the client's purse to the purses of
  its hosts, changes no other purse and conserves the total.
\<close>
theorem badger_update_pays_hosts_exactly:
  assumes "badger_quiet B kv clock" and "bd_inv (kv d)" and "bd_registered (kv d) (n_ID nd)"
    and "\<forall>p\<in>set peers. bd_registered (kv d) (n_ID p)"
    and "pay_OnUpdate (badger_Store B X) b clk nd peers d = (Inr bal, d')" and "charging b (clk 0) nd"
  shows "(\<forall>w. bd_purse (kv d') w = bd_purse (kv d) w
        + intervalCredit b (clk 0) (n_LastSeen nd) * draws_on (bd_purse_of (kv d)) peers w
        - (if w = bd_purse_of (kv d) (n_ID nd) then intervalCredit b (clk 0) (n_LastSeen nd) * int (length peers) else 0)) \<and>
    b_Credit bal = bd_purse (kv d') (bd_purse_of (kv d) (n_ID nd)) \<and> bd_credit (kv d') = bd_credit (kv d)"
  by (rule badger_quiet.update_pays [OF assms])

theorem badger_update_pays_hosts_exactly_witness:
  "\<exists>bal d'. pay_OnUpdate (badger_Store map_badger ExpireNonce) demo_pay (\<lambda>_. 60000001000) (demo_node ''c'' False 1000)
       [demo_node ''h1'' True 1000] demo_db = (Inr bal, d') \<and> bd_credit (snd d') = bd_credit (snd demo_db)"
proof -
  define r where "r = pay_OnUpdate (badger_Store map_badger ExpireNonce) demo_pay (\<lambda>_. 60000001000) (demo_node ''c'' False 1000)
       [demo_node ''h1'' True 1000] demo_db"
  have inv: "bd_inv (snd demo_db)" unfolding demo_db_def by (rule map_badger.audit.run_inv) (simp add: bd_inv_empty)
  have reg: "bd_registered (snd demo_db) (n_ID (demo_node ''c'' False 1000))"
      "\<forall>p\<in>set [demo_node ''h1'' True 1000]. bd_registered (snd demo_db) (n_ID p)"
    unfolding bd_registered_def by code_simp+
  have ch: "charging demo_pay 60000001000 (demo_node ''c'' False 1000)" by code_simp
  have "is_ok (fst (pay_OnUpdate (badger_Store map_badger ExpireNonce) demo_pay (\<lambda>_. 60000001000) (demo_node ''c'' False 1000)
       [demo_node ''h1'' True 1000] demo_db))" by code_simp
  then obtain bal where "fst r = Inr bal" unfolding r_def is_ok_iff by blast
  then have run: "pay_OnUpdate (badger_Store map_badger ExpireNonce) demo_pay (\<lambda>_. 60000001000) (demo_node ''c'' False 1000)
       [demo_node ''h1'' True 1000] demo_db = (Inr bal, snd r)" unfolding r_def by (metis prod.collapse)
  from badger_update_pays_hosts_exactly [OF map_badger.badger_quiet_axioms inv reg run ch] run show ?thesis by blast
qed

end
