(* ===== verification/Driver_Agreement.thy ===== *)
theory Driver_Agreement
  imports Badger_Correctness
begin

text \<open>
  The two storage drivers give the same answers up to the order of lists. The persistent driver ranges over its keys
  where the in-memory driver ranges over a map, and shuffles the hosts it found where the other takes the first ones the map
  yields: each visit of the one is a visit of the other in some order. With the agreement on the other
  calls (\<open>badger_quiet.agree_exec\<close>) this makes the persistent driver a refinement of the in-memory driver, whose orders are
  left open.
\<close>

section \<open>Orders of a visit\<close>

lemma order_through:
  assumes "distinct ks" and "set ks = fset A"
  obtains ord where "range_order ord" and "ord A = ks"
proof
  show "range_order (sorted_list_of_fset(A := ks))" using assms by (simp add: range_order_def sorted_list_of_fset.rep_eq)
qed simp

lemma fold_append_filter: "fold (\<lambda>x r. if P x then r @ [f x] else r) xs acc = acc @ map f (filter P xs)"
  by (induction xs arbitrary: acc) simp_all

lemma loop_items_fold:
  "\<forall>x\<in>set items. is_ok (decode (snd x)) \<Longrightarrow>
   loop_items decode cb items acc = Inr (fold (\<lambda>x. cb (fst x) (projr (decode (snd x)))) items acc)"
  by (induction items arbitrary: acc) (auto simp: is_ok_iff)

text \<open>Shuffling the nodes permutes their IDs.\<close>
lemma shuffle_nodes:
  assumes "range_order ord" and "distinct hs"
  shows "\<exists>js. distinct js \<and> set js = set hs \<and> map snd (shuffle_items ord (map (\<lambda>i. (nodeKey i, f i)) hs)) = map f js"
proof -
  define r where "r = map (\<lambda>i. (nodeKey i, f i)) hs"
  define keys where "keys = ord (fset_of_list (map fst r))"
  define js where "js = map (drop 9) keys"
  have keys: "set keys = nodeKey ` set hs" "distinct keys"
    using assms(1) by (auto simp: keys_def range_order_set range_order_distinct fset_of_list.rep_eq r_def)
  have "nodeKey (drop 9 k) = k" if "k \<in> set keys" for k
  proof -
    obtain i where "k = nodeKey i" using \<open>k \<in> set keys\<close> keys(1) by blast
    then show ?thesis by (simp add: nodeKey_def)
  qed
  then have js: "map nodeKey js = keys" by (simp add: js_def map_idI)
  have "nodeKey ` set js = nodeKey ` set hs" using arg_cong [OF js, of set] keys(1) by simp
  moreover have "inj nodeKey" by (simp add: inj_def)
  ultimately have sjs: "set js = set hs" by (simp only: inj_image_eq_iff)
  have djs: "distinct js" using keys(2) unfolding js [symmetric] distinct_map by blast
  have "distinct (map fst r)" using assms(2) by (simp add: r_def comp_def distinct_map inj_on_def)
  then have look: "map_of r (nodeKey j) = Some (f j)" if "j \<in> set js" for j
    by (rule map_of_is_SomeI) (use that sjs in \<open>auto simp: r_def\<close>)
  have "map snd (shuffle_items ord r) = map f js"
    unfolding shuffle_items_def keys_def [symmetric] js [symmetric] map_map by (rule map_cong) (simp_all add: look)
  then show ?thesis using djs sjs unfolding r_def by blast
qed

context badger_kv
begin

lemma loopItem_visits:
  assumes "\<And>i. decodes dec (kv d) (p @ i)"
  obtains ks where "distinct ks" and "\<And>i. i \<in> set ks \<longleftrightarrow> item dec (kv d) (p @ i) \<noteq> None"
    and "\<And>cb (acc :: 'b). loopItem B p dec cb d acc = Inr (fold (\<lambda>i. cb (p @ i) (the (item dec (kv d) (p @ i)))) ks acc)"
proof
  define items where "items = txn_Iterate B p d"
  define ks where "ks = map (\<lambda>x. drop (length p) (fst x)) items"
  have items: "distinct (map fst items)" "set items = {(k, v). prefix p k \<and> (\<exists>x. fmlookup (kv d) k = Some (v, x))}"
    unfolding items_def using Iterate_kv by blast+
  have pre: "p @ drop (length p) (fst x) = fst x" if "x \<in> set items" for x using that items(2) by (auto simp: prefix_def)
  then have keys: "map (\<lambda>i. p @ i) ks = map fst items" by (simp add: ks_def)
  then show "distinct ks" using items(1) by (metis distinct_map)
  have val: "is_ok (dec (snd x)) \<and> projr (dec (snd x)) = the (item dec (kv d) (fst x))" if "x \<in> set items" for x
    using that items(2) assms [of "drop (length p) (fst x)"] pre [OF that]
    by (auto simp: item_def decodes_def is_ok_def split: sum.splits)
  show "i \<in> set ks \<longleftrightarrow> item dec (kv d) (p @ i) \<noteq> None" for i
  proof -
    have "i \<in> set ks \<longleftrightarrow> p @ i \<in> set (map fst items)" unfolding keys [symmetric] by auto
    also have "\<dots> \<longleftrightarrow> fmlookup (kv d) (p @ i) \<noteq> None" by (force simp: items(2))
    finally show ?thesis using decodes_item [OF assms] by simp
  qed
  show "loopItem B p dec cb d acc = Inr (fold (\<lambda>i. cb (p @ i) (the (item dec (kv d) (p @ i)))) ks acc)" for cb and acc :: 'b
  proof -
    have "loopItem B p dec cb d acc = Inr (fold (\<lambda>x. cb (fst x) (projr (dec (snd x)))) items acc)"
      unfolding loopItem_def items_def [symmetric] by (rule loop_items_fold) (use val in blast)
    also have "fold (\<lambda>x. cb (fst x) (projr (dec (snd x)))) items acc = fold (\<lambda>i. cb (p @ i) (the (item dec (kv d) (p @ i)))) ks acc"
      unfolding ks_def fold_map by (intro fold_cong) (simp_all add: val pre comp_def)
    finally show ?thesis .
  qed
qed

text \<open>A loop over a prefix ranges over the map of the same data, in some order.\<close>
lemma loopItem_ranges:
  assumes dec: "\<And>i. decodes dec (kv d) (key i)" and key: "\<And>i. key i = p @ i"
    and data: "\<And>i. item dec (kv d) (key i) = map_option g (fmlookup m i)"
  obtains ord where "range_order ord"
    and "\<And>cb (acc :: 'b). loopItem B p dec cb d acc = Inr (fold (\<lambda>i. cb (p @ i) (g (the (fmlookup m i)))) (ord (fmdom m)) acc)"
proof -
  from dec obtain ks where ks: "distinct ks" "\<And>i. i \<in> set ks \<longleftrightarrow> item dec (kv d) (p @ i) \<noteq> None"
    and loop: "\<And>cb (acc :: 'b). loopItem B p dec cb d acc = Inr (fold (\<lambda>i. cb (p @ i) (the (item dec (kv d) (p @ i)))) ks acc)"
    unfolding key by (rule loopItem_visits) blast
  have dom: "i \<in> set ks \<longleftrightarrow> fmlookup m i \<noteq> None" for i using data [of i] by (simp add: ks(2) key)
  then have "set ks = fset (fmdom m)" by (auto simp: fmlookup_dom_iff)
  then obtain ord where ord: "range_order ord" "ord (fmdom m) = ks" using order_through [OF ks(1)] by blast
  have "loopItem B p dec cb d acc = Inr (fold (\<lambda>i. cb (p @ i) (g (the (fmlookup m i)))) (ord (fmdom m)) acc)" for cb and acc :: 'b
    unfolding loop ord(2) by (intro arg_cong [of _ _ Inr] fold_cong) (use dom data in \<open>auto simp: key [symmetric]\<close>)
  then show thesis using that ord(1) by blast
qed

lemma agree_GetAccountNodes:
  assumes "bd_inv (kv d)" and "same_data (kv d) s"
  obtains ord where "range_order ord" and "fst (badger_GetAccountNodes B a d) = fst (mem_GetAccountNodes ord a s)"
proof -
  obtain ord where ord: "range_order ord"
    and loop: "\<And>cb (acc :: node_id list). loopItem B ''vip:account:'' gob_string cb d acc =
      Inr (fold (\<lambda>i. cb (''vip:account:'' @ i) (id (the (fmlookup (ms_accounts s) i)))) (ord (fmdom (ms_accounts s))) acc)"
    by (rule loopItem_ranges [of gob_string d accountKey "''vip:account:''" id "ms_accounts s"])
      (use bd_inv_typed [OF assms(1)] same_dataD(4) [OF assms(2)] in \<open>auto simp: bd_typed_def accountKey_def option.map_id\<close>)
  have "fst (badger_GetAccountNodes B a d) =
      Inr (fold (\<lambda>i r. if fmlookup (ms_accounts s) i = Some a then r @ [i] else r) (ord (fmdom (ms_accounts s))) [])"
    unfolding badger_GetAccountNodes_def db_View_def loop fst_conv
    by (intro arg_cong [of _ _ Inr] fold_cong) (use ord in \<open>auto simp: range_order_mem\<close>)
  also have "\<dots> = fst (mem_GetAccountNodes ord a s)"
    using fold_append_filter [of "\<lambda>i. fmlookup (ms_accounts s) i = Some a" "\<lambda>i. i"] by (simp add: mem_GetAccountNodes_def)
  finally show thesis using that ord by blast
qed

lemma agree_nodes:
  assumes "bd_inv (kv d)" and "same_data (kv d) s"
  obtains ord where "range_order ord" and "\<And>cb (acc :: 'b). loopItem B ''vip:node:'' gob_node cb d acc =
      Inr (fold (\<lambda>i. cb (nodeKey i) (mn_Node (the (fmlookup (ms_nodes s) i)))) (ord (fmdom (ms_nodes s))) acc)"
  unfolding nodeKey_def
  by (rule loopItem_ranges [of gob_node d nodeKey "''vip:node:''" mn_Node "ms_nodes s"])
    (use bd_inv_typed [OF assms(1)] same_dataD(1) [OF assms(2)] in
      \<open>auto simp: bd_typed_def nodeKey_def option.map_comp comp_def option.map_ident\<close>)

text \<open>
  The hosts: the persistent driver collects all that match and shuffles them when there are too many; the in-memory driver stops at the limit.
\<close>
lemma agree_ActiveHosts:
  assumes "bd_inv (kv d)" and "same_data (kv d) s" and "0 \<le> limit" and "range_order ord"
  obtains ord' where "range_order ord'" and "fst (badger_ActiveHosts B now ord kind limit d) = fst (mem_ActiveHosts now ord' kind limit s)"
proof -
  define hit where "hit = host_matches kind (time_Add now (- ExpireInterval))"
  define f where "f i = mn_Node (the (fmlookup (ms_nodes s) i))" for i
  obtain o0 where o0: "range_order o0" and loop: "\<And>cb (acc :: (string \<times> node) list). loopItem B ''vip:node:'' gob_node cb d acc =
      Inr (fold (\<lambda>i. cb (nodeKey i) (f i)) (o0 (fmdom (ms_nodes s))) acc)"
    unfolding f_def by (rule agree_nodes [OF assms(1,2)]) blast
  define ks where "ks = o0 (fmdom (ms_nodes s))"
  define hs where "hs = filter (\<lambda>i. hit (f i)) ks"
  define r where "r = map (\<lambda>i. (nodeKey i, f i)) hs"
  have bd: "fst (badger_ActiveHosts B now ord kind limit d) =
      Inr (map snd (if limit \<le> 0 \<or> int (length r) < limit then r else take (nat limit) (shuffle_items ord r)))"
    by (simp add: badger_ActiveHosts_def db_View_def loop fold_append_filter r_def hs_def hit_def ks_def split_beta)
  have mem: "fst (mem_ActiveHosts now ord' kind limit s) = Inr (let hosts = map f (filter (\<lambda>i. hit (f i)) (ord' (fmdom (ms_nodes s))))
      in if limit = 0 then hosts else take (nat limit) hosts)" for ord'
    using assms(3) by (simp add: mem_ActiveHosts_eq mem_node_list_def f_def [symmetric] hit_def [symmetric] filter_map comp_def Let_def)
  show thesis
  proof (cases "limit \<le> 0 \<or> int (length r) < limit")
    case True
    then have "fst (badger_ActiveHosts B now ord kind limit d) = fst (mem_ActiveHosts now o0 kind limit s)"
      using assms(3) unfolding bd mem by (auto simp: r_def hs_def ks_def comp_def)
    then show thesis using that o0 by blast
  next
    case False
    have "distinct hs" using range_order_distinct [OF o0] by (simp add: hs_def ks_def)
    from shuffle_nodes [OF assms(4) this, of f, folded r_def] obtain js where
      djs: "distinct js" and sjs: "set js = set hs" and sh: "map snd (shuffle_items ord r) = map f js" by blast
    obtain ord' where ord': "range_order ord'" "ord' (fmdom (ms_nodes s)) = js @ filter (\<lambda>i. \<not> hit (f i)) ks"
    proof (rule order_through)
      show "distinct (js @ filter (\<lambda>i. \<not> hit (f i)) ks)"
        using djs sjs range_order_distinct [OF o0] by (auto simp: hs_def ks_def)
      show "set (js @ filter (\<lambda>i. \<not> hit (f i)) ks) = fset (fmdom (ms_nodes s))"
        using sjs range_order_set [OF o0] by (auto simp: hs_def ks_def)
    qed
    have "filter (\<lambda>i. hit (f i)) (ord' (fmdom (ms_nodes s))) = js"
      using sjs unfolding ord'(2) by (auto simp: hs_def filter_id_conv filter_empty_conv)
    then have "fst (badger_ActiveHosts B now ord kind limit d) = fst (mem_ActiveHosts now ord' kind limit s)"
      using False unfolding bd mem by (simp add: take_map sh [symmetric] Let_def)
    then show thesis using that ord'(1) by blast
  qed
qed

lemma agree_Stats:
  assumes "bd_inv (kv d)" and "same_data (kv d) s"
  obtains ords where "\<And>k. range_order (ords k)" and "fst (badger_Stats B now d) = fst (mem_Stats now ords s)"
proof -
  note typed = bd_inv_typed [OF assms(1)]
  obtain o0 where o0: "range_order o0" and nodes: "\<And>cb (acc :: stats). loopItem B ''vip:node:'' gob_node cb d acc =
      Inr (fold (\<lambda>i. cb (nodeKey i) (mn_Node (the (fmlookup (ms_nodes s) i)))) (o0 (fmdom (ms_nodes s))) acc)"
    by (rule agree_nodes [OF assms]) blast
  obtain o1 where o1: "range_order o1" and balances: "\<And>cb (acc :: stats). loopItem B ''vip:balance:'' gob_balance cb d acc =
      Inr (fold (\<lambda>i. cb (''vip:balance:'' @ i) (id (the (fmlookup (ms_balances s) i)))) (o1 (fmdom (ms_balances s))) acc)"
    by (rule loopItem_ranges [of gob_balance d balanceKey "''vip:balance:''" id "ms_balances s"])
      (use typed same_dataD(2) [OF assms(2)] in \<open>auto simp: bd_typed_def balanceKey_def option.map_id\<close>)
  obtain o2 where o2: "range_order o2" and trials: "\<And>cb (acc :: stats). loopItem B ''vip:trial:'' gob_balance cb d acc =
      Inr (fold (\<lambda>i. cb (''vip:trial:'' @ i) (id (the (fmlookup (ms_trials s) i)))) (o2 (fmdom (ms_trials s))) acc)"
    by (rule loopItem_ranges [of gob_balance d trialKey "''vip:trial:''" id "ms_trials s"])
      (use typed same_dataD(3) [OF assms(2)] in \<open>auto simp: bd_typed_def trialKey_def option.map_id\<close>)
  define ords where "ords k = (if k = 0 then o0 else if k = 1 then o1 else o2)" for k :: nat
  have ords: "range_order (ords k)" for k using o0 o1 o2 by (simp add: ords_def)
  have index: "fold (\<lambda>i. CountBalance (index zero_balance m i)) (ord (fmdom m)) st =
      fold (\<lambda>i. CountBalance (the (fmlookup m i))) (ord (fmdom m)) st" if "range_order ord" for m ord st
    by (intro fold_cong) (use that in \<open>auto simp: range_order_mem index_def\<close>)
  have "fst (badger_Stats B now d) = fst (mem_Stats now ords s)"
    by (simp add: badger_Stats_def db_View_def nodes balances trials mem_Stats_def Let_def ords_def index o1 o2
        mem_node_list_def fold_map comp_def)
  then show thesis using that ords by blast
qed

end

section \<open>Agreement up to order\<close>

text \<open>The same call, where a driver may list what it returns in another order.\<close>
fun listed_as :: "store_call \<Rightarrow> store_call \<Rightarrow> bool" where
  "listed_as (CActiveHosts now ord k l) c \<longleftrightarrow> (\<exists>ord'. range_order ord' \<and> c = CActiveHosts now ord' k l)"
| "listed_as (CGetAccountNodes ord a) c \<longleftrightarrow> (\<exists>ord'. range_order ord' \<and> c = CGetAccountNodes ord' a)"
| "listed_as (CStats now ords) c \<longleftrightarrow> (\<exists>ords'. (\<forall>k. range_order (ords' k)) \<and> c = CStats now ords')"
| "listed_as c' c \<longleftrightarrow> c = c'"

fun agreeing_listed :: "memoryStore \<Rightarrow> store_call \<Rightarrow> bool" where
  "agreeing_listed s (CActiveHosts now ord k l) \<longleftrightarrow> range_order ord \<and> 0 \<le> l"
| "agreeing_listed s (CGetAccountNodes ord a) \<longleftrightarrow> True"
| "agreeing_listed s (CStats now ords) \<longleftrightarrow> True"
| "agreeing_listed s c \<longleftrightarrow> agreeing s c"

fun agreeing_run_listed :: "memoryStore \<Rightarrow> store_call list \<Rightarrow> bool" where
  "agreeing_run_listed s [] \<longleftrightarrow> True"
| "agreeing_run_listed s (c # cs) \<longleftrightarrow> agreeing_listed s c \<and> agreeing_run_listed (snd (Store_exec mem_Store c s)) cs"

text \<open>What the calls do to the in-memory store does not depend on the order.\<close>
lemma listed_as_state: "listed_as c c' \<Longrightarrow> snd (Store_exec mem_Store c' s) = snd (Store_exec mem_Store c s)"
  by (cases c) (auto simp: mem_Store_def)

context badger_quiet
begin

lemma agree_listed:
  assumes "bd_inv (kv d)" and "same_data (kv d) s" and "agreeing_listed s c"
    and "Store_exec (badger_Store B X) c d = (r, d')"
  shows "\<exists>c'. listed_as c c' \<and> r = fst (Store_exec mem_Store c' s) \<and> same_data (kv d') (snd (Store_exec mem_Store c s))"
proof (cases "agreeing s c")
  case True
  then have "listed_as c c" by (cases c) simp_all
  then show ?thesis
    using agree_exec [OF assms(1,2) True assms(4) prod.collapse [symmetric]] by blast
next
  case False
  have rd: "r = fst (Store_exec (badger_Store B X) c d)" "d' = snd (Store_exec (badger_Store B X) c d)" using assms(4) by simp_all
  consider now ord k l where "c = CActiveHosts now ord k l" | ord a where "c = CGetAccountNodes ord a" | now ords where "c = CStats now ords"
    using False assms(3) by (cases c) auto
  then show ?thesis
  proof cases
    case (1 now ord k l)
    then obtain ord' where "range_order ord'" "fst (badger_ActiveHosts B now ord k l d) = fst (mem_ActiveHosts now ord' k l s)"
      using agree_ActiveHosts [OF assms(1,2)] assms(3) by (metis agreeing_listed.simps(1))
    then show ?thesis using 1 assms(2) read_only(6) [of now ord k l d]
      unfolding rd by (auto simp: badger_Store_def mem_Store_def intro!: exI [of _ "CActiveHosts now ord' k l"])
  next
    case (2 ord a)
    obtain ord' where "range_order ord'" "fst (badger_GetAccountNodes B a d) = fst (mem_GetAccountNodes ord' a s)"
      using agree_GetAccountNodes [OF assms(1,2)] by blast
    then show ?thesis using 2 assms(2) read_only(4) [of a d]
      unfolding rd by (auto simp: badger_Store_def mem_Store_def intro!: exI [of _ "CGetAccountNodes ord' a"])
  next
    case (3 now ords)
    obtain ords' where "\<And>k. range_order (ords' k)" "fst (badger_Stats B now d) = fst (mem_Stats now ords' s)"
      using agree_Stats [OF assms(1,2)] by blast
    then show ?thesis using 3 assms(2) read_only(8) [of now d]
      unfolding rd by (auto simp: badger_Store_def mem_Store_def intro!: exI [of _ "CStats now ords'"])
  qed
qed

lemma agree_run_listed:
  assumes "bd_inv (kv d)" and "same_data (kv d) s" and "agreeing_run_listed s cs"
  shows "\<exists>cs'. list_all2 listed_as cs cs' \<and>
    map snd (fst (Store_run (badger_Store B X) cs d)) = map snd (fst (Store_run mem_Store cs' s)) \<and>
    same_data (kv (snd (Store_run (badger_Store B X) cs d))) (snd (Store_run mem_Store cs' s))"
  using assms
proof (induction cs arbitrary: d s)
  case (Cons c cs)
  obtain r d1 where b: "Store_exec (badger_Store B X) c d = (r, d1)" by (cases "Store_exec (badger_Store B X) c d")
  from agree_listed [OF Cons.prems(1,2) _ b] Cons.prems(3) obtain c' where
    c': "listed_as c c'" "r = fst (Store_exec mem_Store c' s)" "same_data (kv d1) (snd (Store_exec mem_Store c s))" by auto
  have "bd_inv (kv d1)" using exec_keeps [OF Cons.prems(1) b] by simp
  from Cons.IH [OF this c'(3)] Cons.prems(3) obtain cs' where
    "list_all2 listed_as cs cs'" "map snd (fst (Store_run (badger_Store B X) cs d1)) =
       map snd (fst (Store_run mem_Store cs' (snd (Store_exec mem_Store c s))))"
    "same_data (kv (snd (Store_run (badger_Store B X) cs d1))) (snd (Store_run mem_Store cs' (snd (Store_exec mem_Store c s))))" by auto
  then show ?case using c'(1,2) b listed_as_state [OF c'(1), of s]
    by (intro exI [of _ "c' # cs'"]) (simp add: split_beta)
qed simp

end

section \<open>Properties\<close>

text \<open>
  C3: both drivers give the same answers. While transactions do not conflict, a sequence of calls on which the drivers are meant to
  agree, lists of hosts, of an account's nodes and statistics included, returns from the persistent store
  what it returns from an in-memory store that holds the same data and visits its maps in a suitable order, and both then
  hold the same data again.
\<close>
theorem drivers_agree_up_to_order:
  assumes "badger_quiet B kv clock" and "bd_inv (kv d)" and "same_data (kv d) s" and "agreeing_run_listed s cs"
  shows "\<exists>cs'. list_all2 listed_as cs cs' \<and>
    map snd (fst (Store_run (badger_Store B X) cs d)) = map snd (fst (Store_run mem_Store cs' s)) \<and>
    same_data (kv (snd (Store_run (badger_Store B X) cs d))) (snd (Store_run mem_Store cs' s))"
  by (rule badger_quiet.agree_run_listed [OF assms])

theorem drivers_agree_up_to_order_witness:
  "\<exists>ord. range_order ord \<and>
     map snd (fst (Store_run (badger_Store map_badger ExpireNonce)
      [CSetNode (demo_node ''h'' True 1), CSetNode (demo_node ''c'' False 1), CAddAccountNode ''a'' ''c'', CAddAccountNode ''a'' ''h'',
       CGetAccountNodes (\<lambda>_. []) ''a''] (0, fmempty))) =
     map snd (fst (Store_run mem_Store
      [CSetNode (demo_node ''h'' True 1), CSetNode (demo_node ''c'' False 1), CAddAccountNode ''a'' ''c'', CAddAccountNode ''a'' ''h'',
       CGetAccountNodes ord ''a''] mem_New))"
proof -
  let ?cs = "\<lambda>ord. [CSetNode (demo_node ''h'' True 1), CSetNode (demo_node ''c'' False 1), CAddAccountNode ''a'' ''c'', CAddAccountNode ''a'' ''h'',
       CGetAccountNodes ord ''a'']"
  have "bd_inv (snd (0 :: time, fmempty))" by (simp add: bd_inv_empty)
  moreover have "same_data (snd (0 :: time, fmempty)) mem_New" by (simp add: same_data_def mem_New_def item_def)
  moreover have "agreeing_run_listed mem_New (?cs (\<lambda>_. []))"
    by (simp add: mem_Store_def mem_SetNode_def mem_New_def demo_node_def zero_node_def NodeID_IsZero_def)
  ultimately obtain cs' where "list_all2 listed_as (?cs (\<lambda>_. [])) cs'"
    and "map snd (fst (Store_run (badger_Store map_badger ExpireNonce) (?cs (\<lambda>_. [])) (0, fmempty))) = map snd (fst (Store_run mem_Store cs' mem_New))"
    using drivers_agree_up_to_order [OF map_badger.badger_quiet_axioms] by blast
  then show ?thesis by (auto simp: list_all2_Cons1)
qed

end
