(* ===== verification/Json_Decode.thy ===== *)
theory Json_Decode
  imports Ethnode
begin

text \<open>
  \<^verbatim>\<open>json.Unmarshal\<close> into the Go values that cross a connection: strings, booleans, integers of a
  width, raw values, slices, maps and structs, and with them the peers and user agents of
  \<^verbatim>\<open>ethnode\<close>. A decoder gets the value the variable holds and returns the new one: a JSON null leaves
  scalars and structs as they are and makes slices and maps nil. The lemmas show that decoding undoes
  the JSON forms of \<open>Ethnode\<close>.
\<close>

section \<open>Decoders\<close>

type_synonym 'a decoder = "json \<Rightarrow> 'a \<Rightarrow> 'a result"

definition unmarshal_error :: go_error where
  "unmarshal_error = ErrNew ''json: cannot unmarshal value into Go value''"

definition un_string :: "string decoder" where
  "un_string j s = (case j of JNull \<Rightarrow> Inr s | JStr t \<Rightarrow> Inr t | _ \<Rightarrow> Inl unmarshal_error)"

definition un_bool :: "bool decoder" where
  "un_bool j b = (case j of JNull \<Rightarrow> Inr b | JBool c \<Rightarrow> Inr c | _ \<Rightarrow> Inl unmarshal_error)"

definition un_int :: "int decoder" where
  "un_int j i =
     (case j of JNull \<Rightarrow> Inr i
      | JNum n \<Rightarrow> (if min_int64 \<le> n \<and> n \<le> max_int64 then Inr n else Inl unmarshal_error)
      | _ \<Rightarrow> Inl unmarshal_error)"

definition un_uint64 :: "uint64 decoder" where
  "un_uint64 j w =
     (case j of JNull \<Rightarrow> Inr w
      | JNum n \<Rightarrow> (if 0 \<le> n \<and> n < 2 ^ 64 then Inr (word_of_int n) else Inl unmarshal_error)
      | _ \<Rightarrow> Inl unmarshal_error)"

text \<open>\<^verbatim>\<open>json.RawMessage\<close> takes every value, null too.\<close>
definition un_raw :: "json decoder" where
  "un_raw j r = Inr j"

fun un_elems :: "'a decoder \<Rightarrow> 'a \<Rightarrow> json list \<Rightarrow> 'a list result" where
  "un_elems d z [] = Inr []"
| "un_elems d z (j # js) =
     (case d j z of
        Inl e \<Rightarrow> Inl e
      | Inr x \<Rightarrow> (case un_elems d z js of Inl e \<Rightarrow> Inl e | Inr xs \<Rightarrow> Inr (x # xs)))"

definition un_slice :: "'a decoder \<Rightarrow> 'a \<Rightarrow> 'a list option decoder" where
  "un_slice d z j xs =
     (case j of JNull \<Rightarrow> Inr None
      | JArr js \<Rightarrow> (case un_elems d z js of Inl e \<Rightarrow> Inl e | Inr ys \<Rightarrow> Inr (Some ys))
      | _ \<Rightarrow> Inl unmarshal_error)"

fun un_entries :: "'a decoder \<Rightarrow> 'a \<Rightarrow> (string \<times> json) list \<Rightarrow> (string, 'a) fmap \<Rightarrow> (string, 'a) fmap result" where
  "un_entries d z [] m = Inr m"
| "un_entries d z ((k, j) # ms) m =
     (case d j z of Inl e \<Rightarrow> Inl e | Inr x \<Rightarrow> un_entries d z ms (fmupd k x m))"

definition un_map :: "'a decoder \<Rightarrow> 'a \<Rightarrow> (string, 'a) fmap option decoder" where
  "un_map d z j m =
     (case j of JNull \<Rightarrow> Inr None
      | JObj ms \<Rightarrow>
          (case un_entries d z ms (case m of None \<Rightarrow> fmempty | Some t \<Rightarrow> t) of Inl e \<Rightarrow> Inl e | Inr t \<Rightarrow> Inr (Some t))
      | _ \<Rightarrow> Inl unmarshal_error)"

text \<open>
  A field of a struct: its name in JSON, and the decoder of its value lifted to the struct. Names are compared
  without regard to case (of ASCII letters), unknown members are skipped, and a repeated member decodes again.
\<close>
definition fld :: "string \<Rightarrow> ('r \<Rightarrow> 'a) \<Rightarrow> (('a \<Rightarrow> 'a) \<Rightarrow> 'r \<Rightarrow> 'r) \<Rightarrow> 'a decoder \<Rightarrow> string \<times> 'r decoder" where
  "fld name get upd d =
     (ToLower name, \<lambda>j r. case d j (get r) of Inl e \<Rightarrow> Inl e | Inr v \<Rightarrow> Inr (upd (\<lambda>_. v) r))"

fun un_members :: "(string \<times> 'r decoder) list \<Rightarrow> (string \<times> json) list \<Rightarrow> 'r \<Rightarrow> 'r result" where
  "un_members fs [] r = Inr r"
| "un_members fs ((k, j) # ms) r =
     (case map_of fs (ToLower k) of
        None \<Rightarrow> un_members fs ms r
      | Some d \<Rightarrow> (case d j r of Inl e \<Rightarrow> Inl e | Inr r1 \<Rightarrow> un_members fs ms r1))"

definition un_struct :: "(string \<times> 'r decoder) list \<Rightarrow> 'r decoder" where
  "un_struct fs j r =
     (case j of JNull \<Rightarrow> Inr r | JObj ms \<Rightarrow> un_members fs ms r | _ \<Rightarrow> Inl unmarshal_error)"

lemmas un_defs = un_string_def un_bool_def un_int_def un_uint64_def un_raw_def un_slice_def un_map_def un_struct_def
  fld_def

section \<open>Decoding undoes encoding\<close>

lemma un_elems_map:
  assumes "\<And>x. x \<in> set xs \<Longrightarrow> d (f x) z = Inr x"
  shows "un_elems d z (map f xs) = Inr xs"
  using assms by (induction xs) auto

lemma un_slice_json:
  assumes "\<And>x ys. xs = Some ys \<Longrightarrow> x \<in> set ys \<Longrightarrow> d (f x) z = Inr x"
  shows "un_slice d z (json_slice f xs) r = Inr xs"
  using assms by (cases xs) (simp_all add: un_slice_def json_slice_def un_elems_map)

lemma un_entries_raw: "un_entries un_raw z ms m = Inr (fold (\<lambda>(k, x). fmupd k x) ms m)"
  by (induction un_raw z ms m rule: un_entries.induct) (auto simp: un_raw_def)

lemma fold_fmupd_lookup:
  assumes "distinct ks"
  shows "fmlookup (fold (\<lambda>(k, x). fmupd k x) (map (\<lambda>k. (k, g k)) ks) m) i =
    (if i \<in> set ks then Some (g i) else fmlookup m i)"
  using assms by (induction ks arbitrary: m) auto

lemma un_map_raw: "un_map un_raw z (json_map (\<lambda>j. j) m) None = Inr m"
proof (cases m)
  case None
  then show ?thesis by (simp add: un_map_def json_map_def)
next
  case (Some t)
  have "fold (\<lambda>(k, x). fmupd k x) (map (\<lambda>k. (k, the (fmlookup t k))) (sorted_list_of_fset (fmdom t))) fmempty = t"
    by (rule fmap_ext) (auto simp: fold_fmupd_lookup sorted_list_of_fset.rep_eq fmlookup_dom_iff)
  then show ?thesis by (simp add: Some un_map_def json_map_def un_entries_raw)
qed

lemma un_string_JStr [simp]: "un_string (JStr s) t = Inr s"
  by (simp add: un_string_def)

lemma un_uint64_uint [simp]: "un_uint64 (JNum (uint (w :: uint64))) v = Inr w"
  using uint_lt2p [of w] by (simp add: un_uint64_def)

lemma un_members_append:
  "un_members fs (a @ b) r = (case un_members fs a r of Inl e \<Rightarrow> Inl e | Inr r1 \<Rightarrow> un_members fs b r1)"
  by (induction fs a r rule: un_members.induct) (auto split: option.splits sum.splits)

section \<open>Peers and user agents\<close>

definition zero_UserAgent :: UserAgent where
  "zero_UserAgent = \<lparr>ua_Version = '''', ua_EthProtocol = '''', ua_Kind = 0, ua_Network = 0, ua_IsFullNode = False\<rparr>"

definition un_UserAgent :: "UserAgent decoder" where
  "un_UserAgent = un_struct
     [fld ''version'' ua_Version ua_Version_update un_string,
      fld ''eth_protocol'' ua_EthProtocol ua_EthProtocol_update un_string,
      fld ''kind'' ua_Kind ua_Kind_update un_int, fld ''network'' ua_Network ua_Network_update un_int,
      fld ''is_full_node'' ua_IsFullNode ua_IsFullNode_update un_bool]"

definition zero_PeerInfo :: PeerInfo where
  "zero_PeerInfo = \<lparr>pi_ID = '''', pi_Name = '''', pi_Caps = None, pi_Protocols = None, pi_Enode = '''',
     pi_LocalAddress = '''', pi_RemoteAddress = ''''\<rparr>"

text \<open>The struct \<^verbatim>\<open>Network\<close> inside a peer.\<close>
definition un_Network :: "PeerInfo decoder" where
  "un_Network = un_struct
     [fld ''localAddress'' pi_LocalAddress pi_LocalAddress_update un_string,
      fld ''remoteAddress'' pi_RemoteAddress pi_RemoteAddress_update un_string]"

definition un_PeerInfo :: "PeerInfo decoder" where
  "un_PeerInfo = un_struct
     [fld ''id'' pi_ID pi_ID_update un_string, fld ''name'' pi_Name pi_Name_update un_string,
      fld ''caps'' pi_Caps pi_Caps_update (un_slice un_string ''''),
      fld ''protocols'' pi_Protocols pi_Protocols_update (un_map un_raw JNull),
      fld ''enode'' pi_Enode pi_Enode_update un_string, (''network'', un_Network)]"

text \<open>Kinds and networks are 64-bit integers.\<close>
definition wire_agent :: "UserAgent \<Rightarrow> bool" where
  "wire_agent ua \<longleftrightarrow> min_int64 \<le> ua_Kind ua \<and> ua_Kind ua \<le> max_int64 \<and>
     min_int64 \<le> ua_Network ua \<and> ua_Network ua \<le> max_int64"

lemma un_UserAgent_json: "wire_agent ua \<Longrightarrow> un_UserAgent (UserAgent_json ua) z = Inr ua"
  by (simp add: un_UserAgent_def UserAgent_json_def un_defs ToLower_def is_upper_def code_def wire_agent_def)

lemma un_PeerInfo_json: "un_PeerInfo (PeerInfo_json p) zero_PeerInfo = Inr p"
proof -
  have caps: "un_slice un_string '''' (json_slice JStr (pi_Caps p)) None = Inr (pi_Caps p)"
    by (rule un_slice_json) simp
  have protocols: "un_map un_raw JNull (json_map (\<lambda>j. j) (pi_Protocols p)) None = Inr (pi_Protocols p)"
    by (rule un_map_raw)
  show ?thesis
    unfolding un_PeerInfo_def PeerInfo_json_def un_struct_def
    by (simp add: fld_def un_Network_def un_struct_def ToLower_def is_upper_def code_def zero_PeerInfo_def
        caps protocols omitempty_str_def)
qed

end
