(* ===== verification/Error_Messages.thy ===== *)
theory Error_Messages
  imports Go_Encoding
begin

text \<open>
  The text of errors: the \<^verbatim>\<open>Error\<close> methods of the error types of the repository, and the error code
  that responses carry. Callers on the other side of a connection see only these.
\<close>

text \<open>\<^verbatim>\<open>%q\<close> of a string: quotes, backslashes and control characters are escaped.\<close>
definition go_escape :: "char \<Rightarrow> string" where
  "go_escape c =
     (let n = of_char c :: nat
      in if n = 34 then [char_of (92 :: nat), c]
         else if n = 92 then [c, c]
         else if n = 7 then [char_of (92 :: nat), CHR ''a'']
         else if n = 8 then [char_of (92 :: nat), CHR ''b'']
         else if n = 12 then [char_of (92 :: nat), CHR ''f'']
         else if n = 10 then [char_of (92 :: nat), CHR ''n'']
         else if n = 13 then [char_of (92 :: nat), CHR ''r'']
         else if n = 9 then [char_of (92 :: nat), CHR ''t'']
         else if n = 11 then [char_of (92 :: nat), CHR ''v'']
         else if n < 32 \<or> n = 127 then [char_of (92 :: nat), CHR ''x'', hex_lower (n div 16), hex_lower (n mod 16)]
         else [c])"

definition go_quote :: "string \<Rightarrow> string" where
  "go_quote s = char_of (34 :: nat) # concat (map go_escape s) @ [char_of (34 :: nat)]"

text \<open>
  \<^verbatim>\<open>%s\<close> of a duration: hours, minutes and seconds, or a smaller unit below one second, with
  the digits of the fraction that are not trailing zeros.
\<close>
definition drop_zeros :: "string \<Rightarrow> string" where
  "drop_zeros s = rev (dropWhile (\<lambda>c. c = CHR ''0'') (rev s))"

definition fraction :: "nat \<Rightarrow> nat \<Rightarrow> string" where
  "fraction prec v =
     (let ds = nat_digits v; s = drop_zeros (replicate (prec - length ds) (CHR ''0'') @ ds)
      in if s = '''' then '''' else CHR ''.'' # s)"

definition duration_String :: "duration \<Rightarrow> string" where
  "duration_String d =
     (let u = nat (abs d);
          text = (if u = 0 then ''0s''
                  else if u < 1000 then nat_digits u @ ''ns''
                  else if u < 1000000 then nat_digits (u div 1000) @ fraction 3 (u mod 1000) @ [char_of (194 :: nat), char_of (181 :: nat), CHR ''s'']
                  else if u < 1000000000 then nat_digits (u div 1000000) @ fraction 6 (u mod 1000000) @ ''ms''
                  else
                    (let secs = u div 1000000000
                     in (if 3600 \<le> secs then nat_digits (secs div 3600) @ ''h'' else '''') @
                        (if 60 \<le> secs then nat_digits (secs div 60 mod 60) @ ''m'' else '''') @
                        nat_digits (secs mod 60) @ fraction 9 (u mod 1000000000) @ ''s''))
      in if d < 0 then CHR ''-'' # text else text)"

definition LowBalanceError_Error :: "int \<Rightarrow> int \<Rightarrow> string" where
  "LowBalanceError_Error minBalance currentBalance =
     ''low balance error: Current balance ('' @ int_digits currentBalance @
     '') is less than the required minimum ('' @ int_digits minBalance @ '')''"

definition VerifyFailedError_Error :: "string \<Rightarrow> string \<Rightarrow> string" where
  "VerifyFailedError_Error cause method =
     ''method '' @ go_quote method @ '' failed to verify signature: '' @ cause"

text \<open>The messages of the failed calls, separated by semicolons.\<close>
fun separated :: "string \<Rightarrow> string list \<Rightarrow> string" where
  "separated sep [] = ''''"
| "separated sep [s] = s"
| "separated sep (s # ss) = s @ sep @ separated sep ss"

definition RemoteHostErrors_Error :: "string \<Rightarrow> string list \<Rightarrow> string" where
  "RemoteHostErrors_Error method errors =
     (if errors = [] then ''no remote host errors''
      else ''failed to call '' @ go_quote method @ '' on '' @ nat_digits (length errors) @ '' hosts: '' @
           separated ''; '' errors)"

definition WithdrawBalanceMinimumError_Error :: "int \<Rightarrow> int \<Rightarrow> string" where
  "WithdrawBalanceMinimumError_Error balance minimum =
     ''account balance ('' @ int_digits balance @ '') is below the minimum required to withdraw ('' @
     int_digits minimum @ '')''"

definition AddressMismatchError_Error :: "string \<Rightarrow> string \<Rightarrow> string \<Rightarrow> string" where
  "AddressMismatchError_Error prelude want got =
     prelude @ '': got '' @ go_quote got @ ''; want '' @ go_quote want"

definition MigrationError_Error :: "int \<Rightarrow> int \<Rightarrow> string \<Rightarrow> string \<Rightarrow> string" where
  "MigrationError_Error oldVersion newVersion path cause =
     ''badger database migration error: Failed to migrate from version '' @ int_digits oldVersion @ '' to '' @
     int_digits newVersion @ '' at path '' @ go_quote path @ '': '' @ cause"

definition AgentPoolError_Error :: "string \<Rightarrow> string \<Rightarrow> string" where
  "AgentPoolError_Error cause msg = ''agent error: '' @ msg @ '': '' @ cause"

fun error_text :: "go_error \<Rightarrow> string" where
  "error_text ErrInvalidNonce = ''invalid nonce''"
| "error_text ErrUnregisteredNode = ''unregistered node''"
| "error_text ErrMalformedNode = ''malformed node''"
| "error_text ErrNotAuthorized = ''node is not an authorized spender''"
| "error_text (LowBalanceError m c) = LowBalanceError_Error m c"
| "error_text (InvalidIntervalSettings c i) =
     ''payPerInterval: Invalid interval settings: '' @ int_digits c @ '' per '' @ duration_String i"
| "error_text (NoHostNodesError n) = NoHostNodesError_Error n"
| "error_text (VerifyFailedError e m) = VerifyFailedError_Error (error_text e) m"
| "error_text (RemoteHostErrors m es) = RemoteHostErrors_Error m (map error_text es)"
| "error_text ErrDepositTimelocked = ''deposit is timelocked''"
| "error_text ErrWithdrawDisabled = ''withdraw is disabled''"
| "error_text (WithdrawBalanceMinimumError b m) = WithdrawBalanceMinimumError_Error b m"
| "error_text (AddressMismatchError p w g) = AddressMismatchError_Error p w g"
| "error_text ErrBadSignature = ''bad signature''"
| "error_text (ErrResponse c m) = m"
| "error_text (ContextMissingValueError k) = ''context missing value: '' @ k"
| "error_text ErrNoPublicMethods = ''no public methods''"
| "error_text (InvalidParamsError m) = m"
| "error_text (HTTPRequestError r) = ''http rpc request error: '' @ r"
| "error_text (CompatibilityError e x) = error_text e"
| "error_text ErrKeyNotFound = ''Key not found''"
| "error_text (MigrationError a b p e) = MigrationError_Error a b p (error_text e)"
| "error_text (AgentPoolError e m) = AgentPoolError_Error (error_text e) m"
| "error_text ErrAlreadyStarted = ''agent already started''"
| "error_text ErrNoPeers = ''no peers available''"
| "error_text (ErrNew s) = s"
| "error_text (ErrExternal s) = s"
| "error_text (GoPanic s) = s"

section \<open>Error codes\<close>

text \<open>The errors that have an \<^verbatim>\<open>ErrorCode\<close> method.\<close>
fun error_code :: "go_error \<Rightarrow> int option" where
  "error_code (ErrResponse c m) = Some c"
| "error_code (InvalidParamsError m) = Some (- 32602)"
| "error_code _ = None"

definition IsErrorCode :: "go_error \<Rightarrow> int list \<Rightarrow> bool" where
  "IsErrorCode err allowedCodes =
     (case error_code err of
        None \<Rightarrow> False
      | Some gotCode \<Rightarrow> (if length allowedCodes = 0 then True else gotCode \<in> set allowedCodes))"

end
