(* ===== verification/Ethnode_Rpc.thy ===== *)
theory Ethnode_Rpc
  imports Json_Decode Error_Messages
begin

text \<open>
  Running Ethereum nodes behind their RPC API: the interface \<^verbatim>\<open>ethnode.EthNode\<close>, its implementations for Geth, Parity
  and Pantheon, the detection of the kind of a node, and the fake node of \<^verbatim>\<open>internal/fakenode\<close>. The RPC client of
  go-ethereum is a parameter: a call takes a method and arguments and gives the JSON result or an
  error, and may change the world \<open>'w\<close>.
\<close>

section \<open>The interface\<close>

record 'w EthNode =
  Kind :: "'w \<Rightarrow> NodeKind"
  Node_UserAgent :: "'w \<Rightarrow> UserAgent"
  Enode :: "'w \<Rightarrow> string result \<times> 'w"
  AddTrustedPeer :: "string \<Rightarrow> 'w \<Rightarrow> unit result \<times> 'w"
  RemoveTrustedPeer :: "string \<Rightarrow> 'w \<Rightarrow> unit result \<times> 'w"
  ConnectPeer :: "string \<Rightarrow> 'w \<Rightarrow> unit result \<times> 'w"
  DisconnectPeer :: "string \<Rightarrow> 'w \<Rightarrow> unit result \<times> 'w"
  Peers :: "'w \<Rightarrow> PeerInfo list result \<times> 'w"
  BlockNumber :: "'w \<Rightarrow> uint64 result \<times> 'w"

section \<open>Calls\<close>

type_synonym 'w rpc_client = "string \<Rightarrow> json list \<Rightarrow> 'w \<Rightarrow> json result \<times> 'w"

definition CallContext :: "'w rpc_client \<Rightarrow> 'r decoder \<Rightarrow> 'r \<Rightarrow> string \<Rightarrow> json list \<Rightarrow> 'w \<Rightarrow> 'r result \<times> 'w" where
  "CallContext client decode result method args w =
     (case client method args w of
        (Inl e, w1) \<Rightarrow> (Inl e, w1)
      | (Inr j, w1) \<Rightarrow> (decode j result, w1))"

text \<open>A result of type \<^verbatim>\<open>interface{}\<close> takes every value.\<close>
definition un_any :: "unit decoder" where
  "un_any j u = Inr ()"

definition un_ok :: "unit decoder" where
  "un_ok j u = map_sum id (\<lambda>_. ()) (un_bool j False)"

text \<open>\<^verbatim>\<open>strconv.ParseUint(s, 0, 64)\<close>.\<close>
definition ParseUint0 :: "string \<Rightarrow> uint64 result" where
  "ParseUint0 s =
     (case unsigned_base0 s of
        None \<Rightarrow> Inl (ErrNew ''strconv.ParseUint: invalid syntax'')
      | Some n \<Rightarrow> (if n < 2 ^ 64 then Inr (of_nat n) else Inl (ErrNew ''strconv.ParseUint: value out of range'')))"

definition base_BlockNumber :: "'w rpc_client \<Rightarrow> 'w \<Rightarrow> uint64 result \<times> 'w" where
  "base_BlockNumber client w =
     (case CallContext client un_string '''' ''eth_blockNumber'' [] w of
        (Inl e, w1) \<Rightarrow> (Inl e, w1)
      | (Inr result, w1) \<Rightarrow> (ParseUint0 result, w1))"

definition list_of :: "'a list option \<Rightarrow> 'a list" where
  "list_of xs = (case xs of None \<Rightarrow> [] | Some ys \<Rightarrow> ys)"

text \<open>\<^verbatim>\<open>admin_peers\<close>, which Geth and Pantheon share.\<close>
definition admin_peers :: "'w rpc_client \<Rightarrow> 'w \<Rightarrow> PeerInfo list result \<times> 'w" where
  "admin_peers client w =
     (case CallContext client (un_slice un_PeerInfo zero_PeerInfo) None ''admin_peers'' [] w of
        (Inl e, w1) \<Rightarrow> (Inl e, w1)
      | (Inr peers, w1) \<Rightarrow> (Inr (list_of peers), w1))"

section \<open>Geth\<close>

definition geth_ConnectPeer :: "'w rpc_client \<Rightarrow> string \<Rightarrow> 'w \<Rightarrow> unit result \<times> 'w" where
  "geth_ConnectPeer client nodeURI = CallContext client un_any () ''admin_addPeer'' [JStr (encodeNodeID nodeURI)]"

definition geth_DisconnectPeer :: "'w rpc_client \<Rightarrow> string \<Rightarrow> 'w \<Rightarrow> unit result \<times> 'w" where
  "geth_DisconnectPeer client nodeID = CallContext client un_any () ''admin_removePeer'' [JStr (encodeNodeID nodeID)]"

definition geth_AddTrustedPeer :: "'w rpc_client \<Rightarrow> string \<Rightarrow> 'w \<Rightarrow> unit result \<times> 'w" where
  "geth_AddTrustedPeer client nodeID = CallContext client un_any () ''admin_addTrustedPeer'' [JStr (encodeNodeID nodeID)]"

definition geth_RemoveTrustedPeer :: "'w rpc_client \<Rightarrow> string \<Rightarrow> 'w \<Rightarrow> unit result \<times> 'w" where
  "geth_RemoveTrustedPeer client nodeID = CallContext client un_any () ''admin_removeTrustedPeer'' [JStr (encodeNodeID nodeID)]"

definition geth_Peers :: "'w rpc_client \<Rightarrow> 'w \<Rightarrow> PeerInfo list result \<times> 'w" where
  "geth_Peers = admin_peers"

text \<open>The result is a struct with the one field \<^verbatim>\<open>enode\<close>.\<close>
definition geth_Enode :: "'w rpc_client \<Rightarrow> 'w \<Rightarrow> string result \<times> 'w" where
  "geth_Enode client =
     CallContext client (un_struct [fld ''enode'' (\<lambda>s. s) (\<lambda>f. f) un_string]) '''' ''admin_nodeInfo'' []"

definition gethNode :: "'w rpc_client \<Rightarrow> UserAgent \<Rightarrow> 'w EthNode" where
  "gethNode client agent =
     \<lparr>Kind = (\<lambda>_. Geth), Node_UserAgent = (\<lambda>_. agent), Enode = geth_Enode client,
      AddTrustedPeer = geth_AddTrustedPeer client, RemoveTrustedPeer = geth_RemoveTrustedPeer client,
      ConnectPeer = geth_ConnectPeer client, DisconnectPeer = geth_DisconnectPeer client,
      Peers = geth_Peers client, BlockNumber = base_BlockNumber client\<rparr>"

section \<open>Pantheon\<close>

text \<open>Pantheon cannot add a peer without trusting it, nor drop one: both go to the same calls.\<close>
definition pantheon_AddTrustedPeer :: "'w rpc_client \<Rightarrow> string \<Rightarrow> 'w \<Rightarrow> unit result \<times> 'w" where
  "pantheon_AddTrustedPeer client nodeID = CallContext client un_ok () ''admin_addPeer'' [JStr nodeID]"

definition pantheon_RemoveTrustedPeer :: "'w rpc_client \<Rightarrow> string \<Rightarrow> 'w \<Rightarrow> unit result \<times> 'w" where
  "pantheon_RemoveTrustedPeer client nodeID = CallContext client un_ok () ''admin_removePeer'' [JStr nodeID]"

definition pantheon_ConnectPeer :: "'w rpc_client \<Rightarrow> string \<Rightarrow> 'w \<Rightarrow> unit result \<times> 'w" where
  "pantheon_ConnectPeer client nodeURI = pantheon_AddTrustedPeer client nodeURI"

definition pantheon_DisconnectPeer :: "'w rpc_client \<Rightarrow> string \<Rightarrow> 'w \<Rightarrow> unit result \<times> 'w" where
  "pantheon_DisconnectPeer client nodeID = pantheon_RemoveTrustedPeer client nodeID"

definition pantheon_Peers :: "'w rpc_client \<Rightarrow> 'w \<Rightarrow> PeerInfo list result \<times> 'w" where
  "pantheon_Peers = admin_peers"

definition pantheon_Enode :: "'w rpc_client \<Rightarrow> 'w \<Rightarrow> string result \<times> 'w" where
  "pantheon_Enode client = CallContext client un_string '''' ''net_enode'' []"

definition pantheonNode :: "'w rpc_client \<Rightarrow> UserAgent \<Rightarrow> 'w EthNode" where
  "pantheonNode client agent =
     \<lparr>Kind = (\<lambda>_. Pantheon), Node_UserAgent = (\<lambda>_. agent), Enode = pantheon_Enode client,
      AddTrustedPeer = pantheon_AddTrustedPeer client, RemoveTrustedPeer = pantheon_RemoveTrustedPeer client,
      ConnectPeer = pantheon_ConnectPeer client, DisconnectPeer = pantheon_DisconnectPeer client,
      Peers = pantheon_Peers client, BlockNumber = base_BlockNumber client\<rparr>"

section \<open>Parity\<close>

record parityClient =
  pc_CanHandleLargeRequests :: bool
  pc_Compiler :: string
  pc_Identity :: string
  pc_Name :: string
  pc_OS :: string
  pc_Semver :: string

definition zero_parityClient :: parityClient where
  "zero_parityClient = \<lparr>pc_CanHandleLargeRequests = False, pc_Compiler = '''', pc_Identity = '''', pc_Name = '''',
     pc_OS = '''', pc_Semver = ''''\<rparr>"

definition un_parityClient :: "parityClient decoder" where
  "un_parityClient = un_struct
     [fld ''can_handle_large_requests'' pc_CanHandleLargeRequests pc_CanHandleLargeRequests_update un_bool,
      fld ''compiler'' pc_Compiler pc_Compiler_update un_string, fld ''identity'' pc_Identity pc_Identity_update un_string,
      fld ''name'' pc_Name pc_Name_update un_string, fld ''os'' pc_OS pc_OS_update un_string,
      fld ''semver'' pc_Semver pc_Semver_update un_string]"

definition parityClient_String :: "parityClient \<Rightarrow> string" where
  "parityClient_String c = ''Parity/'' @ pc_Semver c @ ''/'' @ pc_OS c @ ''/'' @ pc_Compiler c"

text \<open>A peer whose name is kept raw; \<open>None\<close> is the empty raw message of a missing name.\<close>
record parityPeerInfo =
  pp_ID :: string
  pp_Name :: "json option"
  pp_Caps :: "string list option"
  pp_Protocols :: "(string, json) fmap option"
  pp_LocalAddress :: string
  pp_RemoteAddress :: string

definition zero_parityPeerInfo :: parityPeerInfo where
  "zero_parityPeerInfo = \<lparr>pp_ID = '''', pp_Name = None, pp_Caps = None, pp_Protocols = None, pp_LocalAddress = '''',
     pp_RemoteAddress = ''''\<rparr>"

definition un_parityPeerInfo :: "parityPeerInfo decoder" where
  "un_parityPeerInfo = un_struct
     [fld ''id'' pp_ID pp_ID_update un_string, fld ''name'' pp_Name pp_Name_update (\<lambda>j r. Inr (Some j)),
      fld ''caps'' pp_Caps pp_Caps_update (un_slice un_string ''''),
      fld ''protocols'' pp_Protocols pp_Protocols_update (un_map un_raw JNull),
      (''network'', un_struct [fld ''localAddress'' pp_LocalAddress pp_LocalAddress_update un_string,
         fld ''remoteAddress'' pp_RemoteAddress pp_RemoteAddress_update un_string])]"

definition parity_PeerInfo :: "parityPeerInfo \<Rightarrow> PeerInfo result" where
  "parity_PeerInfo p =
     (let r = \<lparr>pi_ID = pp_ID p, pi_Name = '''', pi_Caps = pp_Caps p, pi_Protocols = pp_Protocols p, pi_Enode = '''',
                pi_LocalAddress = pp_LocalAddress p, pi_RemoteAddress = pp_RemoteAddress p\<rparr>
      in case pp_Name p of
           None \<Rightarrow> Inl (ErrNew ''unexpected end of JSON input'')
         | Some (JStr s) \<Rightarrow> Inr (r\<lparr>pi_Name := s\<rparr>)
         | Some j \<Rightarrow>
             (case un_struct [fld ''ParityClient'' (\<lambda>c. c) (\<lambda>f. f) un_parityClient] j zero_parityClient of
                Inl e \<Rightarrow> Inl e
              | Inr name \<Rightarrow> Inr (r\<lparr>pi_Name := parityClient_String name\<rparr>)))"

text \<open>Peers without protocols have not completed the handshake.\<close>
definition no_protocols :: "parityPeerInfo \<Rightarrow> bool" where
  "no_protocols p \<longleftrightarrow> (case pp_Protocols p of None \<Rightarrow> True | Some m \<Rightarrow> fmdom m = {||})"

fun filterActivePeers :: "parityPeerInfo list \<Rightarrow> PeerInfo list result" where
  "filterActivePeers [] = Inr []"
| "filterActivePeers (peer # peers) =
     (if no_protocols peer then filterActivePeers peers
      else case parity_PeerInfo peer of
             Inl e \<Rightarrow> Inl e
           | Inr peerInfo \<Rightarrow>
               (case filterActivePeers peers of Inl e \<Rightarrow> Inl e | Inr activePeers \<Rightarrow> Inr (peerInfo # activePeers)))"

definition parity_AddTrustedPeer :: "'w rpc_client \<Rightarrow> string \<Rightarrow> 'w \<Rightarrow> unit result \<times> 'w" where
  "parity_AddTrustedPeer client nodeID = CallContext client un_any () ''parity_addReservedPeer'' [JStr (parityNodeID nodeID)]"

definition parity_RemoveTrustedPeer :: "'w rpc_client \<Rightarrow> string \<Rightarrow> 'w \<Rightarrow> unit result \<times> 'w" where
  "parity_RemoveTrustedPeer client nodeID = CallContext client un_any () ''parity_removeReservedPeer'' [JStr (parityNodeID nodeID)]"

definition parity_ConnectPeer :: "'w rpc_client \<Rightarrow> string \<Rightarrow> 'w \<Rightarrow> unit result \<times> 'w" where
  "parity_ConnectPeer client nodeURI = parity_AddTrustedPeer client (parityNodeID nodeURI)"

definition parity_DisconnectPeer :: "'w rpc_client \<Rightarrow> string \<Rightarrow> 'w \<Rightarrow> unit result \<times> 'w" where
  "parity_DisconnectPeer client nodeID = parity_RemoveTrustedPeer client (parityNodeID nodeID)"

definition parity_Peers :: "'w rpc_client \<Rightarrow> 'w \<Rightarrow> PeerInfo list result \<times> 'w" where
  "parity_Peers client w =
     (case CallContext client (un_struct [fld ''peers'' (\<lambda>ps. ps) (\<lambda>f. f) (un_slice un_parityPeerInfo zero_parityPeerInfo)])
             None ''parity_netPeers'' [] w of
        (Inl e, w1) \<Rightarrow> (Inl e, w1)
      | (Inr peers, w1) \<Rightarrow> (filterActivePeers (list_of peers), w1))"

definition parity_Enode :: "'w rpc_client \<Rightarrow> 'w \<Rightarrow> string result \<times> 'w" where
  "parity_Enode client = CallContext client un_string '''' ''parity_enode'' []"

definition parityNode :: "'w rpc_client \<Rightarrow> UserAgent \<Rightarrow> 'w EthNode" where
  "parityNode client agent =
     \<lparr>Kind = (\<lambda>_. Parity), Node_UserAgent = (\<lambda>_. agent), Enode = parity_Enode client,
      AddTrustedPeer = parity_AddTrustedPeer client, RemoveTrustedPeer = parity_RemoveTrustedPeer client,
      ConnectPeer = parity_ConnectPeer client, DisconnectPeer = parity_DisconnectPeer client,
      Peers = parity_Peers client, BlockNumber = base_BlockNumber client\<rparr>"

definition errCodeMethodNotFound :: int where
  "errCodeMethodNotFound = - 32601"

definition parityWrapModuleError :: "go_error \<Rightarrow> string \<Rightarrow> string \<Rightarrow> go_error" where
  "parityWrapModuleError err method module =
     (if error_code err = Some errCodeMethodNotFound
      then CompatibilityError err (''Parity RPC method '' @ go_quote method @ '' is not available, add '' @ go_quote module @
             '' to allowed RPC modules. For example, run parity with the flag --ipc-apis='' @ [quote_char] @
             ''safe,parity_set'' @ [quote_char])
      else err)"

definition CheckCompatible :: "'w rpc_client \<Rightarrow> 'w \<Rightarrow> unit result \<times> 'w" where
  "CheckCompatible client w =
     (case CallContext client un_any () ''parity_enode'' [] w of
        (Inl err, w1) \<Rightarrow> (Inl (parityWrapModuleError err ''parity_enode'' ''parity''), w1)
      | (Inr _, w1) \<Rightarrow>
          (case CallContext client un_any () ''parity_addReservedPeer'' [JStr ''''] w1 of
             (Inr _, w2) \<Rightarrow> (Inr (), w2)
           | (Inl err, w2) \<Rightarrow>
               (if is_panic err then (Inl err, w2)
                else
                  (case parityWrapModuleError err ''parity_addReservedPeer'' ''parity_set'' of
                     CompatibilityError e x \<Rightarrow> (Inl (CompatibilityError e x), w2)
                   | _ \<Rightarrow> (Inr (), w2)))))"

section \<open>Detection\<close>

definition DetectClient :: "'w rpc_client \<Rightarrow> 'w \<Rightarrow> UserAgent result \<times> 'w" where
  "DetectClient client w =
     (case CallContext client un_string '''' ''web3_clientVersion'' [] w of
        (Inl e, w1) \<Rightarrow> (Inl e, w1)
      | (Inr clientVersion, w1) \<Rightarrow>
          (case CallContext client un_string '''' ''eth_protocolVersion'' [] w1 of
             (Inl e, w2) \<Rightarrow> (Inl e, w2)
           | (Inr protocolVersion, w2) \<Rightarrow>
               (case CallContext client un_string '''' ''net_version'' [] w2 of
                  (Inl e, w3) \<Rightarrow> (Inl e, w3)
                | (Inr netVersion, w3) \<Rightarrow> (ParseUserAgent clientVersion protocolVersion netVersion, w3))))"

text \<open>Of the implementations only Parity's checks its compatibility.\<close>
definition RemoteNode :: "'w rpc_client \<Rightarrow> 'w \<Rightarrow> 'w EthNode result \<times> 'w" where
  "RemoteNode client w =
     (case DetectClient client w of
        (Inl e, w1) \<Rightarrow> (Inl e, w1)
      | (Inr agent, w1) \<Rightarrow>
          (if ua_Kind agent = Parity
           then (case CheckCompatible client w1 of
                   (Inl e, w2) \<Rightarrow> (Inl e, w2)
                 | (Inr _, w2) \<Rightarrow> (Inr (parityNode client agent), w2))
           else if ua_Kind agent = Pantheon then (Inr (pantheonNode client agent), w1)
           else (Inr (gethNode client agent), w1)))"

definition Dial :: "(string \<Rightarrow> 'w rpc_client result) \<Rightarrow> string \<Rightarrow> 'w \<Rightarrow> 'w EthNode result \<times> 'w" where
  "Dial dialContext uri w = (case dialContext uri of Inl e \<Rightarrow> (Inl e, w) | Inr client \<Rightarrow> RemoteNode client w)"

section \<open>Node identifiers and peers\<close>

lemma parityNodeID_idem [simp]: "parityNodeID (parityNodeID i) = parityNodeID i"
  by (simp add: parityNodeID_def HasPrefix_def)

lemma encodeNodeID_idem [simp]: "encodeNodeID (encodeNodeID i) = encodeNodeID i"
  by (simp add: encodeNodeID_def HasPrefix_def)

text \<open>The active peers are those with protocols, in their order, each converted.\<close>
lemma filterActivePeers_spec:
  "filterActivePeers ps = Inr qs \<Longrightarrow> map parity_PeerInfo (filter (\<lambda>p. \<not> no_protocols p) ps) = map Inr qs"
  by (induction ps arbitrary: qs) (auto split: sum.splits if_splits)

lemma filterActivePeers_full: "filterActivePeers ps = Inr qs \<Longrightarrow> q \<in> set qs \<Longrightarrow> \<exists>m. pi_Protocols q = Some m \<and> fmdom m \<noteq> {||}"
proof -
  assume "filterActivePeers ps = Inr qs" and "q \<in> set qs"
  then have "Inr q \<in> set (map parity_PeerInfo (filter (\<lambda>p. \<not> no_protocols p) ps))"
    by (simp add: filterActivePeers_spec del: set_map) simp
  then obtain p where "parity_PeerInfo p = Inr q" and "\<not> no_protocols p" by auto
  moreover have "pi_Protocols q = pp_Protocols p"
    using \<open>parity_PeerInfo p = Inr q\<close> by (auto simp: parity_PeerInfo_def Let_def split: option.splits json.splits sum.splits)
  ultimately show ?thesis by (auto simp: no_protocols_def split: option.splits)
qed

text \<open>A Parity node without the modules the agent needs is refused with an explanation.\<close>
lemma missing_module_refused:
  assumes "DetectClient client w = (Inr agent, w1)" and "ua_Kind agent = Parity"
    and "client ''parity_enode'' [] w1 = (Inl (ErrResponse errCodeMethodNotFound msg), w2)"
  shows "\<exists>x. RemoteNode client w = (Inl (CompatibilityError (ErrResponse errCodeMethodNotFound msg) x), w2)"
  using assms by (simp add: RemoteNode_def CheckCompatible_def CallContext_def parityWrapModuleError_def)

section \<open>Properties\<close>

text \<open>
  The node that was detected speaks the RPC dialect of its kind. Whatever client version string was reported, the
  node returned carries the detected user agent, and each of its peer operations is one call of the API of that
  kind with the node ID in the form it expects: Parity (only after its modules were found to be enabled) and Pantheon
  overload their trusted peers for connecting and disconnecting, everything else is taken for Geth.
\<close>
theorem RemoteNode_speaks_dialect:
  assumes "RemoteNode client w = (Inr N, w')"
  shows "\<exists>agent w1. DetectClient client w = (Inr agent, w1) \<and> (\<forall>v. Node_UserAgent N v = agent) \<and>
    (if ua_Kind agent = Parity
     then CheckCompatible client w1 = (Inr (), w') \<and>
       (\<forall>i. ConnectPeer N i = AddTrustedPeer N i \<and> DisconnectPeer N i = RemoveTrustedPeer N i \<and>
          AddTrustedPeer N i = CallContext client un_any () ''parity_addReservedPeer'' [JStr (parityNodeID i)] \<and>
          RemoveTrustedPeer N i = CallContext client un_any () ''parity_removeReservedPeer'' [JStr (parityNodeID i)])
     else if ua_Kind agent = Pantheon
     then w' = w1 \<and>
       (\<forall>i. ConnectPeer N i = AddTrustedPeer N i \<and> DisconnectPeer N i = RemoveTrustedPeer N i \<and>
          AddTrustedPeer N i = CallContext client un_ok () ''admin_addPeer'' [JStr i] \<and>
          RemoveTrustedPeer N i = CallContext client un_ok () ''admin_removePeer'' [JStr i])
     else w' = w1 \<and>
       (\<forall>i. ConnectPeer N i = CallContext client un_any () ''admin_addPeer'' [JStr (encodeNodeID i)] \<and>
          DisconnectPeer N i = CallContext client un_any () ''admin_removePeer'' [JStr (encodeNodeID i)] \<and>
          AddTrustedPeer N i = CallContext client un_any () ''admin_addTrustedPeer'' [JStr (encodeNodeID i)] \<and>
          RemoveTrustedPeer N i = CallContext client un_any () ''admin_removeTrustedPeer'' [JStr (encodeNodeID i)]))"
proof -
  obtain agent w1 where detected: "DetectClient client w = (Inr agent, w1)"
    using assms by (auto simp: RemoteNode_def split: prod.splits sum.splits)
  note node_defs = parityNode_def pantheonNode_def gethNode_def parity_ConnectPeer_def parity_DisconnectPeer_def
    parity_AddTrustedPeer_def parity_RemoveTrustedPeer_def pantheon_ConnectPeer_def pantheon_DisconnectPeer_def
    pantheon_AddTrustedPeer_def pantheon_RemoveTrustedPeer_def geth_ConnectPeer_def geth_DisconnectPeer_def
    geth_AddTrustedPeer_def geth_RemoveTrustedPeer_def
  show ?thesis
  proof (cases "ua_Kind agent = Parity")
    case True
    then obtain u where "CheckCompatible client w1 = (Inr u, w')" and "N = parityNode client agent"
      using assms detected by (auto simp: RemoteNode_def split: prod.splits sum.splits)
    then show ?thesis using True detected by (simp add: node_defs)
  next
    case False
    then have "w' = w1" and "N = (if ua_Kind agent = Pantheon then pantheonNode client agent else gethNode client agent)"
      using assms detected by (auto simp: RemoteNode_def split: if_splits)
    then show ?thesis using False detected by (simp add: node_defs)
  qed
qed

definition demo_rpc :: "unit rpc_client" where
  "demo_rpc method args w =
     (if method = ''web3_clientVersion'' then Inr (JStr ''Parity-Ethereum/v2.3.2'')
      else if method = ''eth_protocolVersion'' then Inr (JStr ''63'')
      else if method = ''net_version'' then Inr (JStr ''1'')
      else Inr (JBool True), w)"

theorem RemoteNode_speaks_dialect_witness:
  "\<exists>N. RemoteNode demo_rpc () = (Inr N, ()) \<and>
     AddTrustedPeer N ''abc'' = CallContext demo_rpc un_any () ''parity_addReservedPeer'' [JStr ''enode://abc@[::]:30303'']"
proof -
  have "fst (DetectClient demo_rpc ()) = Inr \<lparr>ua_Version = ''Parity-Ethereum/v2.3.2'', ua_EthProtocol = ''63'', ua_Kind = Parity,
      ua_Network = 1, ua_IsFullNode = True\<rparr>"
    by code_simp
  then have d: "DetectClient demo_rpc () = (Inr \<lparr>ua_Version = ''Parity-Ethereum/v2.3.2'', ua_EthProtocol = ''63'', ua_Kind = Parity,
      ua_Network = 1, ua_IsFullNode = True\<rparr>, ())"
    by (metis prod.collapse old.unit.exhaust)
  have "CheckCompatible demo_rpc () = (Inr (), ())"
    by (simp add: CheckCompatible_def CallContext_def demo_rpc_def un_any_def)
  with d obtain N where N: "RemoteNode demo_rpc () = (Inr N, ())" by (simp add: RemoteNode_def)
  have "parityNodeID ''abc'' = ''enode://abc@[::]:30303''" by code_simp
  with RemoteNode_speaks_dialect [OF N] d show ?thesis by (intro exI [of _ N]) (simp add: N)
qed

end
