(* ===== verification/Fake_Node.thy ===== *)
theory Fake_Node
  imports Ethnode_Rpc
begin

text \<open>
  The Ethereum node that \<^verbatim>\<open>fakenode://\<close> stands for (\<^verbatim>\<open>internal/fakenode\<close>): it keeps its peers in memory and records
  the calls it gets. It is the instance of the node interface whose every operation the repository holds.
\<close>

type_synonym call = "string \<times> string"

record FakeNode =
  fn_NodeKind :: NodeKind
  fn_NodeID :: string
  fn_Calls :: "call list"
  fn_FakePeers :: "PeerInfo list"
  fn_FakeBlockNumber :: uint64
  fn_IsFullNode :: bool

definition Calls_Has :: "call list \<Rightarrow> string \<Rightarrow> string \<Rightarrow> bool" where
  "Calls_Has calls method arg \<longleftrightarrow> (method, arg) \<in> set calls"

definition fake_Node :: "string \<Rightarrow> FakeNode" where
  "fake_Node nodeID = \<lparr>fn_NodeKind = Geth, fn_NodeID = nodeID, fn_Calls = [], fn_FakePeers = [], fn_FakeBlockNumber = 0,
     fn_IsFullNode = True\<rparr>"

definition fake_UserAgent :: "FakeNode \<Rightarrow> UserAgent" where
  "fake_UserAgent n = \<lparr>ua_Version = ''Geth/Fakenode/Go-tests'', ua_EthProtocol = '''', ua_Kind = fn_NodeKind n,
     ua_Network = 1, ua_IsFullNode = fn_IsFullNode n\<rparr>"

definition record_call :: "string \<Rightarrow> string \<Rightarrow> FakeNode \<Rightarrow> FakeNode" where
  "record_call method arg n = n\<lparr>fn_Calls := fn_Calls n @ [(method, arg)]\<rparr>"

definition fake_Enode :: "FakeNode \<Rightarrow> string result \<times> FakeNode" where
  "fake_Enode n = (Inr (fn_NodeID n), n)"

definition fake_AddTrustedPeer :: "string \<Rightarrow> FakeNode \<Rightarrow> unit result \<times> FakeNode" where
  "fake_AddTrustedPeer nodeID n = (Inr (), record_call ''AddTrustedPeer'' nodeID n)"

definition fake_RemoveTrustedPeer :: "string \<Rightarrow> FakeNode \<Rightarrow> unit result \<times> FakeNode" where
  "fake_RemoveTrustedPeer nodeID n = (Inr (), record_call ''RemoveTrustedPeer'' nodeID n)"

definition fake_peer :: "url \<Rightarrow> PeerInfo" where
  "fake_peer uri = zero_PeerInfo\<lparr>pi_ID := NodeURI_ID uri,
     pi_Caps := Some [''fake/1'', ''eth/62'', ''eth/63'', ''les/2''],
     pi_Protocols := Some (fmupd ''fake'' (JObj []) fmempty), pi_RemoteAddress := RemoteAddress uri\<rparr>"

definition fake_ConnectPeer :: "string \<Rightarrow> FakeNode \<Rightarrow> unit result \<times> FakeNode" where
  "fake_ConnectPeer nodeURI n0 =
     (let n = record_call ''ConnectPeer'' nodeURI n0
      in case ParseNodeURI nodeURI of
           Inl e \<Rightarrow> (Inl e, n)
         | Inr uri \<Rightarrow>
             (if \<exists>p\<in>set (fn_FakePeers n). pi_ID p = NodeURI_ID uri then (Inr (), n)
              else (Inr (), n\<lparr>fn_FakePeers := fn_FakePeers n @ [fake_peer uri]\<rparr>)))"

text \<open>
  The loop of \<^verbatim>\<open>DisconnectPeer\<close> ranges over the slice as it was while it removes from it in place: \<open>arr\<close> is the shared
  array, \<open>len\<close> the current length of the slice, \<open>i\<close> the index and \<open>k\<close> the number of iterations left. Removing
  at an index beyond the current length panics.
\<close>
fun disconnect_loop :: "string \<Rightarrow> nat \<Rightarrow> nat \<Rightarrow> PeerInfo list \<Rightarrow> nat \<Rightarrow> (PeerInfo list \<times> nat) result" where
  "disconnect_loop nodeID 0 i arr len = Inr (arr, len)"
| "disconnect_loop nodeID (Suc k) i arr len =
     (if EnodeID (arr ! i) = nodeID
      then (if len < i + 1 then Inl (GoPanic ''slice bounds out of range'')
            else disconnect_loop nodeID k (i + 1)
                   (take i arr @ take (len - (i + 1)) (drop (i + 1) arr) @ drop (len - 1) arr) (len - 1))
      else disconnect_loop nodeID k (i + 1) arr len)"

definition fake_DisconnectPeer :: "string \<Rightarrow> FakeNode \<Rightarrow> unit result \<times> FakeNode" where
  "fake_DisconnectPeer nodeID n0 =
     (let n = record_call ''DisconnectPeer'' nodeID n0; ps = fn_FakePeers n
      in case disconnect_loop nodeID (length ps) 0 ps (length ps) of
           Inl e \<Rightarrow> (Inl e, n)
         | Inr (arr, len) \<Rightarrow> (Inr (), n\<lparr>fn_FakePeers := take len arr\<rparr>))"

text \<open>Sorts the node's own slice (the order of equal IDs, which Go leaves open, is kept).\<close>
definition fake_Peers :: "FakeNode \<Rightarrow> PeerInfo list result \<times> FakeNode" where
  "fake_Peers n = (let r = sort_key pi_ID (fn_FakePeers n) in (Inr r, n\<lparr>fn_FakePeers := r\<rparr>))"

definition fake_BlockNumber :: "FakeNode \<Rightarrow> uint64 result \<times> FakeNode" where
  "fake_BlockNumber n = (Inr (fn_FakeBlockNumber n), n)"

definition fake_EthNode :: "FakeNode EthNode" where
  "fake_EthNode =
     \<lparr>Kind = fn_NodeKind, Node_UserAgent = fake_UserAgent, Enode = fake_Enode,
      AddTrustedPeer = fake_AddTrustedPeer, RemoveTrustedPeer = fake_RemoveTrustedPeer,
      ConnectPeer = fake_ConnectPeer, DisconnectPeer = fake_DisconnectPeer,
      Peers = fake_Peers, BlockNumber = fake_BlockNumber\<rparr>"

text \<open>\<^verbatim>\<open>%0128x\<close> of a number that is not negative.\<close>
fun hex_digits :: "nat \<Rightarrow> string" where
  "hex_digits n = (if n < 16 then [hex_lower n] else hex_digits (n div 16) @ [hex_lower (n mod 16)])"

declare hex_digits.simps [simp del]

definition FakePeers :: "int \<Rightarrow> PeerInfo list result" where
  "FakePeers num =
     (if num < 0 then Inl (GoPanic ''makeslice: cap out of range'')
      else Inr (map (\<lambda>i. zero_PeerInfo\<lparr>
             pi_ID := replicate (128 - length (hex_digits i)) (CHR ''0'') @ hex_digits i,
             pi_RemoteAddress := ''192.0.2.'' @ nat_digits i @ '':30303''\<rparr>) [0..<nat num]))"

section \<open>Disconnecting\<close>

text \<open>When no two peers have the same ID the loop removes the one with the ID, and never panics.\<close>

lemma disconnect_loop_absent:
  assumes "\<forall>j<k. EnodeID (arr ! (i + j)) \<noteq> nodeID"
  shows "disconnect_loop nodeID k i arr len = Inr (arr, len)"
  using assms
proof (induction k arbitrary: i)
  case (Suc k)
  have "EnodeID (arr ! i) \<noteq> nodeID" using Suc.prems [rule_format, of 0] by simp
  moreover have "\<forall>j<k. EnodeID (arr ! (i + 1 + j)) \<noteq> nodeID"
    using Suc.prems [rule_format, of "Suc j" for j] by simp
  ultimately show ?case using Suc.IH by simp
qed simp

lemma disconnect_loop_present:
  assumes "arr = xs @ p # ys" and "EnodeID p = nodeID"
    and "\<forall>q\<in>set xs. EnodeID q \<noteq> nodeID" and "\<forall>q\<in>set ys. EnodeID q \<noteq> nodeID" and "i \<le> length xs"
  shows "\<exists>arr'. disconnect_loop nodeID (length arr - i) i arr (length arr) = Inr (arr', length arr - 1) \<and>
    take (length arr - 1) arr' = xs @ ys"
  using assms(5)
proof (induction "length xs - i" arbitrary: i)
  case 0
  then have i: "i = length xs" by simp
  let ?arr' = "take i arr @ take (length arr - (i + 1)) (drop (i + 1) arr) @ drop (length arr - 1) arr"
  have arr': "?arr' = xs @ ys @ drop (length arr - 1) arr" by (simp add: assms(1) i)
  have last: "set (drop (length arr - 1) arr) \<subseteq> (if ys = [] then {p} else set ys)"
    using assms(1) by (cases ys rule: rev_cases) auto
  have "\<forall>j<length ys. EnodeID (?arr' ! (i + 1 + j)) \<noteq> nodeID"
  proof (intro allI impI)
    fix j assume j: "j < length ys"
    have "?arr' ! (i + 1 + j) = (ys @ drop (length arr - 1) arr) ! Suc j"
      unfolding arr' using nth_append_length_plus [of xs _ "Suc j"] i by simp
    also have "\<dots> \<in> set (ys @ drop (length arr - 1) arr)" using j assms(1) by (intro nth_mem) simp
    finally show "EnodeID (?arr' ! (i + 1 + j)) \<noteq> nodeID" using last assms(4) j by (auto split: if_splits)
  qed
  from disconnect_loop_absent [OF this]
  have "disconnect_loop nodeID (length ys) (i + 1) ?arr' (length arr - 1) = Inr (?arr', length arr - 1)" .
  moreover have "length arr - i = Suc (length ys)" using assms(1) i by simp
  moreover have "EnodeID (arr ! i) = nodeID" using assms(1,2) i by simp
  ultimately have "disconnect_loop nodeID (length arr - i) i arr (length arr) = Inr (?arr', length arr - 1)"
    using assms(1) i by simp
  moreover have "take (length arr - 1) ?arr' = xs @ ys" unfolding arr' by (simp add: assms(1))
  ultimately show ?case by blast
next
  case (Suc k)
  then have "i < length xs" by simp
  then have "EnodeID (arr ! i) \<noteq> nodeID" using assms(1,3) by (simp add: nth_append)
  moreover have "length arr - i = Suc (length arr - (i + 1))" using \<open>i < length xs\<close> assms(1) by simp
  ultimately show ?case using Suc.hyps(1) [of "i + 1"] Suc.hyps(2) \<open>i < length xs\<close> by simp
qed

lemma fake_DisconnectPeer_removes:
  assumes "distinct (map EnodeID (fn_FakePeers n))"
  shows "fake_DisconnectPeer nodeID n =
    (Inr (), (record_call ''DisconnectPeer'' nodeID n)\<lparr>fn_FakePeers := filter (\<lambda>p. EnodeID p \<noteq> nodeID) (fn_FakePeers n)\<rparr>)"
proof -
  let ?ps = "fn_FakePeers n"
  have peers: "fn_FakePeers (record_call ''DisconnectPeer'' nodeID n) = ?ps" by (simp add: record_call_def)
  show ?thesis
  proof (cases "\<exists>p\<in>set ?ps. EnodeID p = nodeID")
    case True
    then obtain p xs ys where split: "?ps = xs @ p # ys" and p: "EnodeID p = nodeID" by (meson split_list)
    have "\<forall>q\<in>set xs. EnodeID q \<noteq> nodeID" and "\<forall>q\<in>set ys. EnodeID q \<noteq> nodeID"
      using assms p unfolding split by (auto simp: image_iff)
    moreover from this have "filter (\<lambda>p. EnodeID p \<noteq> nodeID) ?ps = xs @ ys" using p by (simp add: split)
    ultimately show ?thesis
      using disconnect_loop_present [OF split p, of 0] by (auto simp: fake_DisconnectPeer_def peers Let_def)
  next
    case False
    then have "disconnect_loop nodeID (length ?ps) 0 ?ps (length ?ps) = Inr (?ps, length ?ps)"
      by (intro disconnect_loop_absent) (simp add: nth_mem)
    moreover have "filter (\<lambda>p. EnodeID p \<noteq> nodeID) ?ps = ?ps" using False by (simp add: filter_id_conv)
    ultimately show ?thesis by (simp add: fake_DisconnectPeer_def peers Let_def)
  qed
qed

end
