(* ===== verification/Store_Suite.thy ===== *)
theory Store_Suite
  imports Driver_Agreement Fake_Node
begin

text \<open>
  The test suite that every storage driver has to pass (\<^verbatim>\<open>pool/store/testsuite.go\<close>): the contract of a store as the repository
  states it. Each test is a script of calls with what the test expects of the results. The readings of the clock and the order
  in which a driver visits its maps are parameters, so that passing the suite means passing it whenever it runs. Values are
  compared as numbers and lists where the code compares them with \<^verbatim>\<open>reflect.DeepEqual\<close>, and the balance that comes with
  an error is not looked at.

  Both drivers pass. The in-memory driver is run symbolically; the persistent driver passes what the in-memory driver passes in
  every order of its lists (\<open>passes_like_memory\<close>), but for the test of nonces, which expire in one driver only.
\<close>

section \<open>Scripts\<close>

text \<open>The error of a result.\<close>
definition error_in :: "'a result \<Rightarrow> go_error option" where
  "error_in r = (case r of Inl e \<Rightarrow> Some e | Inr _ \<Rightarrow> None)"

fun ret_error :: "store_ret \<Rightarrow> go_error option" where
  "ret_error (RUnit r) = error_in r"
| "ret_error (RBalance r) = error_in r"
| "ret_error (RIDs r) = error_in r"
| "ret_error (RNode r) = error_in r"
| "ret_error (RNodes r) = error_in r"
| "ret_error (RStats r) = error_in r"

definition fails :: "go_error \<Rightarrow> store_ret \<Rightarrow> bool" where
  "fails e r \<longleftrightarrow> ret_error r = Some e"

definition succeeds :: "store_ret \<Rightarrow> bool" where
  "succeeds r \<longleftrightarrow> ret_error r = None"

type_synonym script = "(store_call \<times> (store_ret \<Rightarrow> bool)) list"

fun passes :: "'s Store \<Rightarrow> script \<Rightarrow> 's \<Rightarrow> bool" where
  "passes St [] s \<longleftrightarrow> True"
| "passes St ((c, expected) # rest) s \<longleftrightarrow> (let (r, s1) = Store_exec St c s in expected r \<and> passes St rest s1)"

section \<open>Helpers of the suite\<close>

definition make_id :: "nat \<Rightarrow> node_id" where
  "make_id offset = replicate (128 - length (hex_digits offset)) (CHR ''0'') @ hex_digits offset"

definition makeNode :: "nat \<Rightarrow> node" where
  "makeNode offset = zero_node\<lparr>n_ID := make_id offset\<rparr>"

definition makeNodes :: "nat \<Rightarrow> nat \<Rightarrow> node list" where
  "makeNodes offset num = map makeNode [offset..<num + offset]"

definition Nodes_IDs :: "node list \<Rightarrow> string list" where
  "Nodes_IDs nodes = sort (map n_ID nodes)"

definition NodeIDs_Strings :: "node_id list \<Rightarrow> string list" where
  "NodeIDs_Strings ids = sort ids"

text \<open>Each update reads the clock, and the store its map, once more.\<close>
primrec addActiveNodes :: "(nat \<Rightarrow> time) \<Rightarrow> (nat \<Rightarrow> iter_order) \<Rightarrow> nat \<Rightarrow> node list \<Rightarrow> script" where
  "addActiveNodes clk ords k [] = []"
| "addActiveNodes clk ords k (n # nodes) =
     (CSetNode n, succeeds) # (CUpdateNodePeers (clk k) (ords k) (n_ID n) [] 0, succeeds) # addActiveNodes clk ords (Suc k) nodes"

section \<open>The tests\<close>

definition hour :: duration where "hour = 60 * minute"

text \<open>\<open>clk k\<close> is the k-th reading of the clock in a test.\<close>
definition test_Nonce :: "(nat \<Rightarrow> time) \<Rightarrow> script" where
  "test_Nonce clk =
     (let nodeID = ''abc'';
          oldNonce = UnixNano (time_Add (clk 0) (- 2 * hour));
          nonce = UnixNano (clk 2)
      in [(CCheckAndSaveNonce (clk 1) nodeID oldNonce, fails ErrInvalidNonce),
          (CCheckAndSaveNonce (clk 3) nodeID nonce, succeeds),
          (CCheckAndSaveNonce (clk 4) nodeID (int64 (nonce + 1)), succeeds),
          (CCheckAndSaveNonce (clk 5) nodeID (int64 (nonce - 1)), fails ErrInvalidNonce),
          (CCheckAndSaveNonce (clk 6) nodeID nonce, fails ErrInvalidNonce),
          (CCheckAndSaveNonce (clk 7) ''def'' (int64 (nonce + 100)), succeeds)])"

text \<open>What a test expects of the node, the nodes or the IDs returned.\<close>
definition on_node :: "(node \<Rightarrow> bool) \<Rightarrow> store_ret \<Rightarrow> bool" where
  "on_node P r \<longleftrightarrow> (case r of RNode (Inr n) \<Rightarrow> P n | _ \<Rightarrow> False)"

definition on_nodes :: "(node list \<Rightarrow> bool) \<Rightarrow> store_ret \<Rightarrow> bool" where
  "on_nodes P r \<longleftrightarrow> (case r of RNodes (Inr ns) \<Rightarrow> P ns | _ \<Rightarrow> False)"

definition on_IDs :: "(node_id list \<Rightarrow> bool) \<Rightarrow> store_ret \<Rightarrow> bool" where
  "on_IDs P r \<longleftrightarrow> (case r of RIDs (Inr ids) \<Rightarrow> P ids | _ \<Rightarrow> False)"

definition test_Node :: script where
  "test_Node =
     (let node = makeNode 0; emptynode = zero_node
      in [(CGetNode (n_ID node), fails ErrUnregisteredNode),
          (CSetNode emptynode, fails ErrMalformedNode),
          (CSetNode node, succeeds),
          (CGetNode (n_ID node), on_node (\<lambda>r. n_ID r = n_ID node))])"

text \<open>A balance with the given credit.\<close>
definition has_credit :: "int \<Rightarrow> store_ret \<Rightarrow> bool" where
  "has_credit credit r \<longleftrightarrow> (case r of RBalance (Inr b) \<Rightarrow> b_Credit b = credit | _ \<Rightarrow> False)"

text \<open>Statistics with the given values, whatever the moment they were counted from.\<close>
definition has_stats :: "stats \<Rightarrow> store_ret \<Rightarrow> bool" where
  "has_stats want r \<longleftrightarrow> (case r of RStats (Inr got) \<Rightarrow> got = want\<lparr>st_activeSince := st_activeSince got\<rparr> | _ \<Rightarrow> False)"

definition test_Balance :: "(nat \<Rightarrow> time) \<Rightarrow> (nat \<Rightarrow> iter_order) \<Rightarrow> script" where
  "test_Balance clk ords =
     (let node = makeNode 0; othernode = makeNode 1
      in [(CAddNodeBalance (n_ID node) 42, fails ErrUnregisteredNode),
          (CGetNodeBalance (clk 0) (n_ID node), fails ErrUnregisteredNode),
          (CSetNode node, succeeds),
          (CAddNodeBalance (n_ID node) 42, succeeds),
          (CAddNodeBalance (n_ID node) 3, succeeds),
          (CGetNodeBalance (clk 1) (n_ID node), has_credit 45),
          (CAddNodeBalance (n_ID node) (- 50), succeeds),
          (CGetNodeBalance (clk 2) (n_ID node), has_credit (- 5)),
          (CGetNodeBalance (clk 3) (n_ID othernode), fails ErrUnregisteredNode),
          (CStats (clk 4) ords, has_stats (zero_stats\<lparr>st_NumTotalClients := 1, st_TotalCredit := - 5, st_NumTrialBalances := 1\<rparr>))])"

text \<open>The end of the next test: report active and inactive peers, and list the peers kept.\<close>
definition submit_peers :: "time \<Rightarrow> iter_order \<Rightarrow> iter_order \<Rightarrow> node_id \<Rightarrow> string list \<Rightarrow> string list \<Rightarrow> uint64 \<Rightarrow> script" where
  "submit_peers now ord ord' nodeID activeIDs inactiveIDs blockNumber =
     [(CUpdateNodePeers now ord nodeID (activeIDs @ inactiveIDs) blockNumber,
         on_IDs (\<lambda>gotInactive. NodeIDs_Strings gotInactive = inactiveIDs)),
      (CNodePeers ord' nodeID, on_nodes (\<lambda>peers. Nodes_IDs peers = activeIDs))]"

definition test_NodePeers :: "(nat \<Rightarrow> time) \<Rightarrow> (nat \<Rightarrow> iter_order) \<Rightarrow> script" where
  "test_NodePeers clk ords =
     (let nodes = makeNodes 0 10; node = nodes ! 0; blockNumber = 42; before = clk 1;
          active = take 4 (drop 1 nodes); inactive = take 1 (drop 5 nodes)
      in [(CNodePeers (ords 0) (n_ID node), fails ErrUnregisteredNode),
          (CUpdateNodePeers (clk 0) (ords 1) (n_ID node) [''def''] blockNumber, fails ErrUnregisteredNode),
          (CSetNode node, succeeds),
          (CNodePeers (ords 2) (n_ID node), on_nodes (\<lambda>peers. peers = [])),
          (CUpdateNodePeers (clk 2) (ords 3) (n_ID node) (Nodes_IDs (take 1 (drop 1 nodes))) blockNumber, on_IDs (\<lambda>inactive. inactive = [])),
          (CGetNode (n_ID node), on_node (\<lambda>n. n_BlockNumber n = blockNumber \<and> \<not> time_Before (n_LastSeen n) before))] @
         addActiveNodes clk ords 4 active @
         [(CSetNode (inactive ! 0), succeeds),
          (CGetNode (n_ID (inactive ! 0)), on_node (\<lambda>n. \<not> time_Before (time_Add before (- ExpireInterval)) (n_LastSeen n)))] @
         submit_peers (clk 8) (ords 8) (ords 9) (n_ID node) (Nodes_IDs active) (Nodes_IDs inactive) blockNumber)"

text \<open>Ten nodes, every other one a host, the last four seen now.\<close>
definition host_test_node :: "time \<Rightarrow> nat \<Rightarrow> node" where
  "host_test_node now i = zero_node\<lparr>n_ID := make_id i, n_IsHost := (i mod 2 = 0), n_BlockNumber := of_nat (100 + i),
     n_LastSeen := (if 5 < i then now else zero_time)\<rparr>"

definition host_test_nodes :: "time \<Rightarrow> node list" where
  "host_test_nodes now = map (host_test_node now) [0..<10]"

definition test_Hosts :: "(nat \<Rightarrow> time) \<Rightarrow> (nat \<Rightarrow> iter_order) \<Rightarrow> (nat \<Rightarrow> iter_order) \<Rightarrow> script" where
  "test_Hosts clk ords statOrds =
     (CActiveHosts (clk 0) (ords 0) '''' 3, on_nodes (\<lambda>hosts. hosts = [])) #
     map (\<lambda>n. (CSetNode n, succeeds)) (host_test_nodes (clk 1)) @
     [(CActiveHosts (clk 2) (ords 1) '''' 10, on_nodes (\<lambda>hosts. Nodes_IDs hosts = [make_id 6, make_id 8])),
      (CActiveHosts (clk 3) (ords 2) '''' 1, on_nodes (\<lambda>hosts. length hosts = 1 \<and> \<not> n_BlockNumber (hosts ! 0) < 100)),
      (CStats (clk 4) statOrds, has_stats (zero_stats\<lparr>st_NumTotalHosts := 5, st_NumActiveHosts := 2, st_NumTotalClients := 5,
         st_NumActiveClients := 2, st_LatestBlockNumber := 109\<rparr>))]"

definition has_account :: "account \<Rightarrow> store_ret \<Rightarrow> bool" where
  "has_account a r \<longleftrightarrow> (case r of RBalance (Inr b) \<Rightarrow> b_Account b = a | _ \<Rightarrow> False)"

definition test_Spender :: "(nat \<Rightarrow> time) \<Rightarrow> iter_order \<Rightarrow> script" where
  "test_Spender clk ord =
     (let nodes = makeNodes 0 10; node = nodes ! 0; account = ''abcd''
      in [(CSetNode node, succeeds),
          (CIsAccountNode account (n_ID node), fails ErrNotAuthorized),
          (CAddAccountNode account (n_ID node), succeeds),
          (CGetNodeBalance (clk 0) (n_ID node), has_account account),
          (CAddAccountNode account (n_ID node), succeeds),
          (CSetNode (nodes ! 1), succeeds),
          (CAddAccountNode ''efgh'' (n_ID (nodes ! 1)), succeeds),
          (CGetAccountNodes ord account, on_IDs (\<lambda>spenders. spenders = [n_ID node]))])"

definition test_SpenderBalance :: "(nat \<Rightarrow> time) \<Rightarrow> script" where
  "test_SpenderBalance clk =
     (let node = makeNode 0; node2 = makeNode 1; account = ''abcd''
      in [(CSetNode node, succeeds),
          (CAddNodeBalance (n_ID node) 42, succeeds),
          (CGetNodeBalance (clk 0) (n_ID node), has_credit 42),
          (CSetNode node2, succeeds),
          (CAddAccountNode account (n_ID node2), succeeds),
          (CAddNodeBalance (n_ID node2) 69, succeeds),
          (CGetNodeBalance (clk 1) (n_ID node2), has_credit 69),
          (CAddAccountNode account (n_ID node), succeeds),
          (CGetNodeBalance (clk 2) (n_ID node2), \<lambda>r. has_credit (42 + 69) r \<and> has_account account r),
          (CGetNodeBalance (clk 3) (n_ID node), \<lambda>r. has_credit (42 + 69) r \<and> has_account account r)])"

text \<open>Every test starts with a new store.\<close>
definition TestSuite :: "(nat \<Rightarrow> time) \<Rightarrow> (nat \<Rightarrow> iter_order) \<Rightarrow> (nat \<Rightarrow> iter_order) \<Rightarrow> script list" where
  "TestSuite clk ords statOrds =
     [test_Nonce clk, test_Node, test_Balance clk statOrds, test_NodePeers clk ords, test_Hosts clk ords statOrds,
      test_Spender clk (ords 0), test_SpenderBalance clk]"

section \<open>The in-memory driver\<close>

text \<open>A run of the suite: the clock does not go back, a test takes less than a minute, and the year is between 1970 and 2100.\<close>
definition suite_clock :: "(nat \<Rightarrow> time) \<Rightarrow> bool" where
  "suite_clock clk \<longleftrightarrow> mono clk \<and> (\<forall>k. clk k < clk 0 + minute) \<and> 3 * hour < clk 0 \<and> clk 0 < 2 ^ 62"

lemma suite_clock_recent:
  assumes "suite_clock clk"
  shows "zero_time < clk k - ExpireInterval" and "clk k - ExpireInterval < clk j"
proof -
  have "clk 0 \<le> clk k" "clk 0 \<le> clk j" "clk k < clk 0 + minute" "3 * hour < clk 0" using assms by (auto simp: suite_clock_def mono_def)
  then show "zero_time < clk k - ExpireInterval" and "clk k - ExpireInterval < clk j"
    by (simp_all add: hour_def minute_def second_def interval_values zero_time_def)
qed

lemma make_id_distinct [simp]: "i < 10 \<Longrightarrow> j < 10 \<Longrightarrow> make_id i = make_id j \<longleftrightarrow> i = j"
proof -
  have "distinct (map make_id [0..<10])" by code_simp
  then have "inj_on make_id {0..<10}" by (simp add: distinct_map)
  then show "i < 10 \<Longrightarrow> j < 10 \<Longrightarrow> make_id i = make_id j \<longleftrightarrow> i = j" by (auto simp: inj_on_def)
qed

lemma make_id_nonempty [simp]: "make_id i \<noteq> ''''"
proof -
  have "hex_digits i \<noteq> ''''" by (subst hex_digits.simps) simp
  then show ?thesis by (simp add: make_id_def)
qed

lemma makeNode_ID [simp]: "n_ID (makeNode i) = make_id i" "n_IsHost (makeNode i) = False" "n_LastSeen (makeNode i) = zero_time"
    "n_BlockNumber (makeNode i) = 0"
  by (simp_all add: makeNode_def zero_node_def)

lemma makeNodes_nth [simp]: "i < n \<Longrightarrow> makeNodes k n ! i = makeNode (i + k)"
  by (simp add: makeNodes_def add.commute)

text \<open>A script of two parts.\<close>
lemma passes_append:
  "passes St (a @ b) s \<longleftrightarrow> passes St a s \<and> passes St b (snd (Store_run St (map fst a) s))"
proof (induction a arbitrary: s)
  case (Cons x a)
  obtain c e where "x = (c, e)" by (cases x)
  then show ?case using Cons.IH [of "snd (Store_exec St c s)"] by (simp add: split_beta)
qed simp

lemma range_order_few:
  assumes "range_order ord"
  shows "ord {||} = []" and "ord {|i|} = [i]" and "ord {|i, j|} = [i, j] \<or> ord {|i, j|} = [j, i] \<or> i = j"
proof -
  show "ord {||} = []" using range_order_set [OF assms, of "{||}"] by simp
  show "ord {|i|} = [i]"
    using range_order_set [OF assms, of "{|i|}"] range_order_distinct [OF assms, of "{|i|}"]
    by (cases "ord {|i|}") (auto simp: subset_singleton_iff distinct_length_2_or_more)
  show "ord {|i, j|} = [i, j] \<or> ord {|i, j|} = [j, i] \<or> i = j"
  proof (cases "i = j")
    case False
    then have "length (ord {|i, j|}) = 2" using range_order_length [OF assms, of "{|i, j|}"] by (simp add: fcard.rep_eq)
    then show ?thesis using range_order_set [OF assms, of "{|i, j|}"]
      by (auto simp: numeral_2_eq_2 length_Suc_conv doubleton_eq_iff)
  qed simp
qed

lemmas script_defs = fails_def succeeds_def error_in_def has_credit_def has_account_def on_node_def on_nodes_def on_IDs_def
  Let_def NodeID_IsZero_def

lemma mem_Store_sel [simp]:
  "GetNodeBalance mem_Store = (\<lambda>_. mem_GetNodeBalance)" "AddNodeBalance mem_Store = mem_AddNodeBalance"
  "AddAccountNode mem_Store = mem_AddAccountNode" "IsAccountNode mem_Store = mem_IsAccountNode"
  "GetAccountNodes mem_Store = mem_GetAccountNodes" "CheckAndSaveNonce mem_Store = mem_CheckAndSaveNonce"
  "GetNode mem_Store = mem_GetNode" "SetNode mem_Store = mem_SetNode" "ActiveHosts mem_Store = mem_ActiveHosts"
  "NodePeers mem_Store = mem_NodePeers" "UpdateNodePeers mem_Store = mem_UpdateNodePeers" "Stats mem_Store = mem_Stats"
  by (simp_all add: mem_Store_def)

lemma mem_passes_SpenderBalance: "passes mem_Store (test_SpenderBalance clk) mem_New"
  unfolding test_SpenderBalance_def
  by (simp add: script_defs mem_New_def mem_SetNode_def mem_AddNodeBalance_def mem_GetNodeBalance_def mem_AddAccountNode_def)

lemma mem_passes_Spender:
  assumes "range_order ord"
  shows "passes mem_Store (test_Spender clk ord) mem_New"
  unfolding test_Spender_def
  using range_order_few(3) [OF assms, of "make_id 1" "make_id 0"]
  by (auto simp: script_defs mem_New_def mem_SetNode_def mem_IsAccountNode_def mem_GetNodeBalance_def mem_AddAccountNode_def
      mem_GetAccountNodes_def)

lemma mem_passes_Node: "passes mem_Store test_Node mem_New"
  unfolding test_Node_def by (simp add: script_defs mem_New_def mem_SetNode_def mem_GetNode_def zero_node_def)

lemma mem_passes_Nonce:
  assumes "suite_clock clk"
  shows "passes mem_Store (test_Nonce clk) mem_New"
proof -
  have c: "clk 0 \<le> clk k" "clk k < clk 0 + minute" "3 * hour < clk 0" "clk 0 < 2 ^ 62" for k
    using assms by (auto simp: suite_clock_def mono_def)
  show ?thesis
    using c(1,2) [of 1] c(1,2) [of 2] c(1,2) [of 3] c(1,2) [of 4] c(1,2) [of 5] c(1,2) [of 6] c(1,2) [of 7] c(3,4)
    unfolding test_Nonce_def
    by (simp add: script_defs mem_New_def mem_CheckAndSaveNonce_def interval_values UnixNano_def int64_id time_simps
        min_int64_def max_int64_def hour_def minute_def second_def)
qed

lemma mem_passes_Balance:
  assumes "\<And>k. range_order (ords k)" and "suite_clock clk"
  shows "passes mem_Store (test_Balance clk ords) mem_New"
  using suite_clock_recent [OF assms(2), of 4]
  unfolding test_Balance_def
  by (simp add: script_defs has_stats_def mem_New_def mem_SetNode_def mem_AddNodeBalance_def mem_GetNodeBalance_def mem_Stats_def
     mem_node_list_def range_order_few [OF assms(1)] CountNode_def CountBalance_def zero_stats_def add_credit_def zero_balance_def time_simps)

lemma mem_UpdateNodePeers_unregistered:
  "fmlookup (ms_nodes s) i = None \<Longrightarrow> mem_UpdateNodePeers now ord i ps b s = (Inl ErrUnregisteredNode, s)"
  by (simp add: mem_UpdateNodePeers_def)

lemma mem_UpdateNodePeers_alone:
  assumes "range_order ord" and "fmlookup (ms_nodes s) i = Some nd" and "mn_peers nd = fmempty"
    and "\<forall>p\<in>set ps. fmlookup (ms_nodes s) p = None"
  shows "mem_UpdateNodePeers now ord i ps b s =
    (Inr [], s\<lparr>ms_nodes := fmupd i \<lparr>mn_Node = (mn_Node nd)\<lparr>n_LastSeen := now, n_BlockNumber := b\<rparr>, mn_peers = fmempty\<rparr> (ms_nodes s)\<rparr>)"
proof -
  have "mem_mark_peers (ms_nodes s) ps fmempty = fmempty"
    by (rule fmap_ext) (use assms(4) in \<open>auto simp: mem_mark_peers_lookup\<close>)
  then show ?thesis using assms(2,3) range_order_few(1) [OF assms(1)] by (simp add: mem_UpdateNodePeers_def)
qed

lemma sort_distinct_set:
  assumes "distinct xs" and "set xs = set ys"
  shows "sort (xs :: string list) = sort (remdups ys)"
  by (rule sorted_distinct_set_unique) (use assms in simp_all)

text \<open>An update that reports \<open>ps\<close>, and the peers listed after it.\<close>
lemma mem_update_then_peers:
  assumes "range_order ord" "range_order ord'" "mem_inv s" and nd: "fmlookup (ms_nodes s) i = Some nd" "mn_peers nd = fmempty"
    and "i \<notin> set ps" and upd: "mem_UpdateNodePeers now ord i ps b s = (r, s')"
  defines "fresh \<equiv> \<lambda>p. \<exists>nd. fmlookup (ms_nodes s) p = Some nd \<and> now - ExpireInterval < n_LastSeen (mn_Node nd)"
    and "stale \<equiv> \<lambda>p. \<exists>nd. fmlookup (ms_nodes s) p = Some nd \<and> n_LastSeen (mn_Node nd) \<le> now - ExpireInterval"
  shows "\<exists>inactive peers. r = Inr inactive \<and> mem_NodePeers ord' i s' = (Inr peers, s') \<and>
    sort inactive = sort (remdups (filter stale ps)) \<and> sort (map n_ID peers) = sort (remdups (filter fresh ps))"
proof -
  obtain inactive nd' where r: "r = Inr inactive" and s': "s' = s\<lparr>ms_nodes := fmupd i nd' (ms_nodes s)\<rparr>"
    and nd': "mn_Node nd' = (mn_Node nd)\<lparr>n_LastSeen := now, n_BlockNumber := b\<rparr>" and dist: "distinct inactive"
    and gone: "\<And>k. k \<in> set inactive \<longleftrightarrow> (\<exists>t. mem_known_stamp s nd ps k = Some t \<and> t \<le> now - ExpireInterval)"
    and kept: "\<And>k. fmlookup (mn_peers nd') k = (case mem_known_stamp s nd ps k of None \<Rightarrow> None
            | Some t \<Rightarrow> if t \<le> now - ExpireInterval then None else Some t)"
    by (rule mem_UpdateNodePeers_spec [OF assms(1) nd(1) upd]) blast
  have known: "mem_known_stamp s nd ps k = (if k \<in> set ps then map_option (n_LastSeen \<circ> mn_Node) (fmlookup (ms_nodes s) k) else None)" for k
    using nd(2) by (auto simp: mem_known_stamp_def split: option.splits)
  have "set inactive = set (filter stale ps)" by (auto simp: gone known stale_def split: if_splits)
  then have inactive: "sort inactive = sort (remdups (filter stale ps))" by (rule sort_distinct_set [OF dist])
  have reg: "fmlookup (ms_nodes s') i = Some nd'" by (simp add: s')
  have inv: "mem_inv s'" using mem_inv_UpdateNodePeers [OF assms(3)] upd by (metis snd_conv)
  define ks where "ks = ord' (fmdom (mn_peers nd'))"
  have ks: "set ks = set (filter fresh ps)" "distinct ks"
    using assms(2) by (auto simp: ks_def range_order_mem range_order_distinct kept known fresh_def split: if_splits option.splits)
  then have ks': "\<forall>k\<in>set ks. fmlookup (ms_nodes s') k \<noteq> None" by (auto simp: s' fresh_def)
  then have peers: "mem_NodePeers ord' i s' = (Inr (map (\<lambda>k. mn_Node (the (fmlookup (ms_nodes s') k))) ks), s')"
    unfolding mem_NodePeers_eq [OF assms(2) reg] ks_def [symmetric] by (simp add: filter_id_conv)
  have "map n_ID (map (\<lambda>k. mn_Node (the (fmlookup (ms_nodes s') k))) ks) = ks"
    using ks' mem_inv_node_ID [OF inv] by (auto intro!: map_idI)
  with sort_distinct_set [OF ks(2,1)] show ?thesis using r inactive peers by simp
qed

lemma mem_passes_submit_peers:
  assumes "range_order ord" "range_order ord'" "mem_inv s" and "fmlookup (ms_nodes s) i = Some nd" "mn_peers nd = fmempty"
    and "i \<notin> set (A @ Z)" and "distinct (A @ Z)" "sorted A" "sorted Z"
    and "\<And>k. k \<in> set A \<Longrightarrow> \<exists>nd. fmlookup (ms_nodes s) k = Some nd \<and> now - ExpireInterval < n_LastSeen (mn_Node nd)"
    and "\<And>k. k \<in> set Z \<Longrightarrow> \<exists>nd. fmlookup (ms_nodes s) k = Some nd \<and> n_LastSeen (mn_Node nd) \<le> now - ExpireInterval"
  shows "passes mem_Store (submit_peers now ord ord' i A Z b) s"
proof -
  obtain r s' where upd: "mem_UpdateNodePeers now ord i (A @ Z) b s = (r, s')" by (cases "mem_UpdateNodePeers now ord i (A @ Z) b s")
  have f: "filter (\<lambda>p. \<exists>nd. fmlookup (ms_nodes s) p = Some nd \<and> now - ExpireInterval < n_LastSeen (mn_Node nd)) (A @ Z) = A"
    and g: "filter (\<lambda>p. \<exists>nd. fmlookup (ms_nodes s) p = Some nd \<and> n_LastSeen (mn_Node nd) \<le> now - ExpireInterval) (A @ Z) = Z"
    using assms(10,11) by (fastforce simp: filter_id_conv filter_empty_conv)+
  from mem_update_then_peers [OF assms(1-6) upd, unfolded f g] show ?thesis
    using assms(7-9) upd by (auto simp: submit_peers_def mem_Store_def on_IDs_def on_nodes_def NodeIDs_Strings_def Nodes_IDs_def
      distinct_remdups_id sort_key_id_if_sorted)
qed

lemma test_slices:
  "take 4 (drop 1 (makeNodes 0 10)) = [makeNode 1, makeNode 2, makeNode 3, makeNode 4]"
  "take 1 (drop 5 (makeNodes 0 10)) = [makeNode 5]" "take 1 (drop 1 (makeNodes 0 10)) = [makeNode 1]"
  by code_simp+

lemmas peer_test_simps = mem_New_def mem_SetNode_def NodeID_IsZero_def mem_GetNode_def mem_NodePeers_def mem_UpdateNodePeers_unregistered

lemma mem_passes_NodePeers:
  assumes "\<And>k. range_order (ords k)" "suite_clock clk"
  shows "passes mem_Store (test_NodePeers clk ords) mem_New"
proof -
  have ids: "Nodes_IDs [makeNode 1, makeNode 2, makeNode 3, makeNode 4] = [make_id 1, make_id 2, make_id 3, make_id 4]"
      "Nodes_IDs [makeNode i] = [make_id i]" "sorted [make_id 1, make_id 2, make_id 3, make_id 4]" for i
    by code_simp (simp add: Nodes_IDs_def, code_simp)
  have "clk 1 \<le> clk 2" using assms(2) by (simp add: suite_clock_def mono_def)
  note clock = this suite_clock_recent [OF assms(2)]
  define peer where "peer i now b = \<lparr>mn_Node = (makeNode i)\<lparr>n_LastSeen := now, n_BlockNumber := b\<rparr>, mn_peers = fmempty\<rparr>" for i now b
  define s where "s = mem_New\<lparr>ms_nodes := fmupd (make_id 5) \<lparr>mn_Node = makeNode 5, mn_peers = fmempty\<rparr>
    (fmupd (make_id 4) (peer 4 (clk 7) 0) (fmupd (make_id 3) (peer 3 (clk 6) 0) (fmupd (make_id 2) (peer 2 (clk 5) 0)
    (fmupd (make_id 1) (peer 1 (clk 4) 0) (fmupd (make_id 0) (peer 0 (clk 2) 42) fmempty)))))\<rparr>"
  have "passes mem_Store (submit_peers (clk 8) (ords 8) (ords 9) (make_id 0)
      [make_id 1, make_id 2, make_id 3, make_id 4] [make_id 5] 42) s"
  proof (rule mem_passes_submit_peers)
    show "mem_inv s" by (auto simp: mem_inv_def s_def peer_def mem_New_def)
    show "fmlookup (ms_nodes s) (make_id 0) = Some (peer 0 (clk 2) 42)" by (simp add: s_def)
  qed (use ids(3) clock(2) [of 8] in \<open>auto simp: assms(1) s_def peer_def clock(3) less_imp_le\<close>)
  then show ?thesis
    unfolding test_NodePeers_def Let_def test_slices ids s_def peer_def
    using clock(1) clock(2) [of 1]
    by (simp add: script_defs peer_test_simps passes_append time_simps range_order_few [OF assms(1)] mem_UpdateNodePeers_alone [OF assms(1)])
qed

text \<open>A store with the given nodes and nothing else lists exactly them, in some order.\<close>
definition nodes_store :: "node list \<Rightarrow> memoryStore" where
  "nodes_store ns = mem_New\<lparr>ms_nodes := fmap_of_list (map (\<lambda>n. (n_ID n, \<lparr>mn_Node = n, mn_peers = fmempty\<rparr>)) (rev ns))\<rparr>"

lemma set_nodes_run:
  assumes "\<forall>n\<in>set ns. n_ID n \<noteq> ''''"
  shows "passes mem_Store (map (\<lambda>n. (CSetNode n, succeeds)) ns) (nodes_store ms) \<and>
    snd (Store_run mem_Store (map CSetNode ns) (nodes_store ms)) = nodes_store (ms @ ns)"
  using assms
proof (induction ns arbitrary: ms)
  case (Cons n ns)
  then show ?case using Cons.IH [of "ms @ [n]"]
    by (simp add: nodes_store_def mem_SetNode_def NodeID_IsZero_def succeeds_def error_in_def split_beta)
qed simp

lemma nodes_store_list:
  assumes "range_order ord" and "distinct (map n_ID ns)"
  shows "mset (mem_node_list ord (nodes_store ns)) = mset ns"
proof -
  define m where "m = ms_nodes (nodes_store ns)"
  have m: "m = fmap_of_list (map (\<lambda>n. (n_ID n, \<lparr>mn_Node = n, mn_peers = fmempty\<rparr>)) (rev ns))" by (simp add: m_def nodes_store_def)
  have look: "fmlookup m (n_ID n) = Some \<lparr>mn_Node = n, mn_peers = fmempty\<rparr>" if "n \<in> set ns" for n
    unfolding m fmlookup_of_list using that assms(2) by (intro map_of_is_SomeI) (auto simp: rev_map [symmetric] comp_def)
  have "set (ord (fmdom m)) = set (map n_ID ns)" using assms(1) by (simp add: range_order_set m fset_of_list.rep_eq image_image)
  then have "mset (ord (fmdom m)) = mset (map n_ID ns)"
    using assms by (subst set_eq_iff_mset_eq_distinct [symmetric]) (auto simp: range_order_distinct)
  then have "mset (mem_node_list ord (nodes_store ns)) = mset (map (\<lambda>k. mn_Node (the (fmlookup m k))) (map n_ID ns))"
    unfolding mem_node_list_def m_def [symmetric] mset_map by simp
  also have "map (\<lambda>k. mn_Node (the (fmlookup m k))) (map n_ID ns) = ns" by (simp add: look map_idI)
  finally show ?thesis .
qed

lemma sort_by_mset: "mset xs = mset ys \<Longrightarrow> sort xs = sort (ys :: string list)"
  by (rule properties_for_sort) simp_all

lemma CountNode_trials: "st_NumTrialBalances (fold (CountNode now) ns st) = st_NumTrialBalances st"
  by (induction ns arbitrary: st) (simp_all add: CountNode_def Let_def)

text \<open>The statistics of such a store.\<close>
lemma nodes_store_stats:
  assumes ords: "\<And>k. range_order (ords k)" and "distinct (map n_ID ns)" and "zero_time < now - ExpireInterval"
  shows "has_stats \<lparr>st_NumActiveHosts = int (length (filter (\<lambda>n. n_IsHost n \<and> node_active (now - ExpireInterval) n) ns)),
      st_NumTotalHosts = int (length (filter n_IsHost ns)),
      st_NumActiveClients = int (length (filter (\<lambda>n. \<not> n_IsHost n \<and> node_active (now - ExpireInterval) n) ns)),
      st_NumTotalClients = int (length (filter (\<lambda>n. \<not> n_IsHost n) ns)),
      st_LatestBlockNumber = fold max (map n_BlockNumber ns) 0, st_TotalCredit = 0, st_TotalDeposit = 0,
      st_NumTrialBalances = 0, st_activeSince = t\<rparr> (RStats (fst (mem_Stats now ords (nodes_store ns))))"
proof -
  define s where "s = nodes_store ns"
  define L where "L = mem_node_list (ords 0) s"
  have L: "mset L = mset ns" unfolding L_def s_def by (rule nodes_store_list [OF ords assms(2)])
  obtain st where st: "mem_Stats now ords s = (Inr st, s)" by (simp add: mem_Stats_def Let_def)
  have empty: "ms_balances s = fmempty" "ms_trials s = fmempty" by (simp_all add: s_def nodes_store_def mem_New_def)
  have trials: "st_NumTrialBalances st = 0"
    using st by (auto simp: mem_Stats_def Let_def empty range_order_few [OF ords] CountNode_trials zero_stats_def)
  have "zero_time + ExpireInterval < now" using assms(3) by simp
  note fields = mem_Stats_fields [OF st ords ords ords this, folded L_def]
  have count: "length (filter P L) = length (filter P ns)" for P using L by (metis mset_filter size_mset)
  have "set L = set ns" using L by (metis set_mset_mset)
  then have block: "fold max (map n_BlockNumber L) 0 = fold max (map n_BlockNumber ns) 0"
    by (simp add: Max.set_eq_fold [symmetric])
  show ?thesis
    using fields trials unfolding s_def [symmetric] st has_stats_def
    by (simp add: count block mem_credit_def empty fm_sum_def)
qed

lemma nodes_store_Nil: "nodes_store [] = mem_New"
  by (simp add: nodes_store_def mem_New_def)

text \<open>The store of the host test.\<close>
lemma host_test_nodes_IDs:
  "distinct (map n_ID (host_test_nodes now))" "\<forall>n\<in>set (host_test_nodes now). n_ID n \<noteq> ''''"
  by (auto simp: host_test_nodes_def host_test_node_def distinct_map inj_on_def)

lemma host_test_hosts:
  assumes "range_order ord" and "zero_time < now - ExpireInterval" and "now - ExpireInterval < t"
  shows "mset (filter (host_matches '''' (time_Add now (- ExpireInterval))) (mem_node_list ord (nodes_store (host_test_nodes t)))) =
    {#host_test_node t 6, host_test_node t 8#}"
proof -
  have "filter (host_matches '''' (time_Add now (- ExpireInterval))) (host_test_nodes t) = [host_test_node t 6, host_test_node t 8]"
    using assms(2,3) by (simp add: host_test_nodes_def host_test_node_def host_matches_def time_simps upt_conv_Cons)
  then show ?thesis
    unfolding mset_filter nodes_store_list [OF assms(1) host_test_nodes_IDs(1)] unfolding mset_filter [symmetric] by simp
qed

lemma host_test_active:
  assumes "range_order ord" and "zero_time < now - ExpireInterval" and "now - ExpireInterval < t"
  defines "s \<equiv> nodes_store (host_test_nodes t)"
  shows "on_nodes (\<lambda>hosts. Nodes_IDs hosts = [make_id 6, make_id 8]) (RNodes (fst (mem_ActiveHosts now ord '''' 10 s)))"
    and "on_nodes (\<lambda>hosts. length hosts = 1 \<and> \<not> n_BlockNumber (hosts ! 0) < 100) (RNodes (fst (mem_ActiveHosts now ord '''' 1 s)))"
proof -
  define hosts where "hosts = filter (host_matches '''' (time_Add now (- ExpireInterval))) (mem_node_list ord s)"
  have hosts: "mset hosts = {#host_test_node t 6, host_test_node t 8#}" unfolding hosts_def s_def by (rule host_test_hosts [OF assms(1-3)])
  then have len: "length hosts = 2" and set: "set hosts = {host_test_node t 6, host_test_node t 8}"
    by (metis size_mset size_add_mset size_empty One_nat_def Suc_1, metis set_mset_mset set_mset_add_mset_insert set_mset_empty)
  have "mset (map n_ID hosts) = mset [make_id 6, make_id 8]" by (simp add: hosts host_test_node_def)
  moreover have "sort [make_id 6, make_id 8] = [make_id 6, make_id 8]" by code_simp
  ultimately show "on_nodes (\<lambda>hosts. Nodes_IDs hosts = [make_id 6, make_id 8]) (RNodes (fst (mem_ActiveHosts now ord '''' 10 s)))"
    using sort_by_mset [of "map n_ID hosts" "[make_id 6, make_id 8]"] len
    by (simp add: mem_ActiveHosts_eq hosts_def [symmetric] on_nodes_def Nodes_IDs_def)
  have "hosts ! 0 \<in> set hosts" using len by simp
  then show "on_nodes (\<lambda>hosts. length hosts = 1 \<and> \<not> n_BlockNumber (hosts ! 0) < 100) (RNodes (fst (mem_ActiveHosts now ord '''' 1 s)))"
    using len by (auto simp: set mem_ActiveHosts_eq hosts_def [symmetric] on_nodes_def host_test_node_def)
qed

lemma host_test_stats:
  assumes "\<And>k. range_order (ords k)" and "zero_time < now - ExpireInterval" and "now - ExpireInterval < t"
  shows "has_stats (zero_stats\<lparr>st_NumTotalHosts := 5, st_NumActiveHosts := 2, st_NumTotalClients := 5,
         st_NumActiveClients := 2, st_LatestBlockNumber := 109\<rparr>) (RStats (fst (mem_Stats now ords (nodes_store (host_test_nodes t)))))"
  using nodes_store_stats [OF assms(1) host_test_nodes_IDs(1) [of t] assms(2), of zero_time] assms(2,3)
  by (simp add: zero_stats_def host_test_nodes_def host_test_node_def node_active_def time_simps upt_conv_Cons)

lemma mem_passes_Hosts:
  assumes "\<And>k. range_order (ords k)" "\<And>k. range_order (statOrds k)" and "suite_clock clk"
  shows "passes mem_Store (test_Hosts clk ords statOrds) mem_New"
proof -
  note recent = suite_clock_recent [OF assms(3)]
  have first: "mem_ActiveHosts (clk 0) (ords 0) '''' 3 mem_New = (Inr [], mem_New)"
    by (simp add: mem_ActiveHosts_def mem_node_list_def mem_New_def range_order_few [OF assms(1)])
  note sets = set_nodes_run [OF host_test_nodes_IDs(2), of "clk 1" "[]", unfolded nodes_store_Nil append_Nil]
  show ?thesis
    unfolding test_Hosts_def
    using host_test_active(1) [OF assms(1) [of 1] recent(1) [of 2] recent(2) [of 2 1]]
      host_test_active(2) [OF assms(1) [of 2] recent(1) [of 3] recent(2) [of 3 1]]
      host_test_stats [of statOrds, OF assms(2) recent(1) [of 4] recent(2) [of 4 1]] sets
    by (simp add: first on_nodes_def [of "\<lambda>hosts. hosts = []"] passes_append comp_def split_beta)
qed

section \<open>The persistent driver\<close>

lemma passes_run:
  "passes St sc s \<longleftrightarrow> list_all2 (\<lambda>x r. snd x r) sc (map snd (fst (Store_run St (map fst sc) s)))"
proof (induction sc arbitrary: s)
  case (Cons x sc)
  obtain c e where "x = (c, e)" by (cases x)
  then show ?case using Cons.IH [of "snd (Store_exec St c s)"] by (simp add: split_beta)
qed simp

text \<open>The same script, where the lists may come in another order.\<close>
definition variant :: "script \<Rightarrow> script \<Rightarrow> bool" where
  "variant = list_all2 (\<lambda>x y. listed_as (fst x) (fst y) \<and> snd y = snd x)"

context badger_quiet
begin

lemma passes_like_memory:
  assumes "bd_inv (kv d)" and "same_data (kv d) s" and "agreeing_run_listed s (map fst sc)"
    and "\<And>sc'. variant sc sc' \<Longrightarrow> passes mem_Store sc' s"
  shows "passes (badger_Store B X) sc d"
proof -
  from agree_run_listed [OF assms(1-3)] obtain cs where
    cs: "list_all2 listed_as (map fst sc) cs"
      "map snd (fst (Store_run (badger_Store B X) (map fst sc) d)) = map snd (fst (Store_run mem_Store cs s))" by blast
  define sc' where "sc' = zip cs (map snd sc)"
  have len: "length cs = length sc" using list_all2_lengthD [OF cs(1)] by simp
  have "variant sc sc'" using cs(1) len by (auto simp: variant_def sc'_def list_all2_conv_all_nth)
  then have "passes mem_Store sc' s" by (rule assms(4))
  then have "list_all2 (\<lambda>x r. snd x r) sc' (map snd (fst (Store_run mem_Store cs s)))"
    using len by (simp add: passes_run sc'_def)
  then show ?thesis
    unfolding passes_run cs(2) using len by (auto simp: list_all2_conv_all_nth sc'_def)
qed

lemma passes_like_new:
  assumes "kv d = fmempty" and "agreeing_run_listed mem_New (map fst sc)" and "\<And>sc'. variant sc sc' \<Longrightarrow> passes mem_Store sc' mem_New"
  shows "passes (badger_Store B X) sc d"
  by (rule passes_like_memory [OF _ _ assms(2,3)]) (simp_all add: assms(1) bd_inv_empty same_data_def mem_New_def item_def)

end

lemma variant_append [simp]: "variant (xs @ ys) sc \<longleftrightarrow> (\<exists>us vs. sc = us @ vs \<and> variant xs us \<and> variant ys vs)"
  unfolding variant_def
proof
  show "\<exists>us vs. sc = us @ vs \<and> list_all2 R xs us \<and> list_all2 R ys vs" if "list_all2 R (xs @ ys) sc" for R
    using that unfolding list_all2_append1 by blast
qed (auto intro: list_all2_appendI)

lemma variant_simps [simp]:
  "variant [] sc \<longleftrightarrow> sc = []"
  "variant ((c, e) # xs) sc \<longleftrightarrow> (\<exists>c' sc'. sc = (c', e) # sc' \<and> listed_as c c' \<and> variant xs sc')"
  unfolding variant_def by (simp, force simp: list_all2_Cons1)

definition lists_nothing :: "script \<Rightarrow> bool" where
  "lists_nothing sc \<longleftrightarrow> list_all (\<lambda>x. case fst x of CActiveHosts _ _ _ _ \<Rightarrow> False | CGetAccountNodes _ _ \<Rightarrow> False | CStats _ _ \<Rightarrow> False | _ \<Rightarrow> True) sc"

lemma variant_plain:
  assumes "lists_nothing sc" and "variant sc sc'"
  shows "sc' = sc"
  using assms(2,1) unfolding variant_def
proof (induction rule: list_all2_induct)
  case (Cons x xs y ys)
  then show ?case by (cases x; cases y; cases "fst x") (auto simp: lists_nothing_def)
qed simp

context badger_quiet
begin

lemma passes_SpenderBalance:
  assumes "kv d = fmempty"
  shows "passes (badger_Store B X) (test_SpenderBalance clk) d"
proof (rule passes_like_new [OF assms])
  show "agreeing_run_listed mem_New (map fst (test_SpenderBalance clk))"
    by (simp add: test_SpenderBalance_def Let_def mem_New_def mem_SetNode_def NodeID_IsZero_def mem_AddNodeBalance_def mem_AddAccountNode_def)
  show "passes mem_Store sc' mem_New" if v: "variant (test_SpenderBalance clk) sc'" for sc'
    using variant_plain [OF _ v] mem_passes_SpenderBalance by (simp add: lists_nothing_def test_SpenderBalance_def Let_def)
qed

lemma passes_Node:
  assumes "kv d = fmempty"
  shows "passes (badger_Store B X) test_Node d"
proof (rule passes_like_new [OF assms])
  show "agreeing_run_listed mem_New (map fst test_Node)"
    by (simp add: test_Node_def Let_def mem_New_def mem_SetNode_def NodeID_IsZero_def)
  show "passes mem_Store sc' mem_New" if v: "variant test_Node sc'" for sc'
    using variant_plain [OF _ v] mem_passes_Node by (simp add: lists_nothing_def test_Node_def Let_def)
qed

lemma passes_Spender:
  assumes "kv d = fmempty"
  shows "passes (badger_Store B X) (test_Spender clk ord) d"
proof (rule passes_like_new [OF assms])
  show "agreeing_run_listed mem_New (map fst (test_Spender clk ord))"
    by (simp add: test_Spender_def Let_def mem_New_def mem_SetNode_def NodeID_IsZero_def mem_AddAccountNode_def)
  show "passes mem_Store sc' mem_New" if v: "variant (test_Spender clk ord) sc'" for sc'
  proof -
    obtain ord' where "range_order ord'" "sc' = test_Spender clk ord'" using v by (auto simp: test_Spender_def Let_def)
    then show ?thesis using mem_passes_Spender by simp
  qed
qed

lemma passes_Balance:
  assumes "kv d = fmempty" and "suite_clock clk"
  shows "passes (badger_Store B X) (test_Balance clk ords) d"
proof (rule passes_like_new [OF assms(1)])
  show "agreeing_run_listed mem_New (map fst (test_Balance clk ords))"
    by (simp add: test_Balance_def Let_def mem_New_def mem_SetNode_def NodeID_IsZero_def mem_AddNodeBalance_def)
  show "passes mem_Store sc' mem_New" if v: "variant (test_Balance clk ords) sc'" for sc'
  proof -
    obtain ords' where "\<And>k. range_order (ords' k)" "sc' = test_Balance clk ords'" using v by (auto simp: test_Balance_def Let_def)
    then show ?thesis using mem_passes_Balance [OF _ assms(2)] by simp
  qed
qed

lemma passes_Hosts:
  assumes "kv d = fmempty" and "suite_clock clk" and "\<And>k. range_order (ords k)"
  shows "passes (badger_Store B X) (test_Hosts clk ords statOrds) d"
proof (rule passes_like_new [OF assms(1)])
  show "passes mem_Store sc' mem_New" if v: "variant (test_Hosts clk ords statOrds) sc'" for sc'
  proof -
    have plain: "variant (map (\<lambda>n. (CSetNode n, succeeds)) ns) sc \<longleftrightarrow> sc = map (\<lambda>n. (CSetNode n, succeeds)) ns" for ns sc
      by (induction ns arbitrary: sc) auto
    obtain o0 o1 o2 statOrds' where o: "range_order o0" "range_order o1" "range_order o2" "\<And>k. range_order (statOrds' k)"
      and "sc' = test_Hosts clk (\<lambda>k. if k = 0 then o0 else if k = 1 then o1 else o2) statOrds'"
      using v by (auto simp: test_Hosts_def plain)
    then show ?thesis using mem_passes_Hosts [of "\<lambda>k. if k = 0 then o0 else if k = 1 then o1 else o2", OF _ o(4) assms(2)] by simp
  qed
  show "agreeing_run_listed mem_New (map fst (test_Hosts clk ords statOrds))"
    by (simp add: test_Hosts_def assms(3) host_test_nodes_def upt_conv_Cons mem_ActiveHosts_def mem_New_def mem_SetNode_def
        NodeID_IsZero_def host_test_node_def)
qed

lemma passes_NodePeers:
  assumes "kv d = fmempty" and "suite_clock clk" and "\<And>k. range_order (ords k)"
  shows "passes (badger_Store B X) (test_NodePeers clk ords) d"
proof (rule passes_like_new [OF assms(1)])
  have unknown: "make_id 0 \<noteq> ''def''" by code_simp
  note tst = test_NodePeers_def [unfolded Let_def test_slices]
  show "agreeing_run_listed mem_New (map fst (test_NodePeers clk ords))"
    unfolding tst
    by (simp add: assms(3) unknown submit_peers_def Nodes_IDs_def peer_test_simps mem_UpdateNodePeers_alone [OF assms(3)])
  show "passes mem_Store sc' mem_New" if v: "variant (test_NodePeers clk ords) sc'" for sc'
    using variant_plain [OF _ v] mem_passes_NodePeers [OF assms(3,2)]
    by (simp add: lists_nothing_def tst submit_peers_def)
qed

text \<open>A nonce that is not too old, while the last one of its owner has not expired.\<close>
lemma CheckAndSaveNonce_live:
  assumes "bd_inv (kv d)" and "0 < X" and "UnixNano (now - X) < n"
    and "\<And>j v e. fmlookup (kv d) (nonceKey j) = Some (v, Some e) \<Longrightarrow> now < e"
  obtains d' where "badger_CheckAndSaveNonce B X now i n d =
      (if \<exists>l. item gob_int (kv d) (nonceKey i) = Some l \<and> n \<le> l then Inl ErrInvalidNonce else Inr (), d')"
    and "bd_inv (kv d')"
    and "\<And>j. fmlookup (kv d') (nonceKey j) = (if j = i \<and> \<not> (\<exists>l. item gob_int (kv d) (nonceKey i) = Some l \<and> n \<le> l)
      then Some (gob.GInt n, Some (now + X)) else fmlookup (kv d) (nonceKey j))"
proof -
  obtain r d' where run: "badger_CheckAndSaveNonce B X now i n d = (r, d')" by (cases "badger_CheckAndSaveNonce B X now i n d")
  have at: "fmlookup (kv (db_At B now d)) (nonceKey j) = fmlookup (kv d) (nonceKey j)" for j
    using assms(4) by (auto simp: At_kv unexpired_def split: option.splits)
  then have at_item: "item gob_int (kv (db_At B now d)) (nonceKey i) = item gob_int (kv d) (nonceKey i)" by (simp add: item_def)
  obtain d2 where save: "setExpiringItem B (nonceKey i) (gob.GInt n) X (db_At B now d) = (Inr (), d2)"
    using expiring_ok by (metis setExpiringItem_def)
  have "\<not> (0 < X \<and> n \<le> UnixNano (time_Add now (- X)))" using assms(3) by (simp add: time_simps)
  then have r: "r = (if \<exists>l. item gob_int (kv d) (nonceKey i) = Some l \<and> n \<le> l then Inl ErrInvalidNonce else Inr ())"
    using arg_cong [OF run, of fst] save assms(2) typed_items(1) [OF At_typed [OF bd_inv_typed [OF assms(1)]]]
    by (auto simp: badger_CheckAndSaveNonce_def Update_fst at_item split: option.splits)
  have inv: "bd_inv (kv d')" using CheckAndSaveNonce_keeps [OF assms(1) run] by blast
  have look: "fmlookup (kv d') (nonceKey j) = (if j = i \<and> r = Inr () then Some (gob.GInt n, Some (now + X)) else fmlookup (kv d) (nonceKey j))" for j
    using assms(1) run by (cases rule: CheckAndSaveNonce_kv) (use assms(2) at in simp_all)
  show thesis by (rule that [of d']) (use run r inv look in auto)
qed

lemma passes_Nonce:
  assumes "kv d = fmempty" and "suite_clock clk"
  shows "passes (badger_Store B ExpireNonce) (test_Nonce clk) d"
proof -
  have c: "clk 0 \<le> clk k" "clk k < clk 0 + minute" "3 * hour < clk 0" "clk 0 < 2 ^ 62" for k
    using assms(2) by (auto simp: suite_clock_def mono_def)
  have X: "0 < ExpireNonce" by (simp add: interval_values)
  have wide: "UnixNano (clk k) = clk k" "UnixNano (clk k - ExpireNonce) = clk k - ExpireNonce"
      "int64 (clk k + 1) = clk k + 1" "int64 (clk k - 1) = clk k - 1" "int64 (clk k + 100) = clk k + 100"
      "clk k < clk j + ExpireNonce" "clk k - ExpireNonce < clk j" "clk k - ExpireNonce \<le> clk j" "clk k - ExpireNonce < clk j - 1" "clk k - ExpireNonce < clk j + 100"
      "UnixNano (time_Add (clk 0) (- 2 * hour)) = clk 0 - 2 * hour"
      "clk 0 - 2 * hour \<le> clk k - ExpireNonce" for k j
    using c(1,2) [of k] c(1,2) [of j] c(3,4)
    by (simp_all add: UnixNano_def int64_id min_int64_def max_int64_def hour_def minute_def second_def interval_values time_simps)
  have old: "badger_CheckAndSaveNonce B ExpireNonce (clk 1) ''abc'' (clk 0 - 2 * hour) d = (Inl ErrInvalidNonce, d)"
    using X by (simp add: badger_CheckAndSaveNonce_def time_simps wide)
  note live = CheckAndSaveNonce_live [OF _ X]
  obtain d1 where d1: "badger_CheckAndSaveNonce B ExpireNonce (clk 3) ''abc'' (clk 2) d = (Inr (), d1)" "bd_inv (kv d1)"
      "\<And>j. fmlookup (kv d1) (nonceKey j) = (if j = ''abc'' then Some (gob.GInt (clk 2), Some (clk 3 + ExpireNonce)) else None)"
    by (rule live [of d "clk 3" "clk 2" "''abc''"]) (auto simp: assms(1) bd_inv_empty wide item_def)
  obtain d2 where d2: "badger_CheckAndSaveNonce B ExpireNonce (clk 4) ''abc'' (clk 2 + 1) d1 = (Inr (), d2)" "bd_inv (kv d2)"
      "\<And>j. fmlookup (kv d2) (nonceKey j) = (if j = ''abc'' then Some (gob.GInt (clk 2 + 1), Some (clk 4 + ExpireNonce)) else None)"
    by (rule live [of d1 "clk 4" "clk 2 + 1" "''abc''"]) (auto simp: d1 wide item_def split: if_splits)
  obtain d3 where d3: "badger_CheckAndSaveNonce B ExpireNonce (clk 5) ''abc'' (clk 2 - 1) d2 = (Inl ErrInvalidNonce, d3)" "bd_inv (kv d3)"
      "\<And>j. fmlookup (kv d3) (nonceKey j) = fmlookup (kv d2) (nonceKey j)"
    by (rule live [of d2 "clk 5" "clk 2 - 1" "''abc''"]) (auto simp: d2 wide item_def split: if_splits)
  obtain d4 where d4: "badger_CheckAndSaveNonce B ExpireNonce (clk 6) ''abc'' (clk 2) d3 = (Inl ErrInvalidNonce, d4)" "bd_inv (kv d4)"
      "\<And>j. fmlookup (kv d4) (nonceKey j) = fmlookup (kv d2) (nonceKey j)"
    by (rule live [of d3 "clk 6" "clk 2" "''abc''"]) (auto simp: d2 d3 wide item_def split: if_splits)
  obtain d5 where "badger_CheckAndSaveNonce B ExpireNonce (clk 7) ''def'' (clk 2 + 100) d4 = (Inr (), d5)"
    by (rule live [of d4 "clk 7" "clk 2 + 100" "''def''"]) (auto simp: d2 d4 wide item_def split: if_splits)
  then show ?thesis
    unfolding test_Nonce_def Let_def wide
    by (simp add: badger_Store_def old d1 d2 d3 d4 fails_def succeeds_def error_in_def del: One_nat_def)
qed

end

section \<open>Properties\<close>

text \<open>
  C17: the in-memory driver conforms. Whenever the suite runs, in any order of its maps, every test of the suite passes on a new
  in-memory store.
\<close>
theorem memory_store_conforms:
  assumes "suite_clock clk" and "\<And>k. range_order (ords k)" and "\<And>k. range_order (statOrds k)"
  shows "list_all (\<lambda>test. passes mem_Store test mem_New) (TestSuite clk ords statOrds)"
  by (simp add: TestSuite_def mem_passes_Nonce mem_passes_Node mem_passes_Balance mem_passes_NodePeers mem_passes_Hosts
      mem_passes_Spender mem_passes_SpenderBalance assms)

definition demo_clock :: "nat \<Rightarrow> time" where
  "demo_clock k = 1500000000000000000 + int (min k 50)"

lemma demo_clock: "suite_clock demo_clock"
  by (auto simp: suite_clock_def demo_clock_def mono_def minute_def hour_def second_def)

theorem memory_store_conforms_witness:
  "passes mem_Store (test_Hosts demo_clock (\<lambda>_. sorted_list_of_fset) (\<lambda>_. sorted_list_of_fset)) mem_New"
  using memory_store_conforms [OF demo_clock range_order_sorted range_order_sorted] by (simp add: TestSuite_def)

text \<open>
  C18: the persistent driver conforms. While transactions do not conflict, every test of the suite passes on an empty database, whenever it runs.
\<close>
theorem persistent_store_conforms:
  assumes "badger_quiet B kv clock" and "kv d = fmempty" and "suite_clock clk" and "\<And>k. range_order (ords k)"
  shows "list_all (\<lambda>test. passes (badger_Store B ExpireNonce) test d) (TestSuite clk ords statOrds)"
proof -
  note tests = badger_quiet.passes_Nonce [OF assms(1)] badger_quiet.passes_Node [OF assms(1)] badger_quiet.passes_Balance [OF assms(1)]
    badger_quiet.passes_NodePeers [OF assms(1)] badger_quiet.passes_Hosts [OF assms(1)] badger_quiet.passes_Spender [OF assms(1)]
    badger_quiet.passes_SpenderBalance [OF assms(1)]
  show ?thesis by (simp add: TestSuite_def tests assms(2-))
qed

theorem persistent_store_conforms_witness:
  "passes (badger_Store map_badger ExpireNonce) (test_Nonce demo_clock) (0, fmempty)"
proof -
  have "snd (0 :: time, fmempty :: kv_map) = fmempty" by simp
  from persistent_store_conforms [OF map_badger.badger_quiet_axioms this demo_clock range_order_sorted] show ?thesis
    by (simp add: TestSuite_def)
qed

end
