(* ===== verification/Json_Rpc.thy ===== *)
theory Json_Rpc
  imports Error_Messages Go_Encoding
begin

text \<open>
  JSON-RPC 2.0 (\<^verbatim>\<open>jsonrpc2\<close>): messages, the registry of methods found by reflection, the
  server that executes a request message, the client that makes one, a call without
  transport, and the HTTP endpoint.

  A raw JSON text inside a message is the JSON value it holds, or \<open>None\<close> when it is empty; the
  ID of a message is kept as text, because it is compared as text. The Go values a method
  takes and returns are of type \<open>'v\<close>; how the library decodes, encodes and zeroes them is the
  parameter \<open>reflection\<close>. A method runs on a state \<open>'s\<close>, and its result is on the left only
  when it panics.
\<close>

section \<open>Messages\<close>

definition Version :: string where
  "Version = ''2.0''"

definition ErrCodeParse :: int where "ErrCodeParse = - 32700"
definition ErrCodeInvalidRequest :: int where "ErrCodeInvalidRequest = - 32600"
definition ErrCodeMethodNotFound :: int where "ErrCodeMethodNotFound = - 32601"
definition ErrCodeInvalidParams :: int where "ErrCodeInvalidParams = - 32602"
definition ErrCodeInternal :: int where "ErrCodeInternal = - 32603"
definition ErrCodeServer :: int where "ErrCodeServer = - 32000"

lemmas error_codes = ErrCodeParse_def ErrCodeInvalidRequest_def ErrCodeMethodNotFound_def
  ErrCodeInvalidParams_def ErrCodeInternal_def ErrCodeServer_def

record Request =
  rq_Method :: string
  rq_Params :: "json option"

record errResponse =
  er_Code :: int
  er_Message :: string
  er_Data :: "json option"

record Response =
  rs_Result :: "json option"
  rs_Error :: "errResponse option"

record Message =
  msg_Request :: "Request option"
  msg_Response :: "Response option"
  msg_ID :: string
  msg_Version :: string

text \<open>The result is left as it is when the response holds none.\<close>
definition UnmarshalResult :: "(json \<Rightarrow> 'r result) \<Rightarrow> Response \<Rightarrow> 'r option result" where
  "UnmarshalResult decode resp =
     (case rs_Error resp of
        Some e \<Rightarrow> Inl (ErrResponse (er_Code e) (er_Message e))
      | None \<Rightarrow>
          (case rs_Result resp of
             None \<Rightarrow> Inr None
           | Some j \<Rightarrow>
               (if j = JNull then Inr None
                else case decode j of Inl e \<Rightarrow> Inl e | Inr r \<Rightarrow> Inr (Some r))))"

text \<open>
  The same on a message, as \<^verbatim>\<open>Call\<close> does it: without a response part the embedded pointer is nil.
\<close>
definition message_result :: "(json \<Rightarrow> 'r result) \<Rightarrow> Message \<Rightarrow> 'r option result" where
  "message_result decode msg =
     (case msg_Response msg of
        None \<Rightarrow> Inl (GoPanic ''invalid memory address or nil pointer dereference'')
      | Some resp \<Rightarrow> UnmarshalResult decode resp)"

section \<open>The client\<close>

text \<open>The counter is an \<^verbatim>\<open>int32\<close> and wraps.\<close>
type_synonym client = "32 word"

definition NextID :: "client \<Rightarrow> int \<times> client" where
  "NextID c = (let c1 = c + 1 in (sint c1, c1))"

text \<open>Without arguments the variadic slice is nil, which JSON prints as null.\<close>
definition raw_params :: "json list \<Rightarrow> json" where
  "raw_params params = (if params = [] then JNull else JArr params)"

definition client_Request :: "string \<Rightarrow> json list \<Rightarrow> client \<Rightarrow> Message \<times> client" where
  "client_Request method params c =
     (let (i, c1) = NextID c
      in (\<lparr>msg_Request = Some \<lparr>rq_Method = method, rq_Params = Some (raw_params params)\<rparr>,
            msg_Response = None, msg_ID = json_Marshal (JNum i), msg_Version = Version\<rparr>, c1))"

section \<open>Methods by reflection\<close>

text \<open>A type has a name and the path of its package, both empty for unnamed types, or is a pointer.\<close>
datatype go_type = GoNamed string string | GoPtr go_type

definition typeOfError :: go_type where
  "typeOfError = GoNamed ''error'' ''''"

definition typeOfContext :: go_type where
  "typeOfContext = GoNamed ''Context'' ''context''"

definition isExported :: "string \<Rightarrow> bool" where
  "isExported name \<longleftrightarrow> name \<noteq> '''' \<and> is_upper (hd name)"

fun isExportedOrBuiltin :: "go_type \<Rightarrow> bool" where
  "isExportedOrBuiltin (GoPtr t) = isExportedOrBuiltin t"
| "isExportedOrBuiltin (GoNamed name pkgPath) \<longleftrightarrow> isExported name \<or> pkgPath = ''''"

text \<open>The types of the arguments after the receiver, whether one is a context, and whether all are valid.\<close>
fun arg_types_loop :: "go_type list \<Rightarrow> go_type list \<Rightarrow> bool \<Rightarrow> go_type list \<times> bool \<times> bool" where
  "arg_types_loop [] argTypes hasCtx = (argTypes, hasCtx, True)"
| "arg_types_loop (argType # rest) argTypes hasCtx =
     (if \<not> isExportedOrBuiltin argType then ([], hasCtx, False)
      else if argType = typeOfContext then arg_types_loop rest argTypes True
      else arg_types_loop rest (argTypes @ [argType]) hasCtx)"

definition methodArgTypes :: "go_type list \<Rightarrow> go_type list \<times> bool \<times> bool" where
  "methodArgTypes ins = arg_types_loop (drop 1 ins) [] False"

fun methodErrPos :: "go_type list \<Rightarrow> int \<times> bool" where
  "methodErrPos [a] = (if a = typeOfError then (0, True) else (- 1, True))"
| "methodErrPos [a, b] = (if b = typeOfError then (1, True) else (- 1, False))"
| "methodErrPos _ = (- 1, False)"

text \<open>What a method returns: a value, or an error that may be nil.\<close>
datatype 'v reply = ReplyValue 'v | ReplyError "go_error option"

record ('v, 'c, 's) go_method =
  gm_Name :: string
  gm_PkgPath :: string
  gm_In :: "go_type list"
  gm_Out :: "go_type list"
  gm_Func :: "'c option \<Rightarrow> 'v list \<Rightarrow> 's \<Rightarrow> 'v reply list result \<times> 's"

record ('v, 'c, 's) receiver =
  rc_TypeName :: string
  rc_Methods :: "('v, 'c, 's) go_method list"

record ('v, 'c, 's) Method =
  me_Method :: "('v, 'c, 's) go_method"
  me_ArgTypes :: "go_type list"
  me_ErrPos :: int
  me_HasCtx :: bool

definition mk_Method :: "('v, 'c, 's) go_method \<Rightarrow> ('v, 'c, 's) Method" where
  "mk_Method method =
     \<lparr>me_Method = method, me_ArgTypes = fst (methodArgTypes (gm_In method)),
      me_ErrPos = fst (methodErrPos (gm_Out method)), me_HasCtx = fst (snd (methodArgTypes (gm_In method)))\<rparr>"

definition MethodByName :: "('v, 'c, 's) receiver \<Rightarrow> string \<Rightarrow> ('v, 'c, 's) Method result" where
  "MethodByName receiver name =
     (if \<not> isExported (rc_TypeName receiver)
      then Inl (ErrNew (''receiver must be exported: '' @ rc_TypeName receiver))
      else case find (\<lambda>method. gm_Name method = name) (rc_Methods receiver) of
             None \<Rightarrow> Inl (ErrNew (''method must be exported: '' @ name))
           | Some method \<Rightarrow>
               (if gm_PkgPath method \<noteq> '''' then Inl (ErrNew (''method must be exported: '' @ name))
                else if \<not> snd (snd (methodArgTypes (gm_In method)))
                then Inl (ErrNew (''method args must be exported in method: '' @ gm_Name method))
                else if \<not> snd (methodErrPos (gm_Out method))
                then Inl (ErrNew (''unsupported return values in method: '' @ gm_Name method))
                else Inr (mk_Method method)))"

primrec methods_loop ::
  "('v, 'c, 's) go_method list \<Rightarrow> (string, ('v, 'c, 's) Method) fmap \<Rightarrow> (string, ('v, 'c, 's) Method) fmap result" where
  "methods_loop [] methods = Inr methods"
| "methods_loop (method # rest) methods =
     (if gm_PkgPath method \<noteq> '''' then methods_loop rest methods
      else if \<not> snd (snd (methodArgTypes (gm_In method))) then methods_loop rest methods
      else if \<not> snd (methodErrPos (gm_Out method))
      then Inl (ErrNew (''unsupported return values in method: '' @ gm_Name method))
      else methods_loop rest (fmupd (gm_Name method) (mk_Method method) methods))"

definition Methods :: "('v, 'c, 's) receiver \<Rightarrow> (string, ('v, 'c, 's) Method) fmap result" where
  "Methods receiver =
     (if \<not> isExported (rc_TypeName receiver)
      then Inl (ErrNew (''receiver must be exported: '' @ rc_TypeName receiver))
      else methods_loop (rc_Methods receiver) fmempty)"

section \<open>Calling a method\<close>

record 'v reflection =
  rf_Decode :: "go_type \<Rightarrow> json \<Rightarrow> 'v result"
  rf_Zero :: "go_type \<Rightarrow> 'v"
  rf_Marshal :: "'v \<Rightarrow> json result"

fun is_ptr :: "go_type \<Rightarrow> bool" where
  "is_ptr (GoPtr _) = True"
| "is_ptr (GoNamed _ _) = False"

text \<open>
  The loop over the elements of the array. The pointer that holds an argument is never nil, so a JSON null is
  no missing value: it decodes as whatever the type makes of it.
\<close>
fun parse_args ::
  "'v reflection \<Rightarrow> nat \<Rightarrow> json list \<Rightarrow> go_type list \<Rightarrow> 'v list \<Rightarrow> 'v list result" where
  "parse_args rf i (x # xs) types args =
     (if length types \<le> i
      then Inl (InvalidParamsError (''too many arguments, want at most '' @ nat_digits (length types)))
      else case rf_Decode rf (types ! i) x of
             Inl e \<Rightarrow> Inl (InvalidParamsError (''invalid argument '' @ nat_digits i @ '': '' @ error_text e))
           | Inr v \<Rightarrow> parse_args rf (i + 1) xs types (args @ [v]))"
| "parse_args rf i [] types args = Inr args"

text \<open>Missing arguments at the end are nil when they are pointers.\<close>
fun fill_args :: "'v reflection \<Rightarrow> nat \<Rightarrow> go_type list \<Rightarrow> 'v list \<Rightarrow> 'v list result" where
  "fill_args rf i (t # ts) args =
     (if \<not> is_ptr t then Inl (InvalidParamsError (''missing value for required argument '' @ nat_digits i))
      else fill_args rf (i + 1) ts (args @ [rf_Zero rf t]))"
| "fill_args rf i [] args = Inr args"

definition parsePositionalArguments :: "'v reflection \<Rightarrow> json option \<Rightarrow> go_type list \<Rightarrow> 'v list result" where
  "parsePositionalArguments rf rawArgs types =
     (case rawArgs of
        None \<Rightarrow> Inr []
      | Some JNull \<Rightarrow> Inr []
      | Some (JArr xs) \<Rightarrow>
          (case parse_args rf 0 xs types [] of
             Inl e \<Rightarrow> Inl e
           | Inr args \<Rightarrow> fill_args rf (length args) (drop (length args) types) args)
      | Some _ \<Rightarrow> Inl (InvalidParamsError ''non-array args''))"

text \<open>
  \<^verbatim>\<open>Method.Call\<close>: the context is passed first, and the library panics when the arguments do not
  have the types of the parameters. The value of a nil interface is \<open>None\<close>.
\<close>
definition method_Call ::
  "('v, 'c, 's) Method \<Rightarrow> 'c \<Rightarrow> 'v list \<Rightarrow> 's \<Rightarrow> 'v option result \<times> 's" where
  "method_Call m ctx args s =
     (if length args \<noteq> length (me_ArgTypes m)
      then (Inl (ErrNew (''invalid number of args: expected '' @ nat_digits (length (me_ArgTypes m)) @
              '', got '' @ nat_digits (length args))), s)
      else if (if me_HasCtx m then [typeOfContext] else []) @ me_ArgTypes m \<noteq> drop 1 (gm_In (me_Method m))
      then (Inl (GoPanic ''reflect: Call with wrong argument types''), s)
      else
        (case gm_Func (me_Method m) (if me_HasCtx m then Some ctx else None) args s of
           (Inl e, s1) \<Rightarrow> (Inl e, s1)
         | (Inr reply, s1) \<Rightarrow>
             (if reply = [] then (Inr None, s1)
              else
                (let err = (if 0 \<le> me_ErrPos m
                            then (case reply ! nat (me_ErrPos m) of ReplyError e \<Rightarrow> e | ReplyValue _ \<Rightarrow> None)
                            else None)
                 in case err of
                      Some e \<Rightarrow> (Inl e, s1)
                    | None \<Rightarrow> (Inr (case hd reply of ReplyValue v \<Rightarrow> Some v | ReplyError _ \<Rightarrow> None), s1)))))"

definition CallJSON ::
  "'v reflection \<Rightarrow> ('v, 'c, 's) Method \<Rightarrow> 'c \<Rightarrow> json option \<Rightarrow> 's \<Rightarrow> 'v option result \<times> 's" where
  "CallJSON rf m ctx rawArgs s =
     (case parsePositionalArguments rf rawArgs (me_ArgTypes m) of
        Inl e \<Rightarrow> (Inl e, s)
      | Inr args \<Rightarrow> method_Call m ctx args s)"

section \<open>The server\<close>

type_synonym ('v, 'c, 's) registry = "(string, ('v, 'c, 's) Method) fmap"

definition lower :: "char \<Rightarrow> char" where
  "lower c = (if is_upper c then char_of (code c + 32) else c)"

definition rpc_name :: "string \<Rightarrow> string" where
  "rpc_name name = lower (hd name) # tl name"

text \<open>The loop over the methods of a receiver, in the order of the visit.\<close>
fun register_loop ::
  "string \<Rightarrow> string list \<Rightarrow> (string, ('v, 'c, 's) Method) fmap \<Rightarrow> string list \<Rightarrow> ('v, 'c, 's) registry \<Rightarrow> ('v, 'c, 's) registry" where
  "register_loop pre onlyMethods methods [] registry = registry"
| "register_loop pre onlyMethods methods (name # names) registry =
     (if onlyMethods \<noteq> [] \<and> rpc_name name \<notin> set onlyMethods
      then register_loop pre onlyMethods methods names registry
      else register_loop pre onlyMethods methods names
             (fmupd (pre @ rpc_name name) (the (fmlookup methods name)) registry))"

definition Register ::
  "iter_order \<Rightarrow> string \<Rightarrow> ('v, 'c, 's) receiver \<Rightarrow> string list \<Rightarrow> ('v, 'c, 's) registry
     \<Rightarrow> unit result \<times> ('v, 'c, 's) registry" where
  "Register ord pre receiver onlyMethods registry =
     (case Methods receiver of
        Inl e \<Rightarrow> (Inl e, registry)
      | Inr methods \<Rightarrow>
          (if fmdom methods = {||} then (Inl ErrNoPublicMethods, registry)
           else (Inr (), register_loop pre onlyMethods methods (ord (fmdom methods)) registry)))"

definition RegisterMethod ::
  "string \<Rightarrow> ('v, 'c, 's) receiver \<Rightarrow> string \<Rightarrow> ('v, 'c, 's) registry \<Rightarrow> unit result \<times> ('v, 'c, 's) registry" where
  "RegisterMethod rpcName receiver methodName registry =
     (case MethodByName receiver methodName of
        Inl e \<Rightarrow> (Inl e, registry)
      | Inr method \<Rightarrow> (Inr (), fmupd rpcName method registry))"

definition error_response :: "string \<Rightarrow> int \<Rightarrow> string \<Rightarrow> Message" where
  "error_response i c m =
     \<lparr>msg_Request = None,
      msg_Response = Some \<lparr>rs_Result = Some JNull, rs_Error = Some \<lparr>er_Code = c, er_Message = m, er_Data = None\<rparr>\<rparr>,
      msg_ID = i, msg_Version = Version\<rparr>"

definition result_response :: "string \<Rightarrow> json \<Rightarrow> Message" where
  "result_response i j =
     \<lparr>msg_Request = None, msg_Response = Some \<lparr>rs_Result = Some j, rs_Error = None\<rparr>, msg_ID = i, msg_Version = Version\<rparr>"

text \<open>\<^verbatim>\<open>json.Marshal\<close> returns nil with an error, which empties the result.\<close>
definition no_result :: "Message \<Rightarrow> Message" where
  "no_result r = r\<lparr>msg_Response := map_option (\<lambda>resp. resp\<lparr>rs_Result := None\<rparr>) (msg_Response r)\<rparr>"

text \<open>The text of raw parameters.\<close>
definition raw_text :: "json option \<Rightarrow> string" where
  "raw_text raw = (case raw of None \<Rightarrow> '''' | Some j \<Rightarrow> json_Marshal j)"

definition Handle ::
  "'v reflection \<Rightarrow> ('v, 'c, 's) registry \<Rightarrow> 'c \<Rightarrow> Message \<Rightarrow> 's \<Rightarrow> Message result \<times> 's" where
  "Handle rf registry ctx req s =
     (case msg_Request req of
        None \<Rightarrow> (Inr (error_response (msg_ID req) ErrCodeInvalidRequest ''server received misformed request''), s)
      | Some rq \<Rightarrow>
          (case fmlookup registry (rq_Method rq) of
             None \<Rightarrow> (Inr (error_response (msg_ID req) ErrCodeMethodNotFound (''method not found: '' @ rq_Method rq)), s)
           | Some m \<Rightarrow>
               (case parsePositionalArguments rf (rq_Params rq) (me_ArgTypes m) of
                  Inl e \<Rightarrow>
                    (Inr (error_response (msg_ID req) ErrCodeInvalidParams
                       (''invalid params: '' @ rq_Method rq @ '' '' @ raw_text (rq_Params rq))), s)
                | Inr args \<Rightarrow>
                    (case method_Call m ctx args s of
                       (Inl err, s1) \<Rightarrow>
                         (if is_panic err then (Inl err, s1)
                          else (Inr (error_response (msg_ID req) ErrCodeInternal (error_text err)), s1))
                     | (Inr None, s1) \<Rightarrow> (Inr (result_response (msg_ID req) JNull), s1)
                     | (Inr (Some res), s1) \<Rightarrow>
                         (case rf_Marshal rf res of
                            Inr j \<Rightarrow> (Inr (result_response (msg_ID req) j), s1)
                          | Inl err \<Rightarrow>
                              (Inr (no_result (error_response (msg_ID req) ErrCodeServer
                                 (''failed to encode response: '' @ error_text err))), s1))))))"

section \<open>Calls without transport\<close>

definition Local_Call ::
  "'v reflection \<Rightarrow> ('v, 'c, 's) registry \<Rightarrow> 'c \<Rightarrow> (json \<Rightarrow> 'r result) \<Rightarrow> string \<Rightarrow> json list \<Rightarrow> client \<times> 's
     \<Rightarrow> 'r option result \<times> client \<times> 's" where
  "Local_Call rf registry ctx decode method params cs =
     (let (req, c1) = client_Request method params (fst cs)
      in case Handle rf registry ctx req (snd cs) of
           (Inl e, s1) \<Rightarrow> (Inl e, (c1, s1))
         | (Inr resp, s1) \<Rightarrow> (message_result decode resp, (c1, s1)))"

section \<open>Calls over HTTP\<close>

text \<open>
  What the endpoint sees of a request: its method, the declared length, the query and what decoding the body
  (cut off at the limit) gave. It answers with nothing, an error status or a message.
\<close>
record http_request =
  hr_Method :: string
  hr_ContentLength :: int
  hr_RawQuery :: string
  hr_ReadMessage :: "int option \<Rightarrow> Message result"

datatype http_reply = HTTPNothing | HTTPError string int | HTTPMessage Message

definition ServeHTTP ::
  "'v reflection \<Rightarrow> ('v, 'c, 's) registry \<Rightarrow> int \<Rightarrow> 'c \<Rightarrow> http_request \<Rightarrow> (Message \<Rightarrow> unit result) \<Rightarrow> 's
     \<Rightarrow> http_reply result \<times> 's" where
  "ServeHTTP rf registry maxContentLength ctx r write s =
     (if hr_Method r = ''GET'' \<and> hr_ContentLength r = 0 \<and> hr_RawQuery r = '''' then (Inr HTTPNothing, s)
      else if hr_Method r \<noteq> ''POST'' then (Inr (HTTPError ''method not allowed'' 405), s)
      else if 0 < maxContentLength \<and> maxContentLength < hr_ContentLength r
      then (Inr (HTTPError ''request too large'' 413), s)
      else
        (case hr_ReadMessage r (if 0 < maxContentLength then Some maxContentLength else None) of
           Inl e \<Rightarrow> (Inr (HTTPError (''failed to parse request: '' @ error_text e) 500), s)
         | Inr msg \<Rightarrow>
             (case Handle rf registry ctx msg s of
                (Inl e, s1) \<Rightarrow> (Inl e, s1)
              | (Inr resp, s1) \<Rightarrow>
                  (case write resp of
                     Inl e \<Rightarrow> (Inr (HTTPError (error_text e) 500), s1)
                   | Inr _ \<Rightarrow> (Inr (HTTPMessage resp), s1)))))"

text \<open>What the HTTP client returned for a request.\<close>
record http_response =
  hp_StatusCode :: int
  hp_ContentLength :: int
  hp_Decode :: "int option \<Rightarrow> Message result"

definition HTTPService_Call ::
  "int \<Rightarrow> (Message \<Rightarrow> http_response result) \<Rightarrow> (json \<Rightarrow> 'r result) \<Rightarrow> string \<Rightarrow> json list \<Rightarrow> client
     \<Rightarrow> 'r option result \<times> client" where
  "HTTPService_Call maxContentLength httpDo decode method params c =
     (let (msg, c1) = client_Request method params c
      in case httpDo msg of
           Inl e \<Rightarrow> (Inl e, c1)
         | Inr resp \<Rightarrow>
             (if hp_StatusCode resp < 200 \<or> 300 \<le> hp_StatusCode resp
              then (Inl (HTTPRequestError (''bad status code: '' @ int_digits (hp_StatusCode resp))), c1)
              else if 0 < maxContentLength \<and> maxContentLength < hp_ContentLength resp
              then (Inl (HTTPRequestError ''response too large''), c1)
              else
                (case hp_Decode resp (if 0 < maxContentLength then Some maxContentLength else None) of
                   Inl e \<Rightarrow> (Inl e, c1)
                 | Inr respMsg \<Rightarrow>
                     (case msg_Response respMsg of
                        None \<Rightarrow> (Inl (HTTPRequestError ''missing response in RPC message''), c1)
                      | Some r \<Rightarrow> (UnmarshalResult decode r, c1)))))"

section \<open>Dispatch\<close>

lemma response_fields [simp]:
  "msg_ID (error_response i c m) = i" "msg_Version (error_response i c m) = Version"
  "msg_Request (error_response i c m) = None" "msg_Response (error_response i c m) \<noteq> None"
  "msg_ID (result_response i j) = i" "msg_Version (result_response i j) = Version"
  "msg_Request (result_response i j) = None" "msg_Response (result_response i j) \<noteq> None"
  "msg_ID (no_result r) = msg_ID r" "msg_Version (no_result r) = msg_Version r"
  "msg_Request (no_result r) = msg_Request r" "msg_Response (no_result r) = None \<longleftrightarrow> msg_Response r = None"
  by (simp_all add: error_response_def result_response_def no_result_def)

text \<open>The answer of the server in three cases: refused before the call, called, and panicked.\<close>
lemma Handle_cases:
  assumes "Handle rf registry ctx req s = (r, s')"
  obtains (refused) c m where "r = Inr (error_response (msg_ID req) c m)" "s' = s"
      "c \<in> {ErrCodeInvalidRequest, ErrCodeMethodNotFound, ErrCodeInvalidParams}"
  | (called) rq m args q where "msg_Request req = Some rq" "fmlookup registry (rq_Method rq) = Some m"
      "parsePositionalArguments rf (rq_Params rq) (me_ArgTypes m) = Inr args" "method_Call m ctx args s = (q, s')"
      "r = (case q of
              Inl err \<Rightarrow> (if is_panic err then Inl err else Inr (error_response (msg_ID req) ErrCodeInternal (error_text err)))
            | Inr None \<Rightarrow> Inr (result_response (msg_ID req) JNull)
            | Inr (Some res) \<Rightarrow>
                (case rf_Marshal rf res of
                   Inr j \<Rightarrow> Inr (result_response (msg_ID req) j)
                 | Inl err \<Rightarrow> Inr (no_result (error_response (msg_ID req) ErrCodeServer
                     (''failed to encode response: '' @ error_text err)))))"
proof (cases "msg_Request req")
  case None
  then show thesis using assms by (auto simp: Handle_def intro!: that(1))
next
  case (Some rq)
  show thesis
  proof (cases "fmlookup registry (rq_Method rq)")
    case None
    then show thesis using assms Some by (auto simp: Handle_def intro!: that(1))
  next
    case m: (Some m)
    show thesis
    proof (cases "parsePositionalArguments rf (rq_Params rq) (me_ArgTypes m)")
      case (Inl e)
      then show thesis using assms Some m by (auto simp: Handle_def intro!: that(1))
    next
      case (Inr args)
      obtain q s1 where q: "method_Call m ctx args s = (q, s1)" by (cases "method_Call m ctx args s")
      then have "s1 = s'"
        using assms Some m Inr by (auto simp: Handle_def split: sum.splits option.splits if_splits)
      then show thesis
        using that(2) [OF Some m Inr] q assms Some m Inr
        by (auto simp: Handle_def split: sum.splits option.splits if_splits)
    qed
  qed
qed

section \<open>Registration\<close>

text \<open>What reflection says of methods: those without a package path have upper-case names.\<close>
definition reflected :: "('v, 'c, 's) receiver \<Rightarrow> bool" where
  "reflected receiver \<longleftrightarrow> (\<forall>method\<in>set (rc_Methods receiver). gm_PkgPath method = '''' \<longrightarrow> isExported (gm_Name method))"

lemma lower_inject: "is_upper c \<Longrightarrow> is_upper d \<Longrightarrow> lower c = lower d \<Longrightarrow> c = d"
  by (simp add: lower_def is_upper_def code_def char_of_eq_iff of_char_eq_iff take_bit_eq_mod)

lemma rpc_name_inject:
  assumes "isExported a" and "isExported b" and "rpc_name a = rpc_name b"
  shows "a = b"
  using assms lower_inject [of "hd a" "hd b"] by (auto simp: rpc_name_def isExported_def intro: list.expand)

lemma methods_loop_names:
  assumes "methods_loop ms acc = Inr methods" and "\<forall>m\<in>set ms. gm_PkgPath m = '''' \<longrightarrow> isExported (gm_Name m)"
    and "\<forall>name. fmlookup acc name \<noteq> None \<longrightarrow> isExported name"
  shows "fmlookup methods name \<noteq> None \<Longrightarrow> isExported name"
  using assms by (induction ms arbitrary: acc) (fastforce split: if_splits)+

lemma register_loop_other:
  "(\<And>name. name \<in> set names \<Longrightarrow> only = [] \<or> rpc_name name \<in> set only \<Longrightarrow> k \<noteq> pre @ rpc_name name) \<Longrightarrow>
   fmlookup (register_loop pre only methods names registry) k = fmlookup registry k"
  by (induction names arbitrary: registry) auto

lemma register_loop_selected:
  assumes "\<forall>name\<in>set names. isExported name" and "name \<in> set names" and "only = [] \<or> rpc_name name \<in> set only"
  shows "fmlookup (register_loop pre only methods names registry) (pre @ rpc_name name) = Some (the (fmlookup methods name))"
  using assms(1,2)
proof (induction names arbitrary: registry)
  case Nil
  then show ?case by simp
next
  case (Cons n names)
  show ?case
  proof (cases "name \<in> set names")
    case True
    then show ?thesis using Cons by simp
  next
    case False
    then have "n = name" using Cons.prems(2) by simp
    have "pre @ rpc_name name \<noteq> pre @ rpc_name x" if "x \<in> set names" for x
      using Cons.prems(1) that False rpc_name_inject [of name x] \<open>n = name\<close> by auto
    then show ?thesis
      using assms(3) \<open>n = name\<close> by (auto simp: register_loop_other)
  qed
qed

text \<open>Where registration puts the methods it selects.\<close>
lemma Register_selected:
  assumes "range_order ord" and "reflected receiver" and "Methods receiver = Inr methods"
    and "Register ord pre receiver only registry = (Inr u, registry')"
    and name: "fmlookup methods name \<noteq> None" and sel: "only = [] \<or> rpc_name name \<in> set only"
  shows "fmlookup registry' (pre @ rpc_name name) = fmlookup methods name"
proof -
  have reg: "registry' = register_loop pre only methods (ord (fmdom methods)) registry"
    using assms(3,4) by (auto simp: Register_def split: if_splits)
  have loop: "methods_loop (rc_Methods receiver) fmempty = Inr methods"
    using assms(3) by (auto simp: Methods_def split: if_splits)
  have exported: "\<forall>name\<in>set (ord (fmdom methods)). isExported name"
    using methods_loop_names [OF loop] assms(2) range_order_mem [OF assms(1), of _ methods] by (auto simp: reflected_def)
  have "name \<in> set (ord (fmdom methods))" using name by (simp add: range_order_mem [OF assms(1)])
  from register_loop_selected [OF exported this sel, of pre methods registry] name
  show ?thesis by (auto simp: reg)
qed

section \<open>Calls without transport\<close>

lemma Local_Call_method:
  assumes "fmlookup registry method = Some m"
    and "parsePositionalArguments rf (Some (raw_params params)) (me_ArgTypes m) = Inr args"
    and "method_Call m ctx args s = (q, s')"
    and "\<And>v. q = Inr (Some v) \<Longrightarrow> \<exists>j. rf_Marshal rf v = Inr j \<and> j \<noteq> JNull \<and> decode j = Inr (view v)"
  shows "Local_Call rf registry ctx decode method params (c, s) =
    (case q of
       Inr v \<Rightarrow> Inr (map_option view v)
     | Inl e \<Rightarrow> (if is_panic e then Inl e else Inl (ErrResponse ErrCodeInternal (error_text e))), (c + 1, s'))"
proof (cases q)
  case (Inl e)
  then show ?thesis
    using assms(1-3)
    by (simp add: Local_Call_def client_Request_def NextID_def Handle_def message_result_def error_response_def
        UnmarshalResult_def Let_def)
next
  case (Inr v)
  show ?thesis
  proof (cases v)
    case None
    then show ?thesis
      using assms(1-3) Inr
      by (simp add: Local_Call_def client_Request_def NextID_def Handle_def message_result_def result_response_def
          UnmarshalResult_def Let_def)
  next
    case (Some a)
    then obtain j where "rf_Marshal rf a = Inr j" "j \<noteq> JNull" "decode j = Inr (view a)" using assms(4) Inr by blast
    then show ?thesis
      using assms(1-3) Inr Some
      by (simp add: Local_Call_def client_Request_def NextID_def Handle_def message_result_def result_response_def
          UnmarshalResult_def Let_def)
  qed
qed

section \<open>Properties\<close>

text \<open>
  C24: dispatch. Every answer of the server carries the ID of its request and version 2.0, has a response part
  and no request part; and a request touches the state only through a registered method, under its
  name, called once with arguments that parsed: an unknown method, malformed
  parameters or a message without a request change nothing.
\<close>
theorem Handle_dispatch:
  assumes "Handle rf registry ctx req s = (Inr resp, s')"
  shows "msg_ID resp = msg_ID req \<and> msg_Version resp = Version \<and> msg_Request resp = None \<and> msg_Response resp \<noteq> None \<and>
    (s' = s \<or>
     (\<exists>rq m args. msg_Request req = Some rq \<and> fmlookup registry (rq_Method rq) = Some m \<and>
        parsePositionalArguments rf (rq_Params rq) (me_ArgTypes m) = Inr args \<and> s' = snd (method_Call m ctx args s)))"
  using assms
proof (cases rule: Handle_cases)
  case (refused c m)
  then show ?thesis by simp
next
  case (called rq m args q)
  then have "s' = snd (method_Call m ctx args s)" by simp
  moreover have "msg_ID resp = msg_ID req \<and> msg_Version resp = Version \<and> msg_Request resp = None \<and> msg_Response resp \<noteq> None"
    using called(5) by (simp del: not_None_eq split: sum.splits if_splits option.splits)
  ultimately show ?thesis using called(1-3) by blast
qed

text \<open>A counter with one exported method that adds its argument.\<close>
definition counter_add :: "(json, unit, int) go_method" where
  "counter_add = \<lparr>gm_Name = ''Add'', gm_PkgPath = '''', gm_In = [GoPtr (GoNamed ''Counter'' ''main''), GoNamed ''int64'' ''''],
     gm_Out = [GoNamed ''int64'' '''', typeOfError],
     gm_Func = (\<lambda>_ args s. case args of
         [JNum i] \<Rightarrow> (Inr [ReplyValue (JNum (s + i)), ReplyError (if i < 0 then Some (ErrNew ''negative'') else None)], s + i)
       | _ \<Rightarrow> (Inl (GoPanic ''wrong arguments''), s))\<rparr>"

definition counter_reset :: "(json, unit, int) go_method" where
  "counter_reset = \<lparr>gm_Name = ''Reset'', gm_PkgPath = '''', gm_In = [GoPtr (GoNamed ''Counter'' ''main'')],
     gm_Out = [typeOfError], gm_Func = (\<lambda>_ _ s. (Inr [ReplyError None], 0))\<rparr>"

definition counter :: "(json, unit, int) receiver" where
  "counter = \<lparr>rc_TypeName = ''Counter'', rc_Methods = [counter_add, counter_reset]\<rparr>"

definition json_values :: "json reflection" where
  "json_values = \<lparr>rf_Decode = (\<lambda>t j. Inr j), rf_Zero = (\<lambda>t. JNull), rf_Marshal = Inr\<rparr>"

definition counter_registry :: "(json, unit, int) registry" where
  "counter_registry = snd (Register sorted_list_of_fset ''c_'' counter [''add''] fmempty)"

theorem Handle_dispatch_witness:
  "\<exists>resp s'. Handle json_values counter_registry () (fst (client_Request ''c_add'' [JNum 3] 0)) 4 = (Inr resp, s') \<and>
     msg_ID resp = ''1''"
proof -
  define r where "r = Handle json_values counter_registry () (fst (client_Request ''c_add'' [JNum 3] 0)) 4"
  have "is_ok (fst r)" unfolding r_def by code_simp
  then obtain resp where "fst r = Inr resp" by (auto simp: is_ok_iff)
  then have run: "Handle json_values counter_registry () (fst (client_Request ''c_add'' [JNum 3] 0)) 4 = (Inr resp, snd r)"
    unfolding r_def by (metis prod.collapse)
  have "msg_ID (fst (client_Request ''c_add'' [JNum 3] 0)) = ''1''" by code_simp
  then have "msg_ID resp = ''1''" using Handle_dispatch [OF run] by simp
  then show ?thesis using run by blast
qed

text \<open>
  a whitelist is what it says. Registering a receiver with a list of method names adds exactly the exported
  methods on the list, each under the prefix and its name with a lower-case first letter; with no
  list it adds all of them, and entries under other names stay as they were.
\<close>
theorem Register_exposes_exactly:
  assumes "range_order ord" and "reflected receiver" and "Methods receiver = Inr methods"
    and "Register ord pre receiver only registry = (Inr u, registry')"
  shows "(\<forall>name. fmlookup methods name \<noteq> None \<longrightarrow> only = [] \<or> rpc_name name \<in> set only \<longrightarrow>
      fmlookup registry' (pre @ rpc_name name) = fmlookup methods name) \<and>
    (\<forall>k. (\<forall>name. fmlookup methods name \<noteq> None \<longrightarrow> only = [] \<or> rpc_name name \<in> set only \<longrightarrow> k \<noteq> pre @ rpc_name name) \<longrightarrow>
      fmlookup registry' k = fmlookup registry k)"
proof (intro conjI allI impI)
  fix name assume "fmlookup methods name \<noteq> None" and "only = [] \<or> rpc_name name \<in> set only"
  with assms show "fmlookup registry' (pre @ rpc_name name) = fmlookup methods name" by (rule Register_selected)
next
  fix k
  assume "\<forall>name. fmlookup methods name \<noteq> None \<longrightarrow> only = [] \<or> rpc_name name \<in> set only \<longrightarrow> k \<noteq> pre @ rpc_name name"
  moreover have reg: "registry' = register_loop pre only methods (ord (fmdom methods)) registry"
    using assms(3,4) by (auto simp: Register_def split: if_splits)
  ultimately show "fmlookup registry' k = fmlookup registry k"
    unfolding reg by (intro register_loop_other) (metis range_order_mem [OF assms(1)])
qed

theorem Register_exposes_exactly_witness:
  "fmlookup counter_registry ''c_reset'' = None"
proof -
  define methods where "methods = fmupd ''Reset'' (mk_Method counter_reset) (fmupd ''Add'' (mk_Method counter_add) fmempty)"
  have Methods: "Methods counter = Inr methods"
    by (simp add: Methods_def counter_def counter_add_def counter_reset_def methods_def methodArgTypes_def typeOfContext_def
        isExported_def is_upper_def code_def)
  have reflected: "reflected counter"
    by (simp add: reflected_def counter_def counter_add_def counter_reset_def isExported_def is_upper_def code_def)
  have "Register sorted_list_of_fset ''c_'' counter [''add''] fmempty = (Inr (), counter_registry)"
    unfolding counter_registry_def by (simp add: Register_def Methods) (simp add: methods_def)
  note exact = Register_exposes_exactly [OF range_order_sorted reflected Methods this]
  have "\<forall>name. fmlookup methods name \<noteq> None \<longrightarrow> [''add''] = [] \<or> rpc_name name \<in> set [''add''] \<longrightarrow>
      ''c_reset'' \<noteq> ''c_'' @ rpc_name name"
    by (auto simp: methods_def rpc_name_def)
  then have "fmlookup counter_registry ''c_reset'' = fmlookup fmempty ''c_reset''" using exact by blast
  then show ?thesis by simp
qed

text \<open>
  a call returns what the method returned. A call without transport of a registered method whose
  arguments parse hands back the method's value when encoding and decoding agree on it, no result for
  a method that returns none, and the method's error as an error response with the internal-error
  code and the text of the error.
\<close>
theorem Local_Call_returns:
  assumes "fmlookup registry method = Some m"
    and "parsePositionalArguments rf (Some (raw_params params)) (me_ArgTypes m) = Inr args"
    and "method_Call m ctx args s = (q, s')"
    and "\<And>v. q = Inr (Some v) \<Longrightarrow> \<exists>j. rf_Marshal rf v = Inr j \<and> j \<noteq> JNull \<and> decode j = Inr (view v)"
  shows "Local_Call rf registry ctx decode method params (c, s) =
    (case q of
       Inr v \<Rightarrow> Inr (map_option view v)
     | Inl e \<Rightarrow> (if is_panic e then Inl e else Inl (ErrResponse ErrCodeInternal (error_text e))), (c + 1, s'))"
  using assms by (rule Local_Call_method)

theorem Local_Call_returns_witness:
  "fst (Local_Call json_values counter_registry () Inr ''c_add'' [JNum 3] (0, 4)) = Inr (Some (JNum 7))"
proof -
  have "fmlookup counter_registry ''c_add'' = Some (mk_Method counter_add)"
    by (simp add: counter_registry_def Register_def Methods_def counter_def counter_add_def counter_reset_def methodArgTypes_def
        typeOfContext_def isExported_def is_upper_def code_def sorted_list_of_fset.rep_eq rpc_name_def lower_def char_of_eq_iff take_bit_eq_mod)
  moreover have "parsePositionalArguments json_values (Some (raw_params [JNum 3])) (me_ArgTypes (mk_Method counter_add)) = Inr [JNum 3]"
    by (simp add: parsePositionalArguments_def raw_params_def json_values_def mk_Method_def counter_add_def methodArgTypes_def typeOfContext_def)
  moreover have "method_Call (mk_Method counter_add) () [JNum 3] 4 = (Inr (Some (JNum 7)), 7)"
    by (simp add: method_Call_def mk_Method_def counter_add_def methodArgTypes_def typeOfContext_def typeOfError_def Let_def)
  moreover have "\<And>v. Inr (Some (JNum 7)) = (Inr (Some v) :: json option result) \<Longrightarrow>
      \<exists>j. rf_Marshal json_values v = Inr j \<and> j \<noteq> JNull \<and> (Inr j :: json result) = Inr v" by (auto simp: json_values_def)
  ultimately show ?thesis
    using Local_Call_returns [of counter_registry "''c_add''" "mk_Method counter_add" json_values "[JNum 3]" "[JNum 3]" "()" 4
        "Inr (Some (JNum 7))" 7 Inr "\<lambda>v. v" 0] by simp
qed

text \<open>
  A response without a result and an error ends the caller: \<^verbatim>\<open>Remote.Call\<close> and \<^verbatim>\<open>Local.Call\<close> use the embedded response
  without looking whether it is there, which \<^verbatim>\<open>HTTPService.Call\<close> does.
\<close>
lemma missing_response_panics:
  "message_result decode \<lparr>msg_Request = None, msg_Response = None, msg_ID = i, msg_Version = Version\<rparr> =
     Inl (GoPanic ''invalid memory address or nil pointer dereference'')"
  by (simp add: message_result_def)

end
