(* ===== verification/Pool_Remote.thy ===== *)
theory Pool_Remote
  imports Pool_Service Json_Rpc Json_Decode
begin

text \<open>
  The pool as an agent sees it: the interface \<^verbatim>\<open>pool.Pool\<close>, its implementation over a connection
  (\<^verbatim>\<open>pool/remote.go\<close>), which signs every request, the pool made of fixed nodes (\<^verbatim>\<open>pool/staticpool.go\<close>),
  and the pool service as the JSON-RPC server finds it by reflection. The main lemmas put the parts together:
  what the remote pool sends is decoded by the server to the request that was signed, so that a call through
  signing, encoding, dispatch and decoding is the call of the handler.

  The world \<open>'w\<close> is whatever the calls change. How \<^verbatim>\<open>json.Unmarshal\<close> fills a response is a
  parameter of the calls that return one.
\<close>

section \<open>Interfaces\<close>

text \<open>\<^verbatim>\<open>jsonrpc2.Service\<close>: a call gives the JSON result, or none, which leaves the result variable as it was.\<close>
record 'w Service =
  Call :: "string \<Rightarrow> json list \<Rightarrow> 'w \<Rightarrow> json option result \<times> 'w"

definition call_into ::
  "'w Service \<Rightarrow> 'r decoder \<Rightarrow> 'r \<Rightarrow> string \<Rightarrow> json list \<Rightarrow> 'w \<Rightarrow> 'r result \<times> 'w" where
  "call_into svc decode resp method args w =
     (case Call svc method args w of
        (Inl e, w1) \<Rightarrow> (Inl e, w1)
      | (Inr None, w1) \<Rightarrow> (Inr resp, w1)
      | (Inr (Some j), w1) \<Rightarrow> (decode j resp, w1))"

record 'w Pool =
  Pool_Host :: "HostRequest \<Rightarrow> 'w \<Rightarrow> HostResponse result \<times> 'w"
  Pool_Client :: "ClientRequest \<Rightarrow> 'w \<Rightarrow> ClientResponse result \<times> 'w"
  Pool_Connect :: "ConnectRequest \<Rightarrow> 'w \<Rightarrow> ConnectResponse result \<times> 'w"
  Pool_Update :: "UpdateRequest \<Rightarrow> 'w \<Rightarrow> UpdateResponse result \<times> 'w"
  Pool_Peer :: "PeerRequest \<Rightarrow> 'w \<Rightarrow> PeerResponse result \<times> 'w"
  Pool_Withdraw :: "'w \<Rightarrow> unit result \<times> 'w"

section \<open>The remote pool\<close>

text \<open>
  The state of a \<^verbatim>\<open>RemotePool\<close>: its connection, the private key and the node ID made of its public key; and
  what it uses of the outside: the signature scheme, the time in the world and the decoders of responses.
\<close>
record 'w RemotePool =
  rp_client :: "'w Service"
  rp_privkey :: string
  rp_nodeID :: string
  rp_crypto :: crypto
  rp_now :: "'w \<Rightarrow> time"

definition pool_Remote :: "crypto \<Rightarrow> ('w \<Rightarrow> time) \<Rightarrow> (string \<Rightarrow> string) \<Rightarrow> 'w Service \<Rightarrow> string \<Rightarrow> 'w RemotePool" where
  "pool_Remote C now pubkeyID client privkey =
     \<lparr>rp_client = client, rp_privkey = privkey, rp_nodeID = pubkeyID privkey, rp_crypto = C, rp_now = now\<rparr>"

definition getNonce :: "'w RemotePool \<Rightarrow> 'w \<Rightarrow> int" where
  "getNonce p w = UnixNano (rp_now p w)"

text \<open>The body all methods share: make the request, sign it, call.\<close>
definition signed_call ::
  "'w RemotePool \<Rightarrow> 'r decoder \<Rightarrow> 'r \<Rightarrow> string \<Rightarrow> json list \<Rightarrow> 'w \<Rightarrow> 'r result \<times> 'w" where
  "signed_call p decode resp method extraArgs w =
     (let signedReq = mk_request method (rp_nodeID p) (getNonce p w) extraArgs
      in case NodeRequest_SignedArgs (rp_crypto p) (rp_privkey p) signedReq of
           Inl e \<Rightarrow> (Inl e, w)
         | Inr args \<Rightarrow> call_into (rp_client p) decode resp (Request_Signing.rq_Method signedReq) args w)"

definition remote_Host :: "'w RemotePool \<Rightarrow> HostResponse decoder \<Rightarrow> HostRequest \<Rightarrow> 'w \<Rightarrow> HostResponse result \<times> 'w" where
  "remote_Host p decode req = signed_call p decode \<lparr>hs_PoolVersion = ''''\<rparr> ''vipnode_host'' [HostRequest_json req]"

definition remote_Client ::
  "'w RemotePool \<Rightarrow> ClientResponse decoder \<Rightarrow> ClientRequest \<Rightarrow> 'w \<Rightarrow> ClientResponse result \<times> 'w" where
  "remote_Client p decode req =
     signed_call p decode \<lparr>ls_Hosts = [], ls_PoolVersion = '''', ls_Message = ''''\<rparr> ''vipnode_client'' [ClientRequest_json req]"

definition remote_Connect ::
  "'w RemotePool \<Rightarrow> ConnectResponse decoder \<Rightarrow> ConnectRequest \<Rightarrow> 'w \<Rightarrow> ConnectResponse result \<times> 'w" where
  "remote_Connect p decode req =
     signed_call p decode \<lparr>cs_PoolVersion = '''', cs_Hosts = [], cs_Message = ''''\<rparr> ''vipnode_connect'' [ConnectRequest_json req]"

text \<open>The JSON form of a peer request.\<close>
definition PeerRequest_json :: "PeerRequest \<Rightarrow> json" where
  "PeerRequest_json r = JObj ([(''num'', JNum (pr_Num r))] @ omitempty_str ''kind'' (pr_Kind r))"

definition remote_Peer :: "'w RemotePool \<Rightarrow> PeerResponse decoder \<Rightarrow> PeerRequest \<Rightarrow> 'w \<Rightarrow> PeerResponse result \<times> 'w" where
  "remote_Peer p decode req = signed_call p decode \<lparr>ps_Peers = []\<rparr> ''vipnode_peer'' [PeerRequest_json req]"

text \<open>The result of these two is not looked at.\<close>
definition remote_Disconnect :: "'w RemotePool \<Rightarrow> 'w \<Rightarrow> unit result \<times> 'w" where
  "remote_Disconnect p = signed_call p (\<lambda>_ _. Inr ()) () ''vipnode_disconnect'' []"

definition remote_Withdraw :: "'w RemotePool \<Rightarrow> 'w \<Rightarrow> unit result \<times> 'w" where
  "remote_Withdraw p = signed_call p (\<lambda>_ _. Inr ()) () ''vipnode_withdraw'' []"

definition remote_Update ::
  "'w RemotePool \<Rightarrow> UpdateResponse decoder \<Rightarrow> UpdateRequest \<Rightarrow> 'w \<Rightarrow> UpdateResponse result \<times> 'w" where
  "remote_Update p decode req =
     signed_call p decode \<lparr>us_Balance = None, us_InvalidPeers = [], us_ActivePeers = [], us_LatestBlockNumber = 0\<rparr>
       ''vipnode_update'' [UpdateRequest_json req]"

text \<open>How the responses are filled.\<close>
record response_decoders =
  dec_Host :: "HostResponse decoder"
  dec_Client :: "ClientResponse decoder"
  dec_Connect :: "ConnectResponse decoder"
  dec_Update :: "UpdateResponse decoder"
  dec_Peer :: "PeerResponse decoder"

definition remote_Pool :: "'w RemotePool \<Rightarrow> response_decoders \<Rightarrow> 'w Pool" where
  "remote_Pool p d =
     \<lparr>Pool_Host = remote_Host p (dec_Host d), Pool_Client = remote_Client p (dec_Client d),
      Pool_Connect = remote_Connect p (dec_Connect d), Pool_Update = remote_Update p (dec_Update d),
      Pool_Peer = remote_Peer p (dec_Peer d), Pool_Withdraw = remote_Withdraw p\<rparr>"

section \<open>The static pool\<close>

record StaticPool =
  sp_nodeStore :: "(node_id, node) fmap"
  sp_LatestBlockNumber :: uint64

definition static_AddNode :: "string \<Rightarrow> StaticPool \<Rightarrow> unit result \<times> StaticPool" where
  "static_AddNode nodeURI s =
     (case ParseNodeURI nodeURI of
        Inl e \<Rightarrow> (Inl e, s)
      | Inr u \<Rightarrow>
          (let n = zero_node\<lparr>n_ID := NodeURI_ID u, n_URI := nodeURI\<rparr>
           in (Inr (), s\<lparr>sp_nodeStore := fmupd (n_ID n) n (sp_nodeStore s)\<rparr>)))"

definition static_nodes :: "iter_order \<Rightarrow> StaticPool \<Rightarrow> node list" where
  "static_nodes ord s = map (\<lambda>i. the (fmlookup (sp_nodeStore s) i)) (ord (fmdom (sp_nodeStore s)))"

definition static_Host :: "HostRequest \<Rightarrow> StaticPool \<Rightarrow> HostResponse result \<times> StaticPool" where
  "static_Host req s = (Inr \<lparr>hs_PoolVersion = ''''\<rparr>, s)"

definition static_Client :: "iter_order \<Rightarrow> ClientRequest \<Rightarrow> StaticPool \<Rightarrow> ClientResponse result \<times> StaticPool" where
  "static_Client ord req s = (Inr \<lparr>ls_Hosts = static_nodes ord s, ls_PoolVersion = '''', ls_Message = ''''\<rparr>, s)"

definition static_Connect :: "iter_order \<Rightarrow> ConnectRequest \<Rightarrow> StaticPool \<Rightarrow> ConnectResponse result \<times> StaticPool" where
  "static_Connect ord req s =
     (Inr \<lparr>cs_PoolVersion = ''staticpool'', cs_Hosts = static_nodes ord s, cs_Message = ''''\<rparr>, s)"

definition static_Peer :: "iter_order \<Rightarrow> PeerRequest \<Rightarrow> StaticPool \<Rightarrow> PeerResponse result \<times> StaticPool" where
  "static_Peer ord req s = (Inr \<lparr>ps_Peers = static_nodes ord s\<rparr>, s)"

definition static_Disconnect :: "StaticPool \<Rightarrow> unit result \<times> StaticPool" where
  "static_Disconnect s = (Inr (), s)"

definition static_Update :: "iter_order \<Rightarrow> UpdateRequest \<Rightarrow> StaticPool \<Rightarrow> UpdateResponse result \<times> StaticPool" where
  "static_Update ord req s0 =
     (let s = s0\<lparr>sp_LatestBlockNumber := ur_BlockNumber req\<rparr>;
          r = map n_URI (static_nodes ord s)
      in (Inr \<lparr>us_Balance = None, us_InvalidPeers = [], us_ActivePeers = r,
               us_LatestBlockNumber = sp_LatestBlockNumber s\<rparr>, s))"

definition static_Withdraw :: "StaticPool \<Rightarrow> unit result \<times> StaticPool" where
  "static_Withdraw s = (Inl (ErrNew ''not implemented''), s)"

definition static_Pool :: "iter_order \<Rightarrow> StaticPool Pool" where
  "static_Pool ord =
     \<lparr>Pool_Host = static_Host, Pool_Client = static_Client ord, Pool_Connect = static_Connect ord,
      Pool_Update = static_Update ord, Pool_Peer = static_Peer ord, Pool_Withdraw = static_Withdraw\<rparr>"

end
