(* ===== verification/Agent.thy ===== *)
theory Agent
  imports Pool_Remote Fake_Node
begin

text \<open>
  The agent (\<^verbatim>\<open>agent/agent.go\<close>): the companion process of an Ethereum node that registers the node at a pool, reports
  its peers at every interval, disconnects what the pool calls invalid and asks for more hosts. Node and
  pool are the interfaces \<open>EthNode\<close> and \<open>Pool\<close> over a shared world. Callbacks are optional
  functions on the world. Logging and the time limits of the calls (an outcome of the call) are left out.
\<close>

section \<open>State\<close>

record 'w Agent =
  a_EthNode :: "'w EthNode"
  a_NodeURI :: string
  a_Version :: string
  a_BalanceCallback :: "(balance \<Rightarrow> 'w \<Rightarrow> 'w) option"
  a_PoolMessageCallback :: "(string \<Rightarrow> 'w \<Rightarrow> 'w) option"
  a_BlockNumberCallback :: "(uint64 \<Rightarrow> uint64 \<Rightarrow> 'w \<Rightarrow> 'w) option"
  a_NumHosts :: int
  a_Payout :: string
  a_UpdateInterval :: duration
  a_StrictPeers :: bool
  a_started :: bool
  a_nodeInfo :: UserAgent

definition defaultNumHosts :: int where
  "defaultNumHosts = 3"

text \<open>An error of the pool, with a message; a panic is no error value and passes through.\<close>
definition pool_error :: "go_error \<Rightarrow> string \<Rightarrow> go_error" where
  "pool_error e msg = (if is_panic e then e else AgentPoolError e msg)"

section \<open>More peers\<close>

fun connect_all :: "'w EthNode \<Rightarrow> string list \<Rightarrow> 'w \<Rightarrow> unit result \<times> 'w" where
  "connect_all N [] w = (Inr (), w)"
| "connect_all N (uri # uris) w =
     (case ConnectPeer N uri w of
        (Inl e, w1) \<Rightarrow> (Inl e, w1)
      | (Inr _, w1) \<Rightarrow> connect_all N uris w1)"

text \<open>Every internal error of the pool counts as having no peers, whatever its text.\<close>
definition AddPeers :: "'w Agent \<Rightarrow> 'w Pool \<Rightarrow> int \<Rightarrow> 'w \<Rightarrow> unit result \<times> 'w" where
  "AddPeers a p num w =
     (let kind = (if \<not> ua_IsFullNode (a_nodeInfo a) then NodeKind_String (ua_Kind (a_nodeInfo a)) else '''')
      in case Pool_Peer p \<lparr>pr_Num = num, pr_Kind = kind\<rparr> w of
           (Inl err, w1) \<Rightarrow>
             (if IsErrorCode err [ErrCodeInternal]
              then (if HasPrefix (error_text err) ''no available'' then (Inl ErrNoPeers, w1) else (Inl ErrNoPeers, w1))
              else (Inl (pool_error err ''Failed during pool peer request''), w1))
         | (Inr peerResp, w1) \<Rightarrow> connect_all (a_EthNode a) (map n_URI (ps_Peers peerResp)) w1)"

section \<open>Updates\<close>

text \<open>What the pool says of active peers: the host part of the URI, by node ID.\<close>
fun active_lookup :: "string list \<Rightarrow> (string, string) fmap \<Rightarrow> (string, string) fmap" where
  "active_lookup [] lookup = lookup"
| "active_lookup (p # ps) lookup =
     (case ParseNodeURI p of
        Inl _ \<Rightarrow> active_lookup ps lookup
      | Inr uri \<Rightarrow> active_lookup ps (fmupd (NodeURI_ID uri) (RemoteHost uri) lookup))"

definition strict_match :: "(string, string) fmap \<Rightarrow> PeerInfo \<Rightarrow> bool" where
  "strict_match lookup p \<longleftrightarrow>
     (case ParseNodeURI (EnodeURI p) of
        Inl _ \<Rightarrow> False
      | Inr uri \<Rightarrow> fmlookup lookup (NodeURI_ID uri) = Some (RemoteHost uri))"

definition strict_invalid :: "string list \<Rightarrow> PeerInfo list \<Rightarrow> string list" where
  "strict_invalid activePeers peers =
     (let lookup = active_lookup activePeers fmempty
      in map EnodeURI (filter (\<lambda>p. \<not> strict_match lookup p) peers))"

definition peer_id :: "string \<Rightarrow> string" where
  "peer_id p = (case ParseNodeURI p of Inl _ \<Rightarrow> p | Inr uri \<Rightarrow> NodeURI_ID uri)"

text \<open>The loop over the invalid peers collects errors and goes on.\<close>
definition add_error :: "unit result \<Rightarrow> go_error list \<Rightarrow> go_error list" where
  "add_error r errors = (case r of Inl e \<Rightarrow> errors @ [e] | Inr _ \<Rightarrow> errors)"

definition panics :: "unit result \<Rightarrow> bool" where
  "panics r \<longleftrightarrow> (case r of Inl e \<Rightarrow> is_panic e | Inr _ \<Rightarrow> False)"

fun disconnect_invalid :: "'w EthNode \<Rightarrow> string list \<Rightarrow> go_error list \<Rightarrow> 'w \<Rightarrow> go_error list result \<times> 'w" where
  "disconnect_invalid N [] errors w = (Inr errors, w)"
| "disconnect_invalid N (p # ps) errors w =
     (let peerID = peer_id p; (r1, w1) = RemoveTrustedPeer N peerID w
      in if panics r1 then (Inl (projl r1), w1)
         else
           (let (r2, w2) = DisconnectPeer N peerID w1
            in if panics r2 then (Inl (projl r2), w2)
               else disconnect_invalid N ps (add_error r2 (add_error r1 errors)) w2))"

text \<open>\<^verbatim>\<open>%q\<close> of a list of errors.\<close>
definition quoted_errors :: "go_error list \<Rightarrow> string" where
  "quoted_errors errors = ''['' @ separated '' '' (map (\<lambda>e. go_quote (error_text e)) errors) @ '']''"

definition call_balance :: "'w Agent \<Rightarrow> UpdateResponse \<Rightarrow> 'w \<Rightarrow> 'w" where
  "call_balance a update w =
     (case (a_BalanceCallback a, us_Balance update) of (Some f, Some b) \<Rightarrow> f b w | _ \<Rightarrow> w)"

definition call_block_number :: "'w Agent \<Rightarrow> uint64 \<Rightarrow> UpdateResponse \<Rightarrow> 'w \<Rightarrow> 'w" where
  "call_block_number a blockNumber update w =
     (case a_BlockNumberCallback a of None \<Rightarrow> w | Some f \<Rightarrow> f blockNumber (us_LatestBlockNumber update) w)"

text \<open>The part of \<^verbatim>\<open>UpdatePeers\<close> after the pool answered.\<close>
definition apply_update ::
  "'w Agent \<Rightarrow> 'w Pool \<Rightarrow> PeerInfo list \<Rightarrow> uint64 \<Rightarrow> UpdateResponse \<Rightarrow> 'w \<Rightarrow> unit result \<times> 'w" where
  "apply_update a p peers blockNumber update w =
     (let invalid = (if a_StrictPeers a then strict_invalid (us_ActivePeers update) peers else us_InvalidPeers update)
      in case disconnect_invalid (a_EthNode a) invalid [] w of
           (Inl e, w1) \<Rightarrow> (Inl e, w1)
         | (Inr errors, w1) \<Rightarrow>
             (let needMore = a_NumHosts a - int (length (us_ActivePeers update));
                  (r, w2) = (if 0 < needMore then AddPeers a p needMore w1 else (Inr (), w1))
              in case r of
                   Inl e \<Rightarrow>
                     (if e \<noteq> ErrNoPeers then (Inl e, w2)
                      else (let w3 = call_block_number a blockNumber update w2
                            in if errors \<noteq> []
                               then (Inl (ErrNew (''failed to disconnect from invalid peers: '' @ quoted_errors errors)), w3)
                               else (Inr (), w3)))
                 | Inr _ \<Rightarrow>
                     (let w3 = call_block_number a blockNumber update w2
                      in if errors \<noteq> []
                         then (Inl (ErrNew (''failed to disconnect from invalid peers: '' @ quoted_errors errors)), w3)
                         else (Inr (), w3))))"

definition UpdatePeers :: "'w Agent \<Rightarrow> 'w Pool \<Rightarrow> 'w \<Rightarrow> unit result \<times> 'w" where
  "UpdatePeers a p w =
     (case Peers (a_EthNode a) w of
        (Inl e, w1) \<Rightarrow> (Inl e, w1)
      | (Inr peers, w1) \<Rightarrow>
          (case BlockNumber (a_EthNode a) w1 of
             (Inl e, w2) \<Rightarrow> (Inl e, w2)
           | (Inr blockNumber, w2) \<Rightarrow>
               (case Pool_Update p \<lparr>ur_Peers = None, ur_PeerInfo = Some peers, ur_BlockNumber = blockNumber\<rparr> w2 of
                  (Inl e, w3) \<Rightarrow> (Inl (pool_error e ''Failed during pool update request''), w3)
                | (Inr update, w3) \<Rightarrow> apply_update a p peers blockNumber update (call_balance a update w3))))"

section \<open>Starting\<close>

text \<open>
  \<^verbatim>\<open>Start\<close> up to the point where it hands over to the goroutine that serves the updates. The flag \<^verbatim>\<open>started\<close>
  is read but no line of the program sets it.
\<close>
definition Start :: "'w Agent \<Rightarrow> 'w Pool \<Rightarrow> 'w \<Rightarrow> unit result \<times> 'w Agent \<times> 'w" where
  "Start a p w =
     (if a_started a then (Inl ErrAlreadyStarted, a, w)
      else
        (case Enode (a_EthNode a) w of
           (Inl e, w1) \<Rightarrow> (Inl e, a, w1)
         | (Inr enode, w1) \<Rightarrow>
             (let ua = Node_UserAgent (a_EthNode a) w1;
                  version = (if a_Version a = '''' then ''dev'' else a_Version a);
                  connectReq = \<lparr>cr_VipnodeVersion = version, cr_NodeInfo = ua, cr_NodeURI = a_NodeURI a, cr_Payout = a_Payout a\<rparr>;
                  a1 = a\<lparr>a_nodeInfo := cr_NodeInfo connectReq\<rparr>
              in case Pool_Connect p connectReq w1 of
                   (Inl e, w2) \<Rightarrow> (Inl (pool_error e ''Failed during pool connect request''), a1, w2)
                 | (Inr resp, w2) \<Rightarrow>
                     (let w3 = (case a_PoolMessageCallback a1 of
                                  None \<Rightarrow> w2 | Some f \<Rightarrow> (if cs_Message resp \<noteq> '''' then f (cs_Message resp) w2 else w2));
                          (r, w4) = UpdatePeers a1 p w3
                      in (r, a1, w4)))))"

definition Whitelist :: "'w Agent \<Rightarrow> string \<Rightarrow> 'w \<Rightarrow> unit result \<times> 'w" where
  "Whitelist a nodeID w = AddTrustedPeer (a_EthNode a) nodeID w"

definition update_interval :: "'w Agent \<Rightarrow> duration" where
  "update_interval a = (if a_UpdateInterval a = 0 then KeepaliveInterval else a_UpdateInterval a)"

fun disconnect_each :: "'w EthNode \<Rightarrow> PeerInfo list \<Rightarrow> 'w \<Rightarrow> unit result \<times> 'w" where
  "disconnect_each N [] w = (Inr (), w)"
| "disconnect_each N (node # nodes) w =
     (case DisconnectPeer N (pi_ID node) w of (Inl e, w1) \<Rightarrow> (Inl e, w1) | (Inr _, w1) \<Rightarrow> disconnect_each N nodes w1)"

definition agent_disconnectPeers :: "'w Agent \<Rightarrow> 'w \<Rightarrow> unit result \<times> 'w" where
  "agent_disconnectPeers a w =
     (case Peers (a_EthNode a) w of
        (Inl e, w1) \<Rightarrow> (Inl e, w1)
      | (Inr peers, w1) \<Rightarrow> disconnect_each (a_EthNode a) peers w1)"

section \<open>Serving updates\<close>

text \<open>
  The life of an agent. \<open>run_serving\<close> counts the goroutines that run \<^verbatim>\<open>serveUpdates\<close>, \<open>run_wait\<close> holds the results
  they sent, and \<open>run_log\<close> what happened, latest first. \<^verbatim>\<open>Stop\<close> hands over to a serving goroutine and blocks when there is none.
\<close>
datatype agent_event = Started | Refused go_error | Updated | Failed go_error | Stopped

record 'w agent_run =
  run_agent :: "'w Agent"
  run_world :: 'w
  run_serving :: nat
  run_wait :: "unit result list"
  run_log :: "agent_event list"

inductive agent_step :: "'w Pool \<Rightarrow> 'w agent_run \<Rightarrow> 'w agent_run \<Rightarrow> bool" for p where
  start_ok: "Start (run_agent c) p (run_world c) = (Inr u, a, w) \<Longrightarrow>
     agent_step p c (c\<lparr>run_agent := a, run_world := w, run_serving := Suc (run_serving c), run_log := Started # run_log c\<rparr>)"
| start_fails: "Start (run_agent c) p (run_world c) = (Inl e, a, w) \<Longrightarrow>
     agent_step p c (c\<lparr>run_agent := a, run_world := w, run_log := Refused e # run_log c\<rparr>)"
| tick_ok: "0 < run_serving c \<Longrightarrow> UpdatePeers (run_agent c) p (run_world c) = (Inr u, w) \<Longrightarrow>
     agent_step p c (c\<lparr>run_world := w, run_log := Updated # run_log c\<rparr>)"
| tick_fails: "0 < run_serving c \<Longrightarrow> UpdatePeers (run_agent c) p (run_world c) = (Inl e, w) \<Longrightarrow>
     agent_step p c (c\<lparr>run_world := w, run_serving := run_serving c - 1, run_wait := run_wait c @ [Inl e],
       run_log := Failed e # run_log c\<rparr>)"
| stop: "0 < run_serving c \<Longrightarrow>
     agent_step p c (c\<lparr>run_agent := (run_agent c)\<lparr>a_started := False\<rparr>, run_serving := run_serving c - 1,
       run_wait := run_wait c @ [Inr ()], run_log := Stopped # run_log c\<rparr>)"
| world_moves: "agent_step p c (c\<lparr>run_world := w\<rparr>)"

inductive agent_reachable :: "'w Pool \<Rightarrow> 'w agent_run \<Rightarrow> 'w agent_run \<Rightarrow> bool" for p c0 where
  reach_start: "agent_reachable p c0 c0"
| reach_step: "agent_reachable p c0 c \<Longrightarrow> agent_step p c c' \<Longrightarrow> agent_reachable p c0 c'"

inductive_cases agent_stepE: "agent_step p c c'"

definition new_run :: "'w Agent \<Rightarrow> 'w \<Rightarrow> 'w agent_run" where
  "new_run a w = \<lparr>run_agent = a, run_world = w, run_serving = 0, run_wait = [], run_log = []\<rparr>"

end
