(* ===== verification/Agent_Correctness.thy ===== *)
theory Agent_Correctness
  imports Agent
begin

text \<open>
  What an update does to the peers of the node, which errors of the pool the agent survives, and the life of an agent
  from start to stop. The contract of the node is the locale \<open>peering_node\<close>; the fake node keeps it.
\<close>

section \<open>A node that obeys\<close>

text \<open>
  A node in a good state lists the peers it holds, and drops exactly the peer it is told to disconnect from.
\<close>
locale peering_node =
  fixes N :: "'w EthNode" and good :: "'w \<Rightarrow> bool" and held :: "'w \<Rightarrow> PeerInfo list"
  assumes Peers_law: "good w \<Longrightarrow> \<exists>ps w'. Peers N w = (Inr ps, w') \<and> good w' \<and> set ps = set (held w) \<and> set (held w') = set (held w)"
    and BlockNumber_law: "good w \<Longrightarrow> \<exists>b w'. BlockNumber N w = (Inr b, w') \<and> good w' \<and> set (held w') = set (held w)"
    and RemoveTrustedPeer_law: "good w \<Longrightarrow> \<exists>w'. RemoveTrustedPeer N i w = (Inr (), w') \<and> good w' \<and> set (held w') = set (held w)"
    and DisconnectPeer_law: "good w \<Longrightarrow> \<exists>w'. DisconnectPeer N i w = (Inr (), w') \<and> good w' \<and>
      set (held w') = {q \<in> set (held w). EnodeID q \<noteq> i}"
begin

lemma disconnect_invalid_drops:
  "good w \<Longrightarrow> \<exists>w'. disconnect_invalid N uris errors w = (Inr errors, w') \<and> good w' \<and>
     set (held w') = {q \<in> set (held w). EnodeID q \<notin> peer_id ` set uris}"
proof (induction uris arbitrary: w)
  case Nil
  then show ?case by auto
next
  case (Cons p uris)
  obtain w1 where w1: "RemoveTrustedPeer N (peer_id p) w = (Inr (), w1)" "good w1" "set (held w1) = set (held w)"
    using RemoveTrustedPeer_law [OF Cons.prems] by blast
  obtain w2 where w2: "DisconnectPeer N (peer_id p) w1 = (Inr (), w2)" "good w2"
      "set (held w2) = {q \<in> set (held w). EnodeID q \<noteq> peer_id p}"
    using DisconnectPeer_law [OF w1(2)] w1(3) by metis
  obtain w' where "disconnect_invalid N uris errors w2 = (Inr errors, w')" "good w'"
      "set (held w') = {q \<in> set (held w2). EnodeID q \<notin> peer_id ` set uris}"
    using Cons.IH [OF w2(2)] by blast
  with w1 w2 show ?case by (auto simp: panics_def add_error_def)
qed

lemma strict_invalid_ids:
  assumes "\<forall>q\<in>set peers. peer_id (EnodeURI q) = EnodeID q" and "q \<in> set peers"
    and "\<forall>q1\<in>set peers. \<forall>q2\<in>set peers. EnodeID q1 = EnodeID q2 \<longrightarrow> q1 = q2"
  shows "EnodeID q \<notin> peer_id ` set (strict_invalid active peers) \<longleftrightarrow> strict_match (active_lookup active fmempty) q"
proof -
  have "peer_id ` set (strict_invalid active peers) = EnodeID ` {q \<in> set peers. \<not> strict_match (active_lookup active fmempty) q}"
    using assms(1) by (force simp: strict_invalid_def image_image)
  then show ?thesis using assms(2,3) by blast
qed

lemma apply_update_peers:
  assumes "good w" and "a_EthNode a = N" and "a_BlockNumberCallback a = None"
    and "a_NumHosts a \<le> int (length (us_ActivePeers update))"
  shows "\<exists>w'. apply_update a p peers b update w = (Inr (), w') \<and> good w' \<and>
    set (held w') = {q \<in> set (held w). EnodeID q \<notin> peer_id ` set
      (if a_StrictPeers a then strict_invalid (us_ActivePeers update) peers else us_InvalidPeers update)}"
proof -
  let ?uris = "if a_StrictPeers a then strict_invalid (us_ActivePeers update) peers else us_InvalidPeers update"
  obtain w' where w': "disconnect_invalid N ?uris [] w = (Inr [], w')" "good w'"
      "set (held w') = {q \<in> set (held w). EnodeID q \<notin> peer_id ` set ?uris}"
    using disconnect_invalid_drops [OF assms(1)] by blast
  moreover have "\<not> 0 < a_NumHosts a - int (length (us_ActivePeers update))" using assms(4) by simp
  ultimately have "apply_update a p peers b update w = (Inr (), w')"
    using assms(2,3) unfolding apply_update_def Let_def by (simp add: call_block_number_def)
  then show ?thesis using w' by blast
qed

lemma UpdatePeers_peers:
  assumes good: "good w" and agent: "a_EthNode a = N" "a_BalanceCallback a = None" "a_BlockNumberCallback a = None"
    and pool: "\<And>req w1. good w1 \<Longrightarrow> \<exists>w2. Pool_Update p req w1 = (Inr update, w2) \<and> good w2 \<and> set (held w2) = set (held w1)"
    and hosts: "a_NumHosts a \<le> int (length (us_ActivePeers update))"
    and ids: "\<forall>q\<in>set (held w). peer_id (EnodeURI q) = EnodeID q"
      "\<forall>q1\<in>set (held w). \<forall>q2\<in>set (held w). EnodeID q1 = EnodeID q2 \<longrightarrow> q1 = q2"
  shows "\<exists>w'. UpdatePeers a p w = (Inr (), w') \<and> good w' \<and>
    set (held w') =
      (if a_StrictPeers a then {q \<in> set (held w). strict_match (active_lookup (us_ActivePeers update) fmempty) q}
       else {q \<in> set (held w). EnodeID q \<notin> peer_id ` set (us_InvalidPeers update)})"
proof -
  obtain ps w1 where w1: "Peers N w = (Inr ps, w1)" "good w1" "set ps = set (held w)" "set (held w1) = set (held w)"
    using Peers_law [OF good] by blast
  obtain b w2 where w2: "BlockNumber N w1 = (Inr b, w2)" "good w2" "set (held w2) = set (held w)"
    using BlockNumber_law [OF w1(2)] w1(4) by metis
  obtain w3 where w3: "Pool_Update p \<lparr>ur_Peers = None, ur_PeerInfo = Some ps, ur_BlockNumber = b\<rparr> w2 = (Inr update, w3)"
      "good w3" "set (held w3) = set (held w)"
    using pool [OF w2(2)] w2(3) by metis
  obtain w' where w': "apply_update a p ps b update w3 = (Inr (), w')" "good w'"
      "set (held w') = {q \<in> set (held w). EnodeID q \<notin> peer_id ` set
        (if a_StrictPeers a then strict_invalid (us_ActivePeers update) ps else us_InvalidPeers update)}"
    using apply_update_peers [OF w3(2) agent(1,3) hosts, of p ps b, unfolded w3(3)] by (elim exE conjE)
  have "UpdatePeers a p w = (Inr (), w')"
    using w1(1) w2(1) w3(1) w'(1) agent by (simp add: UpdatePeers_def call_balance_def)
  moreover have "EnodeID q \<notin> peer_id ` set (strict_invalid (us_ActivePeers update) ps) \<longleftrightarrow>
      strict_match (active_lookup (us_ActivePeers update) fmempty) q" if "q \<in> set (held w)" for q
    using strict_invalid_ids [of ps q, unfolded w1(3), OF ids(1) that ids(2)] .
  ultimately show ?thesis using w'(2,3) by (intro exI [of _ w']) auto
qed

end

text \<open>The fake node obeys as long as its peers have different IDs.\<close>
definition fake_good :: "FakeNode \<Rightarrow> bool" where
  "fake_good n \<longleftrightarrow> distinct (map EnodeID (fn_FakePeers n))"

interpretation fake: peering_node fake_EthNode fake_good fn_FakePeers
proof
  fix n :: FakeNode and i assume good: "fake_good n"
  have "distinct (map EnodeID (sort_key pi_ID (fn_FakePeers n)))"
    using good by (metis fake_good_def mset_map mset_sort mset_eq_imp_distinct_iff)
  then show "\<exists>ps n'. Peers fake_EthNode n = (Inr ps, n') \<and> fake_good n' \<and> set ps = set (fn_FakePeers n) \<and>
      set (fn_FakePeers n') = set (fn_FakePeers n)"
    by (simp add: fake_EthNode_def fake_Peers_def fake_good_def Let_def)
  show "\<exists>b n'. BlockNumber fake_EthNode n = (Inr b, n') \<and> fake_good n' \<and> set (fn_FakePeers n') = set (fn_FakePeers n)"
    using good by (simp add: fake_EthNode_def fake_BlockNumber_def)
  show "\<exists>n'. RemoveTrustedPeer fake_EthNode i n = (Inr (), n') \<and> fake_good n' \<and> set (fn_FakePeers n') = set (fn_FakePeers n)"
    using good by (simp add: fake_EthNode_def fake_RemoveTrustedPeer_def record_call_def fake_good_def)
  show "\<exists>n'. DisconnectPeer fake_EthNode i n = (Inr (), n') \<and> fake_good n' \<and>
      set (fn_FakePeers n') = {q \<in> set (fn_FakePeers n). EnodeID q \<noteq> i}"
    using good
    by (auto simp: fake_EthNode_def fake_DisconnectPeer_removes fake_good_def distinct_map_filter)
qed

section \<open>Errors of the pool\<close>

lemma AddPeers_internal_error:
  assumes "Pool_Peer p \<lparr>pr_Num = num, pr_Kind = (if ua_IsFullNode (a_nodeInfo a) then '''' else NodeKind_String (ua_Kind (a_nodeInfo a)))\<rparr> w =
      (Inl (ErrResponse ErrCodeInternal msg), w1)"
  shows "AddPeers a p num w = (Inl ErrNoPeers, w1)"
  using assms by (cases "ua_IsFullNode (a_nodeInfo a)") (simp_all add: AddPeers_def Let_def IsErrorCode_def)

section \<open>The life of an agent\<close>

definition starts :: "agent_event list \<Rightarrow> nat" where
  "starts log = length (filter (\<lambda>e. e = Started) log)"

lemma Start_keeps_flag: "Start a p w = (r, a', w') \<Longrightarrow> \<not> a_started a \<Longrightarrow> \<not> a_started a'"
  by (auto simp: Start_def Let_def split: sum.splits prod.splits if_splits)

text \<open>Between steps: nobody set the flag, and every start is a serving goroutine or a result.\<close>
definition run_inv :: "'w agent_run \<Rightarrow> bool" where
  "run_inv c \<longleftrightarrow> \<not> a_started (run_agent c) \<and> starts (run_log c) = run_serving c + length (run_wait c)"

lemma run_inv_step: "agent_step p c c' \<Longrightarrow> run_inv c \<Longrightarrow> run_inv c'"
  by (induction rule: agent_step.induct) (auto simp: run_inv_def starts_def dest: Start_keeps_flag)

lemma run_inv_reachable: "agent_reachable p c0 c \<Longrightarrow> run_inv c0 \<Longrightarrow> run_inv c"
  by (induction rule: agent_reachable.induct) (auto dest: run_inv_step)

section \<open>Properties\<close>


text \<open>A fake node with two peers, and a pool that knows the first.\<close>
definition demo_peer :: "string \<Rightarrow> string \<Rightarrow> PeerInfo" where
  "demo_peer i addr = zero_PeerInfo\<lparr>pi_ID := i, pi_RemoteAddress := addr\<rparr>"

definition demo_fake :: FakeNode where
  "demo_fake = (fake_Node ''self'')\<lparr>fn_FakePeers := [demo_peer ''h2'' ''two.example:30303'', demo_peer ''h1'' ''one.example:30303'']\<rparr>"

definition demo_answer :: UpdateResponse where
  "demo_answer = \<lparr>us_Balance = None, us_InvalidPeers = [], us_ActivePeers = [''enode://h1@one.example:30303''],
     us_LatestBlockNumber = 0\<rparr>"

definition demo_Pool :: "'w Pool" where
  "demo_Pool = \<lparr>Pool_Host = (\<lambda>_ w. (Inr \<lparr>hs_PoolVersion = ''''\<rparr>, w)),
     Pool_Client = (\<lambda>_ w. (Inr \<lparr>ls_Hosts = [], ls_PoolVersion = '''', ls_Message = ''''\<rparr>, w)),
     Pool_Connect = (\<lambda>_ w. (Inr \<lparr>cs_PoolVersion = '''', cs_Hosts = [], cs_Message = ''''\<rparr>, w)),
     Pool_Update = (\<lambda>_ w. (Inr demo_answer, w)),
     Pool_Peer = (\<lambda>_ w. (Inl (ErrResponse ErrCodeInternal ''no available host nodes found after trying 1 nodes''), w)),
     Pool_Withdraw = (\<lambda>w. (Inr (), w))\<rparr>"

definition demo_Agent :: "int \<Rightarrow> FakeNode Agent" where
  "demo_Agent num = \<lparr>a_EthNode = fake_EthNode, a_NodeURI = '''', a_Version = '''', a_BalanceCallback = None,
     a_PoolMessageCallback = None, a_BlockNumberCallback = None, a_NumHosts = num, a_Payout = '''', a_UpdateInterval = 0,
     a_StrictPeers = True, a_started = False, a_nodeInfo = zero_UserAgent\<rparr>"


text \<open>
  C39: The agent survives a pool without hosts. When the pool answered an update, the invalid peers were
  disconnected and more hosts are needed, but the request for them ends in an internal error response (which is
  what every error of the pool's handler becomes on the wire), the update succeeds all the same.
\<close>
theorem update_survives_missing_hosts:
  assumes "Peers (a_EthNode a) w = (Inr peers, w1)" and "BlockNumber (a_EthNode a) w1 = (Inr b, w2)"
    and "Pool_Update p \<lparr>ur_Peers = None, ur_PeerInfo = Some peers, ur_BlockNumber = b\<rparr> w2 = (Inr update, w3)"
    and "disconnect_invalid (a_EthNode a)
      (if a_StrictPeers a then strict_invalid (us_ActivePeers update) peers else us_InvalidPeers update) [] (call_balance a update w3) = (Inr [], w4)"
    and "Pool_Peer p \<lparr>pr_Num = a_NumHosts a - int (length (us_ActivePeers update)),
        pr_Kind = (if ua_IsFullNode (a_nodeInfo a) then '''' else NodeKind_String (ua_Kind (a_nodeInfo a)))\<rparr> w4 =
      (Inl (ErrResponse ErrCodeInternal msg), w5)"
    and "int (length (us_ActivePeers update)) < a_NumHosts a"
  shows "UpdatePeers a p w = (Inr (), call_block_number a b update w5)"
  using assms(1-4,6) AddPeers_internal_error [OF assms(5)]
  by (simp add: UpdatePeers_def apply_update_def Let_def)

theorem update_survives_missing_hosts_witness:
  "fst (UpdatePeers (demo_Agent 3) demo_Pool (fake_Node ''self'')) = Inr ()"
proof -
  let ?n = "fake_Node ''self''" and ?a = "demo_Agent 3"
  have "UpdatePeers ?a demo_Pool ?n = (Inr (), call_block_number ?a 0 demo_answer ?n)"
  proof (rule update_survives_missing_hosts)
    show "Peers (a_EthNode ?a) ?n = (Inr [], ?n)"
      by (simp add: demo_Agent_def fake_EthNode_def fake_Node_def fake_Peers_def)
    show "BlockNumber (a_EthNode ?a) ?n = (Inr 0, ?n)"
      by (simp add: demo_Agent_def fake_EthNode_def fake_Node_def fake_BlockNumber_def)
    show "disconnect_invalid (a_EthNode ?a) (if a_StrictPeers ?a then strict_invalid (us_ActivePeers demo_answer) []
        else us_InvalidPeers demo_answer) [] (call_balance ?a demo_answer ?n) = (Inr [], ?n)"
      by (simp add: demo_Agent_def strict_invalid_def call_balance_def)
  qed (simp_all add: demo_Agent_def demo_Pool_def demo_answer_def)
  then show ?thesis by simp
qed



end
