(* ===== verification/Pool_Rpc.thy ===== *)
theory Pool_Rpc
  imports Pool_Remote
begin

text \<open>
  The pool service behind the JSON-RPC server. Reflection sees \<^verbatim>\<open>*VipnodePool\<close> as a receiver with
  eight exported methods; this theory gives that receiver, the decoding of the arguments of its
  methods, and the composition that \<^verbatim>\<open>vipnode\<close> runs with an in-memory pool: a remote pool on a
  local service on the registered pool.
\<close>

section \<open>Decoding requests\<close>

definition un_ConnectRequest :: "ConnectRequest decoder" where
  "un_ConnectRequest = un_struct
     [fld ''vipnode_version'' cr_VipnodeVersion cr_VipnodeVersion_update un_string,
      fld ''node_info'' cr_NodeInfo cr_NodeInfo_update un_UserAgent,
      fld ''node_uri'' cr_NodeURI cr_NodeURI_update un_string, fld ''payout'' cr_Payout cr_Payout_update un_string]"

definition un_HostRequest :: "HostRequest decoder" where
  "un_HostRequest = un_struct
     [fld ''kind'' hr_Kind hr_Kind_update un_string, fld ''payout'' hr_Payout hr_Payout_update un_string,
      fld ''node_uri'' hr_NodeURI hr_NodeURI_update un_string]"

definition un_ClientRequest :: "ClientRequest decoder" where
  "un_ClientRequest = un_struct
     [fld ''kind'' lr_Kind lr_Kind_update un_string, fld ''num_hosts'' lr_NumHosts lr_NumHosts_update un_int]"

definition un_UpdateRequest :: "UpdateRequest decoder" where
  "un_UpdateRequest = un_struct
     [fld ''peers'' ur_Peers ur_Peers_update (un_slice un_string ''''),
      fld ''peers_info'' ur_PeerInfo ur_PeerInfo_update (un_slice un_PeerInfo zero_PeerInfo),
      fld ''block_number'' ur_BlockNumber ur_BlockNumber_update un_uint64]"

definition un_PeerRequest :: "PeerRequest decoder" where
  "un_PeerRequest = un_struct
     [fld ''num'' pr_Num pr_Num_update un_int, fld ''kind'' pr_Kind pr_Kind_update un_string]"

definition zero_ConnectRequest :: ConnectRequest where
  "zero_ConnectRequest = \<lparr>cr_VipnodeVersion = '''', cr_NodeInfo = zero_UserAgent, cr_NodeURI = '''', cr_Payout = ''''\<rparr>"

definition zero_UpdateRequest :: UpdateRequest where
  "zero_UpdateRequest = \<lparr>ur_Peers = None, ur_PeerInfo = None, ur_BlockNumber = 0\<rparr>"

lemmas un_requests = un_ConnectRequest_def un_HostRequest_def un_ClientRequest_def un_UpdateRequest_def
  un_PeerRequest_def un_struct_def fld_def ToLower_def is_upper_def code_def omitempty_str_def

lemma un_ConnectRequest_json:
  "wire_agent (cr_NodeInfo r) \<Longrightarrow> un_ConnectRequest (ConnectRequest_json r) zero_ConnectRequest = Inr r"
  by (simp add: un_requests ConnectRequest_json_def zero_ConnectRequest_def un_UserAgent_json)

lemma un_HostRequest_json: "un_HostRequest (HostRequest_json r) \<lparr>hr_Kind = '''', hr_Payout = '''', hr_NodeURI = ''''\<rparr> = Inr r"
  by (simp add: un_requests HostRequest_json_def)

text \<open>An empty list of peer IDs is left out of the JSON form and comes back as nil.\<close>
definition sent_update :: "UpdateRequest \<Rightarrow> UpdateRequest" where
  "sent_update r = r\<lparr>ur_Peers := (if ur_Peers r = Some [] then None else ur_Peers r)\<rparr>"

lemma un_UpdateRequest_json: "un_UpdateRequest (UpdateRequest_json r) zero_UpdateRequest = Inr (sent_update r)"
proof -
  have infos: "un_slice un_PeerInfo zero_PeerInfo (json_slice PeerInfo_json (ur_PeerInfo r)) None = Inr (ur_PeerInfo r)"
    by (rule un_slice_json) (rule un_PeerInfo_json)
  have ids: "un_slice un_string '''' (JArr (map JStr ps)) None = Inr (Some ps)" for ps
    using un_slice_json [of "Some ps" un_string JStr "''''" None] by (simp add: json_slice_def)
  have some: "un_slice un_string '''' (JArr (JStr a # map JStr ps)) None = Inr (Some (a # ps))" for a ps
    using ids [of "a # ps"] by simp
  consider "ur_Peers r = None" | "ur_Peers r = Some []" | a ps where "ur_Peers r = Some (a # ps)"
    by (metis list.exhaust option.exhaust)
  then show ?thesis
    by cases (simp_all add: un_requests UpdateRequest_json_def zero_UpdateRequest_def sent_update_def infos some)
qed

lemma sent_update_json: "UpdateRequest_json (sent_update r) = UpdateRequest_json r"
  by (simp add: UpdateRequest_json_def sent_update_def split: option.split list.split)

lemma un_PeerRequest_json:
  "min_int64 \<le> pr_Num r \<Longrightarrow> pr_Num r \<le> max_int64 \<Longrightarrow>
   un_PeerRequest (PeerRequest_json r) \<lparr>pr_Num = 0, pr_Kind = ''''\<rparr> = Inr r"
  by (simp add: un_requests PeerRequest_json_def un_int_def)

lemma un_ClientRequest_json:
  "min_int64 \<le> lr_NumHosts r \<Longrightarrow> lr_NumHosts r \<le> max_int64 \<Longrightarrow>
   un_ClientRequest (ClientRequest_json r) \<lparr>lr_Kind = '''', lr_NumHosts = 0\<rparr> = Inr r"
  by (simp add: un_requests ClientRequest_json_def un_int_def)

section \<open>The receiver\<close>

text \<open>The Go values of the handlers: arguments and results.\<close>
datatype pool_value =
    GStr string
  | GInt int
  | GService "service option"
  | GConnectReq ConnectRequest
  | GHostReq HostRequest
  | GClientReq ClientRequest
  | GUpdateReq UpdateRequest
  | GPeerReq PeerRequest
  | GConnectResp ConnectResponse
  | GHostResp HostResponse
  | GClientResp ClientResponse
  | GUpdateResp UpdateResponse
  | GPeerResp PeerResponse
  | GNilPointer

definition pool_type :: "string \<Rightarrow> go_type" where
  "pool_type name = GoNamed name ''github.com/vipnode/vipnode/v2/pool''"

definition string_type :: go_type where "string_type = GoNamed ''string'' ''''"
definition int64_type :: go_type where "int64_type = GoNamed ''int64'' ''''"
definition service_type :: go_type where "service_type = GoNamed ''Service'' ''github.com/vipnode/vipnode/v2/jsonrpc2''"

lemmas type_defs = pool_type_def string_type_def int64_type_def service_type_def typeOfContext_def typeOfError_def

text \<open>Decoding an argument by its type; an interface with methods takes only null.\<close>
definition pool_decode :: "go_type \<Rightarrow> json \<Rightarrow> pool_value result" where
  "pool_decode t j =
     (if t = string_type then map_sum id GStr (un_string j '''')
      else if t = int64_type then map_sum id GInt (un_int j 0)
      else if t = service_type then (if j = JNull then Inr (GService None) else Inl unmarshal_error)
      else if t = pool_type ''ConnectRequest'' then map_sum id GConnectReq (un_ConnectRequest j zero_ConnectRequest)
      else if t = pool_type ''HostRequest''
      then map_sum id GHostReq (un_HostRequest j \<lparr>hr_Kind = '''', hr_Payout = '''', hr_NodeURI = ''''\<rparr>)
      else if t = pool_type ''ClientRequest''
      then map_sum id GClientReq (un_ClientRequest j \<lparr>lr_Kind = '''', lr_NumHosts = 0\<rparr>)
      else if t = pool_type ''UpdateRequest'' then map_sum id GUpdateReq (un_UpdateRequest j zero_UpdateRequest)
      else if t = pool_type ''PeerRequest'' then map_sum id GPeerReq (un_PeerRequest j \<lparr>pr_Num = 0, pr_Kind = ''''\<rparr>)
      else Inl unmarshal_error)"

text \<open>How responses print is a parameter.\<close>
definition pool_reflection :: "(pool_value \<Rightarrow> json result) \<Rightarrow> pool_value reflection" where
  "pool_reflection marshal = \<lparr>rf_Decode = pool_decode, rf_Zero = (\<lambda>_. GNilPointer), rf_Marshal = marshal\<rparr>"

text \<open>The two return values of a handler. A panic is no return.\<close>
definition reply_of :: "('r \<Rightarrow> pool_value) \<Rightarrow> 'r result \<times> 's \<Rightarrow> pool_value reply list result \<times> 's" where
  "reply_of wrap rs =
     (case rs of
        (Inl e, s) \<Rightarrow> (if is_panic e then Inl e else Inr [ReplyValue GNilPointer, ReplyError (Some e)], s)
      | (Inr r, s) \<Rightarrow> (Inr [ReplyValue (wrap r), ReplyError None], s))"

text \<open>A handler \<^verbatim>\<open>(ctx, sig, nodeID, nonce, req)\<close>. Reflection only calls it with values of these types.\<close>
definition signed_method ::
  "string \<Rightarrow> string \<Rightarrow> string \<Rightarrow> (pool_value \<Rightarrow> 'q option) \<Rightarrow> ('r \<Rightarrow> pool_value)
     \<Rightarrow> (env \<Rightarrow> string \<Rightarrow> string \<Rightarrow> int \<Rightarrow> 'q \<Rightarrow> 's \<Rightarrow> 'r result \<times> 's) \<Rightarrow> (pool_value, env, 's) go_method" where
  "signed_method name request response unwrap wrap handler =
     \<lparr>gm_Name = name, gm_PkgPath = '''',
      gm_In = [GoPtr (pool_type ''VipnodePool''), typeOfContext, string_type, string_type, int64_type, pool_type request],
      gm_Out = [GoPtr (pool_type response), typeOfError],
      gm_Func = (\<lambda>ctx args s.
        case (ctx, args) of
          (Some env, [GStr sig, GStr nodeID, GInt nonce, v]) \<Rightarrow>
            (case unwrap v of
               None \<Rightarrow> (Inl (GoPanic ''reflect: wrong argument type''), s)
             | Some req \<Rightarrow> reply_of wrap (handler env sig nodeID nonce req s))
        | _ \<Rightarrow> (Inl (GoPanic ''reflect: wrong argument type''), s))\<rparr>"

definition connect_method :: "'s pool_config \<Rightarrow> (pool_value, env, 's pool) go_method" where
  "connect_method cfg = signed_method ''Connect'' ''ConnectRequest'' ''ConnectResponse''
     (\<lambda>v. case v of GConnectReq r \<Rightarrow> Some r | _ \<Rightarrow> None) GConnectResp (pool_Connect cfg)"

definition host_method :: "'s pool_config \<Rightarrow> (pool_value, env, 's pool) go_method" where
  "host_method cfg = signed_method ''Host'' ''HostRequest'' ''HostResponse''
     (\<lambda>v. case v of GHostReq r \<Rightarrow> Some r | _ \<Rightarrow> None) GHostResp (pool_Host cfg)"

definition client_method :: "'s pool_config \<Rightarrow> (pool_value, env, 's pool) go_method" where
  "client_method cfg = signed_method ''Client'' ''ClientRequest'' ''ClientResponse''
     (\<lambda>v. case v of GClientReq r \<Rightarrow> Some r | _ \<Rightarrow> None) GClientResp (pool_Client cfg)"

definition update_method :: "'s pool_config \<Rightarrow> (pool_value, env, 's pool) go_method" where
  "update_method cfg = signed_method ''Update'' ''UpdateRequest'' ''UpdateResponse''
     (\<lambda>v. case v of GUpdateReq r \<Rightarrow> Some r | _ \<Rightarrow> None) GUpdateResp (pool_Update cfg)"

definition peer_method :: "'s pool_config \<Rightarrow> (pool_value, env, 's pool) go_method" where
  "peer_method cfg = signed_method ''Peer'' ''PeerRequest'' ''PeerResponse''
     (\<lambda>v. case v of GPeerReq r \<Rightarrow> Some r | _ \<Rightarrow> None) GPeerResp (pool_Peer cfg)"

definition ping_method :: "(pool_value, env, 's pool) go_method" where
  "ping_method = \<lparr>gm_Name = ''Ping'', gm_PkgPath = '''', gm_In = [GoPtr (pool_type ''VipnodePool''), typeOfContext],
     gm_Out = [string_type], gm_Func = (\<lambda>_ _ p. (Inr [ReplyValue (GStr pool_Ping)], p))\<rparr>"

definition numRemotes_method :: "(pool_value, env, 's pool) go_method" where
  "numRemotes_method = \<lparr>gm_Name = ''NumRemotes'', gm_PkgPath = '''', gm_In = [GoPtr (pool_type ''VipnodePool'')],
     gm_Out = [GoNamed ''int'' ''''], gm_Func = (\<lambda>_ _ p. (Inr [ReplyValue (GInt (NumRemotes p))], p))\<rparr>"

text \<open>Closing the nil service finds no entry.\<close>
definition closeRemote_method :: "(pool_value, env, 's pool) go_method" where
  "closeRemote_method = \<lparr>gm_Name = ''CloseRemote'', gm_PkgPath = '''',
     gm_In = [GoPtr (pool_type ''VipnodePool''), service_type], gm_Out = [typeOfError],
     gm_Func = (\<lambda>_ args p.
       case args of
         [GService None] \<Rightarrow> (Inr [ReplyError None], p)
       | [GService (Some remote)] \<Rightarrow> (Inr [ReplyError None], snd (CloseRemote remote p))
       | _ \<Rightarrow> (Inl (GoPanic ''reflect: wrong argument type''), p))\<rparr>"

definition pool_receiver :: "'s pool_config \<Rightarrow> (pool_value, env, 's pool) receiver" where
  "pool_receiver cfg =
     \<lparr>rc_TypeName = ''VipnodePool'',
      rc_Methods = [client_method cfg, closeRemote_method, connect_method cfg, host_method cfg, numRemotes_method,
        peer_method cfg, ping_method, update_method cfg]\<rparr>"

text \<open>A local service in front of a registry: \<^verbatim>\<open>jsonrpc2.Local\<close> as a \<^verbatim>\<open>Service\<close>, its counter part of the world.\<close>
definition local_Service ::
  "'v reflection \<Rightarrow> ('v, 'c, 's) registry \<Rightarrow> 'c \<Rightarrow> (Json_Rpc.client \<times> 's) Service" where
  "local_Service rf registry ctx = \<lparr>Call = Local_Call rf registry ctx Inr\<rparr>"

section \<open>Registration\<close>

lemmas pool_methods = client_method_def connect_method_def host_method_def update_method_def peer_method_def
  signed_method_def ping_method_def numRemotes_method_def closeRemote_method_def

lemma method_valid:
  assumes "method \<in> set (rc_Methods (pool_receiver cfg))"
  shows "gm_PkgPath method = ''''" and "snd (snd (methodArgTypes (gm_In method)))" and "snd (methodErrPos (gm_Out method))"
    and "isExported (gm_Name method)"
  using assms
  by (auto simp: pool_receiver_def pool_methods type_defs methodArgTypes_def isExported_def is_upper_def code_def)

lemma methods_loop_all:
  assumes "\<forall>method\<in>set ms. gm_PkgPath method = '''' \<and> snd (snd (methodArgTypes (gm_In method))) \<and> snd (methodErrPos (gm_Out method))"
  shows "methods_loop ms acc = Inr (fold (\<lambda>method. fmupd (gm_Name method) (mk_Method method)) ms acc)"
  using assms by (induction ms arbitrary: acc) auto

lemma fold_methods_lookup:
  assumes "distinct (map gm_Name ms)" and "method \<in> set ms"
  shows "fmlookup (fold (\<lambda>method. fmupd (gm_Name method) (mk_Method method)) ms acc) (gm_Name method) = Some (mk_Method method)"
proof -
  have other: "fmlookup (fold (\<lambda>method. fmupd (gm_Name method) (mk_Method method)) ms acc) n = fmlookup acc n"
    if "n \<notin> gm_Name ` set ms" for n acc and ms :: "('a, 'b, 'c) go_method list"
    using that by (induction ms arbitrary: acc) auto
  show ?thesis
    using assms by (induction ms arbitrary: acc) (auto simp: other)
qed

lemma pool_registered:
  assumes "range_order ord" and "Register ord pre (pool_receiver cfg) only registry = (Inr u, registry')"
    and "method \<in> set (rc_Methods (pool_receiver cfg))" and "only = [] \<or> rpc_name (gm_Name method) \<in> set only"
  shows "fmlookup registry' (pre @ rpc_name (gm_Name method)) = Some (mk_Method method)"
proof -
  define ms where "ms = rc_Methods (pool_receiver cfg)"
  define methods where "methods = fold (\<lambda>method. fmupd (gm_Name method) (mk_Method method)) ms fmempty"
  have "isExported (rc_TypeName (pool_receiver cfg))"
    by (simp add: pool_receiver_def isExported_def is_upper_def code_def)
  moreover have "methods_loop ms fmempty = Inr methods"
    unfolding methods_def by (rule methods_loop_all) (use method_valid ms_def in blast)
  ultimately have M: "Methods (pool_receiver cfg) = Inr methods" by (simp add: Methods_def ms_def)
  have "distinct (map gm_Name ms)" by (simp add: ms_def pool_receiver_def pool_methods)
  from fold_methods_lookup [OF this] have found: "fmlookup methods (gm_Name method) = Some (mk_Method method)"
    using assms(3) by (simp add: methods_def ms_def)
  moreover have "reflected (pool_receiver cfg)"
    unfolding reflected_def using method_valid(4) by blast
  ultimately show ?thesis
    using Register_selected [OF assms(1) _ M assms(2) _ assms(4)] by simp
qed

section \<open>A call through all layers\<close>

text \<open>What a caller sees of a handler's result: errors have become error responses.\<close>
definition rpc_result :: "'r result \<Rightarrow> 'r result" where
  "rpc_result r =
     (case r of Inr x \<Rightarrow> Inr x
      | Inl e \<Rightarrow> (if is_panic e then Inl e else Inl (ErrResponse ErrCodeInternal (error_text e))))"

lemma parse_signed_args:
  assumes "pool_decode (pool_type request) arg = Inr v" and "min_int64 \<le> nonce" and "nonce \<le> max_int64"
  shows "parsePositionalArguments (pool_reflection marshal) (Some (raw_params [JStr sig, JStr nodeID, JNum nonce, arg]))
     [string_type, string_type, int64_type, pool_type request] = Inr [GStr sig, GStr nodeID, GInt nonce, v]"
proof -
  have "pool_decode string_type (JStr s) = Inr (GStr s)" for s by (simp add: pool_decode_def)
  moreover have "pool_decode int64_type (JNum nonce) = Inr (GInt nonce)"
    using assms(2,3) by (simp add: pool_decode_def type_defs un_int_def)
  ultimately show ?thesis
    using assms(1) by (simp add: parsePositionalArguments_def raw_params_def pool_reflection_def)
qed

lemma signed_method_types:
  assumes "isExported request"
  shows "me_ArgTypes (mk_Method (signed_method name request response unwrap wrap handler)) =
     [string_type, string_type, int64_type, pool_type request]"
  "me_HasCtx (mk_Method (signed_method name request response unwrap wrap handler))"
  "me_ErrPos (mk_Method (signed_method name request response unwrap wrap handler)) = 1"
  "me_Method (mk_Method m) = m"
  using assms
  by (simp_all add: mk_Method_def signed_method_def methodArgTypes_def type_defs isExported_def is_upper_def code_def)

lemma call_signed_method:
  assumes "isExported request" and "unwrap v = Some req" and "handler env sig nodeID nonce req s = (r, s')"
  shows "method_Call (mk_Method (signed_method name request response unwrap wrap handler)) env [GStr sig, GStr nodeID, GInt nonce, v] s =
    (map_sum id (\<lambda>x. Some (wrap x)) r, s')"
proof -
  let ?m = "signed_method name request response unwrap wrap handler"
  have "gm_Func ?m (Some env) [GStr sig, GStr nodeID, GInt nonce, v] s = reply_of wrap (r, s')"
    and "drop 1 (gm_In ?m) = typeOfContext # [string_type, string_type, int64_type, pool_type request]"
    using assms by (simp_all add: signed_method_def)
  then show ?thesis
    by (simp add: method_Call_def signed_method_types [OF assms(1)] reply_of_def split: sum.split)
qed

lemma signed_call_local:
  assumes key: "node_key C (rp_privkey p) (rp_nodeID p)" and crypto: "rp_crypto p = C"
    and client: "rp_client p = local_Service (pool_reflection marshal) registry env"
    and found: "fmlookup registry method = Some (mk_Method (signed_method name request response unwrap wrap handler))"
    and exported: "isExported request"
    and dec: "pool_decode (pool_type request) arg = Inr v" and req: "unwrap v = Some req"
    and wire: "\<And>sig x s'. handler env sig (rp_nodeID p) (getNonce p (c, s)) req s = (Inr x, s') \<Longrightarrow>
      \<exists>j. marshal (wrap x) = Inr j \<and> j \<noteq> JNull \<and> decode j resp = Inr x"
  shows "\<exists>sig. request_Verify C sig method (rp_nodeID p) (getNonce p (c, s)) [arg] = Inr () \<and>
    signed_call p decode resp method [arg] (c, s) =
      (let (r, s') = handler env sig (rp_nodeID p) (getNonce p (c, s)) req s in (rpc_result r, (c + 1, s')))"
proof -
  let ?n = "getNonce p (c, s)"
  obtain sig where sig: "request_Sign C (rp_privkey p) method (rp_nodeID p) ?n [arg] = Inr sig"
    and verified: "request_Verify C sig method (rp_nodeID p) ?n [arg] = Inr ()"
    using node_sign_verify [OF key] by metis
  have "42 < length (rp_nodeID p)" using key by (simp add: node_key_def)
  then have args: "NodeRequest_SignedArgs C (rp_privkey p) (mk_request method (rp_nodeID p) ?n [arg]) =
      Inr [JStr sig, JStr (rp_nodeID p), JNum ?n, arg]"
    using sig by (simp add: request_Sign_def NodeRequest_SignedArgs_def mk_request_def)
  obtain r s' where run: "handler env sig (rp_nodeID p) ?n req s = (r, s')" by fastforce
  have "min_int64 \<le> ?n" "?n \<le> max_int64"
    by (simp_all add: getNonce_def UnixNano_def int64_def min_int64_def max_int64_def)
  from parse_signed_args [OF dec this]
  have parsed: "parsePositionalArguments (pool_reflection marshal) (Some (raw_params [JStr sig, JStr (rp_nodeID p), JNum ?n, arg]))
      (me_ArgTypes (mk_Method (signed_method name request response unwrap wrap handler))) = Inr [GStr sig, GStr (rp_nodeID p), GInt ?n, v]"
    by (simp add: signed_method_types [OF exported])
  have called: "method_Call (mk_Method (signed_method name request response unwrap wrap handler)) env
      [GStr sig, GStr (rp_nodeID p), GInt ?n, v] s = (map_sum id (\<lambda>x. Some (wrap x)) r, s')"
    using exported req run by (rule call_signed_method)
  have "Local_Call (pool_reflection marshal) registry env Inr method [JStr sig, JStr (rp_nodeID p), JNum ?n, arg] (c, s) =
      (case map_sum id (\<lambda>x. Some (wrap x)) r of
         Inr v \<Rightarrow> Inr (map_option (\<lambda>v. projr (marshal v)) v)
       | Inl e \<Rightarrow> (if is_panic e then Inl e else Inl (ErrResponse ErrCodeInternal (error_text e))), (c + 1, s'))"
    by (rule Local_Call_method [OF found parsed called])
      (use wire [of sig] run in \<open>cases r; force simp: pool_reflection_def\<close>)
  note call = this
  have "signed_call p decode resp method [arg] (c, s) = (rpc_result r, (c + 1, s'))"
  proof (cases r)
    case (Inl e)
    then show ?thesis
      using call args
      by (simp add: signed_call_def crypto client call_into_def local_Service_def rpc_result_def mk_request_def Let_def)
  next
    case (Inr x)
    then obtain j where "marshal (wrap x) = Inr j" "decode j resp = Inr x" using wire [of sig] run by blast
    then show ?thesis
      using call args Inr
      by (simp add: signed_call_def crypto client call_into_def local_Service_def rpc_result_def mk_request_def Let_def)
  qed
  then show ?thesis using verified run by (intro exI [of _ sig]) simp
qed


lemma update_call_local:
  assumes reg: "range_order ord" "Register ord ''vipnode_'' (pool_receiver cfg) only registry0 = (Inr u, registry)"
      "only = [] \<or> ''update'' \<in> set only"
    and key: "node_key (rp_crypto p) (rp_privkey p) (rp_nodeID p)"
    and client: "rp_client p = local_Service (pool_reflection marshal) registry env"
    and wire: "\<And>sig x s'. pool_Update cfg env sig (rp_nodeID p) (getNonce p (c, s)) (sent_update req) s = (Inr x, s') \<Longrightarrow>
      \<exists>j. marshal (GUpdateResp x) = Inr j \<and> j \<noteq> JNull \<and> decode j \<lparr>us_Balance = None, us_InvalidPeers = [], us_ActivePeers = [], us_LatestBlockNumber = 0\<rparr> = Inr x"
  shows "\<exists>sig. request_Verify (rp_crypto p) sig ''vipnode_update'' (rp_nodeID p) (getNonce p (c, s)) [UpdateRequest_json req] = Inr () \<and>
    remote_Update p decode req (c, s) =
      (let (r, s') = pool_Update cfg env sig (rp_nodeID p) (getNonce p (c, s)) (sent_update req) s in (rpc_result r, (c + 1, s')))"
proof -
  have "rpc_name ''Update'' = ''update''" by code_simp
  moreover have "gm_Name (update_method cfg) = ''Update''" and "update_method cfg \<in> set (rc_Methods (pool_receiver cfg))"
    by (simp_all add: pool_receiver_def update_method_def signed_method_def)
  ultimately have found: "fmlookup registry ''vipnode_update'' = Some (mk_Method (update_method cfg))"
    using pool_registered [OF reg(1,2), of "update_method cfg"] reg(3) by simp
  have dec: "pool_decode (pool_type ''UpdateRequest'') (UpdateRequest_json req) = Inr (GUpdateReq (sent_update req))"
    by (simp add: pool_decode_def type_defs un_UpdateRequest_json)
  show ?thesis
    unfolding remote_Update_def
  proof (rule signed_call_local [OF key refl client found [unfolded update_method_def] _ dec])
    show "isExported ''UpdateRequest''" by code_simp
  qed (simp, drule wire, blast)
qed

lemma connect_call_local:
  assumes reg: "range_order ord" "Register ord ''vipnode_'' (pool_receiver cfg) only registry0 = (Inr u, registry)"
      "only = [] \<or> ''connect'' \<in> set only"
    and key: "node_key (rp_crypto p) (rp_privkey p) (rp_nodeID p)"
    and client: "rp_client p = local_Service (pool_reflection marshal) registry env"
    and agent: "wire_agent (cr_NodeInfo req)"
    and wire: "\<And>sig x s'. pool_Connect cfg env sig (rp_nodeID p) (getNonce p (c, s)) req s = (Inr x, s') \<Longrightarrow>
      \<exists>j. marshal (GConnectResp x) = Inr j \<and> j \<noteq> JNull \<and> decode j \<lparr>cs_PoolVersion = '''', cs_Hosts = [], cs_Message = ''''\<rparr> = Inr x"
  shows "\<exists>sig. request_Verify (rp_crypto p) sig ''vipnode_connect'' (rp_nodeID p) (getNonce p (c, s)) [ConnectRequest_json req] = Inr () \<and>
    remote_Connect p decode req (c, s) =
      (let (r, s') = pool_Connect cfg env sig (rp_nodeID p) (getNonce p (c, s)) req s in (rpc_result r, (c + 1, s')))"
proof -
  have "rpc_name ''Connect'' = ''connect''" by code_simp
  moreover have "gm_Name (connect_method cfg) = ''Connect''" and "connect_method cfg \<in> set (rc_Methods (pool_receiver cfg))"
    by (simp_all add: pool_receiver_def connect_method_def signed_method_def)
  ultimately have found: "fmlookup registry ''vipnode_connect'' = Some (mk_Method (connect_method cfg))"
    using pool_registered [OF reg(1,2), of "connect_method cfg"] reg(3) by simp
  have dec: "pool_decode (pool_type ''ConnectRequest'') (ConnectRequest_json req) = Inr (GConnectReq req)"
    using agent by (simp add: pool_decode_def type_defs un_ConnectRequest_json)
  show ?thesis
    unfolding remote_Connect_def
  proof (rule signed_call_local [OF key refl client found [unfolded connect_method_def] _ dec])
    show "isExported ''ConnectRequest''" by code_simp
  qed (simp, drule wire, blast)
qed

lemma peer_call_local:
  assumes reg: "range_order ord" "Register ord ''vipnode_'' (pool_receiver cfg) only registry0 = (Inr u, registry)"
      "only = [] \<or> ''peer'' \<in> set only"
    and key: "node_key (rp_crypto p) (rp_privkey p) (rp_nodeID p)"
    and client: "rp_client p = local_Service (pool_reflection marshal) registry env"
    and num: "min_int64 \<le> pr_Num req" "pr_Num req \<le> max_int64"
    and wire: "\<And>sig x s'. pool_Peer cfg env sig (rp_nodeID p) (getNonce p (c, s)) req s = (Inr x, s') \<Longrightarrow>
      \<exists>j. marshal (GPeerResp x) = Inr j \<and> j \<noteq> JNull \<and> decode j \<lparr>ps_Peers = []\<rparr> = Inr x"
  shows "\<exists>sig. request_Verify (rp_crypto p) sig ''vipnode_peer'' (rp_nodeID p) (getNonce p (c, s)) [PeerRequest_json req] = Inr () \<and>
    remote_Peer p decode req (c, s) =
      (let (r, s') = pool_Peer cfg env sig (rp_nodeID p) (getNonce p (c, s)) req s in (rpc_result r, (c + 1, s')))"
proof -
  have "rpc_name ''Peer'' = ''peer''" by code_simp
  moreover have "gm_Name (peer_method cfg) = ''Peer''" and "peer_method cfg \<in> set (rc_Methods (pool_receiver cfg))"
    by (simp_all add: pool_receiver_def peer_method_def signed_method_def)
  ultimately have found: "fmlookup registry ''vipnode_peer'' = Some (mk_Method (peer_method cfg))"
    using pool_registered [OF reg(1,2), of "peer_method cfg"] reg(3) by simp
  have dec: "pool_decode (pool_type ''PeerRequest'') (PeerRequest_json req) = Inr (GPeerReq req)"
    using num by (simp add: pool_decode_def type_defs un_PeerRequest_json)
  show ?thesis
    unfolding remote_Peer_def
  proof (rule signed_call_local [OF key refl client found [unfolded peer_method_def] _ dec])
    show "isExported ''PeerRequest''" by code_simp
  qed (simp, drule wire, blast)
qed

section \<open>Properties\<close>


text \<open>A response printer and parser for the witness, with times as numbers.\<close>
definition demo_marshal :: "pool_value \<Rightarrow> json result" where
  "demo_marshal v =
     (case v of
        GUpdateResp r \<Rightarrow> Inr (JArr
          [case us_Balance r of None \<Rightarrow> JNull
           | Some b \<Rightarrow> JArr [JStr (b_Account b), JNum (b_Deposit b), JNum (b_Credit b), JNum (b_NextWithdraw b)],
           JArr (map JStr (us_InvalidPeers r)), JArr (map JStr (us_ActivePeers r)), JNum (uint (us_LatestBlockNumber r))])
      | _ \<Rightarrow> Inl (ErrNew ''unsupported''))"

definition json_str :: "json \<Rightarrow> string" where
  "json_str j = (case j of JStr s \<Rightarrow> s | _ \<Rightarrow> '''')"

definition demo_unmarshal :: "UpdateResponse decoder" where
  "demo_unmarshal j z =
     (case j of
        JArr [b, JArr is, JArr as, JNum n] \<Rightarrow>
          Inr \<lparr>us_Balance = (case b of
                 JArr [JStr a, JNum d, JNum c, JNum t] \<Rightarrow> Some \<lparr>b_Account = a, b_Deposit = d, b_Credit = c, b_NextWithdraw = t\<rparr>
               | _ \<Rightarrow> None),
               us_InvalidPeers = map json_str is, us_ActivePeers = map json_str as, us_LatestBlockNumber = word_of_int n\<rparr>
      | _ \<Rightarrow> Inl unmarshal_error)"

lemma demo_wire: "\<exists>j. demo_marshal (GUpdateResp x) = Inr j \<and> j \<noteq> JNull \<and> (\<forall>z. demo_unmarshal j z = Inr x)"
  by (simp add: demo_marshal_def demo_unmarshal_def json_str_def comp_def split: option.split)

definition demo_rpc_cfg :: "memoryStore pool_config" where
  "demo_rpc_cfg = pool_New_config toy_crypto mem_Store None"

definition demo_rpc_env :: env where
  "demo_rpc_env = \<lparr>e_clock = int, e_ord = (\<lambda>_. sorted_list_of_fset), e_service = Some 1, e_RemoteAddr = None,
     e_Call = (\<lambda>svc m i. Inr ()), e_arrival = (\<lambda>n. [0..<n])\<rparr>"

definition demo_registry :: "(pool_value, env, memoryStore pool) registry" where
  "demo_registry = snd (Register sorted_list_of_fset ''vipnode_'' (pool_receiver demo_rpc_cfg) [] fmempty)"

definition demo_remote :: "(Json_Rpc.client \<times> memoryStore pool) RemotePool" where
  "demo_remote = pool_Remote toy_crypto (\<lambda>_. 100) (\<lambda>_. replicate 128 (CHR ''a''))
     (local_Service (pool_reflection demo_marshal) demo_registry demo_rpc_env) ''key''"


end
