(* ===== verification/Pretty_Ether.thy ===== *)
theory Pretty_Ether
  imports Ethnode Error_Messages
begin

text \<open>
  Amounts of ether as text (\<^verbatim>\<open>internal/pretty/ether.go\<close>): printing with a fitting unit and four decimals, and
  parsing a number with a unit. Amounts are unbounded integers (\<^verbatim>\<open>big.Int\<close>), the rationals of
  the Go library are written out as quotients.
\<close>

section \<open>Printing\<close>

definition ethInWei :: int where "ethInWei = 1000000000000000000"
definition ethInGwei :: int where "ethInGwei = 1000000000"
definition boundary :: int where "boundary = 10000"
definition gweiBoundary :: int where "gweiBoundary = ethInGwei div boundary"
definition ethBoundary :: int where "ethBoundary = ethInWei div boundary"

lemmas ether_values = ethInWei_def ethInGwei_def boundary_def gweiBoundary_def ethBoundary_def

text \<open>Four digits of the fraction.\<close>
definition pad4 :: "nat \<Rightarrow> string" where
  "pad4 r = replicate (4 - length (nat_digits r)) (CHR ''0'') @ nat_digits r"

text \<open>\<^verbatim>\<open>Rat.FloatString(4)\<close> of \<open>i / denom\<close>: the last digit is rounded to nearest, halves away from zero.\<close>
definition FloatString4 :: "int \<Rightarrow> int \<Rightarrow> string" where
  "FloatString4 i denom =
     (let a = abs i; q0 = a div denom; r0 = a mod denom * 10000;
          r1 = r0 div denom; r = (if denom \<le> 2 * (r0 mod denom) then r1 + 1 else r1);
          (q, f) = (if 10000 \<le> r then (q0 + 1, r - 10000) else (q0, r))
      in (if i < 0 then ''-'' else '''') @ nat_digits (nat q) @ ''.'' @ pad4 (nat f))"

definition trim_zeros :: "string \<Rightarrow> string" where
  "trim_zeros s = rev (dropWhile (\<lambda>c. c = CHR ''0'' \<or> c = CHR ''.'') (rev s))"

definition Ether_String :: "int \<Rightarrow> string" where
  "Ether_String i =
     (let (unit, denom) = (if ethBoundary \<le> abs i then (''ether'', ethInWei)
                           else if gweiBoundary \<le> abs i then (''gwei'', ethInGwei) else (''wei'', 1));
          s = trim_zeros (FloatString4 i denom)
      in (if s = '''' then ''0'' else s) @ '' '' @ unit)"

section \<open>Parsing\<close>

definition number_char :: "char \<Rightarrow> bool" where
  "number_char c \<longleftrightarrow> is_digit c \<or> c = CHR ''-'' \<or> c = CHR ''.''"

text \<open>
  \<^verbatim>\<open>big.Int.SetString(s, 0)\<close>: an optional sign and digits in the base of the prefix (underscores between digits are left out).
\<close>
definition big_base0 :: "string \<Rightarrow> nat option" where
  "big_base0 ds =
     (if HasPrefix ds ''0x'' \<or> HasPrefix ds ''0X'' then digits_in 16 (drop 2 ds)
      else if HasPrefix ds ''0b'' \<or> HasPrefix ds ''0B'' then digits_in 2 (drop 2 ds)
      else if HasPrefix ds ''0o'' \<or> HasPrefix ds ''0O'' then digits_in 8 (drop 2 ds)
      else if HasPrefix ds ''0'' \<and> ds \<noteq> ''0'' then digits_in 8 (drop 1 ds)
      else digits_in 10 ds)"

definition big_SetString :: "string \<Rightarrow> int option" where
  "big_SetString s =
     (let (neg, ds) = split_sign s
      in map_option (\<lambda>n. if neg then - int n else int n) (big_base0 ds))"

text \<open>
  \<^verbatim>\<open>Rat.SetString\<close> of a string of digits, points and minus signs: numerator and power of ten of the denominator.
\<close>
definition rat_SetString :: "string \<Rightarrow> (int \<times> nat) option" where
  "rat_SetString s =
     (let (neg, ds) = split_sign s; ip = takeWhile is_digit ds; rest = dropWhile is_digit ds;
          fp = (case rest of [] \<Rightarrow> [] | c # t \<Rightarrow> t)
      in if (rest = [] \<or> hd rest = CHR ''.'') \<and> list_all is_digit fp \<and> ip @ fp \<noteq> []
         then Some (if neg then - int (decimal (ip @ fp)) else int (decimal (ip @ fp)), length fp)
         else None)"

definition is_space :: "char \<Rightarrow> bool" where
  "is_space c \<longleftrightarrow> c = CHR '' '' \<or> (9 \<le> code c \<and> code c \<le> 13)"

definition TrimSpace :: "string \<Rightarrow> string" where
  "TrimSpace s = rev (dropWhile is_space (rev (dropWhile is_space s)))"

text \<open>The multiplier of a unit. Nothing sets the one of wei, so it is zero.\<close>
definition unit_mul :: "string \<Rightarrow> int option" where
  "unit_mul u =
     (if u = ''wei'' then Some 0
      else if u = ''kwei'' \<or> u = ''babbage'' then Some 1000
      else if u = ''mwei'' \<or> u = ''lovelace'' then Some 1000000
      else if u = ''gwei'' \<or> u = ''shannon'' then Some 1000000000
      else if u = ''microether'' \<or> u = ''szabo'' then Some 1000000000000
      else if u = ''milliether'' \<or> u = ''finney'' then Some 1000000000000000
      else if u = ''ether'' \<or> u = ''eth'' then Some 1000000000000000000
      else None)"

text \<open>
  The number ends at the first byte that cannot be part of one. (Digits of other scripts, which the source counts as number
  characters, are refused here as a unit and there as a number.)
\<close>
definition ParseEther :: "string \<Rightarrow> int result" where
  "ParseEther s =
     (let number = takeWhile number_char s; unit = dropWhile number_char s
      in if number = [] \<or> unit = []
         then (case big_SetString s of
                 Some r \<Rightarrow> Inr r
               | None \<Rightarrow> Inl (ErrNew (''failed to parse ether value: '' @ go_quote s)))
         else
           (case rat_SetString number of
              None \<Rightarrow> Inl (ErrNew (''failed to parse ether value: '' @ go_quote s))
            | Some (n, k) \<Rightarrow>
                (case unit_mul (ToLower (TrimSpace unit)) of
                   None \<Rightarrow> Inl (ErrNew (''failed to parse ether unit: '' @ go_quote s))
                 | Some mul \<Rightarrow> Inr (n * mul div 10 ^ k))))"

section \<open>Decimals\<close>

lemma decimal_append: "decimal (a @ b) = decimal a * 10 ^ length b + decimal b"
proof -
  have shift: "foldl (\<lambda>n c. 10 * n + (code c - 48)) k b = k * 10 ^ length b + decimal b" for k
  proof (induction b rule: rev_induct)
    case (snoc c b)
    have "decimal (b @ [c]) = 10 * decimal b + (code c - 48)" by (simp add: decimal_def)
    with snoc show ?case by (simp add: algebra_simps)
  qed (simp add: decimal_def)
  show ?thesis unfolding decimal_def [of "a @ b"] decimal_def [of a] foldl_append by (rule shift)
qed

lemma decimal_zeros: "decimal (replicate k (CHR ''0'')) = 0"
  by (induction k) (simp_all add: decimal_def code_def)

lemma decimal_pad4: "decimal (pad4 r) = r"
  by (simp add: pad4_def decimal_append decimal_zeros decimal_nat_digits)

lemma nat_digits_length: "n < 10 ^ k \<Longrightarrow> 0 < k \<Longrightarrow> length (nat_digits n) \<le> k"
proof (induction k arbitrary: n)
  case (Suc k)
  show ?case
  proof (cases "n < 10")
    case True
    then show ?thesis by (simp add: nat_digits.simps [of n])
  next
    case False
    with Suc.prems have "0 < k" by (cases k) auto
    moreover have "n div 10 < 10 ^ k" using Suc.prems(1) by (simp add: less_mult_imp_div_less)
    ultimately have "length (nat_digits (n div 10)) \<le> k" using Suc.IH by blast
    then show ?thesis using False by (simp add: nat_digits.simps [of n])
  qed
qed simp

lemma pad4_length: "r < 10000 \<Longrightarrow> length (pad4 r) = 4"
  using nat_digits_length [of r 4] by (simp add: pad4_def)

lemma pad4_digits: "c \<in> set (pad4 r) \<Longrightarrow> is_digit c"
  by (auto simp: pad4_def is_digit_def code_def dest: nat_digits_digits [unfolded is_digit_def code_def])

lemma last_nat_digits: "last (nat_digits n) = digit_char (n mod 10)"
  by (subst nat_digits.simps) simp

lemma trailing_zeros:
  assumes "decimal P \<noteq> 0"
  shows "\<exists>P' k. P = P' @ replicate k (CHR ''0'') \<and> P' \<noteq> [] \<and> last P' \<noteq> CHR ''0''"
  using assms
proof (induction P rule: rev_induct)
  case (snoc c P)
  show ?case
  proof (cases "c = CHR ''0''")
    case True
    then have "decimal P \<noteq> 0" using snoc.prems by (simp add: decimal_def code_def)
    then obtain P' k where "P = P' @ replicate k (CHR ''0'')" "P' \<noteq> []" "last P' \<noteq> CHR ''0''" using snoc.IH by blast
    then show ?thesis using True by (intro exI [of _ P'] exI [of _ "Suc k"]) (simp add: replicate_append_same)
  next
    case False
    then show ?thesis by (intro exI [of _ "P @ [c]"] exI [of _ 0]) simp
  qed
qed (simp add: decimal_def)

lemma trim_zeros_eq:
  assumes "t \<noteq> []" and "last t \<noteq> CHR ''0''" and "last t \<noteq> CHR ''.''" and "\<forall>c\<in>set z. c = CHR ''0'' \<or> c = CHR ''.''"
  shows "trim_zeros (t @ z) = t"
proof -
  have "dropWhile (\<lambda>c. c = CHR ''0'' \<or> c = CHR ''.'') (rev z @ rev t) = dropWhile (\<lambda>c. c = CHR ''0'' \<or> c = CHR ''.'') (rev t)"
    using assms(4) by (intro dropWhile_append2) simp
  also have "\<dots> = rev t" using assms(1-3) by (cases t rule: rev_cases) simp_all
  finally have "dropWhile (\<lambda>c. c = CHR ''0'' \<or> c = CHR ''.'') (rev z @ rev t) = rev t" .
  then show ?thesis by (simp add: trim_zeros_def)
qed

section \<open>Printing exact amounts\<close>

text \<open>The amount \<open>m\<close> ten-thousandths of a unit of \<open>10000 * c\<close> wei.\<close>
lemma FloatString4_exact:
  assumes "0 < c"
  shows "FloatString4 (if neg then - (int m * c) else int m * c) (10000 * c) =
    (if neg \<and> m \<noteq> 0 then ''-'' else '''') @ nat_digits (m div 10000) @ ''.'' @ pad4 (m mod 10000)"
proof -
  have a: "abs (if neg then - (int m * c) else int m * c) = int m * c" using assms by (simp add: abs_mult)
  have q: "int m * c div (10000 * c) = int (m div 10000)"
    using assms div_mult_mult2 [of c "int m" 10000] by (simp add: zdiv_int)
  have r: "int m * c mod (10000 * c) = int (m mod 10000) * c"
    using mod_mult_mult2 [of "int m" c 10000] by (simp add: zmod_int)
  have "int (m mod 10000) * c * 10000 = int (m mod 10000) * (10000 * c)" by simp
  then have d: "int (m mod 10000) * c * 10000 div (10000 * c) = int (m mod 10000)"
    and e: "int (m mod 10000) * c * 10000 mod (10000 * c) = 0"
    using assms by simp_all
  have s: "(if neg then - (int m * c) else int m * c) < 0 \<longleftrightarrow> neg \<and> m \<noteq> 0"
    using assms by (simp add: mult_less_0_iff zero_less_mult_iff)
  have "\<not> 10000 \<le> int (m mod 10000)" by simp
  then show ?thesis
    unfolding FloatString4_def Let_def a q r d e s using assms by simp
qed

lemma printed_number:
  assumes "0 < m" and "\<not> 100000 dvd m"
  obtains t z k where "nat_digits (m div 10000) @ ''.'' @ pad4 (m mod 10000) = t @ z"
    and "\<forall>c\<in>set z. c = CHR ''0'' \<or> c = CHR ''.''" and "t \<noteq> []" and "last t \<noteq> CHR ''0''" and "last t \<noteq> CHR ''.''"
    and "\<forall>c\<in>set t. is_digit c \<or> c = CHR ''.''"
    and "\<forall>neg. \<exists>n. rat_SetString ((if neg then ''-'' else '''') @ t) = Some (if neg then - int n else int n, k) \<and> n * 10000 = m * 10 ^ k"
proof -
  let ?q = "m div 10000" and ?r = "m mod 10000"
  have digit: "is_digit c \<Longrightarrow> c \<noteq> CHR ''-'' \<and> c \<noteq> CHR ''+'' \<and> c \<noteq> CHR ''.''" for c by (auto simp: is_digit_def code_def)
  have A: "\<And>c. c \<in> set (nat_digits ?q) \<Longrightarrow> is_digit c" by (rule nat_digits_digits)
  have sign: "split_sign ((if neg then ''-'' else '''') @ nat_digits ?q @ s) = (neg, nat_digits ?q @ s)" for neg s
    using A [of "hd (nat_digits ?q)"] digit by (cases "nat_digits ?q") auto
  have before: "takeWhile is_digit (nat_digits ?q @ s) = nat_digits ?q" "dropWhile is_digit (nat_digits ?q @ s) = s"
    if "s = [] \<or> \<not> is_digit (hd s)" for s
    using that A by (cases s; simp add: takeWhile_append dropWhile_append)+
  show thesis
  proof (cases "?r = 0")
    case True
    then have m: "m = ?q * 10000" using div_mult_mod_eq [of m 10000] by simp
    have "\<not> 10 dvd ?q"
    proof
      assume "10 dvd ?q"
      then have "10 * 10000 dvd ?q * 10000" by (rule mult_dvd_mono) simp
      then show False using m assms(2) by simp
    qed
    then have "?q mod 10 \<noteq> 0" by (simp add: dvd_eq_mod_eq_0)
    then have nz: "last (nat_digits ?q) \<noteq> CHR ''0''"
      using digit_char_code [of "?q mod 10"] by (auto simp: last_nat_digits code_def)
    have "rat_SetString ((if neg then ''-'' else '''') @ nat_digits ?q) =
        Some (if neg then - int ?q else int ?q, 0)" for neg
    proof -
      have whole: "takeWhile is_digit (nat_digits ?q) = nat_digits ?q" "dropWhile is_digit (nat_digits ?q) = []"
        using before [of "[]"] by simp_all
      show ?thesis using sign [of neg "[]"] A by (simp add: rat_SetString_def decimal_nat_digits Let_def whole)
    qed
    moreover have "?q * 10000 = m * 10 ^ 0" using m by simp
    ultimately have parsed: "\<forall>neg. \<exists>n. rat_SetString ((if neg then ''-'' else '''') @ nat_digits ?q) =
        Some (if neg then - int n else int n, 0) \<and> n * 10000 = m * 10 ^ 0" by blast
    have "\<forall>c\<in>set (''.'' @ pad4 ?r). c = CHR ''0'' \<or> c = CHR ''.''"
    proof -
      have "nat_digits 0 = ''0''" by code_simp
      then show ?thesis unfolding True by (simp add: pad4_def)
    qed
    moreover have "last (nat_digits ?q) \<noteq> CHR ''.''" using A [OF last_in_set] digit nat_digits_nonempty by blast
    ultimately show thesis using that [OF _ _ nat_digits_nonempty nz _ _ parsed] A by blast
  next
    case False
    then have "decimal (pad4 ?r) \<noteq> 0" by (simp add: decimal_pad4)
    then obtain P k where P: "pad4 ?r = P @ replicate k (CHR ''0'')" "P \<noteq> []" "last P \<noteq> CHR ''0''"
      using trailing_zeros by metis
    have dP: "\<And>c. c \<in> set P \<Longrightarrow> is_digit c" using pad4_digits [of _ ?r] P(1) by auto
    have len: "length P + k = 4" using pad4_length [of ?r] P(1) by (metis length_append length_replicate mod_less_divisor zero_less_numeral)
    have "decimal P * 10 ^ k = ?r" using decimal_pad4 [of ?r] P(1) by (simp add: decimal_append decimal_zeros)
    then have "?r * 10 ^ length P = decimal P * 10000"     proof -
      have "k + length P = 4" using len by simp
      then have "(10 :: nat) ^ k * 10 ^ length P = 10000" by (simp flip: power_add)
      then show ?thesis using \<open>decimal P * 10 ^ k = ?r\<close> by (metis mult.assoc)
    qed
    then have "decimal (nat_digits ?q @ P) * 10000 = m * 10 ^ length P"
    proof -
      have "m * 10 ^ length P = (?q * 10000 + ?r) * 10 ^ length P" by (simp only: div_mult_mod_eq)
      also have "\<dots> = ?q * 10 ^ length P * 10000 + ?r * 10 ^ length P" by (simp only: distrib_left distrib_right mult_ac)
      finally show ?thesis
        using \<open>?r * 10 ^ length P = decimal P * 10000\<close> by (simp only: decimal_append decimal_nat_digits distrib_right)
    qed
    moreover have "rat_SetString ((if neg then ''-'' else '''') @ nat_digits ?q @ ''.'' @ P) =
        Some (if neg then - int (decimal (nat_digits ?q @ P)) else int (decimal (nat_digits ?q @ P)), length P)" for neg
    proof -
      have "\<not> is_digit (CHR ''.'')" using digit by blast
      then have cut: "takeWhile is_digit (nat_digits ?q @ CHR ''.'' # P) = nat_digits ?q"
        "dropWhile is_digit (nat_digits ?q @ CHR ''.'' # P) = CHR ''.'' # P" using before [of "CHR ''.'' # P"] by simp_all
      have "list_all is_digit P" using dP by (simp add: list_all_iff)
      then show ?thesis using sign [of neg "''.'' @ P"] by (simp add: rat_SetString_def Let_def cut)
    qed
    ultimately have parsed: "\<forall>neg. \<exists>n. rat_SetString ((if neg then ''-'' else '''') @ nat_digits ?q @ ''.'' @ P) =
        Some (if neg then - int n else int n, length P) \<and> n * 10000 = m * 10 ^ length P" by blast
    have lst: "last (nat_digits ?q @ ''.'' @ P) = last P" using P(2) by simp
    have "last P \<noteq> CHR ''.''" using dP [OF last_in_set] digit P(2) by blast
    moreover have "nat_digits ?q @ ''.'' @ pad4 ?r = (nat_digits ?q @ ''.'' @ P) @ replicate k (CHR ''0'')" using P(1) by simp
    moreover have "\<forall>c\<in>set (nat_digits ?q @ ''.'' @ P). is_digit c \<or> c = CHR ''.''" using A dP by auto
    ultimately show thesis
      using that [of "nat_digits ?q @ ''.'' @ P" "replicate k (CHR ''0'')"] P(3) parsed unfolding lst by fastforce
  qed
qed


lemma parse_printed:
  assumes "0 < m" and "\<not> 100000 dvd m" and "0 < c" and unit: "unit_mul (ToLower (TrimSpace (CHR '' '' # u))) = Some (10000 * c)"
  shows "ParseEther (trim_zeros (FloatString4 (if neg then - (int m * c) else int m * c) (10000 * c)) @ '' '' @ u) =
      Inr (if neg then - (int m * c) else int m * c)"
    and "trim_zeros (FloatString4 (if neg then - (int m * c) else int m * c) (10000 * c)) \<noteq> ''''"
proof -
  let ?i = "if neg then - (int m * c) else int m * c" and ?sign = "if neg then ''-'' else ''''"
  obtain t z k where t: "nat_digits (m div 10000) @ ''.'' @ pad4 (m mod 10000) = t @ z"
      "\<forall>c\<in>set z. c = CHR ''0'' \<or> c = CHR ''.''" "t \<noteq> []" "last t \<noteq> CHR ''0''" "last t \<noteq> CHR ''.''"
      "\<forall>c\<in>set t. is_digit c \<or> c = CHR ''.''"
    and parsed: "\<forall>neg. \<exists>n. rat_SetString ((if neg then ''-'' else '''') @ t) = Some (if neg then - int n else int n, k) \<and> n * 10000 = m * 10 ^ k"
    by (rule printed_number [OF assms(1,2)])
  obtain n where n: "rat_SetString (?sign @ t) = Some (if neg then - int n else int n, k)" "n * 10000 = m * 10 ^ k"
    using parsed by blast
  have "FloatString4 ?i (10000 * c) = (?sign @ t) @ z"
    using FloatString4_exact [OF assms(3), of neg m] assms(1) t(1) by simp
  then have printed: "trim_zeros (FloatString4 ?i (10000 * c)) = ?sign @ t"
    using trim_zeros_eq [of "?sign @ t" z] t(2-5) by simp
  then show "trim_zeros (FloatString4 ?i (10000 * c)) \<noteq> ''''" using t(3) by simp
  have "\<And>x. x \<in> set (?sign @ t) \<Longrightarrow> number_char x" using t(6) by (auto simp: number_char_def split: if_splits)
  moreover have "\<not> number_char (CHR '' '')" by (simp add: number_char_def is_digit_def code_def)
  ultimately have cut: "takeWhile number_char ((?sign @ t) @ CHR '' '' # u) = ?sign @ t"
      "dropWhile number_char ((?sign @ t) @ CHR '' '' # u) = CHR '' '' # u"
    by simp_all
  have "int n * (10000 * c) = int m * c * 10 ^ k"
  proof -
    have "int n * 10000 = int m * 10 ^ k" using n(2) by (metis of_nat_mult of_nat_numeral of_nat_power)
    then show ?thesis by (metis mult.assoc mult.commute)
  qed
  then have "(if neg then - int n else int n) * (10000 * c) = ?i * 10 ^ k" by simp
  then have "(if neg then - int n else int n) * (10000 * c) div 10 ^ k = ?i" by (simp only:) simp
  then have "ParseEther ((?sign @ t) @ CHR '' '' # u) = Inr ?i"
    unfolding ParseEther_def Let_def cut n(1) unit using t(3) by simp
  then show "ParseEther (trim_zeros (FloatString4 ?i (10000 * c)) @ '' '' @ u) = Inr ?i"
    unfolding printed by simp
qed

section \<open>Properties\<close>

text \<open>
  C22: Exact amounts survive printing and parsing. An amount in ether that has at most four decimals and is no multiple of
  ten ether, or a smaller amount in gwei with at most four decimals that is no multiple of ten gwei, prints to a
  text that parses back to the same amount, whatever its sign.
\<close>
theorem ParseEther_String:
  assumes "i \<noteq> 0" and "10 ^ 14 dvd i \<and> \<not> 10 ^ 19 dvd i \<or> 10 ^ 5 dvd i \<and> \<not> 10 ^ 10 dvd i \<and> \<bar>i\<bar> < 10 ^ 14"
  shows "ParseEther (Ether_String i) = Inr i"
  using assms(2)
proof
  assume ether: "10 ^ 14 dvd i \<and> \<not> 10 ^ 19 dvd i"
  then obtain d where d: "i = 10 ^ 14 * d" by (blast elim: dvdE)
  define m where "m = nat \<bar>d\<bar>"
  have i: "i = (if d < 0 then - (int m * 10 ^ 14) else int m * 10 ^ 14)" by (simp add: d m_def)
  have "\<not> 100000 dvd m"
  proof
    assume "100000 dvd m"
    then have "(100000 :: int) dvd d" by (simp add: m_def nat_dvd_iff flip: int_dvd_int_iff)
    then have "10 ^ 14 * 100000 dvd i" unfolding d by (rule mult_dvd_mono [OF dvd_refl])
    then show False using ether by simp
  qed
  moreover have "0 < m" using assms(1) d by (simp add: m_def)
  moreover have "unit_mul (ToLower (TrimSpace (CHR '' '' # ''ether''))) = Some (10000 * 10 ^ 14)"
    by (simp add: unit_mul_def ToLower_def TrimSpace_def is_space_def is_upper_def code_def)
  moreover have "(1 :: int) \<le> \<bar>d\<bar>" using assms(1) d by auto
  then have "ethBoundary \<le> \<bar>i\<bar>" unfolding d abs_mult ether_values by simp
  ultimately show ?thesis
    using parse_printed [of m "10 ^ 14" "''ether''" "d < 0"] unfolding i [symmetric]
    by (simp add: Ether_String_def ethInWei_def)
next
  assume gwei: "10 ^ 5 dvd i \<and> \<not> 10 ^ 10 dvd i \<and> \<bar>i\<bar> < 10 ^ 14"
  then obtain d where d: "i = 10 ^ 5 * d" by (blast elim: dvdE)
  define m where "m = nat \<bar>d\<bar>"
  have i: "i = (if d < 0 then - (int m * 10 ^ 5) else int m * 10 ^ 5)" by (simp add: d m_def)
  have "\<not> 100000 dvd m"
  proof
    assume "100000 dvd m"
    then have "(100000 :: int) dvd d" by (simp add: m_def nat_dvd_iff flip: int_dvd_int_iff)
    then have "10 ^ 5 * 100000 dvd i" unfolding d by (rule mult_dvd_mono [OF dvd_refl])
    then show False using gwei by simp
  qed
  moreover have "0 < m" using assms(1) d by (simp add: m_def)
  moreover have "unit_mul (ToLower (TrimSpace (CHR '' '' # ''gwei''))) = Some (10000 * 10 ^ 5)"
    by (simp add: unit_mul_def ToLower_def TrimSpace_def is_space_def is_upper_def code_def)
  moreover have "(1 :: int) \<le> \<bar>d\<bar>" using assms(1) d by auto
  then have "gweiBoundary \<le> \<bar>i\<bar>" unfolding d abs_mult ether_values by simp
  moreover have "\<not> ethBoundary \<le> \<bar>i\<bar>" using gwei by (simp add: ether_values)
  ultimately show ?thesis
    using parse_printed [of m "10 ^ 5" "''gwei''" "d < 0"] unfolding i [symmetric]
    by (simp add: Ether_String_def ethInGwei_def)
qed

theorem ParseEther_String_witness: "ParseEther (Ether_String (- 15000000000000000000)) = Inr (- 15000000000000000000)"
  by (rule ParseEther_String) simp_all


lemma trim_zeros_drop:
  assumes "\<forall>c\<in>set z. c = CHR ''0'' \<or> c = CHR ''.''"
  shows "trim_zeros (t @ z) = trim_zeros t"
proof -
  have "dropWhile (\<lambda>c. c = CHR ''0'' \<or> c = CHR ''.'') (rev z @ rev t) = dropWhile (\<lambda>c. c = CHR ''0'' \<or> c = CHR ''.'') (rev t)"
    using assms by (intro dropWhile_append2) simp
  then show ?thesis by (simp add: trim_zeros_def)
qed

lemma whole_ether_printed:
  assumes "0 < n"
  shows "trim_zeros (FloatString4 (int n * ethInWei) ethInWei) = trim_zeros (nat_digits n)"
proof -
  have "FloatString4 (int (n * 10000) * 10 ^ 14) (10000 * 10 ^ 14) = nat_digits n @ ''.'' @ pad4 0"
    using FloatString4_exact [of "10 ^ 14" False "n * 10000"] by simp
  moreover have "int (n * 10000) * 10 ^ 14 = int n * ethInWei" and "(10000 * 10 ^ 14 :: int) = ethInWei"
    by (simp_all add: ethInWei_def)
  moreover have "pad4 0 = ''0000''" by code_simp
  ultimately have "FloatString4 (int n * ethInWei) ethInWei = nat_digits n @ ''.0000''" by (simp only: append.simps)
  then show ?thesis using trim_zeros_drop [of "''.0000''" "nat_digits n"] by simp
qed

text \<open>
  Whole multiples of ten ether print wrong. Trimming zeros also takes those before the decimal point: ten times a whole
  number of ether prints like the number itself.
\<close>
theorem tens_of_ether_misprinted:
  assumes "0 < n"
  shows "Ether_String (int (10 * n) * ethInWei) = Ether_String (int n * ethInWei)"
proof -
  have "nat_digits (10 * n) = nat_digits n @ ''0''"
  proof -
    have "nat_digits (10 * n) = nat_digits (10 * n div 10) @ [digit_char (10 * n mod 10)]"
      using assms by (subst nat_digits.simps) simp
    moreover have "digit_char 0 = CHR ''0''" by code_simp
    ultimately show ?thesis by simp
  qed
  then have "trim_zeros (nat_digits (10 * n)) = trim_zeros (nat_digits n)" using trim_zeros_drop [of "''0''"] by simp
  moreover have "ethBoundary \<le> \<bar>int (10 * n) * ethInWei\<bar>" "ethBoundary \<le> \<bar>int n * ethInWei\<bar>"
    using assms by (simp_all add: ether_values abs_mult)
  ultimately show ?thesis
    using whole_ether_printed [of n] whole_ether_printed [of "10 * n"] assms by (simp add: Ether_String_def del: of_nat_mult)
qed

theorem tens_of_ether_misprinted_witness: "Ether_String (int (10 * 1) * ethInWei) = ''1 ether''"
proof -
  have "Ether_String (int 1 * ethInWei) = ''1 ether''" by code_simp
  with tens_of_ether_misprinted [of 1] show ?thesis by simp
qed

text \<open>An amount given in wei is lost: whatever the number, a text with the unit wei parses to zero.\<close>
lemma wei_lost:
  assumes "rat_SetString number = Some v" and "\<forall>c\<in>set number. number_char c" and "number \<noteq> []"
  shows "ParseEther (number @ '' wei'') = Inr 0"
proof -
  have "\<not> number_char (CHR '' '')" by (simp add: number_char_def is_digit_def code_def)
  then have "takeWhile number_char (number @ '' wei'') = number" "dropWhile number_char (number @ '' wei'') = '' wei''"
    using assms(2) by simp_all
  moreover have "unit_mul (ToLower (TrimSpace '' wei'')) = Some 0"
    by (simp add: unit_mul_def ToLower_def TrimSpace_def is_space_def is_upper_def code_def)
  ultimately show ?thesis using assms(1,3) by (cases v) (simp add: ParseEther_def)
qed

end
