(* ===== verification/Json_Remote.thy ===== *)
theory Json_Remote
  imports Json_Rpc
begin

text \<open>
  Calls over a connection (\<^verbatim>\<open>jsonrpc2/remote.go\<close>, \<^verbatim>\<open>jsonrpc2/pending.go\<close>). One goroutine serves the
  messages of the connection while others make calls and wait for their responses; they
  meet in the map of pending messages, whose entries hold a channel with room for one message.

  A channel is a number, and \<open>rm_chans\<close> holds the message in the buffer of each full channel, so that a caller keeps
  its channel when the entry is discarded. The goroutines are the steps of \<open>remote_step\<close>; each
  is atomic, as the methods hold the lock or use a channel.
\<close>

section \<open>Pending messages\<close>

record pendingMsg =
  pm_msgChan :: nat
  pm_timestamp :: time

record pendingItem =
  pi_key :: string
  pi_timestamp :: time

text \<open>
  The items in the order of the visit, sorted by age; \<^verbatim>\<open>sort.Sort\<close> leaves items of the same age in an unspecified
  order, as the visit does. Slicing to a negative length panics.
\<close>
definition pendingOldest :: "iter_order \<Rightarrow> (string, pendingMsg) fmap \<Rightarrow> int \<Rightarrow> pendingItem list result" where
  "pendingOldest ord pending num0 =
     (let num = (if int (fcard (fmdom pending)) < num0 then int (fcard (fmdom pending)) else num0);
          queue = map (\<lambda>key. \<lparr>pi_key = key, pi_timestamp = pm_timestamp (the (fmlookup pending key))\<rparr>) (ord (fmdom pending))
      in if num < 0 then Inl (GoPanic ''slice bounds out of range'')
         else Inr (take (nat num) (sort_key pi_timestamp queue)))"

record remote =
  rm_PendingLimit :: int
  rm_PendingDiscard :: int
  rm_pending :: "(string, pendingMsg) fmap"
  rm_chans :: "(nat, Message) fmap"
  rm_made :: nat

definition cleanPending :: "iter_order \<Rightarrow> int \<Rightarrow> remote \<Rightarrow> remote" where
  "cleanPending ord num r =
     (case pendingOldest ord (rm_pending r) num of
        Inl _ \<Rightarrow> r
      | Inr items \<Rightarrow> r\<lparr>rm_pending := fold (\<lambda>it pending. fmdrop (pi_key it) pending) items (rm_pending r)\<rparr>)"

definition make_room :: "iter_order \<Rightarrow> remote \<Rightarrow> remote" where
  "make_room ord r =
     (if 0 < rm_PendingLimit r \<and> rm_PendingLimit r \<le> int (fcard (fmdom (rm_pending r))) \<and> 0 < rm_PendingDiscard r
      then cleanPending ord (rm_PendingDiscard r) r else r)"

definition getPendingChan :: "iter_order \<Rightarrow> time \<Rightarrow> string \<Rightarrow> remote \<Rightarrow> nat \<times> remote" where
  "getPendingChan ord now key r0 =
     (let r = make_room ord r0
      in case fmlookup (rm_pending r) key of
           Some pending \<Rightarrow> (pm_msgChan pending, r)
         | None \<Rightarrow>
             (rm_made r, r\<lparr>rm_pending := fmupd key \<lparr>pm_msgChan = rm_made r, pm_timestamp = now\<rparr> (rm_pending r),
                            rm_made := rm_made r + 1\<rparr>))"

section \<open>Serving and receiving\<close>

datatype served = ServedRequest | ServedResponse | ServedNothing | ServeBlocked

text \<open>One round of \<^verbatim>\<open>Serve\<close>: sending on a full channel blocks.\<close>
definition Serve_message :: "iter_order \<Rightarrow> time \<Rightarrow> Message \<Rightarrow> remote \<Rightarrow> served \<times> remote" where
  "Serve_message ord now msg r =
     (if msg_Request msg \<noteq> None then (ServedRequest, r)
      else if 0 < length (msg_ID msg) then
        (let (ch, r1) = getPendingChan ord now (msg_ID msg) r
         in case fmlookup (rm_chans r1) ch of
              Some _ \<Rightarrow> (ServeBlocked, r1)
            | None \<Rightarrow> (ServedResponse, r1\<lparr>rm_chans := fmupd ch msg (rm_chans r1)\<rparr>))
      else (ServedNothing, r))"

text \<open>The receiving branch of \<^verbatim>\<open>receive\<close>, for a caller that waits on its channel.\<close>
definition receive_message :: "string \<Rightarrow> nat \<Rightarrow> remote \<Rightarrow> (Message \<times> remote) option" where
  "receive_message key ch r =
     (case fmlookup (rm_chans r) ch of
        None \<Rightarrow> None
      | Some msg \<Rightarrow> Some (msg, r\<lparr>rm_chans := fmdrop ch (rm_chans r), rm_pending := fmdrop key (rm_pending r)\<rparr>))"

record connection =
  cn_remote :: remote
  cn_client :: client
  cn_sent :: "string list"
  cn_waiting :: "(string \<times> nat) list"
  cn_returned :: "(string \<times> Message) list"

definition new_connection :: "int \<Rightarrow> int \<Rightarrow> connection" where
  "new_connection limit discard =
     \<lparr>cn_remote = \<lparr>rm_PendingLimit = limit, rm_PendingDiscard = discard, rm_pending = fmempty, rm_chans = fmempty, rm_made = 0\<rparr>,
      cn_client = 0, cn_sent = [], cn_waiting = [], cn_returned = []\<rparr>"

text \<open>
  A call sends its request, then waits on the channel of its ID until a message arrives or its context ends;
  meanwhile the other goroutine serves messages.
\<close>
inductive remote_step :: "connection \<Rightarrow> connection \<Rightarrow> bool" where
  call_sends:
    "client_Request method params (cn_client c) = (req, cl) \<Longrightarrow>
     remote_step c (c\<lparr>cn_client := cl, cn_sent := msg_ID req # cn_sent c\<rparr>)"
| call_waits:
    "i \<in> set (cn_sent c) \<Longrightarrow> range_order ord \<Longrightarrow> getPendingChan ord now i (cn_remote c) = (ch, r) \<Longrightarrow>
     remote_step c (c\<lparr>cn_remote := r, cn_sent := remove1 i (cn_sent c), cn_waiting := (i, ch) # cn_waiting c\<rparr>)"
| message_served:
    "range_order ord \<Longrightarrow> Serve_message ord now msg (cn_remote c) = (act, r) \<Longrightarrow> act \<noteq> ServeBlocked \<Longrightarrow>
     remote_step c (c\<lparr>cn_remote := r\<rparr>)"
| call_returns:
    "(i, ch) \<in> set (cn_waiting c) \<Longrightarrow> receive_message i ch (cn_remote c) = Some (msg, r) \<Longrightarrow>
     remote_step c (c\<lparr>cn_remote := r, cn_waiting := remove1 (i, ch) (cn_waiting c), cn_returned := (i, msg) # cn_returned c\<rparr>)"
| call_ends:
    "w \<in> set (cn_waiting c) \<Longrightarrow> remote_step c (c\<lparr>cn_waiting := remove1 w (cn_waiting c)\<rparr>)"

inductive remote_reachable :: "connection \<Rightarrow> connection \<Rightarrow> bool" for c0 where
  reach_start: "remote_reachable c0 c0"
| reach_next: "remote_reachable c0 c \<Longrightarrow> remote_step c c' \<Longrightarrow> remote_reachable c0 c'"

section \<open>Responses reach their calls\<close>

text \<open>Every channel belongs to one ID.\<close>
definition routed :: "(nat \<Rightarrow> string) \<Rightarrow> connection \<Rightarrow> bool" where
  "routed owner c \<longleftrightarrow>
     (\<forall>k p. fmlookup (rm_pending (cn_remote c)) k = Some p \<longrightarrow> owner (pm_msgChan p) = k \<and> pm_msgChan p < rm_made (cn_remote c)) \<and>
     (\<forall>ch m. fmlookup (rm_chans (cn_remote c)) ch = Some m \<longrightarrow> owner ch = msg_ID m \<and> ch < rm_made (cn_remote c)) \<and>
     (\<forall>i ch. (i, ch) \<in> set (cn_waiting c) \<longrightarrow> owner ch = i \<and> ch < rm_made (cn_remote c)) \<and>
     (\<forall>i m. (i, m) \<in> set (cn_returned c) \<longrightarrow> msg_ID m = i)"

lemma fold_drop_lookup:
  "fmlookup (fold (\<lambda>it pending. fmdrop (pi_key it) pending) items m) k = (if k \<in> pi_key ` set items then None else fmlookup m k)"
  by (induction items arbitrary: m) auto

lemma cleanPending_fields [simp]:
  "rm_chans (cleanPending ord num r) = rm_chans r" "rm_made (cleanPending ord num r) = rm_made r"
  "rm_PendingLimit (cleanPending ord num r) = rm_PendingLimit r" "rm_PendingDiscard (cleanPending ord num r) = rm_PendingDiscard r"
  by (simp_all add: cleanPending_def split: sum.splits)

lemma cleanPending_sub: "fmlookup (rm_pending (cleanPending ord num r)) k = Some p \<Longrightarrow> fmlookup (rm_pending r) k = Some p"
  by (auto simp: cleanPending_def fold_drop_lookup split: sum.splits if_splits)

lemma getPendingChan_cases:
  assumes "getPendingChan ord now key r = (ch, r')"
  obtains (known) p where "fmlookup (rm_pending r) key = Some p" "ch = pm_msgChan p" "rm_made r' = rm_made r" "rm_chans r' = rm_chans r"
      "\<And>k q. fmlookup (rm_pending r') k = Some q \<Longrightarrow> fmlookup (rm_pending r) k = Some q"
  | (made) "ch = rm_made r" "rm_made r' = rm_made r + 1" "rm_chans r' = rm_chans r"
      "\<And>k q. fmlookup (rm_pending r') k = Some q \<Longrightarrow>
        k = key \<and> q = \<lparr>pm_msgChan = rm_made r, pm_timestamp = now\<rparr> \<or> fmlookup (rm_pending r) k = Some q"
proof -
  define r1 where "r1 = make_room ord r"
  have sub: "fmlookup (rm_pending r1) k = Some q \<Longrightarrow> fmlookup (rm_pending r) k = Some q" for k q
    by (auto simp: r1_def make_room_def dest: cleanPending_sub split: if_splits)
  have same: "rm_made r1 = rm_made r" "rm_chans r1 = rm_chans r" by (simp_all add: r1_def make_room_def)
  show thesis
  proof (cases "fmlookup (rm_pending r1) key")
    case (Some p)
    then have "ch = pm_msgChan p" "r' = r1" using assms by (simp_all add: getPendingChan_def r1_def [symmetric])
    then show thesis using known Some sub same by blast
  next
    case None
    then have "ch = rm_made r" "r' = r1\<lparr>rm_pending := fmupd key \<lparr>pm_msgChan = rm_made r, pm_timestamp = now\<rparr> (rm_pending r1),
        rm_made := rm_made r + 1\<rparr>"
      using assms same by (auto simp: getPendingChan_def r1_def [symmetric])
    then show thesis using sub same by (intro made) (auto split: if_splits)
  qed
qed

text \<open>Looking up a channel keeps the routing, and the channel belongs to the key.\<close>
lemma routed_getPendingChan:
  assumes "routed owner c" and "getPendingChan ord now key (cn_remote c) = (ch, r)"
  obtains owner' where "routed owner' (c\<lparr>cn_remote := r\<rparr>)" "owner' ch = key" "ch < rm_made r"
  using assms(2)
proof (cases rule: getPendingChan_cases)
  case (known p)
  have "routed owner (c\<lparr>cn_remote := r\<rparr>)" using assms(1) known by (auto simp: routed_def)
  moreover have "owner ch = key" "ch < rm_made r" using assms(1) known by (auto simp: routed_def)
  ultimately show thesis by (rule that)
next
  case made
  have old: "x < rm_made (cn_remote c) \<Longrightarrow> (owner(ch := key)) x = owner x" for x using made(1) by simp
  have "routed (owner(ch := key)) (c\<lparr>cn_remote := r\<rparr>)"
    unfolding routed_def
  proof (intro conjI allI impI ballI)
    fix k q assume "fmlookup (rm_pending (cn_remote (c\<lparr>cn_remote := r\<rparr>))) k = Some q"
    then show "(owner(ch := key)) (pm_msgChan q) = k" "pm_msgChan q < rm_made (cn_remote (c\<lparr>cn_remote := r\<rparr>))"
      using made assms(1) unfolding routed_def by fastforce+
  next
    fix x m assume "fmlookup (rm_chans (cn_remote (c\<lparr>cn_remote := r\<rparr>))) x = Some m"
    then have "owner x = msg_ID m" "x < rm_made (cn_remote c)" using made assms(1) by (auto simp: routed_def)
    then show "(owner(ch := key)) x = msg_ID m" "x < rm_made (cn_remote (c\<lparr>cn_remote := r\<rparr>))" using made by auto
  next
    fix i x assume "(i, x) \<in> set (cn_waiting (c\<lparr>cn_remote := r\<rparr>))"
    then have "owner x = i" "x < rm_made (cn_remote c)" using assms(1) by (auto simp: routed_def)
    then show "(owner(ch := key)) x = i" "x < rm_made (cn_remote (c\<lparr>cn_remote := r\<rparr>))" using made by auto
  next
    fix i m assume "(i, m) \<in> set (cn_returned (c\<lparr>cn_remote := r\<rparr>))"
    then show "msg_ID m = i" using assms(1) by (auto simp: routed_def)
  qed
  then show thesis by (rule that) (use made in simp_all)
qed

lemma in_remove1D: "x \<in> set (remove1 y xs) \<Longrightarrow> x \<in> set xs"
  using set_remove1_subset by fast

text \<open>Routing survives when entries, buffered messages and waiting calls go away.\<close>
lemma routed_sub:
  assumes "routed owner c" and "rm_made (cn_remote c') = rm_made (cn_remote c)"
    and "\<And>k p. fmlookup (rm_pending (cn_remote c')) k = Some p \<Longrightarrow> fmlookup (rm_pending (cn_remote c)) k = Some p"
    and "\<And>ch m. fmlookup (rm_chans (cn_remote c')) ch = Some m \<Longrightarrow> fmlookup (rm_chans (cn_remote c)) ch = Some m"
    and "\<And>w. w \<in> set (cn_waiting c') \<Longrightarrow> w \<in> set (cn_waiting c)"
    and "\<And>i m. (i, m) \<in> set (cn_returned c') \<Longrightarrow> (i, m) \<in> set (cn_returned c) \<or> msg_ID m = i"
  shows "routed owner c'"
proof -
  have "\<forall>k p. fmlookup (rm_pending (cn_remote c')) k = Some p \<longrightarrow> owner (pm_msgChan p) = k \<and> pm_msgChan p < rm_made (cn_remote c')"
    using assms(1-3) unfolding routed_def by metis
  moreover have "\<forall>ch m. fmlookup (rm_chans (cn_remote c')) ch = Some m \<longrightarrow> owner ch = msg_ID m \<and> ch < rm_made (cn_remote c')"
    using assms(1,2,4) unfolding routed_def by metis
  moreover have "\<forall>i ch. (i, ch) \<in> set (cn_waiting c') \<longrightarrow> owner ch = i \<and> ch < rm_made (cn_remote c')"
    using assms(1,2,5) unfolding routed_def by metis
  moreover have "\<forall>i m. (i, m) \<in> set (cn_returned c') \<longrightarrow> msg_ID m = i"
    using assms(1,6) unfolding routed_def by metis
  ultimately show ?thesis unfolding routed_def by blast
qed

lemma routed_step:
  assumes "remote_step c c'" and "routed owner c"
  shows "\<exists>owner'. routed owner' c'"
  using assms
proof (cases rule: remote_step.cases)
  case (call_sends m ps req cl)
  then have "routed owner c'" using assms(2) by (auto simp: routed_def)
  then show ?thesis by blast
next
  case (call_waits i ord now ch r)
  from assms(2) call_waits(4) obtain owner' where "routed owner' (c\<lparr>cn_remote := r\<rparr>)" "owner' ch = i" "ch < rm_made r"
    by (rule routed_getPendingChan)
  then have "routed owner' c'" using call_waits(1) by (auto simp: routed_def)
  then show ?thesis by blast
next
  case (message_served ord now msg act r)
  show ?thesis
  proof (cases "msg_Request msg = None \<and> 0 < length (msg_ID msg)")
    case False
    then show ?thesis using message_served assms(2) by (auto simp: Serve_message_def split: if_splits)
  next
    case True
    obtain ch r1 where chan: "getPendingChan ord now (msg_ID msg) (cn_remote c) = (ch, r1)"
      by (cases "getPendingChan ord now (msg_ID msg) (cn_remote c)")
    then have r: "r = r1\<lparr>rm_chans := fmupd ch msg (rm_chans r1)\<rparr>"
      using message_served(3,4) True by (auto simp: Serve_message_def split: option.splits)
    from assms(2) chan obtain owner' where "routed owner' (c\<lparr>cn_remote := r1\<rparr>)" "owner' ch = msg_ID msg" "ch < rm_made r1"
      by (rule routed_getPendingChan)
    then have "routed owner' c'" using message_served(1) r by (auto simp: routed_def)
    then show ?thesis by blast
  qed
next
  case (call_returns i ch msg r)
  have "fmlookup (rm_chans (cn_remote c)) ch = Some msg"
    using call_returns(3) by (auto simp: receive_message_def split: option.splits)
  then have "owner ch = msg_ID msg" using assms(2) unfolding routed_def by metis
  moreover have "owner ch = i" using assms(2) call_returns(2) unfolding routed_def by metis
  ultimately have "msg_ID msg = i" by simp
  moreover have "r = (cn_remote c)\<lparr>rm_chans := fmdrop ch (rm_chans (cn_remote c)), rm_pending := fmdrop i (rm_pending (cn_remote c))\<rparr>"
    using call_returns(3) by (auto simp: receive_message_def split: option.splits)
  ultimately have "routed owner c'"
    using call_returns(1) by (intro routed_sub [OF assms(2)]) (auto split: if_splits dest: in_remove1D)
  then show ?thesis by blast
next
  case (call_ends w)
  then have "routed owner c'" by (intro routed_sub [OF assms(2)]) (auto dest: in_remove1D)
  then show ?thesis by blast
qed

lemma routed_reachable: "remote_reachable (new_connection limit discard) c \<Longrightarrow> \<exists>owner. routed owner c"
proof (induction rule: remote_reachable.induct)
  case reach_start
  show ?case by (auto simp: routed_def new_connection_def)
next
  case (reach_next c c')
  then show ?case using routed_step by blast
qed

section \<open>The number of pending messages\<close>

lemma pendingOldest_items:
  assumes "range_order ord" and "0 \<le> num"
  obtains items where "pendingOldest ord m num = Inr items" "distinct (map pi_key items)"
    "pi_key ` set items \<subseteq> fset (fmdom m)" "length items = min (nat num) (fcard (fmdom m))"
    "\<And>it k. it \<in> set items \<Longrightarrow> fmlookup m k \<noteq> None \<Longrightarrow> k \<notin> pi_key ` set items \<Longrightarrow>
      pi_timestamp it \<le> pm_timestamp (the (fmlookup m k))"
    "\<And>it. it \<in> set items \<Longrightarrow> pi_timestamp it = pm_timestamp (the (fmlookup m (pi_key it)))"
proof -
  define queue where "queue = map (\<lambda>key. \<lparr>pi_key = key, pi_timestamp = pm_timestamp (the (fmlookup m key))\<rparr>) (ord (fmdom m))"
  define sorted where "sorted = sort_key pi_timestamp queue"
  define n where "n = nat (if int (fcard (fmdom m)) < num then int (fcard (fmdom m)) else num)"
  have len: "length queue = fcard (fmdom m)" by (simp add: queue_def range_order_length [OF assms(1)])
  have keys: "map pi_key queue = ord (fmdom m)" by (simp add: queue_def comp_def)
  have dist: "distinct (map pi_key sorted)"
    using range_order_distinct [OF assms(1), of "fmdom m"] keys
    by (metis distinct_map distinct_sort set_sort sorted_def)
  have key_set: "pi_key ` set sorted = fset (fmdom m)"
    using range_order_set [OF assms(1), of "fmdom m"] keys by (metis list.set_map set_sort sorted_def)
  have res: "pendingOldest ord m num = Inr (take n sorted)"
    using assms(2) by (simp add: pendingOldest_def Let_def queue_def sorted_def n_def)
  have split: "take n sorted @ drop n sorted = sorted" by simp
  show thesis
  proof (rule that [OF res])
    show "distinct (map pi_key (take n sorted))" using dist by (simp add: take_map [symmetric])
    show "pi_key ` set (take n sorted) \<subseteq> fset (fmdom m)" using key_set set_take_subset [of n sorted] by blast
    show "length (take n sorted) = min (nat num) (fcard (fmdom m))" using len by (auto simp: sorted_def n_def)
    show stamp: "pi_timestamp it = pm_timestamp (the (fmlookup m (pi_key it)))" if "it \<in> set (take n sorted)" for it
      using in_set_takeD [OF that] by (auto simp: sorted_def queue_def)
    fix it k
    assume it: "it \<in> set (take n sorted)" and k: "fmlookup m k \<noteq> None" "k \<notin> pi_key ` set (take n sorted)"
    then obtain it' where it': "it' \<in> set sorted" "pi_key it' = k"
      using key_set by (metis fmlookup_dom_iff image_iff not_None_eq)
    then have "it' \<in> set (drop n sorted)" using k(2) split by (metis Un_iff image_eqI set_append)
    moreover have "sorted_wrt (\<lambda>a b. pi_timestamp a \<le> pi_timestamp b) sorted"
      using sorted_sort_key [of pi_timestamp queue] by (simp add: sorted_def sorted_map)
    then have "sorted_wrt (\<lambda>a b. pi_timestamp a \<le> pi_timestamp b) (take n sorted @ drop n sorted)" by simp
    ultimately have "pi_timestamp it \<le> pi_timestamp it'" using it unfolding sorted_wrt_append by blast
    moreover have "pi_timestamp it' = pm_timestamp (the (fmlookup m k))" using it' by (auto simp: sorted_def queue_def)
    ultimately show "pi_timestamp it \<le> pm_timestamp (the (fmlookup m k))" by simp
  qed
qed

definition num_pending :: "remote \<Rightarrow> nat" where
  "num_pending r = fcard (fmdom (rm_pending r))"

lemma cleanPending_size:
  assumes "range_order ord" and "0 < num"
  shows "num_pending (cleanPending ord num r) = num_pending r - nat num"
proof -
  obtain items where items: "pendingOldest ord (rm_pending r) num = Inr items" "distinct (map pi_key items)"
      "pi_key ` set items \<subseteq> fset (fmdom (rm_pending r))" "length items = min (nat num) (fcard (fmdom (rm_pending r)))"
    using pendingOldest_items [OF assms(1)] assms(2) by (metis less_imp_le)
  have "fset (fmdom (rm_pending (cleanPending ord num r))) = fset (fmdom (rm_pending r)) - pi_key ` set items"
    using items(1) by (auto simp: cleanPending_def fmlookup_dom_iff fold_drop_lookup split: if_splits)
  moreover have "card (pi_key ` set items) = length items"
    using items(2) by (metis distinct_card length_map list.set_map)
  ultimately show ?thesis
    using items(3,4) by (auto simp: num_pending_def fcard.rep_eq card_Diff_subset)
qed

lemma getPendingChan_size:
  assumes "range_order ord" and "0 < rm_PendingLimit r" and "0 < rm_PendingDiscard r"
    and "int (num_pending r) \<le> rm_PendingLimit r" and "getPendingChan ord now key r = (ch, r')"
  shows "int (num_pending r') \<le> rm_PendingLimit r \<and> rm_PendingLimit r' = rm_PendingLimit r \<and> rm_PendingDiscard r' = rm_PendingDiscard r"
proof -
  have room: "int (num_pending (make_room ord r)) < rm_PendingLimit r"
    using cleanPending_size [OF assms(1,3), of r] assms(2-4) by (auto simp: make_room_def num_pending_def)
  have same: "rm_PendingLimit (make_room ord r) = rm_PendingLimit r" "rm_PendingDiscard (make_room ord r) = rm_PendingDiscard r"
    by (simp_all add: make_room_def)
  show ?thesis
  proof (cases "fmlookup (rm_pending (make_room ord r)) key")
    case None
    then have "key |\<notin>| fmdom (rm_pending (make_room ord r))" by (simp add: fmlookup_dom_iff)
    moreover have "r' = (make_room ord r)\<lparr>rm_pending := fmupd key \<lparr>pm_msgChan = rm_made (make_room ord r), pm_timestamp = now\<rparr>
        (rm_pending (make_room ord r)), rm_made := rm_made (make_room ord r) + 1\<rparr>"
      using assms(5) None by (auto simp: getPendingChan_def Let_def)
    ultimately show ?thesis using room same by (simp add: num_pending_def fcard_finsert_disjoint)
  next
    case (Some p)
    then have "r' = make_room ord r" using assms(5) by (simp add: getPendingChan_def)
    then show ?thesis using room same by simp
  qed
qed

definition bounded :: "connection \<Rightarrow> bool" where
  "bounded c \<longleftrightarrow> 0 < rm_PendingLimit (cn_remote c) \<and> 0 < rm_PendingDiscard (cn_remote c) \<and>
     int (num_pending (cn_remote c)) \<le> rm_PendingLimit (cn_remote c)"

lemma drop_size: "fcard (fmdom (fmdrop k m)) \<le> fcard (fmdom m)"
  by (rule fcard_mono) (auto simp: fmlookup_dom_iff)

lemma bounded_step:
  assumes "remote_step c c'" and "bounded c"
  shows "bounded c' \<and> rm_PendingLimit (cn_remote c') = rm_PendingLimit (cn_remote c)"
  using assms(1)
proof (cases rule: remote_step.cases)
  case (call_waits i ord now ch r)
  then show ?thesis
    using getPendingChan_size [OF call_waits(3) _ _ _ call_waits(4)] assms(2) by (simp add: bounded_def)
next
  case (message_served ord now msg act r)
  obtain ch r1 where chan: "getPendingChan ord now (msg_ID msg) (cn_remote c) = (ch, r1)"
    by (cases "getPendingChan ord now (msg_ID msg) (cn_remote c)")
  have "bounded (c\<lparr>cn_remote := r1\<rparr>) \<and> rm_PendingLimit r1 = rm_PendingLimit (cn_remote c)"
    using getPendingChan_size [OF message_served(2) _ _ _ chan] assms(2) by (simp add: bounded_def)
  then show ?thesis
    using message_served(1,3) chan assms(2)
    by (auto simp: Serve_message_def bounded_def num_pending_def split: if_splits option.splits)
next
  case (call_returns i ch msg r)
  have "r = (cn_remote c)\<lparr>rm_chans := fmdrop ch (rm_chans (cn_remote c)), rm_pending := fmdrop i (rm_pending (cn_remote c))\<rparr>"
    using call_returns(3) by (auto simp: receive_message_def split: option.splits)
  then show ?thesis
    using call_returns(1) assms(2) drop_size [of i "rm_pending (cn_remote c)"]
    by (simp add: bounded_def num_pending_def del: fmdom_drop)
qed (use assms(2) in \<open>simp_all add: bounded_def\<close>)

lemma bounded_reachable:
  assumes "remote_reachable c0 c" and "bounded c0"
  shows "bounded c \<and> rm_PendingLimit (cn_remote c) = rm_PendingLimit (cn_remote c0)"
  using assms(1)
proof (induction rule: remote_reachable.induct)
  case reach_start
  show ?case using assms(2) by simp
next
  case (reach_next c c')
  then show ?case using bounded_step by metis
qed

section \<open>IDs\<close>

text \<open>The ID of the n-th request of a client.\<close>
definition nth_ID :: "nat \<Rightarrow> string" where
  "nth_ID n = msg_ID (fst (client_Request '''' [] (of_nat n)))"

text \<open>The IDs of a client repeat only after all numbers of 32 bits were used.\<close>
lemma request_IDs_distinct:
  assumes "m < 2 ^ 32" and "n < 2 ^ 32" and "nth_ID m = nth_ID n"
  shows "m = n"
proof -
  have "int_digits (sint (of_nat m + 1 :: client)) = int_digits (sint (of_nat n + 1 :: client))"
    using assms(3) by (simp add: nth_ID_def client_Request_def NextID_def Let_def)
  then have "sint (of_nat m + 1 :: client) = sint (of_nat n + 1 :: client)" by (rule int_digits_inj)
  then have "(of_nat m :: client) = of_nat n" by (metis add_right_cancel signed_word_eqI)
  then show ?thesis using assms(1,2) by (simp add: word_of_nat_eq_iff take_bit_nat_eq_self)
qed

lemma request_IDs_repeat: "nth_ID (n + 2 ^ 32) = nth_ID n"
proof -
  have "(of_nat (n + 2 ^ 32) :: client) = of_nat n" by (simp add: word_of_nat_eq_iff take_bit_eq_mod)
  then show ?thesis unfolding nth_ID_def by metis
qed

section \<open>Properties\<close>

text \<open>
  C23: responses reach the calls they answer. However calls, served messages, timeouts and discarded entries interleave on a
  connection, a call only ever returns a message that carries its own ID; and when a limit and a number to
  discard are set, there are never more pending messages than the limit.
\<close>
theorem responses_are_routed:
  assumes "remote_reachable (new_connection limit discard) c"
  shows "(\<forall>(i, msg)\<in>set (cn_returned c). msg_ID msg = i) \<and>
    (0 < limit \<longrightarrow> 0 < discard \<longrightarrow> int (num_pending (cn_remote c)) \<le> limit)"
proof -
  have "bounded (new_connection limit discard)" if "0 < limit" "0 < discard"
    using that by (simp add: bounded_def new_connection_def num_pending_def fcard.rep_eq)
  then have "0 < limit \<longrightarrow> 0 < discard \<longrightarrow> int (num_pending (cn_remote c)) \<le> limit"
    using bounded_reachable [OF assms] by (auto simp: bounded_def new_connection_def)
  moreover have "\<forall>(i, msg)\<in>set (cn_returned c). msg_ID msg = i"
    using routed_reachable [OF assms] by (auto simp: routed_def)
  ultimately show ?thesis by blast
qed

text \<open>A call that is sent, waits, and returns with the response that was served meanwhile.\<close>
definition demo_response :: Message where
  "demo_response = result_response ''1'' (JNum 7)"

definition demo_conn :: "nat \<Rightarrow> connection" where
  "demo_conn n =
     (let c0 = new_connection 5 2;
          c1 = c0\<lparr>cn_client := 1, cn_sent := [''1'']\<rparr>;
          r2 = (cn_remote c1)\<lparr>rm_pending := fmupd ''1'' \<lparr>pm_msgChan = 0, pm_timestamp = 100\<rparr> fmempty, rm_made := 1\<rparr>;
          c2 = c1\<lparr>cn_remote := r2, cn_sent := [], cn_waiting := [(''1'', 0)]\<rparr>;
          r3 = r2\<lparr>rm_chans := fmupd 0 demo_response fmempty\<rparr>;
          c3 = c2\<lparr>cn_remote := r3\<rparr>;
          c4 = c3\<lparr>cn_remote := r3\<lparr>rm_chans := fmempty, rm_pending := fmempty\<rparr>, cn_waiting := [], cn_returned := [(''1'', demo_response)]\<rparr>
      in [c0, c1, c2, c3, c4] ! n)"

theorem responses_are_routed_witness:
  "cn_returned (demo_conn 4) = [(''1'', demo_response)] \<and>
   msg_ID demo_response = ''1'' \<and> int (num_pending (cn_remote (demo_conn 4))) \<le> 5"
proof -
  have id1: "json_Marshal (JNum (sint (1 :: client))) = ''1''" by code_simp
  note defs = demo_conn_def new_connection_def Let_def
  have "client_Request '''' [] (cn_client (demo_conn 0)) =
      (\<lparr>msg_Request = Some \<lparr>rq_Method = '''', rq_Params = Some JNull\<rparr>, msg_Response = None, msg_ID = ''1'', msg_Version = Version\<rparr>, 1)"
    using id1 by (simp add: defs client_Request_def NextID_def raw_params_def)
  from call_sends [OF this] have s1: "remote_step (demo_conn 0) (demo_conn 1)" by (simp add: defs)
  have "''1'' \<in> set (cn_sent (demo_conn 1))"
    and "getPendingChan sorted_list_of_fset 100 ''1'' (cn_remote (demo_conn 1)) = (0, cn_remote (demo_conn 2))"
    by (simp_all add: defs getPendingChan_def make_room_def fcard.rep_eq)
  from call_waits [OF this(1) range_order_sorted this(2)] have s2: "remote_step (demo_conn 1) (demo_conn 2)" by (simp add: defs)
  have "Serve_message sorted_list_of_fset 200 demo_response (cn_remote (demo_conn 2)) = (ServedResponse, cn_remote (demo_conn 3))"
    by (simp add: defs Serve_message_def demo_response_def result_response_def getPendingChan_def make_room_def fcard.rep_eq)
  from message_served [OF range_order_sorted this] have s3: "remote_step (demo_conn 2) (demo_conn 3)" by (simp add: defs)
  have "(''1'', 0) \<in> set (cn_waiting (demo_conn 3))"
    and "receive_message ''1'' 0 (cn_remote (demo_conn 3)) = Some (demo_response, cn_remote (demo_conn 4))"
    by (simp_all add: defs receive_message_def fmdrop_fmupd_same fmdrop_empty)
  from call_returns [OF this] have s4: "remote_step (demo_conn 3) (demo_conn 4)" by (simp add: defs)
  have "new_connection 5 2 = demo_conn 0" by (simp add: defs)
  then have "remote_reachable (new_connection 5 2) (demo_conn 4)"
    using s1 s2 s3 s4 reach_start reach_next by metis
  from responses_are_routed [OF this] show ?thesis by (simp add: defs)
qed

text \<open>
  A second response with the ID of one that nobody took blocks the goroutine that serves the
  connection, as the channel has room for one message.
\<close>
lemma duplicate_response_blocks:
  assumes "msg_Request msg = None" and "msg_ID msg \<noteq> ''''" and "make_room ord r = r"
    and "fmlookup (rm_pending r) (msg_ID msg) = Some p" and "fmlookup (rm_chans r) (pm_msgChan p) \<noteq> None"
  shows "fst (Serve_message ord now msg r) = ServeBlocked"
  using assms by (auto simp: Serve_message_def getPendingChan_def)

end
