(* ===== verification/Cli.thy ===== *)
theory Cli
  imports Agent_Correctness Pool_Rpc Pretty_Ether Json_Remote
begin

text \<open>
  The program around the library: the command line tool's error handling and retries (\<^verbatim>\<open>main.go\<close>), the setup of an agent
  and its pool (\<^verbatim>\<open>agent.go\<close>), and the HTTP server and the RPC surface of a pool (\<^verbatim>\<open>server.go\<close>, \<^verbatim>\<open>pool.go\<close>).
  Dialing, reading keys, parsing a duration and serving sockets are outcomes given as arguments. Log
  messages are left out.
\<close>

section \<open>Errors of the tool\<close>

text \<open>
  An error of the library, one of the network, the end of a connection, and one with an explanation for the user, which may be retried.
\<close>
datatype cli_error =
    Err go_error
  | NetError string
  | IoEOF
  | ErrExplain cli_error string
  | ErrExplainRetry cli_error string

fun cli_text :: "cli_error \<Rightarrow> string" where
  "cli_text (Err e) = error_text e"
| "cli_text (NetError s) = s"
| "cli_text IoEOF = ''EOF''"
| "cli_text (ErrExplain cause explanation) = cli_text cause @ [CHR 0x0A] @ '' -> '' @ explanation"
| "cli_text (ErrExplainRetry cause explanation) = cli_text cause @ [CHR 0x0A] @ '' -> '' @ explanation"

definition matchEnode :: "string \<Rightarrow> string \<Rightarrow> unit + cli_error" where
  "matchEnode enode0 nodeID =
     (let name = (if Contains enode0 ''://''
                  then (case url_Parse enode0 of
                          Inl e \<Rightarrow> Inr (Err (ErrNew (''failed to parse enode URI: '' @ error_text e)))
                        | Inr u \<Rightarrow> Inl (url_Username u))
                  else Inl enode0)
      in case name of
           Inr e \<Rightarrow> Inr e
         | Inl enode \<Rightarrow>
             (if enode \<noteq> nodeID
              then Inr (ErrExplain (Err (ErrNew (''enode URI does not match node key; public key prefixes: '' @
                     go_quote (Abbrev enode) @ '' != '' @ go_quote (Abbrev nodeID))))
                     ''Make sure the --nodekey used is corresponding to the public node that is running.'')
              else Inl ()))"

text \<open>What \<^verbatim>\<open>explainError\<close> says of an error code; \<open>typeName\<close> is the name of a Go type as \<^verbatim>\<open>%T\<close> prints it.\<close>
definition explain_code :: "(cli_error \<Rightarrow> string) \<Rightarrow> cli_error \<Rightarrow> int \<Rightarrow> string" where
  "explain_code typeName err errorCode =
     (if errorCode = ErrCodeMethodNotFound \<or> errorCode = ErrCodeInvalidParams
      then ''Missing a required RPC method. Make sure your Ethereum node is up to date.''
      else if errorCode = ErrCodeInternal \<and> cli_text err = NoHostNodesError_Error 0
      then ''The pool does not have any hosts who are ready to serve your kind of client right now. Try again later or contact the pool operator for help.''
      else ''Unexpected RPC error occurred: '' @ typeName err @ '' (code '' @ int_digits errorCode @
           ''). Please open an issue at https://github.com/vipnode/vipnode'')"

definition unexplained :: "(cli_error \<Rightarrow> string) \<Rightarrow> cli_error \<Rightarrow> cli_error" where
  "unexplained typeName err = ErrExplain err (''Error type '' @ typeName err @
     '' is missing an explanation. Please open an issue at https://github.com/vipnode/vipnode'')"

text \<open>
  The cases in the order of the type switch: an explanation stays (one that may be retried is a different type and
  has no \<^verbatim>\<open>Explain\<close> method), a compatibility error brings its own, then network errors and error codes. The only type
  that unwraps is the compatibility error, which is explained before it would be unwrapped.
\<close>
fun explainError :: "(cli_error \<Rightarrow> string) \<Rightarrow> cli_error \<Rightarrow> cli_error" where
  "explainError typeName (ErrExplain cause explanation) = ErrExplain cause explanation"
| "explainError typeName (NetError s) = ErrExplain (NetError s)
     ''Disconnected from server unexpectedly. Could be a connectivity issue or the server is down. Try again?''"
| "explainError typeName (Err e) =
     (case e of
        CompatibilityError cause explanation \<Rightarrow> ErrExplain (Err e) explanation
      | _ \<Rightarrow>
          (case error_code e of
             Some errorCode \<Rightarrow> ErrExplain (Err e) (explain_code typeName (Err e) errorCode)
           | None \<Rightarrow> unexplained typeName (Err e)))"
| "explainError typeName IoEOF = unexplained typeName IoEOF"
| "explainError typeName (ErrExplainRetry cause explanation) = unexplained typeName (ErrExplainRetry cause explanation)"

section \<open>Retries\<close>

definition backoff :: "int list" where
  "backoff = [5, 30, 60, 90, 300]"

definition clearTimeout :: duration where
  "clearTimeout = 300 * second"

definition wait_time :: "nat \<Rightarrow> duration" where
  "wait_time i = backoff ! (if length backoff \<le> i then length backoff - 1 else i) * second"

text \<open>The errors after which the tool tries again.\<close>
definition retried :: "cli_error \<Rightarrow> bool" where
  "retried err \<longleftrightarrow>
     (case err of
        IoEOF \<Rightarrow> True
      | ErrExplainRetry _ _ \<Rightarrow> True
      | NetError _ \<Rightarrow> True
      | _ \<Rightarrow> cli_text err = NoHostNodesError_Error 0)"

text \<open>One run: how it ended, how long it took, and whether the user interrupts the wait after it.\<close>
record attempt =
  at_result :: "unit + cli_error"
  at_duration :: duration
  at_interrupted :: bool

text \<open>
  The loop of \<^verbatim>\<open>subcommand\<close> on the runs to come: the waits so far, and how the loop ended if it has. The
  counter is increased after every wait, also after it was reset to zero.
\<close>
fun retry_loop :: "nat \<Rightarrow> attempt list \<Rightarrow> duration list \<times> (unit + cli_error) option" where
  "retry_loop i [] = ([], None)"
| "retry_loop i (run # runs) =
     (case at_result run of
        Inl _ \<Rightarrow> ([], Some (Inl ()))
      | Inr err \<Rightarrow>
          (if \<not> retried err then ([], Some (Inr err))
           else
             (let j = (if clearTimeout < at_duration run then 0 else i)
              in if at_interrupted run then ([wait_time i], Some (Inl ()))
                 else (let (waits, end) = retry_loop (j + 1) runs in (wait_time i # waits, end)))))"

definition subcommand :: "attempt list \<Rightarrow> duration list \<times> (unit + cli_error) option" where
  "subcommand runs = retry_loop 0 runs"

section \<open>Setting up an agent\<close>

text \<open>The version of the binary, when the build assigned none.\<close>
definition cli_Version :: string where "cli_Version = ''dev''"
definition minUpdateInterval :: duration where "minUpdateInterval = 5 * second"
definition maxUpdateInterval :: duration where "maxUpdateInterval = ExpireInterval"
definition maxBlockNumberDrift :: uint64 where "maxBlockNumberDrift = 3"

record agent_options =
  op_Coordinator :: string
  op_NodeURI :: string
  op_NodeHost :: string
  op_Payout :: string
  op_MinPeers :: int
  op_StrictPeers :: bool

text \<open>
  The checks of the update interval; the duration is what \<^verbatim>\<open>time.ParseDuration\<close> made of the option.
\<close>
definition check_interval :: "duration result \<Rightarrow> duration + cli_error" where
  "check_interval parsed =
     (case parsed of
        Inl e \<Rightarrow> Inr (ErrExplain (Err e) (''Failed to parse the agent --update-interval value. Try using a value like '' @ go_quote ''1m'' @ '' or '' @ go_quote ''60s'' @ ''.''))
      | Inr updateInterval \<Rightarrow>
          (if maxUpdateInterval \<le> updateInterval
           then Inr (ErrExplain (Err (ErrNew ''update interval too large''))
             (''Updates must be sent frequently enough so that the pool does not write off the node as inactive. Try a shorter --update-interval value, like '' @
              go_quote ''60s'' @ ''.''))
           else if updateInterval \<le> minUpdateInterval
           then Inr (ErrExplain (Err (ErrNew ''update interval too small''))
             (''Please don'' @ [CHR 0x27] @ ''t flood the pool with updates. Try a longer --update-interval value, like '' @ go_quote ''60s'' @ ''.''))
           else Inl updateInterval))"

text \<open>The drift of the node's block number, reported once per drift: the flag and whether something is reported.\<close>
definition drift_callback :: "uint64 \<Rightarrow> uint64 \<Rightarrow> bool \<Rightarrow> bool \<times> bool" where
  "drift_callback blockNumber latestBlockNumber drifting =
     (let delta = (if blockNumber < latestBlockNumber then latestBlockNumber - blockNumber else 0)
      in if delta = 0 then (drifting, False)
         else if maxBlockNumberDrift < delta then (True, \<not> drifting)
         else if drifting then (False, True) else (drifting, False))"

text \<open>
  \<^verbatim>\<open>URL.String\<close> of a parsed URL, the path in its default encoding.
\<close>
definition url_print :: "url \<Rightarrow> string" where
  "url_print u =
     (let scheme = (if u_Scheme u \<noteq> '''' then u_Scheme u @ '':'' else '''');
          userinfo = (case u_User u of
                        None \<Rightarrow> ''''
                      | Some (name, password) \<Rightarrow> url_escape EncodeUserPassword name @
                          (case password of None \<Rightarrow> '''' | Some pw \<Rightarrow> '':'' @ url_escape EncodeUserPassword pw) @ ''@'');
          authority = (if u_Host u \<noteq> '''' \<or> (u_Scheme u \<noteq> '''' \<and> u_Path u \<noteq> '''') \<or> u_User u \<noteq> None
                       then ''//'' @ userinfo @ url_escape EncodeHost (u_Host u) else '''');
          path0 = (if u_Path u = ''*'' then ''*'' else url_escape EncodePath (u_Path u));
          slash = (if path0 \<noteq> '''' \<and> hd path0 \<noteq> CHR ''/'' \<and> u_Host u \<noteq> '''' then ''/'' else '''');
          dot = (if scheme = '''' \<and> authority = '''' \<and> slash = '''' \<and> CHR '':'' \<in> set (takeWhile (\<lambda>c. c \<noteq> CHR ''/'') path0)
                 then ''./'' else '''')
      in (if u_Opaque u \<noteq> '''' then scheme @ u_Opaque u else scheme @ authority @ slash @ dot @ path0) @
         (if u_RawQuery u \<noteq> '''' then ''?'' @ u_RawQuery u else '''') @
         (if u_Fragment u \<noteq> '''' then ''#'' @ url_escape EncodeFragment (u_Fragment u) else ''''))"

text \<open>The override of the host, which takes the place of host and port.\<close>
definition override_host :: "string \<Rightarrow> string \<Rightarrow> string + cli_error" where
  "override_host nodeHost nodeURI =
     (if nodeHost = '''' then Inl nodeURI
      else case url_Parse nodeURI of
             Inl e \<Rightarrow> Inr (Err (ErrNew (''failed to parse NodeURI during NodeHost override: '' @ error_text e)))
           | Inr u \<Rightarrow> Inl (url_print (u\<lparr>u_Host := nodeHost\<rparr>)))"

text \<open>
  \<^verbatim>\<open>LoadAgent\<close>: node, key and duration are what
  \<^verbatim>\<open>findRPC\<close>, \<^verbatim>\<open>findNodeKey\<close> and \<^verbatim>\<open>time.ParseDuration\<close> returned. The two callbacks only log; what the second one
  decides to log is \<open>drift_callback\<close>.
\<close>
definition LoadAgent ::
  "agent_options \<Rightarrow> 'w EthNode + cli_error \<Rightarrow> string result \<Rightarrow> (string \<Rightarrow> string) \<Rightarrow> duration result \<Rightarrow> 'w
     \<Rightarrow> ('w Agent + cli_error) \<times> 'w" where
  "LoadAgent options rpcNode nodeKey pubkeyID parsedInterval w =
     (case rpcNode of
        Inr err \<Rightarrow> (Inr err, w)
      | Inl remoteNode \<Rightarrow>
     (case nodeKey of
        Inl e \<Rightarrow> (Inr (ErrExplain (Err e) ''Failed to find node private key. RPC requests are signed by this key to avoid forgery. Use --nodekey to specify the correct path.''), w)
      | Inr privkey \<Rightarrow>
     (let nodeID = pubkeyID privkey in
      case Enode remoteNode w of
        (Inl e, w1) \<Rightarrow>
          (if error_text e = ''Network is disabled or not yet up.''
           then (Inr (ErrExplainRetry (Err e) ''Node is not ready yet. Make sure the node is set to online mode.''), w1)
           else (Inr (Err e), w1))
      | (Inr remoteEnode, w1) \<Rightarrow>
     (case matchEnode remoteEnode nodeID of
        Inr err \<Rightarrow> (Inr err, w1)
      | Inl _ \<Rightarrow>
     (case check_interval parsedInterval of
        Inr err \<Rightarrow> (Inr err, w1)
      | Inl updateInterval \<Rightarrow>
          (let a = \<lparr>a_EthNode = remoteNode, a_NodeURI = remoteEnode, a_Version = ''vipnode/agent/'' @ cli_Version, a_BalanceCallback = None,
                 a_PoolMessageCallback = Some (\<lambda>_ w. w), a_BlockNumberCallback = Some (\<lambda>_ _ w. w), a_NumHosts = op_MinPeers options,
                 a_Payout = op_Payout options, a_UpdateInterval = updateInterval, a_StrictPeers = op_StrictPeers options,
                 a_started = False, a_nodeInfo = zero_UserAgent\<rparr>
           in case (if op_NodeURI options \<noteq> '''' then matchEnode (op_NodeURI options) nodeID else Inl ()) of
                Inr err \<Rightarrow> (Inr err, w1)
              | Inl _ \<Rightarrow>
                  (case override_host (op_NodeHost options)
                          (if op_NodeURI options \<noteq> '''' then op_NodeURI options else remoteEnode) of
                     Inr err \<Rightarrow> (Inr err, w1)
                   | Inl nodeURI \<Rightarrow> (Inl (a\<lparr>a_NodeURI := nodeURI\<rparr>), w1))))))))"

text \<open>How the agent reaches its pool.\<close>
datatype pool_route =
    MemoryPool
  | StaticNode StaticPool
  | Websocket url
  | OverHTTP url

definition defaultPoolURI :: string where
  "defaultPoolURI = ''wss://pool.vipnode.org/''"

text \<open>\<^verbatim>\<open>LoadPool\<close> up to dialing.\<close>
definition LoadPool :: "bool \<Rightarrow> string \<Rightarrow> pool_route + cli_error" where
  "LoadPool isFullNode coordinator =
     (if coordinator = '':memory:'' then Inl MemoryPool
      else
        (let poolURI = (if coordinator = '''' then defaultPoolURI else coordinator)
         in case url_Parse poolURI of
              Inl e \<Rightarrow> Inr (ErrExplain (Err e) (''Failed to parse the pool coordinator URI. It should look something like: '' @ go_quote ''wss://pool.vipnode.org/''))
            | Inr uri0 \<Rightarrow>
                (if u_Scheme uri0 = ''enode''
                 then (case static_AddNode poolURI \<lparr>sp_nodeStore = fmempty, sp_LatestBlockNumber = 0\<rparr> of
                         (Inl e, _) \<Rightarrow> Inr (Err e)
                       | (Inr _, staticPool) \<Rightarrow> Inl (StaticNode staticPool))
                 else
                   (let uri = (if u_Scheme uri0 = '''' then uri0\<lparr>u_Scheme := ''wss''\<rparr> else uri0)
                    in if u_Scheme uri = ''ws'' \<or> u_Scheme uri = ''wss'' then Inl (Websocket uri)
                       else if u_Scheme uri = ''http'' \<or> u_Scheme uri = ''https''
                       then (if isFullNode
                             then Inr (ErrExplain (Err (ErrNew ''full node coordination not supported over HTTP''))
                               (''Full nodes must connect over the websocket protocol in order to support bidirectional RPC that is required to coordinate host peers. Try using: '' @
                                url_print (uri\<lparr>u_Scheme := ''wss''\<rparr>)))
                             else Inl (OverHTTP uri))
                       else Inr (ErrExplain (Err (ErrNew ''invalid pool coordinator URI scheme''))
                              (''Pool coordinator URI must be one of: ws, wss, http, or https. For example: '' @ go_quote ''wss://pool.vipnode.org/''))))))"


section \<open>Finding the node\<close>

text \<open>\<^verbatim>\<open>strconv.Atoi\<close> on a 64-bit machine.\<close>
definition Atoi :: "string \<Rightarrow> int option" where
  "Atoi s =
     (let neg = HasPrefix s ''-''; ds = (if neg \<or> HasPrefix s ''+'' then tl s else s)
      in if ds = [] \<or> \<not> list_all is_digit ds then None
         else (let v = (if neg then - int (decimal ds) else int (decimal ds))
               in if min_int64 \<le> v \<and> v \<le> max_int64 then Some v else None))"

text \<open>\<^verbatim>\<open>QueryUnescape\<close>: the escapes of a path, and a plus for a space.\<close>
definition query_unescape :: "string \<Rightarrow> string option" where
  "query_unescape s = url_unescape EncodePath (map (\<lambda>c. if c = CHR ''+'' then CHR '' '' else c) s)"

text \<open>
  \<^verbatim>\<open>u.Query().Get(key)\<close>: the first value of a key among the pairs that decode. Go 1.12 separates pairs at ampersands and semicolons.
\<close>
fun split_pairs :: "string \<Rightarrow> string \<Rightarrow> string list" where
  "split_pairs acc [] = [acc]"
| "split_pairs acc (c # s) = (if c = CHR ''&'' \<or> c = CHR '';'' then acc # split_pairs [] s else split_pairs (acc @ [c]) s)"

definition query_Get :: "string \<Rightarrow> string \<Rightarrow> string" where
  "query_Get query key =
     (let pairs = filter (\<lambda>p. p \<noteq> '''') (split_pairs [] query);
          decoded = map (\<lambda>p. let (k, v) = cut_first (CHR ''='') p in (query_unescape k, query_unescape v)) pairs
      in case filter (\<lambda>(k, v). k = Some key \<and> v \<noteq> None) decoded of
           [] \<Rightarrow> ''''
         | (_, v) # _ \<Rightarrow> the v)"

text \<open>The node behind a \<^verbatim>\<open>fakenode://\<close> URL.\<close>
definition fakenode_of :: "url \<Rightarrow> FakeNode result" where
  "fakenode_of u =
     (let nodeID = (if url_Username u = '''' then url_Hostname u else url_Username u);
          n0 = fake_Node nodeID;
          n1 = (case Atoi (query_Get (u_RawQuery u) ''fakepeers'') of
                  None \<Rightarrow> Inr n0
                | Some numPeers \<Rightarrow> (case FakePeers numPeers of Inl e \<Rightarrow> Inl e | Inr ps \<Rightarrow> Inr (n0\<lparr>fn_FakePeers := ps\<rparr>)))
      in case n1 of
           Inl e \<Rightarrow> Inl e
         | Inr n \<Rightarrow>
             (let m = (case Atoi (query_Get (u_RawQuery u) ''fakeblock'') of
                         None \<Rightarrow> n | Some numBlock \<Rightarrow> n\<lparr>fn_FakeBlockNumber := of_int numBlock\<rparr>)
              in Inr (m\<lparr>fn_IsFullNode := (query_Get (u_RawQuery u) ''fullnode'' \<noteq> '''')\<rparr>)))"

datatype 'w found_node = FoundFake FakeNode | FoundRPC "'w EthNode"

text \<open>
  \<^verbatim>\<open>findRPC\<close>; \<open>gethDir\<close> is what \<^verbatim>\<open>findGethDir\<close> returned, and \<open>dialer\<close> connects to a path.
\<close>
definition findRPC ::
  "(string \<Rightarrow> 'w rpc_client result) \<Rightarrow> string \<Rightarrow> string \<Rightarrow> 'w \<Rightarrow> ('w found_node + cli_error) \<times> 'w" where
  "findRPC dialer gethDir rpcPath w =
     (if HasPrefix rpcPath ''fakenode://''
      then (case url_Parse rpcPath of
              Inl e \<Rightarrow> (Inr (Err e), w)
            | Inr u \<Rightarrow> (case fakenode_of u of Inl e \<Rightarrow> (Inr (Err e), w) | Inr n \<Rightarrow> (Inl (FoundFake n), w)))
      else
        (let path = (if rpcPath = '''' then (if gethDir = '''' then '''' else gethDir @ ''/geth.ipc'') else rpcPath)
         in case Dial dialer path w of
              (Inr node, w1) \<Rightarrow> (Inl (FoundRPC node), w1)
            | (Inl err, w1) \<Rightarrow>
                (Inr (case err of
                        CompatibilityError _ _ \<Rightarrow> Err err
                      | GoPanic _ \<Rightarrow> Err err
                      | _ \<Rightarrow> ErrExplain (Err err)
                          (''Could not find the RPC path of the running Ethereum node (such as Geth or Parity). Tried '' @ [CHR 0x22] @ path @ [CHR 0x22] @
                           ''. Make sure your node is running with RPC enabled. You can specify the path with the --rpc='' @ [CHR 0x22] @ ''...'' @ [CHR 0x22] @ '' flag.'')),
                 w1)))"

section \<open>Running an agent\<close>

text \<open>
  \<^verbatim>\<open>agentRunner.Run\<close>: \<open>finished\<close> is the first result that arrives on the channel, of the serving goroutine of the
  connection or of the agent.
\<close>
definition Run ::
  "'w Agent option \<Rightarrow> 'w Pool option \<Rightarrow> unit + cli_error \<Rightarrow> 'w \<Rightarrow> (unit + cli_error) \<times> 'w Agent option \<times> 'w" where
  "Run ag p finished w =
     (case ag of
        None \<Rightarrow> (Inr (Err (ErrNew ''runner: Agent must be set'')), None, w)
      | Some a \<Rightarrow>
          (case p of
             None \<Rightarrow> (Inr (Err (ErrNew ''runner: Pool must be set'')), Some a, w)
           | Some remotePool \<Rightarrow>
               (case Start a remotePool w of
                  (Inl e, a1, w1) \<Rightarrow> (Inr (Err e), Some a1, w1)
                | (Inr _, a1, w1) \<Rightarrow> (finished, Some a1, w1))))"

text \<open>What \<^verbatim>\<open>runAgent\<close> makes of the error; \<open>timeout\<close> tells whether an error has a \<^verbatim>\<open>Timeout\<close> method that returns true.\<close>
definition explain_run :: "(cli_error \<Rightarrow> bool) \<Rightarrow> cli_error \<Rightarrow> cli_error" where
  "explain_run timeout err =
     (if timeout err
      then ErrExplainRetry err ''Agent timed out while coordinating with the pool. Hopefully this is a transient error.''
      else case err of
             Err (AgentPoolError cause msg) \<Rightarrow>
               (if error_code cause = Some ErrCodeMethodNotFound
                then ErrExplain err ''Pool is missing a required RPC method, make sure your agent version is compatible with the pool version.''
                else err)
           | _ \<Rightarrow> err)"

text \<open>\<^verbatim>\<open>runAgent\<close>: \<open>reach\<close> dials the pool and builds its client.\<close>
definition runAgent ::
  "agent_options \<Rightarrow> 'w EthNode + cli_error \<Rightarrow> string result \<Rightarrow> (string \<Rightarrow> string) \<Rightarrow> duration result
     \<Rightarrow> (pool_route \<Rightarrow> 'w Pool + cli_error) \<Rightarrow> (cli_error \<Rightarrow> bool) \<Rightarrow> unit + cli_error \<Rightarrow> 'w
     \<Rightarrow> (unit + cli_error) \<times> 'w Agent option \<times> 'w" where
  "runAgent options rpcNode nodeKey pubkeyID parsedInterval reach timeout finished w =
     (case LoadAgent options rpcNode nodeKey pubkeyID parsedInterval w of
        (Inr err, w1) \<Rightarrow> (Inr err, None, w1)
      | (Inl a, w1) \<Rightarrow>
          (case LoadPool (ua_IsFullNode (Node_UserAgent (a_EthNode a) w1)) (op_Coordinator options) of
             Inr err \<Rightarrow> (Inr err, Some a, w1)
           | Inl route \<Rightarrow>
               (case reach route of
                  Inr err \<Rightarrow> (Inr err, Some a, w1)
                | Inl remotePool \<Rightarrow>
                    (case Run (Some a) (Some remotePool) finished w1 of
                       (Inl _, a', w2) \<Rightarrow> (Inl (), a', w2)
                     | (Inr err, a', w2) \<Rightarrow> (Inr (explain_run timeout err), a', w2)))))"

section \<open>The end of the program\<close>

text \<open>The exit status of \<^verbatim>\<open>main\<close> and what it prints.\<close>
definition main_exit :: "(cli_error \<Rightarrow> string) \<Rightarrow> string \<Rightarrow> unit + cli_error \<Rightarrow> int \<times> string" where
  "main_exit typeName cmd r =
     (case r of
        Inl _ \<Rightarrow> (0, '''')
      | Inr err \<Rightarrow>
          (if err = IoEOF then (3, ''Connection closed.'' @ [CHR 0x0A])
           else (2, cmd @ '' failed: '' @ cli_text (explainError typeName err) @ [CHR 0x0A])))"

datatype log_level = LogWarning | LogInfo | LogDebug

definition logLevels :: "log_level list" where
  "logLevels = [LogWarning, LogInfo, LogDebug]"

text \<open>The log level for a number of verbosity flags. The bound is compared with the length of the table, not its last index.\<close>
definition choose_log_level :: "nat \<Rightarrow> log_level result" where
  "choose_log_level verbose =
     (let numVerbose = (if length logLevels < verbose then length logLevels - 1 else verbose)
      in if numVerbose < length logLevels then Inr (logLevels ! numVerbose) else Inl (GoPanic ''index out of range''))"

section \<open>The deprecated commands\<close>

record host_options =
  ho_Pool :: string
  ho_NodeURI :: string
  ho_Payout :: string

text \<open>An error of \<^verbatim>\<open>Start\<close>, explained when it says that a method is missing; \<open>program\<close> names what should be updated.\<close>
definition explain_start :: "string \<Rightarrow> go_error \<Rightarrow> cli_error" where
  "explain_start program err =
     (if IsErrorCode err [ErrCodeMethodNotFound, ErrCodeInvalidParams]
      then ErrExplain (Err err) (''Missing a required RPC method. Make sure your vipnode '' @ program @
             '' is up to date. (Current version: '' @ cli_Version @ '')'')
      else Err err)"

text \<open>
  \<^verbatim>\<open>runHost\<close>: \<open>memory\<close> is the pool in memory, \<open>reach\<close> dials the pool of the options, and \<open>finished\<close> is the first
  result that arrives.
\<close>
definition runHost ::
  "host_options \<Rightarrow> 'w EthNode + cli_error \<Rightarrow> string result \<Rightarrow> (string \<Rightarrow> string) \<Rightarrow> 'w Pool \<Rightarrow> (string \<Rightarrow> 'w Pool result)
     \<Rightarrow> unit + cli_error \<Rightarrow> 'w \<Rightarrow> (unit + cli_error) \<times> 'w" where
  "runHost options rpcNode keyFile pubkeyID memory reach finished w =
     (case rpcNode of
        Inr err \<Rightarrow> (Inr err, w)
      | Inl remoteNode \<Rightarrow>
     (case keyFile of
        Inl e \<Rightarrow> (Inr (ErrExplain (Err e) ''Failed to find node private key. Use --nodekey to specify the correct path.''), w)
      | Inr privkey \<Rightarrow>
     (let nodeID = pubkeyID privkey in
      case Enode remoteNode w of
        (Inl e, w1) \<Rightarrow> (Inr (Err e), w1)
      | (Inr remoteEnode, w1) \<Rightarrow>
     (case matchEnode remoteEnode nodeID of
        Inr err \<Rightarrow> (Inr err, w1)
      | Inl _ \<Rightarrow>
     (case (if ho_NodeURI options \<noteq> '''' then matchEnode (ho_NodeURI options) nodeID else Inl ()) of
        Inr err \<Rightarrow> (Inr err, w1)
      | Inl _ \<Rightarrow>
          (let h = \<lparr>a_EthNode = remoteNode, a_NodeURI = (if ho_NodeURI options \<noteq> '''' then ho_NodeURI options else remoteEnode),
                 a_Version = ''vipnode/host/'' @ cli_Version, a_BalanceCallback = None, a_PoolMessageCallback = None,
                 a_BlockNumberCallback = None, a_NumHosts = 0, a_Payout = ho_Payout options, a_UpdateInterval = 0,
                 a_StrictPeers = False, a_started = False, a_nodeInfo = zero_UserAgent\<rparr>
           in if ho_Pool options = '':memory:''
              then (case Start h memory w1 of
                      (Inl e, _, w2) \<Rightarrow> (Inr (Err e), w2)
                    | (Inr _, _, w2) \<Rightarrow> (finished, w2))
              else (case reach (ho_Pool options) of
                      Inl e \<Rightarrow> (Inr (ErrExplainRetry (Err e) ''Failed to connect to the pool RPC API.''), w1)
                    | Inr remotePool \<Rightarrow>
                        (case Start h remotePool w1 of
                           (Inl e, _, w2) \<Rightarrow> (Inr (explain_start ''binary'' e), w2)
                         | (Inr _, _, w2) \<Rightarrow> (finished, w2)))))))))"

definition defaultClientNode :: string where
  "defaultClientNode = ''https://pool.vipnode.org/''"

text \<open>\<^verbatim>\<open>runClient\<close>: \<open>static\<close> turns a static pool into a pool of the world.\<close>
definition runClient ::
  "string \<Rightarrow> 'w EthNode + cli_error \<Rightarrow> string result \<Rightarrow> (string \<Rightarrow> string) \<Rightarrow> (StaticPool \<Rightarrow> 'w Pool)
     \<Rightarrow> (string \<Rightarrow> 'w Pool result) \<Rightarrow> (string \<Rightarrow> 'w Pool) \<Rightarrow> unit + cli_error \<Rightarrow> 'w \<Rightarrow> (unit + cli_error) \<times> 'w" where
  "runClient vipNode rpcNode keyFile pubkeyID static websocket http finished w =
     (case rpcNode of
        Inr err \<Rightarrow> (Inr err, w)
      | Inl remoteNode \<Rightarrow>
          (let poolURI = (if vipNode = '''' then defaultClientNode else vipNode);
               c = \<lparr>a_EthNode = remoteNode, a_NodeURI = '''', a_Version = ''vipnode/client/'' @ cli_Version, a_BalanceCallback = None,
                 a_PoolMessageCallback = Some (\<lambda>_ w. w), a_BlockNumberCallback = None, a_NumHosts = 0, a_Payout = '''',
                 a_UpdateInterval = 0, a_StrictPeers = False, a_started = False, a_nodeInfo = zero_UserAgent\<rparr>
           in case url_Parse poolURI of
                Inl e \<Rightarrow> (Inr (Err e), w)
              | Inr uri \<Rightarrow>
                  (if u_Scheme uri = ''enode''
                   then (case static_AddNode poolURI \<lparr>sp_nodeStore = fmempty, sp_LatestBlockNumber = 0\<rparr> of
                           (Inl e, _) \<Rightarrow> (Inr (Err e), w)
                         | (Inr _, staticPool) \<Rightarrow>
                             (case Start c (static staticPool) w of
                                (Inl e, _, w1) \<Rightarrow> (Inr (Err e), w1)
                              | (Inr _, _, w1) \<Rightarrow> (finished, w1)))
                   else
                     (case keyFile of
                        Inl e \<Rightarrow> (Inr (ErrExplain (Err e) ''Failed to find node private key. Use --nodekey to specify the correct path.''), w)
                      | Inr privkey \<Rightarrow>
                          (case Enode remoteNode w of
                             (Inl e, w1) \<Rightarrow> (Inr (Err e), w1)
                           | (Inr remoteEnode, w1) \<Rightarrow>
                               (case matchEnode remoteEnode (pubkeyID privkey) of
                                  Inr err \<Rightarrow> (Inr err, w1)
                                | Inl _ \<Rightarrow>
                                    (case (if u_Scheme uri = ''ws'' \<or> u_Scheme uri = ''wss'' then websocket (url_print uri) else Inr (http (url_print uri))) of
                                       Inl e \<Rightarrow> (Inr (ErrExplain (Err e) ''Failed to connect to the pool RPC API.''), w1)
                                     | Inr p \<Rightarrow>
                                         (case Start c p w1 of
                                            (Inl e, _, w2) \<Rightarrow> (Inr (explain_start ''client'' e), w2)
                                          | (Inr _, _, w2) \<Rightarrow> (finished, w2)))))))))"

text \<open>
  No command contacts a pool for a node whose key it does not have: when the URI of the running node does not match
  the key, the error is returned before anything else happens.
\<close>
lemma wrong_key_refused:
  assumes "Enode node w = (Inr enode, w1)" and "matchEnode enode (pubkeyID key) = Inr err"
  shows "runAgent options (Inl node) (Inr key) pubkeyID parsed reach timeout finished w = (Inr err, None, w1)"
    and "runHost hosts (Inl node) (Inr key) pubkeyID memory dialed finished w = (Inr err, w1)"
    and "url_Parse vipNode = Inr uri \<Longrightarrow> vipNode \<noteq> '''' \<Longrightarrow> u_Scheme uri \<noteq> ''enode'' \<Longrightarrow>
      runClient vipNode (Inl node) (Inr key) pubkeyID static websocket http finished w = (Inr err, w1)"
  using assms by (simp_all add: runAgent_def LoadAgent_def runHost_def runClient_def Let_def)

section \<open>Properties of the setup\<close>

lemma check_interval_ok:
  "check_interval parsed = Inl d \<Longrightarrow> parsed = Inr d \<and> minUpdateInterval < d \<and> d < maxUpdateInterval"
  by (auto simp: check_interval_def split: sum.splits if_splits)

lemma matchEnode_ok:
  assumes "matchEnode e i = Inl ()"
  shows "e = i \<or> (\<exists>u. url_Parse e = Inr u \<and> url_Username u = i)"
  using assms by (auto simp: matchEnode_def Let_def split: sum.splits if_splits)

lemma LoadAgent_ok:
  assumes "LoadAgent options rpcNode loadedKey pubkeyID parsed w = (Inl a, w')"
  shows "\<exists>node key enode w1 d. rpcNode = Inl node \<and> loadedKey = Inr key \<and> Enode node w = (Inr enode, w1) \<and>
     matchEnode enode (pubkeyID key) = Inl () \<and> check_interval parsed = Inl d \<and> a_UpdateInterval a = d \<and>
     (op_NodeURI options \<noteq> '''' \<longrightarrow> matchEnode (op_NodeURI options) (pubkeyID key) = Inl ()) \<and>
     override_host (op_NodeHost options) (if op_NodeURI options \<noteq> '''' then op_NodeURI options else enode) = Inl (a_NodeURI a)"
  using assms
  by (auto simp: LoadAgent_def Let_def split: sum.splits prod.splits if_splits)

text \<open>
  C21: a configured agent stays active. The interval that the tool accepts is above five seconds and shorter than the time after
  which the pool writes off a node: a host that the pool saw at one update still counts as active, for every kind of
  client it serves, when the next update is due. The URI the agent reports, unless its host is overridden, names the node
  whose key signs the requests.
\<close>
theorem configured_agent_stays_active:
  assumes "LoadAgent options rpcNode loadedKey pubkeyID parsed w = (Inl a, w')"
    and "n_IsHost n" and "kind = '''' \<or> n_Kind n = kind"
    and "now \<le> time_Add (n_LastSeen n) (update_interval a)"
  shows "minUpdateInterval < update_interval a \<and> host_matches kind (time_Add now (- ExpireInterval)) n \<and>
    (op_NodeHost options = '''' \<longrightarrow>
       (\<exists>key. loadedKey = Inr key \<and> (a_NodeURI a = pubkeyID key \<or>
          (\<exists>u. url_Parse (a_NodeURI a) = Inr u \<and> url_Username u = pubkeyID key))))"
proof -
  from LoadAgent_ok [OF assms(1)] obtain node key enode w1 d where
    key: "loadedKey = Inr key" and enode: "matchEnode enode (pubkeyID key) = Inl ()"
    and d: "check_interval parsed = Inl d" "a_UpdateInterval a = d"
    and given: "op_NodeURI options \<noteq> '''' \<longrightarrow> matchEnode (op_NodeURI options) (pubkeyID key) = Inl ()"
    and uri: "override_host (op_NodeHost options) (if op_NodeURI options \<noteq> '''' then op_NodeURI options else enode) = Inl (a_NodeURI a)"
    by (elim exE conjE)
  have interval: "minUpdateInterval < update_interval a" "update_interval a < ExpireInterval"
    using check_interval_ok [OF d(1)] d(2) by (auto simp: update_interval_def maxUpdateInterval_def interval_values)
  then have "host_matches kind (time_Add now (- ExpireInterval)) n"
    using assms(2-4) by (auto simp: host_matches_def time_After_def time_Add_def)
  moreover have "matchEnode (a_NodeURI a) (pubkeyID key) = Inl ()" if "op_NodeHost options = ''''"
    using uri enode given that by (auto simp: override_host_def split: if_splits)
  ultimately show ?thesis using interval(1) key matchEnode_ok by blast
qed


definition demo_options :: agent_options where
  "demo_options = \<lparr>op_Coordinator = '''', op_NodeURI = '''', op_NodeHost = '''', op_Payout = '''', op_MinPeers = 3, op_StrictPeers = False\<rparr>"

theorem configured_agent_stays_active_witness:
  "\<exists>a. LoadAgent demo_options (Inl fake_EthNode) (Inr ''abc'') (\<lambda>k. k) (Inr (60 * second)) (fake_Node ''abc'') = (Inl a, fake_Node ''abc'') \<and>
     minUpdateInterval < update_interval a \<and>
     host_matches '''' (time_Add (1000 + 60 * second) (- ExpireInterval)) (demo_node ''h1'' True 1000)"
proof -
  have "matchEnode ''abc'' ''abc'' = Inl ()" by code_simp
  moreover have "check_interval (Inr (60 * second)) = Inl (60 * second)" by code_simp
  ultimately obtain a where load:
    "LoadAgent demo_options (Inl fake_EthNode) (Inr ''abc'') (\<lambda>k. k) (Inr (60 * second)) (fake_Node ''abc'') = (Inl a, fake_Node ''abc'')"
      and "a_UpdateInterval a = 60 * second"
    by (simp add: LoadAgent_def demo_options_def fake_EthNode_def fake_Enode_def fake_Node_def override_host_def Let_def)
  then have "1000 + 60 * second \<le> time_Add (n_LastSeen (demo_node ''h1'' True 1000)) (update_interval a)"
    by (simp add: update_interval_def second_def demo_node_def time_Add_def)
  moreover have "n_IsHost (demo_node ''h1'' True 1000)" by (simp add: demo_node_def)
  ultimately show ?thesis using configured_agent_stays_active [OF load, of "demo_node ''h1'' True 1000" "''''"] load by blast
qed


section \<open>Properties of the retries\<close>

lemma wait_time_range: "5 * second \<le> wait_time i \<and> wait_time i \<le> 300 * second"
proof -
  have "backoff ! (if length backoff \<le> i then length backoff - 1 else i) \<in> set backoff"
    by (rule nth_mem) (simp add: backoff_def)
  moreover have "\<forall>b\<in>set backoff. 5 \<le> b \<and> b \<le> (300::int)" by (simp add: backoff_def)
  ultimately show ?thesis by (simp add: wait_time_def second_def)
qed

text \<open>The run fails in a way that is retried, and the wait after it is not interrupted.\<close>
definition goes_on :: "attempt \<Rightarrow> bool" where
  "goes_on run \<longleftrightarrow> (case at_result run of Inl _ \<Rightarrow> False | Inr err \<Rightarrow> retried err) \<and> \<not> at_interrupted run"


text \<open>The loop, with the run that ends it told from those that do not.\<close>
lemma retry_loop_Cons:
  "retry_loop i (run # runs) =
     (if goes_on run
      then (let (waits, end) = retry_loop ((if clearTimeout < at_duration run then 0 else i) + 1) runs in (wait_time i # waits, end))
      else case at_result run of
             Inl _ \<Rightarrow> ([], Some (Inl ()))
           | Inr err \<Rightarrow> if retried err then ([wait_time i], Some (Inl ())) else ([], Some (Inr err)))"
  by (auto simp: goes_on_def Let_def split: sum.split prod.split)

declare retry_loop.simps(2) [simp del]

lemma retry_loop_ending: "snd (retry_loop i runs) = None \<longleftrightarrow> list_all goes_on runs"
  by (induction runs arbitrary: i) (simp_all add: retry_loop_Cons case_prod_beta Let_def split: sum.split)

lemma retry_loop_failure:
  "snd (retry_loop i runs) = Some (Inr err) \<Longrightarrow>
     \<exists>k<length runs. list_all goes_on (take k runs) \<and> at_result (runs ! k) = Inr err \<and> \<not> retried err"
proof (induction runs arbitrary: i)
  case (Cons run runs)
  show ?case
  proof (cases "goes_on run")
    case True
    with Cons.prems have "\<exists>j. snd (retry_loop j runs) = Some (Inr err)"
      by (auto simp: retry_loop_Cons case_prod_beta Let_def)
    then obtain k where "k < length runs \<and> list_all goes_on (take k runs) \<and> at_result (runs ! k) = Inr err \<and> \<not> retried err"
      using Cons.IH by blast
    then show ?thesis using True by (intro exI [of _ "Suc k"]) simp
  next
    case False
    then show ?thesis using Cons.prems
      by (intro exI [of _ 0]) (auto simp: retry_loop_Cons split: sum.splits if_splits)
  qed
qed simp

lemma retry_loop_waits: "list_all (\<lambda>d. 5 * second \<le> d \<and> d \<le> 300 * second) (fst (retry_loop i runs))"
  by (induction runs arbitrary: i) (simp_all add: retry_loop_Cons case_prod_beta Let_def wait_time_range split: sum.split)

lemma retry_loop_no_reset:
  "k < length (fst (retry_loop i runs)) \<Longrightarrow> \<forall>j<k. at_duration (runs ! j) \<le> clearTimeout \<Longrightarrow>
     fst (retry_loop i runs) ! k = wait_time (i + k)"
proof (induction runs arbitrary: i k)
  case (Cons run runs)
  show ?case
  proof (cases k)
    case 0
    then show ?thesis using Cons.prems(1)
      by (auto simp: retry_loop_Cons case_prod_beta Let_def split: sum.splits if_splits)
  next
    case (Suc k')
    have "at_duration run \<le> clearTimeout" "\<forall>j<k'. at_duration (runs ! j) \<le> clearTimeout"
      using Cons.prems(2) Suc by auto
    then show ?thesis using Cons.prems(1) Cons.IH [of k' "Suc i"] Suc
      by (auto simp: retry_loop_Cons case_prod_beta Let_def split: sum.splits if_splits)
  qed
qed simp

lemma retry_loop_reset:
  "Suc k < length (fst (retry_loop i runs)) \<Longrightarrow> clearTimeout < at_duration (runs ! k) \<Longrightarrow>
     fst (retry_loop i runs) ! Suc k = wait_time 1"
proof (induction runs arbitrary: i k)
  case (Cons run runs)
  show ?case
  proof (cases k)
    case 0
    then show ?thesis using Cons.prems retry_loop_no_reset [of 0 1 runs]
      by (auto simp: retry_loop_Cons case_prod_beta Let_def split: sum.splits if_splits)
  next
    case (Suc k')
    then show ?thesis using Cons.prems Cons.IH [of k']
      by (auto simp: retry_loop_Cons case_prod_beta Let_def split: sum.splits if_splits)
  qed
qed simp

text \<open>
  C20: the retries of the tool. The loop goes on for ever only if every run fails in a way that is retried
  and is not interrupted; an error it returns is that of the first run that is not retried. Every wait is between five seconds and five minutes; while no run
  lasts longer than five minutes the waits follow the backoff table, and after one that does the next wait is
  the second of the table, thirty seconds, as the counter is increased after it was reset.
\<close>
theorem retries_back_off:
  assumes "subcommand runs = (waits, ending)"
  shows "(ending = None \<longleftrightarrow> list_all goes_on runs) \<and>
    (\<forall>err. ending = Some (Inr err) \<longrightarrow>
      (\<exists>k<length runs. list_all goes_on (take k runs) \<and> at_result (runs ! k) = Inr err \<and> \<not> retried err)) \<and>
    list_all (\<lambda>d. 5 * second \<le> d \<and> d \<le> 300 * second) waits \<and>
    (\<forall>k<length waits. (\<forall>j<k. at_duration (runs ! j) \<le> clearTimeout) \<longrightarrow> waits ! k = wait_time k) \<and>
    (\<forall>k. Suc k < length waits \<longrightarrow> clearTimeout < at_duration (runs ! k) \<longrightarrow> waits ! Suc k = 30 * second)"
proof -
  have loop: "fst (retry_loop 0 runs) = waits" "snd (retry_loop 0 runs) = ending"
    using assms by (simp_all add: subcommand_def)
  have "wait_time 1 = 30 * second" by (simp add: wait_time_def backoff_def)
  then show ?thesis
    using retry_loop_ending [of 0 runs] retry_loop_failure [of 0 runs] retry_loop_waits [of 0 runs]
      retry_loop_no_reset [of _ 0 runs] retry_loop_reset [of _ 0 runs] unfolding loop by simp
qed

definition demo_runs :: "attempt list" where
  "demo_runs =
     [\<lparr>at_result = Inr IoEOF, at_duration = 400 * second, at_interrupted = False\<rparr>,
      \<lparr>at_result = Inr (NetError ''refused''), at_duration = second, at_interrupted = False\<rparr>,
      \<lparr>at_result = Inr (Err ErrAlreadyStarted), at_duration = second, at_interrupted = False\<rparr>]"

theorem retries_back_off_witness:
  "subcommand demo_runs = ([5 * second, 30 * second], Some (Inr (Err ErrAlreadyStarted))) \<and>
   \<not> list_all goes_on demo_runs \<and> [5 * second, 30 * second] ! Suc 0 = 30 * second"
proof -
  have run: "subcommand demo_runs = ([5 * second, 30 * second], Some (Inr (Err ErrAlreadyStarted)))" by code_simp
  show ?thesis using retries_back_off [OF run] run by simp
qed

text \<open>So the exit status for a closed connection is never used.\<close>
lemma subcommand_never_EOF: "snd (subcommand runs) \<noteq> Some (Inr IoEOF)"
  using retry_loop_failure [of 0 runs IoEOF] by (auto simp: subcommand_def retried_def)

text \<open>Full nodes are not coordinated over HTTP.\<close>
lemma full_nodes_not_over_HTTP: "LoadPool True coordinator \<noteq> Inl (OverHTTP u)"
  by (simp add: LoadPool_def Let_def split: sum.split prod.split)

text \<open>Exactly three verbosity flags index past the end of the table.\<close>
lemma choose_log_level_panics: "is_ok (choose_log_level verbose) \<longleftrightarrow> verbose \<noteq> 3"
  by (simp add: choose_log_level_def logLevels_def Let_def)

text \<open>What the agent reports of a pool's error is neither retried nor explained, as its type does not unwrap.\<close>
lemma pool_errors_not_retried: "\<not> retried (Err (AgentPoolError cause msg))"
  by (simp add: retried_def AgentPoolError_Error_def NoHostNodesError_Error_def)

lemma pool_errors_unexplained:
  assumes "error_code cause \<noteq> Some ErrCodeMethodNotFound"
  shows "explainError typeName (explain_run (\<lambda>_. False) (Err (AgentPoolError cause msg))) = unexplained typeName (Err (AgentPoolError cause msg))"
  using assms by (simp add: explain_run_def)

text \<open>
  the override of the host drops the port. The option is described as overriding just the host
  component, but the field it sets holds host and port, so the URI that the agent reports has no port any more.
\<close>
theorem host_override_drops_port:
  assumes "plain_id i" and "plain_host h" and "plain_port p" and "h \<noteq> []" and "newHost \<noteq> ''''"
  shows "override_host newHost (url_String ''enode'' i (h @ '':'' @ p)) = Inl (url_String ''enode'' i newHost)"
proof -
  have "override_host newHost (url_String ''enode'' i (h @ '':'' @ p)) =
      Inl (url_print (empty_url\<lparr>u_Scheme := ''enode'', u_User := Some (i, None), u_Host := newHost\<rparr>))"
    unfolding override_host_def url_Parse_plain [OF assms(1-4)] using assms(5) by simp
  also have "\<dots> = Inl (url_String ''enode'' i newHost)"
    using assms(5) by (simp add: url_print_def empty_url_def url_String_def Let_def)
  finally show ?thesis .
qed

theorem host_override_drops_port_witness:
  "override_host ''two.example'' (url_String ''enode'' ''ab12'' (''one.example'' @ '':'' @ ''30303'')) = Inl ''enode://ab12@two.example''"
proof -
  have "plain_id ''ab12''" "plain_host ''one.example''" "plain_port ''30303''" by code_simp+
  moreover have "url_String ''enode'' ''ab12'' ''two.example'' = ''enode://ab12@two.example''" by code_simp
  ultimately show ?thesis using host_override_drops_port [of "''ab12''" "''one.example''" "''30303''" "''two.example''"] by simp
qed

end
