(* ===== verification/Payment.thy ===== *)
theory Payment
  imports Pool_Service
begin

text \<open>
  Payments (\<^verbatim>\<open>pool/payment\<close>): the cache of on-chain deposits, the balance store that adds the
  deposit of an account to its credit (\<^verbatim>\<open>contractPayment\<close>), and the RPC service through
  which wallets look at their account, add nodes and withdraw (\<^verbatim>\<open>PaymentService\<close>).

  The contract binding and the Ethereum client are outside the repository: reading an
  account of the contract is the parameter \<open>chain\<close>, settling is the parameter
  \<open>pay_Settle\<close> of the service. The settlements that were made are recorded in
  \<open>py_settled\<close>.
\<close>

section \<open>The deposit cache\<close>

record balanceItem =
  bi_value :: int
  bi_expire :: time

record balanceCache =
  bc_expireAfter :: duration
  bc_cache :: "(account, balanceItem) fmap option"

definition empty_cache :: balanceCache where
  "empty_cache = \<lparr>bc_expireAfter = 0, bc_cache = None\<rparr>"

definition cache_Reset :: "duration \<Rightarrow> balanceCache \<Rightarrow> balanceCache" where
  "cache_Reset expireAfter b = b\<lparr>bc_expireAfter := expireAfter, bc_cache := None\<rparr>"

definition cache_Set :: "time \<Rightarrow> account \<Rightarrow> int \<Rightarrow> balanceCache \<Rightarrow> balanceCache" where
  "cache_Set now account amount b =
     (let m = (case bc_cache b of None \<Rightarrow> fmempty | Some m \<Rightarrow> m);
          expire = (if bc_expireAfter b \<noteq> 0 then time_Add now (bc_expireAfter b) else zero_time)
      in b\<lparr>bc_cache := Some (fmupd account \<lparr>bi_value = amount, bi_expire = expire\<rparr> m)\<rparr>)"

text \<open>The part of \<^verbatim>\<open>Get\<close> under the lock: a hit, or the cache without the expired item.\<close>
definition cache_lookup :: "time \<Rightarrow> account \<Rightarrow> balanceCache \<Rightarrow> int option \<times> balanceCache" where
  "cache_lookup now account b =
     (case bc_cache b of
        None \<Rightarrow> (None, b)
      | Some m \<Rightarrow>
          (case fmlookup m account of
             None \<Rightarrow> (None, b)
           | Some r \<Rightarrow>
               (if time_IsZero (bi_expire r) \<or> time_Before now (bi_expire r) then (Some (bi_value r), b)
                else (None, b\<lparr>bc_cache := Some (fmdrop account m)\<rparr>))))"

definition cache_Get ::
  "time \<Rightarrow> time \<Rightarrow> (account \<Rightarrow> int result) \<Rightarrow> account \<Rightarrow> balanceCache \<Rightarrow> int result \<times> balanceCache" where
  "cache_Get now setNow getter account b =
     (case cache_lookup now account b of
        (Some v, b1) \<Rightarrow> (Inr v, b1)
      | (None, b1) \<Rightarrow>
          (case getter account of
             Inl e \<Rightarrow> (Inl e, b1)
           | Inr v \<Rightarrow> (Inr v, cache_Set setNow account v b1)))"

section \<open>The contract\<close>

text \<open>What the contract says of an account: its balance and its time lock.\<close>
record contract_account =
  ca_Balance :: int
  ca_TimeLocked :: int

type_synonym chain = "account \<Rightarrow> contract_account result"

definition GetBalance :: "chain \<Rightarrow> account \<Rightarrow> int result" where
  "GetBalance chain account =
     (if account = '''' then Inl (ErrNew ''failed to get balance: empty account'')
      else case chain account of
             Inl e \<Rightarrow> Inl e
           | Inr r \<Rightarrow> (if ca_TimeLocked r \<noteq> 0 then Inl ErrDepositTimelocked else Inr (ca_Balance r)))"

text \<open>
  The state behind \<^verbatim>\<open>contractPayment\<close>: the underlying store and the cache. The two readings of
  the clock inside one \<^verbatim>\<open>Get\<close> of the cache are taken to be the same.
\<close>
type_synonym 's contract_state = "'s \<times> balanceCache"

definition on_fst :: "('s \<Rightarrow> 'a result \<times> 's) \<Rightarrow> 's \<times> 'c \<Rightarrow> 'a result \<times> 's \<times> 'c" where
  "on_fst f sc = (let (r, s) = f (fst sc) in (r, (s, snd sc)))"

text \<open>Adding the deposit to the balance a store returned.\<close>
definition with_deposit ::
  "chain \<Rightarrow> time \<Rightarrow> account \<Rightarrow> balance \<Rightarrow> 's contract_state \<Rightarrow> balance result \<times> 's contract_state" where
  "with_deposit chain now account balance sc =
     (case cache_Get now now (GetBalance chain) account (snd sc) of
        (Inl e, c) \<Rightarrow> (Inl e, (fst sc, c))
      | (Inr deposit, c) \<Rightarrow> (Inr (balance\<lparr>b_Deposit := deposit\<rparr>), (fst sc, c)))"

definition contract_GetNodeBalance ::
  "('s, 'm) AccountStore_scheme \<Rightarrow> chain \<Rightarrow> time \<Rightarrow> node_id \<Rightarrow> 's contract_state
     \<Rightarrow> balance result \<times> 's contract_state" where
  "contract_GetNodeBalance AS chain now nodeID sc =
     (case on_fst (GetNodeBalance AS now nodeID) sc of
        (Inl e, sc1) \<Rightarrow> (Inl e, sc1)
      | (Inr balance, sc1) \<Rightarrow>
          (if length (b_Account balance) = 0 then (Inr balance, sc1)
           else with_deposit chain now (b_Account balance) balance sc1))"

definition contract_AddNodeBalance ::
  "('s, 'm) AccountStore_scheme \<Rightarrow> node_id \<Rightarrow> int \<Rightarrow> 's contract_state \<Rightarrow> unit result \<times> 's contract_state" where
  "contract_AddNodeBalance AS nodeID credit = on_fst (AddNodeBalance AS nodeID credit)"

definition contract_GetAccountBalance ::
  "('s, 'm) AccountStore_scheme \<Rightarrow> chain \<Rightarrow> time \<Rightarrow> account \<Rightarrow> 's contract_state
     \<Rightarrow> balance result \<times> 's contract_state" where
  "contract_GetAccountBalance AS chain now account sc =
     (case on_fst (GetAccountBalance AS now account) sc of
        (Inl e, sc1) \<Rightarrow> (Inl e, sc1)
      | (Inr balance, sc1) \<Rightarrow> with_deposit chain now account balance sc1)"

definition contract_AddAccountBalance ::
  "('s, 'm) AccountStore_scheme \<Rightarrow> account \<Rightarrow> int \<Rightarrow> 's contract_state \<Rightarrow> unit result \<times> 's contract_state" where
  "contract_AddAccountBalance AS account credit = on_fst (AddAccountBalance AS account credit)"

definition contract_BalanceStore :: "('s, 'm) AccountStore_scheme \<Rightarrow> chain \<Rightarrow> 's contract_state BalanceStore" where
  "contract_BalanceStore AS chain =
     \<lparr>GetNodeBalance = contract_GetNodeBalance AS chain, AddNodeBalance = contract_AddNodeBalance AS,
      GetAccountBalance = contract_GetAccountBalance AS chain, AddAccountBalance = contract_AddAccountBalance AS\<rparr>"

text \<open>The constructor, with what the contract binding answered to its calls.\<close>
definition ContractPayment ::
  "unit result \<Rightarrow> string result \<Rightarrow> string option \<Rightarrow> unit result \<Rightarrow> balanceCache result" where
  "ContractPayment newContract operator transactFrom watch =
     (case newContract of
        Inl e \<Rightarrow> Inl e
      | Inr _ \<Rightarrow>
          (let operatorCheck =
             (case transactFrom of
                None \<Rightarrow> Inr ()
              | Some from \<Rightarrow>
                  (case operator of
                     Inl e \<Rightarrow> Inl e
                   | Inr opAddr \<Rightarrow>
                       (if opAddr \<noteq> from
                        then Inl (AddressMismatchError ''incorrect wallet provided for contract operator'' opAddr from)
                        else Inr ())))
           in case operatorCheck of
                Inl e \<Rightarrow> Inl e
              | Inr _ \<Rightarrow> (case watch of Inl e \<Rightarrow> Inl e | Inr _ \<Rightarrow> Inr empty_cache)))"

definition OpSettle ::
  "string option \<Rightarrow> (account \<Rightarrow> int \<Rightarrow> int \<Rightarrow> string result) \<Rightarrow> account \<Rightarrow> int \<Rightarrow> int \<Rightarrow> string result" where
  "OpSettle transactFrom contractOpSettle account paymentAmount newBalance =
     (if transactFrom = None
      then Inl (ErrNew ''OpSettle contract write failed: Payment provider is in read-only mode.'')
      else contractOpSettle account paymentAmount newBalance)"

text \<open>
  The retry loop of \<^verbatim>\<open>SubscribeBalance\<close>, given how the event handler ended each time (\<open>None\<close> for
  a nil error) and the time of the check that follows. \<^verbatim>\<open>lastErr\<close> is declared before the loop.
\<close>
fun subscribe_retry :: "time \<Rightarrow> (go_error option \<times> time) list \<Rightarrow> balanceCache \<Rightarrow> balanceCache" where
  "subscribe_retry lastErr [] b = b"
| "subscribe_retry lastErr ((err, now) # rest) b =
     (case err of
        None \<Rightarrow> b
      | Some e \<Rightarrow>
          (if time_After (time_Add lastErr (minute * 10)) now then cache_Reset (minute * 10) b
           else subscribe_retry lastErr rest b))"

definition SubscribeBalance_loop :: "(go_error option \<times> time) list \<Rightarrow> balanceCache \<Rightarrow> balanceCache" where
  "SubscribeBalance_loop = subscribe_retry zero_time"

section \<open>The payment service\<close>

record AccountResponse =
  ar_NodeShortIDs :: "string list"
  ar_Balance :: balance

record 's payment_config =
  pay_Store :: "'s Store"
  pay_BalanceStore :: "'s contract_state BalanceStore"
  pay_crypto :: crypto
  pay_Settle :: "(account \<Rightarrow> int \<Rightarrow> int \<Rightarrow> string result) option"
  pay_WithdrawFee :: "(int \<Rightarrow> int) option"
  pay_WithdrawMin :: "int option"

record 's payment =
  py_state :: "'s contract_state"
  py_settled :: "(account \<times> int \<times> int) list"

definition on_state ::
  "('s contract_state \<Rightarrow> 'a result \<times> 's contract_state) \<Rightarrow> 's payment \<Rightarrow> 'a result \<times> 's payment" where
  "on_state f p = (let (r, sc) = f (py_state p) in (r, p\<lparr>py_state := sc\<rparr>))"

definition payment_verify ::
  "'s payment_config \<Rightarrow> time \<Rightarrow> string \<Rightarrow> string \<Rightarrow> string \<Rightarrow> int \<Rightarrow> json list \<Rightarrow> 's payment
     \<Rightarrow> unit result \<times> 's payment" where
  "payment_verify cfg now sig method wallet nonce args p =
     (case on_state (on_fst (CheckAndSaveNonce (pay_Store cfg) now wallet nonce)) p of
        (Inl e, p1) \<Rightarrow> (Inl (verify_error method e), p1)
      | (Inr _, p1) \<Rightarrow>
          (case request_Verify (pay_crypto cfg) sig method wallet nonce args of
             Inl e \<Rightarrow> (Inl (verify_error method e), p1)
           | Inr _ \<Rightarrow> (Inr (), p1)))"

text \<open>\<^verbatim>\<open>string(nodeID)[:12]\<close> panics on a shorter ID.\<close>
definition short_ids :: "node_id list \<Rightarrow> string list result" where
  "short_ids ids =
     (if list_ex (\<lambda>i. length i < 12) ids then Inl (GoPanic ''slice bounds out of range'')
      else Inr (map (take 12) ids))"

definition payment_Account ::
  "'s payment_config \<Rightarrow> time \<Rightarrow> iter_order \<Rightarrow> string \<Rightarrow> 's payment \<Rightarrow> AccountResponse result \<times> 's payment" where
  "payment_Account cfg now ord wallet p =
     (if wallet = '''' then (Inl (ErrNew ''missing wallet parameter''), p)
      else
        (case on_state (GetAccountBalance (pay_BalanceStore cfg) now wallet) p of
           (Inl e, p1) \<Rightarrow> (Inl e, p1)
         | (Inr balance, p1) \<Rightarrow>
             (case on_state (on_fst (GetAccountNodes (pay_Store cfg) ord wallet)) p1 of
                (Inl e, p2) \<Rightarrow> (Inl e, p2)
              | (Inr nodeIDs, p2) \<Rightarrow>
                  (case short_ids nodeIDs of
                     Inl e \<Rightarrow> (Inl e, p2)
                   | Inr ids \<Rightarrow> (Inr \<lparr>ar_NodeShortIDs = ids, ar_Balance = balance\<rparr>, p2)))))"

definition payment_AddNode ::
  "'s payment_config \<Rightarrow> time \<Rightarrow> string \<Rightarrow> string \<Rightarrow> int \<Rightarrow> string \<Rightarrow> 's payment \<Rightarrow> unit result \<times> 's payment" where
  "payment_AddNode cfg now sig wallet nonce nodeID p =
     (case payment_verify cfg now sig ''pool_addNode'' wallet nonce [JStr nodeID] p of
        (Inl e, p1) \<Rightarrow> (Inl e, p1)
      | (Inr _, p1) \<Rightarrow> on_state (on_fst (AddAccountNode (pay_Store cfg) wallet nodeID)) p1)"

definition payment_Withdraw ::
  "'s payment_config \<Rightarrow> time \<Rightarrow> time \<Rightarrow> string \<Rightarrow> string \<Rightarrow> int \<Rightarrow> 's payment \<Rightarrow> unit result \<times> 's payment" where
  "payment_Withdraw cfg now now1 sig wallet nonce p =
     (case payment_verify cfg now sig ''pool_withdraw'' wallet nonce [] p of
        (Inl e, p1) \<Rightarrow> (Inl e, p1)
      | (Inr _, p1) \<Rightarrow>
          (case pay_Settle cfg of
             None \<Rightarrow> (Inl ErrWithdrawDisabled, p1)
           | Some settle \<Rightarrow>
               (let account = wallet
                in case on_state (GetAccountBalance (pay_BalanceStore cfg) now1 account) p1 of
                     (Inl e, p2) \<Rightarrow> (Inl e, p2)
                   | (Inr balance, p2) \<Rightarrow>
                       (let tot = b_Deposit balance + b_Credit balance
                        in if \<exists>m\<in>set_option (pay_WithdrawMin cfg). tot < m
                           then (Inl (WithdrawBalanceMinimumError tot (the (pay_WithdrawMin cfg))), p2)
                           else
                             (let amount = (case pay_WithdrawFee cfg of None \<Rightarrow> tot | Some fee \<Rightarrow> fee tot);
                                  newBalance = 0
                              in case settle account amount newBalance of
                                   Inl e \<Rightarrow> (Inl e, p2)
                                 | Inr txID \<Rightarrow>
                                     (Inr (), p2\<lparr>py_settled := py_settled p2 @ [(account, amount, newBalance)]\<rparr>))))))"

text \<open>The fee and the minimum the pool command configures.\<close>
definition pool_WithdrawFee :: "int \<Rightarrow> int" where
  "pool_WithdrawFee amount = amount - 2500000000000000"

definition pool_WithdrawMin :: int where
  "pool_WithdrawMin = 5000000000000000"

section \<open>The cache\<close>

lemma cache_lookup_Set:
  "cache_lookup now a (cache_Set t a' v b) =
     (if a = a' then
        (let expire = (if bc_expireAfter b \<noteq> 0 then t + bc_expireAfter b else zero_time) in
         if expire = zero_time \<or> now < expire then (Some v, cache_Set t a' v b)
         else (None, (cache_Set t a' v b)\<lparr>bc_cache := Some (fmdrop a (the (bc_cache (cache_Set t a' v b))))\<rparr>))
      else cache_lookup now a (cache_Set t a' v b))"
  by (simp add: cache_lookup_def cache_Set_def Let_def time_simps)

lemma cache_lookup_Set_other:
  "a \<noteq> a' \<Longrightarrow> fst (cache_lookup now a (cache_Set t a' v b)) = fst (cache_lookup now a b)"
  by (simp add: cache_lookup_def cache_Set_def Let_def split: option.splits)

text \<open>
  the deposit cache. After \<^verbatim>\<open>Set\<close> of an account, \<^verbatim>\<open>Get\<close> of it returns the value without asking the contract
  for as long as the item has not expired (forever when no expiry is configured) and afterwards asks the
  contract; other accounts are not affected; and a \<^verbatim>\<open>Get\<close> that failed caches nothing for its account.
\<close>
theorem cache_Get_after_Set:
  assumes "t + bc_expireAfter b \<noteq> zero_time"
  shows "fst (cache_Get now t1 getter a (cache_Set t a v b)) =
      (if bc_expireAfter b = 0 \<or> now < t + bc_expireAfter b then Inr v else getter a) \<and>
    (\<forall>a'. a' \<noteq> a \<longrightarrow> fst (cache_Get now t1 getter a' (cache_Set t a v b)) = fst (cache_Get now t1 getter a' b)) \<and>
    (\<forall>e b'. cache_Get now t1 getter a b = (Inl e, b') \<longrightarrow> fst (cache_lookup now a b') = None)"
proof (intro conjI allI impI)
  show "fst (cache_Get now t1 getter a (cache_Set t a v b)) =
      (if bc_expireAfter b = 0 \<or> now < t + bc_expireAfter b then Inr v else getter a)"
    using assms by (subst cache_Get_def, subst cache_lookup_Set) (auto simp: Let_def split: sum.splits)
  show "fst (cache_Get now t1 getter a' (cache_Set t a v b)) = fst (cache_Get now t1 getter a' b)" if "a' \<noteq> a" for a'
    using cache_lookup_Set_other [OF that, of now t v b]
    by (auto simp: cache_Get_def split: prod.splits option.splits sum.splits)
  show "fst (cache_lookup now a b') = None" if "cache_Get now t1 getter a b = (Inl e, b')" for e b'
    using that by (auto simp: cache_Get_def cache_lookup_def split: option.splits sum.splits if_splits)
qed

theorem cache_Get_after_Set_witness:
  "fst (cache_Get 50 50 (\<lambda>_. Inl ErrDepositTimelocked) ''acct'' (cache_Set 10 ''acct'' 7 (cache_Reset 30 empty_cache))) = Inl ErrDepositTimelocked"
proof -
  have "10 + bc_expireAfter (cache_Reset 30 empty_cache) \<noteq> zero_time" by code_simp
  from cache_Get_after_Set [OF this, of 50 50 "\<lambda>_. Inl ErrDepositTimelocked" "''acct''" 7]
  show ?thesis by (simp add: cache_Reset_def)
qed

text \<open>
  The fallback to an expiring cache never happens. The retry loop compares the time with a \<^verbatim>\<open>lastErr\<close> that is never set, so however often and quickly the
  event handler fails, the loop neither gives up nor resets the cache.
\<close>
theorem SubscribeBalance_never_falls_back:
  assumes "\<forall>(err, now)\<in>set outcomes. zero_time + minute * 10 \<le> now"
  shows "SubscribeBalance_loop outcomes b = b"
  unfolding SubscribeBalance_loop_def
  using assms by (induction outcomes) (auto simp: time_simps split: option.splits)

theorem SubscribeBalance_never_falls_back_witness:
  "SubscribeBalance_loop [(Some (ErrExternal ''lost''), 1), (Some (ErrExternal ''lost''), 2)] empty_cache = empty_cache"
proof (rule SubscribeBalance_never_falls_back)
  show "\<forall>(err, now)\<in>set [(Some (ErrExternal ''lost''), 1), (Some (ErrExternal ''lost''), 2)]. zero_time + minute * 10 \<le> now"
    by (simp add: zero_time_def minute_def second_def)
qed

section \<open>The ledger with deposits\<close>

lemma on_fst_eq: "on_fst f (s, c) = (fst (f s), (snd (f s), c))"
  by (simp add: on_fst_def split_beta Let_def)

lemma with_deposit_fst: "with_deposit chain now a bal sc = (q, sc') \<Longrightarrow> fst sc' = fst sc"
  by (auto simp: with_deposit_def split: prod.splits sum.splits)

lemma with_deposit_credit: "with_deposit chain now a bal sc = (Inr bal', sc') \<Longrightarrow> b_Credit bal' = b_Credit bal"
  by (auto simp: with_deposit_def split: prod.splits sum.splits)

lemma contract_GetNodeBalance_store:
  assumes "contract_GetNodeBalance mem_Store chain now i sc = (q, sc')"
  shows "fst sc' = fst sc"
proof -
  obtain q0 where "mem_GetNodeBalance i (fst sc) = (q0, fst sc)"
    using mem_read_only(1) [of i "fst sc"] by (metis prod.collapse)
  then show ?thesis
    using assms by (auto simp: contract_GetNodeBalance_def on_fst_def mem_Store_def Let_def
        split: sum.splits if_splits dest!: with_deposit_fst)
qed

interpretation contract_ledger: ledger_store "contract_BalanceStore mem_Store chain" "\<lambda>sc. mem_inv (fst sc)"
  "\<lambda>sc. mem_registered (fst sc)" "\<lambda>sc. mem_purse_of (fst sc)" "\<lambda>sc. mem_purse (fst sc)" "\<lambda>sc. mem_credit (fst sc)"
  for chain
proof (standard, goal_cases)
  case (1 s i c r s')
  then have "AddNodeBalance mem_Store i c (fst s) = (r, fst s')"
    by (cases s) (auto simp: contract_BalanceStore_def contract_AddNodeBalance_def on_fst_eq)
  from mem_ledger.add_registered [OF 1(1,2) this] show ?case .
next
  case (2 s i c)
  then show ?case
    using mem_ledger.add_unregistered [OF 2]
    by (cases s) (simp add: contract_BalanceStore_def contract_AddNodeBalance_def on_fst_eq)
next
  case (3 s now i q s')
  then have "fst s' = fst s" using contract_GetNodeBalance_store by (simp add: contract_BalanceStore_def)
  then show ?case using 3 by simp
next
  case (4 s now i b s')
  have "contract_GetNodeBalance mem_Store chain now i s = (Inr b, s')" using 4(2) by (simp add: contract_BalanceStore_def)
  then obtain bal where "GetNodeBalance mem_Store now i (fst s) = (Inr bal, snd (GetNodeBalance mem_Store now i (fst s)))"
      and "b_Credit b = b_Credit bal"
    by (auto simp: contract_GetNodeBalance_def on_fst_def Let_def split: prod.splits sum.splits if_splits
        dest: with_deposit_credit)
  then show ?case using mem_ledger.get_credit [OF 4(1)] by simp
next
  case (5 s i now)
  then show ?case
    using mem_ledger.get_unregistered [OF 5]
    by (cases s) (simp add: contract_BalanceStore_def contract_GetNodeBalance_def on_fst_eq)
qed

text \<open>
  C29: paying hosts with deposits on chain. Over the contract-aware balance store, an update of a client that is charged
  without error moves the interval credit from the client's purse to each peer's purse and keeps the total, just as over the plain store: deposits
  are read and never spent by updates.
\<close>
theorem contract_update_pays_hosts_exactly:
  assumes "mem_inv (fst sc)" and "mem_registered (fst sc) (n_ID nd)"
    and "\<forall>p\<in>set peers. mem_registered (fst sc) (n_ID p)"
    and "pay_OnUpdate (contract_BalanceStore mem_Store chain) b clk nd peers sc = (Inr bal, sc')"
    and "charging b (clk 0) nd"
  shows "(\<forall>w. mem_purse (fst sc') w = mem_purse (fst sc) w
        + intervalCredit b (clk 0) (n_LastSeen nd) * draws_on (mem_purse_of (fst sc)) peers w
        - (if w = mem_purse_of (fst sc) (n_ID nd) then intervalCredit b (clk 0) (n_LastSeen nd) * int (length peers) else 0)) \<and>
    b_Credit bal = mem_purse (fst sc') (mem_purse_of (fst sc) (n_ID nd)) \<and> mem_credit (fst sc') = mem_credit (fst sc)"
  using contract_ledger.OnUpdate_transfer [OF assms refl] by blast

definition demo_chain :: chain where
  "demo_chain a = Inr \<lparr>ca_Balance = 5000000000000000, ca_TimeLocked = 0\<rparr>"

definition demo_account_store :: memoryStore where
  "demo_account_store = snd (Store_run mem_Store [CAddAccountNode ''acct'' ''c''] demo_store)"

lemma demo_account_store_inv: "mem_inv demo_account_store"
proof -
  have "mem_inv demo_store" unfolding demo_store_def by (rule mem_audit.run_inv [OF mem_inv_New])
  then show ?thesis unfolding demo_account_store_def by (rule mem_audit.run_inv)
qed

theorem contract_update_pays_hosts_exactly_witness:
  "\<exists>bal sc'. pay_OnUpdate (contract_BalanceStore mem_Store demo_chain) demo_pay (\<lambda>_. 60000001000) (demo_node ''c'' False 1000)
      [demo_node ''h1'' True 1000] (demo_account_store, empty_cache) = (Inr bal, sc') \<and>
    mem_credit (fst sc') = mem_credit demo_account_store"
proof -
  let ?sc = "(demo_account_store, empty_cache)"
  let ?r = "pay_OnUpdate (contract_BalanceStore mem_Store demo_chain) demo_pay (\<lambda>_. 60000001000) (demo_node ''c'' False 1000)
      [demo_node ''h1'' True 1000] ?sc"
  have inv: "mem_inv (fst ?sc)" using demo_account_store_inv by simp
  have reg: "mem_registered (fst ?sc) (n_ID (demo_node ''c'' False 1000))"
      "\<forall>p\<in>set [demo_node ''h1'' True 1000]. mem_registered (fst ?sc) (n_ID p)" by code_simp+
  have ch: "charging demo_pay 60000001000 (demo_node ''c'' False 1000)" by code_simp
  have "is_ok (fst ?r)" by code_simp
  then obtain bal where bal: "?r = (Inr bal, snd ?r)" unfolding is_ok_iff by (metis prod.collapse)
  from contract_update_pays_hosts_exactly [OF inv reg bal] ch
  have "mem_credit (fst (snd ?r)) = mem_credit (fst ?sc)" by blast
  then show ?thesis using bal by (intro exI [of _ bal] exI [of _ "snd ?r"]) simp
qed

section \<open>Withdrawing\<close>

lemma on_state_eq: "on_state f p = (fst (f (py_state p)), p\<lparr>py_state := snd (f (py_state p))\<rparr>)"
  by (simp add: on_state_def split_beta Let_def)

lemma contract_GetAccountBalance_store:
  assumes "contract_GetAccountBalance mem_Store chain now a sc = (q, sc')"
  shows "fst sc' = fst sc"
  using assms by (auto simp: contract_GetAccountBalance_def on_fst_def mem_Store_def mem_GetAccountBalance_def
      split: sum.splits dest!: with_deposit_fst)

lemma contract_GetAccountBalance_credit:
  assumes "contract_GetAccountBalance mem_Store chain now a sc = (Inr bal, sc')"
  shows "b_Credit bal = mem_purse (fst sc) (Inl a)"
  using assms by (auto simp: contract_GetAccountBalance_def on_fst_def mem_Store_def mem_GetAccountBalance_def mem_purse_def
      split: sum.splits dest!: with_deposit_credit)

lemma payment_verify_store:
  assumes "payment_verify cfg now sig m w n args p = (r, p')" and "pay_Store cfg = mem_Store"
  shows "mem_purse (fst (py_state p')) = mem_purse (fst (py_state p)) \<and> py_settled p' = py_settled p \<and>
    mem_credit (fst (py_state p')) = mem_credit (fst (py_state p))"
proof -
  have "mem_purse (snd (mem_CheckAndSaveNonce now w n s)) = mem_purse s" for s
    by (auto simp: mem_CheckAndSaveNonce_def mem_purse_def fun_eq_iff split: sum.splits)
  then show ?thesis
    using assms mem_credit_others(1) [of now w n "fst (py_state p)"]
    by (auto simp: payment_verify_def on_state_eq on_fst_def mem_Store_def split_beta Let_def split: sum.splits)
qed

lemma Withdraw_success:
  assumes "payment_Withdraw cfg now now1 sig w n p = (Inr (), p')"
    and "pay_Store cfg = mem_Store" and "pay_BalanceStore cfg = contract_BalanceStore mem_Store chain"
  obtains deposit settle where "pay_Settle cfg = Some settle"
    and "\<forall>m. pay_WithdrawMin cfg = Some m \<longrightarrow> m \<le> deposit + mem_purse (fst (py_state p)) (Inl w)"
    and "py_settled p' = py_settled p @
       [(w, (case pay_WithdrawFee cfg of None \<Rightarrow> deposit + mem_purse (fst (py_state p)) (Inl w)
             | Some fee \<Rightarrow> fee (deposit + mem_purse (fst (py_state p)) (Inl w))), 0)]"
    and "mem_purse (fst (py_state p')) = mem_purse (fst (py_state p))"
proof -
  obtain v p1 where ver: "payment_verify cfg now sig ''pool_withdraw'' w n [] p = (v, p1)" by fastforce
  note keep = payment_verify_store [OF ver assms(2)]
  obtain u where v: "v = Inr u" using assms(1) ver by (cases v) (auto simp: payment_Withdraw_def)
  obtain settle where settle: "pay_Settle cfg = Some settle"
    using assms(1) ver v by (cases "pay_Settle cfg") (auto simp: payment_Withdraw_def)
  obtain g sc2 where g: "contract_GetAccountBalance mem_Store chain now1 w (py_state p1) = (g, sc2)"
    by (metis prod.collapse)
  then have g': "on_state (GetAccountBalance (pay_BalanceStore cfg) now1 w) p1 = (g, p1\<lparr>py_state := sc2\<rparr>)"
    by (simp add: on_state_eq assms(3) contract_BalanceStore_def)
  obtain bal where bal: "g = Inr bal"
    using assms(1) ver v settle g' by (cases g) (auto simp: payment_Withdraw_def)
  have st: "fst sc2 = fst (py_state p1)" using contract_GetAccountBalance_store [OF g] .
  have cr: "b_Credit bal = mem_purse (fst (py_state p)) (Inl w)"
    using contract_GetAccountBalance_credit g bal keep by (metis (no_types, lifting))
  define tot where "tot = b_Deposit bal + b_Credit bal"
  have rest: "\<not> (\<exists>m\<in>set_option (pay_WithdrawMin cfg). tot < m) \<and>
      p' = p1\<lparr>py_state := sc2, py_settled := py_settled p1 @ [(w, (case pay_WithdrawFee cfg of None \<Rightarrow> tot | Some fee \<Rightarrow> fee tot), 0)]\<rparr>"
    using assms(1) ver v settle g' bal unfolding payment_Withdraw_def Let_def tot_def
    by (auto split: if_splits sum.splits)
  show thesis
    by (rule that [OF settle, of "b_Deposit bal"])
      (use rest cr keep st in \<open>auto simp: tot_def not_less split: option.split\<close>)
qed


definition demo_payment_cfg :: "memoryStore payment_config" where
  "demo_payment_cfg = \<lparr>pay_Store = mem_Store, pay_BalanceStore = contract_BalanceStore mem_Store demo_chain,
     pay_crypto = toy_crypto, pay_Settle = Some (\<lambda>a x y. Inr ''tx''), pay_WithdrawFee = Some pool_WithdrawFee,
     pay_WithdrawMin = Some pool_WithdrawMin\<rparr>"

definition demo_payment :: "memoryStore payment" where
  "demo_payment = \<lparr>py_state = (snd (Store_run mem_Store [CAddAccountBalance ''0xab'' 900] demo_store), empty_cache), py_settled = []\<rparr>"

definition demo_withdraw :: "int \<Rightarrow> memoryStore payment \<Rightarrow> unit result \<times> memoryStore payment" where
  "demo_withdraw n = payment_Withdraw demo_payment_cfg 0 0 (replicate 130 (CHR ''0'')) ''0xab'' n"


section \<open>Verification\<close>

text \<open>
  anyone can burn a wallet's nonces. \<^verbatim>\<open>PaymentService.verify\<close> saves the nonce before it checks the signature: a request with a bad signature
  is refused, but its nonce is saved, and from then on every request of the wallet with a nonce up to it is refused, however well
  signed. There is no upper bound on nonces, so one bad request with the largest one locks the wallet out.
\<close>
theorem bad_signature_burns_nonces:
  assumes "pay_Store cfg = mem_Store" and "request_Verify (pay_crypto cfg) sig m w n args = Inl e"
    and "mem_CheckAndSaveNonce now w n (fst (py_state p)) = (Inr (), s1)"
    and "n' \<le> n"
  shows "\<exists>p'. payment_verify cfg now sig m w n args p = (Inl (verify_error m e), p') \<and>
    payment_verify cfg now' sig' m' w n' args' p' = (Inl (VerifyFailedError ErrInvalidNonce m'), p')"
proof -
  define p' where "p' = p\<lparr>py_state := (s1, snd (py_state p))\<rparr>"
  have "payment_verify cfg now sig m w n args p = (Inl (verify_error m e), p')"
    using assms(1-3) by (simp add: payment_verify_def on_state_eq on_fst_def mem_Store_def p'_def)
  moreover have "index 0 (ms_nonces s1) w = n"
    using assms(3) by (auto simp: mem_CheckAndSaveNonce_def split: if_splits)
  then have "mem_CheckAndSaveNonce now' w n' s1 = (Inl ErrInvalidNonce, s1)"
    using assms(4) by (simp add: mem_CheckAndSaveNonce_def)
  then have "payment_verify cfg now' sig' m' w n' args' p' = (Inl (VerifyFailedError ErrInvalidNonce m'), p')"
    using assms(1) by (simp add: payment_verify_def on_state_eq on_fst_def mem_Store_def p'_def verify_error_def)
  ultimately show ?thesis by blast
qed

theorem bad_signature_burns_nonces_witness:
  "\<exists>p'. fst (payment_verify demo_payment_cfg 0 ''zz'' ''pool_withdraw'' ''0xab'' max_int64 [] demo_payment) =
      Inl (VerifyFailedError (ErrNew ''failed to decode sig'') ''pool_withdraw'') \<and>
    payment_verify demo_payment_cfg 0 (replicate 130 (CHR ''0'')) ''pool_withdraw'' ''0xab'' 5 [] p' =
      (Inl (VerifyFailedError ErrInvalidNonce ''pool_withdraw''), p')"
proof -
  have st: "pay_Store demo_payment_cfg = mem_Store" by (simp add: demo_payment_cfg_def)
  have ver: "request_Verify (pay_crypto demo_payment_cfg) ''zz'' ''pool_withdraw'' ''0xab'' max_int64 [] = Inl (ErrNew ''failed to decode sig'')"
    by code_simp
  have "fst (mem_CheckAndSaveNonce 0 ''0xab'' max_int64 (fst (py_state demo_payment))) = Inr ()" by code_simp
  then have sv: "mem_CheckAndSaveNonce 0 ''0xab'' max_int64 (fst (py_state demo_payment)) =
      (Inr (), snd (mem_CheckAndSaveNonce 0 ''0xab'' max_int64 (fst (py_state demo_payment))))" by (metis prod.collapse)
  have "5 \<le> max_int64" by (simp add: max_int64_def)
  from bad_signature_burns_nonces [OF st ver sv this, of 0 "replicate 130 (CHR ''0'')" "''pool_withdraw''" "[]"]
  show ?thesis by (auto simp: verify_error_def)
qed

text \<open>
  \<^verbatim>\<open>AddNode\<close> takes any registered node. A wallet's signed request is enough to make any registered node a spender of the wallet's account: the node's trial credit moves to the
  wallet, and the node draws on the wallet's account from then on, whatever account it drew on before; the node itself is not asked.
\<close>
theorem AddNode_claims_any_node:
  assumes "pay_Store cfg = mem_Store" and "request_Verify (pay_crypto cfg) sig ''pool_addNode'' w n [JStr i] = Inr ()"
    and "fst (mem_CheckAndSaveNonce now w n (fst (py_state p))) = Inr ()" and "mem_registered (fst (py_state p)) i"
  shows "\<exists>p'. payment_AddNode cfg now sig w n i p = (Inr (), p') \<and>
    mem_purse_of (fst (py_state p')) i = Inl w \<and>
    mem_purse (fst (py_state p')) (Inl w) = mem_purse (fst (py_state p)) (Inl w) + mem_purse (fst (py_state p)) (Inr i) \<and>
    mem_credit (fst (py_state p')) = mem_credit (fst (py_state p))"
proof -
  define s1 where "s1 = snd (mem_CheckAndSaveNonce now w n (fst (py_state p)))"
  define p1 where "p1 = p\<lparr>py_state := (s1, snd (py_state p))\<rparr>"
  have ver: "payment_verify cfg now sig ''pool_addNode'' w n [JStr i] p = (Inr (), p1)"
    using assms(1-3) by (simp add: payment_verify_def on_state_eq on_fst_def mem_Store_def split_beta Let_def p1_def s1_def)
  note keep = payment_verify_store [OF ver assms(1)]
  have reg: "mem_registered s1 i"
    using assms(4) by (auto simp: s1_def mem_CheckAndSaveNonce_def mem_registered_def)
  define s2 where "s2 = snd (mem_AddAccountNode w i s1)"
  have add: "mem_AddAccountNode w i s1 = (Inr (), s2)"
    using reg by (auto simp: s2_def mem_AddAccountNode_def mem_registered_def Let_def)
  have op: "payment_AddNode cfg now sig w n i p = (Inr (), p1\<lparr>py_state := (s2, snd (py_state p1))\<rparr>)"
    using ver add assms(1) by (simp add: payment_AddNode_def on_state_eq on_fst_def mem_Store_def p1_def)
  have "mem_purse_of s2 i = Inl w" "mem_purse s2 (Inl w) = mem_purse s1 (Inl w) + mem_purse s1 (Inr i)"
    using add reg by (auto simp: mem_AddAccountNode_def mem_registered_def mem_purse_of_def mem_purse_def Let_def)
  moreover have "mem_credit s2 = mem_credit s1" using mem_credit_AddAccountNode [of w i s1] by (simp add: s2_def)
  ultimately show ?thesis using op keep by (auto simp: p1_def)
qed

theorem AddNode_claims_any_node_witness:
  "\<exists>p'. payment_AddNode demo_payment_cfg 0 (replicate 130 (CHR ''0'')) ''0xab'' 5 ''c'' demo_payment = (Inr (), p') \<and>
    mem_purse_of (fst (py_state p')) ''c'' = Inl ''0xab''"
proof -
  have st: "pay_Store demo_payment_cfg = mem_Store" by (simp add: demo_payment_cfg_def)
  have ver: "request_Verify (pay_crypto demo_payment_cfg) (replicate 130 (CHR ''0'')) ''pool_addNode'' ''0xab'' 5 [JStr ''c''] = Inr ()"
    by code_simp
  have sv: "fst (mem_CheckAndSaveNonce 0 ''0xab'' 5 (fst (py_state demo_payment))) = Inr ()" by code_simp
  have reg: "mem_registered (fst (py_state demo_payment)) ''c''" by code_simp
  from AddNode_claims_any_node [OF st ver sv reg] show ?thesis by blast
qed

end
