(* ===== verification/Pool_Status.thy ===== *)
theory Pool_Status
  imports Memory_Store
begin

text \<open>
  The status dashboard (\<^verbatim>\<open>pool/status/status.go\<close>): a snapshot of the store that is computed on request
  and cached. \<^verbatim>\<open>Status\<close> reads the cache under a read lock and, if the snapshot is too old,
  takes the write lock and refreshes it; between the two another request may run. The two
  halves are therefore separate operations. A cached response is identified by a number,
  which stands for the pointer that the code compares.
\<close>

section \<open>Responses\<close>

record status_host =
  sh_ShortID :: string
  sh_LastSeen :: time
  sh_Kind :: string
  sh_BlockNumber :: uint64
  sh_NumPeers :: int
  sh_NodeVersion :: string
  sh_VipnodeVersion :: string

definition nodeHost :: "node \<Rightarrow> int \<Rightarrow> status_host" where
  "nodeHost n numPeers =
     (let shortID = (if 12 < length (n_ID n) then take 12 (n_ID n) else n_ID n)
      in \<lparr>sh_ShortID = shortID, sh_LastSeen = n_LastSeen n, sh_Kind = n_Kind n, sh_BlockNumber = n_BlockNumber n,
          sh_NumPeers = numPeers, sh_NodeVersion = n_NodeVersion n, sh_VipnodeVersion = n_VipnodeVersion n\<rparr>)"

record StatusResponse =
  sr_TimeUpdated :: time
  sr_TimeStarted :: time
  sr_Version :: string
  sr_ActiveHosts :: "status_host list"
  sr_Stats :: "stats option"
  sr_Error :: "go_error option"

record 's status_config =
  sc_Store :: "'s Store"
  sc_GetTotalDeposit :: "int result option"
  sc_TimeStarted :: time
  sc_Version :: string
  sc_CacheDuration :: duration

section \<open>Computing the status\<close>

text \<open>The loop over the active hosts; on an error it stops with the hosts so far.\<close>
primrec status_hosts ::
  "'s Store \<Rightarrow> iter_order \<Rightarrow> node list \<Rightarrow> status_host list \<Rightarrow> 's \<Rightarrow> (go_error option \<times> status_host list) \<times> 's" where
  "status_hosts St ord [] acc s = ((None, acc), s)"
| "status_hosts St ord (n # ns) acc s =
     (case NodePeers St ord (n_ID n) s of
        (Inl e, s1) \<Rightarrow> ((Some e, acc), s1)
      | (Inr peers, s1) \<Rightarrow> status_hosts St ord ns (acc @ [nodeHost n (int (length peers))]) s1)"

text \<open>The response, which may be nil, and the error.\<close>
definition getStatus ::
  "'s status_config \<Rightarrow> clock \<Rightarrow> (nat \<Rightarrow> iter_order) \<Rightarrow> 's \<Rightarrow> (StatusResponse option \<times> go_error option) \<times> 's" where
  "getStatus cfg clk ords s =
     (let r = \<lparr>sr_TimeUpdated = clk 0, sr_TimeStarted = sc_TimeStarted cfg, sr_Version = sc_Version cfg,
               sr_ActiveHosts = [], sr_Stats = None, sr_Error = None\<rparr>
      in case Stats (sc_Store cfg) (clk 1) ords s of
           (Inl e, s1) \<Rightarrow> ((Some (r\<lparr>sr_Error := Some e\<rparr>), Some e), s1)
         | (Inr stats, s1) \<Rightarrow>
             (case (case sc_GetTotalDeposit cfg of
                      None \<Rightarrow> Inr stats
                    | Some (Inl e) \<Rightarrow> Inl e
                    | Some (Inr totalDeposit) \<Rightarrow> Inr (stats\<lparr>st_TotalDeposit := totalDeposit\<rparr>)) of
                Inl e \<Rightarrow> ((None, Some e), s1)
              | Inr stats' \<Rightarrow>
                  (let r1 = r\<lparr>sr_Stats := Some stats'\<rparr>
                   in case ActiveHosts (sc_Store cfg) (clk 2) (ords 3) '''' 0 s1 of
                        (Inl e, s2) \<Rightarrow> ((Some (r1\<lparr>sr_Error := Some e\<rparr>), Some e), s2)
                      | (Inr nodes, s2) \<Rightarrow>
                          (case status_hosts (sc_Store cfg) (ords 4) nodes [] s2 of
                             ((Some e, hosts), s3) \<Rightarrow>
                               ((Some (r1\<lparr>sr_ActiveHosts := hosts, sr_Error := Some e\<rparr>), Some e), s3)
                           | ((None, hosts), s3) \<Rightarrow> ((Some (r1\<lparr>sr_ActiveHosts := hosts\<rparr>), None), s3)))))"

section \<open>The cache\<close>

record status_cache =
  cch_resp :: "(nat \<times> StatusResponse) option"
  cch_next :: nat

definition empty_status_cache :: status_cache where
  "empty_status_cache = \<lparr>cch_resp = None, cch_next = 0\<rparr>"

text \<open>First half of \<^verbatim>\<open>Status\<close>: the cached response, and whether it is still valid.\<close>
definition Status_read :: "'s status_config \<Rightarrow> time \<Rightarrow> status_cache \<Rightarrow> (nat \<times> StatusResponse) option \<times> bool" where
  "Status_read cfg now c =
     (case cch_resp c of
        None \<Rightarrow> (None, False)
      | Some (k, resp) \<Rightarrow> (Some (k, resp), time_After (time_Add (sr_TimeUpdated resp) (sc_CacheDuration cfg)) now))"

text \<open>Second half, with the response the first half saw.\<close>
definition Status_refresh ::
  "'s status_config \<Rightarrow> clock \<Rightarrow> (nat \<Rightarrow> iter_order) \<Rightarrow> (nat \<times> StatusResponse) option \<Rightarrow> status_cache \<times> 's
     \<Rightarrow> (StatusResponse option \<times> go_error option) \<times> (status_cache \<times> 's)" where
  "Status_refresh cfg clk ords seen cs =
     (if map_option fst (cch_resp (fst cs)) \<noteq> map_option fst seen
      then ((map_option snd (cch_resp (fst cs)), None), cs)
      else
        (case getStatus cfg clk ords (snd cs) of
           ((r, err), s1) \<Rightarrow>
             ((r, err),
              ((fst cs)\<lparr>cch_resp := map_option (Pair (cch_next (fst cs))) r, cch_next := Suc (cch_next (fst cs))\<rparr>, s1))))"

definition Status ::
  "'s status_config \<Rightarrow> time \<Rightarrow> clock \<Rightarrow> (nat \<Rightarrow> iter_order) \<Rightarrow> status_cache \<times> 's
     \<Rightarrow> (StatusResponse option \<times> go_error option) \<times> (status_cache \<times> 's)" where
  "Status cfg now clk ords cs =
     (case Status_read cfg now (fst cs) of
        (seen, True) \<Rightarrow> ((map_option snd seen, None), cs)
      | (seen, False) \<Rightarrow> Status_refresh cfg clk ords seen cs)"

section \<open>What the status shows\<close>

lemma status_hosts_mem:
  assumes "\<forall>n\<in>set ns. mem_registered s (n_ID n)"
  shows "status_hosts mem_Store ord ns acc s =
    ((None, acc @ map (\<lambda>n. nodeHost n (int (length (projr (fst (mem_NodePeers ord (n_ID n) s)))))) ns), s)"
  using assms
proof (induction ns arbitrary: acc)
  case (Cons n ns)
  then have "\<exists>ps. mem_NodePeers ord (n_ID n) s = (Inr ps, s)"
    by (auto simp: mem_registered_def mem_NodePeers_def)
  then obtain ps where "mem_NodePeers ord (n_ID n) s = (Inr ps, s)" by blast
  then show ?case using Cons by (simp add: mem_Store_def)
qed simp

text \<open>
  the status over the in-memory store never fails by itself. When the deposit of the contract, if asked for, is available, \<^verbatim>\<open>getStatus\<close> returns a response without error, stamped with the current
  time, with one entry for every host seen within two keepalive intervals, giving the
  number of its known peers, and with the statistics of the store; and it leaves the store as it is.
\<close>
theorem getStatus_complete:
  assumes "mem_inv s" and "range_order (ords 3)" and "sc_Store cfg = mem_Store"
    and "sc_GetTotalDeposit cfg \<noteq> None \<longrightarrow> is_ok (the (sc_GetTotalDeposit cfg))"
  shows "\<exists>r stats. getStatus cfg clk ords s = ((Some r, None), s) \<and> sr_TimeUpdated r = clk 0 \<and> sr_Error r = None \<and>
    sr_Stats r = Some stats \<and> st_TotalCredit stats = st_TotalCredit (projr (fst (mem_Stats (clk 1) ords s))) \<and>
    sr_ActiveHosts r = map (\<lambda>n. nodeHost n (int (length (projr (fst (mem_NodePeers (ords 4) (n_ID n) s))))))
      (filter (host_matches '''' (clk 2 - ExpireInterval)) (mem_node_list (ords 3) s))"
proof -
  define hosts where "hosts = filter (host_matches '''' (clk 2 - ExpireInterval)) (mem_node_list (ords 3) s)"
  have act: "ActiveHosts mem_Store (clk 2) (ords 3) '''' 0 s = (Inr hosts, s)"
    using mem_ActiveHosts_eq [of 0 "clk 2" "ords 3" "''''" s] by (simp add: mem_Store_def hosts_def Let_def time_simps)
  have "\<forall>n\<in>set hosts. mem_registered s (n_ID n)"
    using assms(2) mem_inv_node_ID [OF assms(1)] by (auto simp: hosts_def mem_node_list_set mem_registered_def)
  note loop = status_hosts_mem [OF this, of "ords 4" "[]"]
  obtain st where st: "Stats mem_Store (clk 1) ords s = (Inr st, s)"
    by (simp add: mem_Store_def mem_Stats_def Let_def)
  then have st': "mem_Stats (clk 1) ords s = (Inr st, s)" by (simp add: mem_Store_def)
  show ?thesis
  proof (cases "sc_GetTotalDeposit cfg")
    case None
    then show ?thesis using act loop st st' assms(3) by (simp add: getStatus_def Let_def hosts_def)
  next
    case (Some d)
    then obtain v where "d = Inr v" using assms(4) by (auto simp: is_ok_iff)
    then show ?thesis using Some act loop st st' assms(3) by (simp add: getStatus_def Let_def hosts_def)
  qed
qed

definition demo_status :: "memoryStore status_config" where
  "demo_status = \<lparr>sc_Store = mem_Store, sc_GetTotalDeposit = None, sc_TimeStarted = 0, sc_Version = ''v2'',
     sc_CacheDuration = minute\<rparr>"

lemma demo_store_inv: "mem_inv demo_store"
  unfolding demo_store_def by (rule mem_audit.run_inv [OF mem_inv_New])

theorem getStatus_complete_witness:
  "\<exists>r. getStatus demo_status (\<lambda>_. 2000) (\<lambda>_. sorted_list_of_fset) demo_store = ((Some r, None), demo_store) \<and> sr_Error r = None"
proof -
  have "sc_Store demo_status = mem_Store" "sc_GetTotalDeposit demo_status \<noteq> None \<longrightarrow> is_ok (the (sc_GetTotalDeposit demo_status))"
    by (simp_all add: demo_status_def)
  from getStatus_complete [OF demo_store_inv _ this, of "\<lambda>_. sorted_list_of_fset" "\<lambda>_. 2000"] show ?thesis
    using range_order_sorted by blast
qed

text \<open>
  the cache. A response that was computed less than the cache duration ago is returned unchanged and without touching the store;
  after the duration it is computed anew. An error of the deposit getter is the one answer that is not cached: the next call computes
  everything again, at once.
\<close>
theorem Status_cached:
  assumes "Status_refresh cfg clk ords (cch_resp c) (c, s) = ((r, err), (c', s'))"
  shows "(\<forall>resp. r = Some resp \<longrightarrow> sr_TimeUpdated resp = clk 0 \<longrightarrow>
      (\<forall>now clk' ords'. now < clk 0 + sc_CacheDuration cfg \<longrightarrow> Status cfg now clk' ords' (c', s') = ((Some resp, None), (c', s')))) \<and>
    (r = None \<longrightarrow> (\<forall>now clk' ords'. Status cfg now clk' ords' (c', s') = Status_refresh cfg clk' ords' None (c', s')))"
proof -
  obtain s1 where "getStatus cfg clk ords s = ((r, err), s1)" and c': "c' = c\<lparr>cch_resp := map_option (Pair (cch_next c)) r, cch_next := Suc (cch_next c)\<rparr>"
    using assms by (auto simp: Status_refresh_def split: prod.splits)
  then show ?thesis by (auto simp: Status_def Status_read_def time_simps)
qed

theorem Status_cached_witness:
  "\<exists>r err c' s'. Status_refresh (demo_status\<lparr>sc_GetTotalDeposit := Some (Inl (ErrExternal ''down''))\<rparr>) (\<lambda>_. 2000) (\<lambda>_. sorted_list_of_fset)
      None (empty_status_cache, demo_store) = ((r, err), (c', s')) \<and> r = None \<and>
    Status (demo_status\<lparr>sc_GetTotalDeposit := Some (Inl (ErrExternal ''down''))\<rparr>) 2001 (\<lambda>_. 2001) (\<lambda>_. sorted_list_of_fset) (c', s') =
      Status_refresh (demo_status\<lparr>sc_GetTotalDeposit := Some (Inl (ErrExternal ''down''))\<rparr>) (\<lambda>_. 2001) (\<lambda>_. sorted_list_of_fset) None (c', s')"
proof -
  let ?cfg = "demo_status\<lparr>sc_GetTotalDeposit := Some (Inl (ErrExternal ''down''))\<rparr>"
  define x where "x = Status_refresh ?cfg (\<lambda>_. 2000) (\<lambda>_. sorted_list_of_fset) (cch_resp empty_status_cache) (empty_status_cache, demo_store)"
  obtain r err c' s' where x: "x = ((r, err), (c', s'))" by (metis prod.collapse)
  have "\<exists>st. Stats mem_Store 2000 (\<lambda>_. sorted_list_of_fset) demo_store = (Inr st, demo_store)"
    by (simp add: mem_Store_def mem_Stats_def Let_def)
  then have "r = None"
    using x by (auto simp: x_def Status_refresh_def getStatus_def demo_status_def Let_def)
  moreover have seen: "cch_resp empty_status_cache = None" by (simp add: empty_status_cache_def)
  ultimately show ?thesis
    using Status_cached [OF x [unfolded x_def]] x unfolding x_def seen by blast
qed

end
