(* ===== verification/Pool_Server.thy ===== *)
theory Pool_Server
  imports Cli Payment Pool_Status Pool_Correctness
begin

text \<open>
  The pool command: how \<^verbatim>\<open>runPool\<close> (\<^verbatim>\<open>pool.go\<close>) builds the pool, its balance manager and its RPC surface out
  of the options, and the HTTP server (\<^verbatim>\<open>server.go\<close>) in front of it. Opening files, dialing, unlocking a key store and
  parsing a template are outcomes given as arguments; binding the listening socket is left out.
\<close>

section \<open>Options\<close>

record pool_options =
  po_Store :: string
  po_AllowOrigin :: string
  po_RestrictNetwork :: string
  po_MaxRequestHosts :: int
  po_ContractAddr :: string
  po_KeyStore :: string
  po_Price :: string
  po_MinBalance :: string
  po_Welcome :: string

text \<open>The storage driver: memory, or the database in a directory that could be found.\<close>
datatype store_choice = UseMemory | UseBadger string

definition choose_store :: "string \<Rightarrow> string result \<Rightarrow> store_choice + cli_error" where
  "choose_store driver dataDir =
     (if driver = ''memory'' then Inl UseMemory
      else if driver = ''persist'' \<or> driver = ''badger''
      then (case dataDir of Inl e \<Rightarrow> Inr (Err e) | Inr dir \<Rightarrow> Inl (UseBadger dir))
      else Inr (Err (ErrNew ''storage driver not implemented'')))"

section \<open>The payment contract\<close>

text \<open>What the Ethereum client and the contract answered.\<close>
record contract_outcomes =
  co_Dial :: "unit result"
  co_NetworkID :: "int result"
  co_Unlock :: "string result"
  co_NewContract :: "unit result"
  co_Operator :: "string result"
  co_Watch :: "unit result"

definition mismatch_explanation :: string where
  "mismatch_explanation = ''Contract keystore must match the wallet of the contract operator. Make sure you'' @ [CHR 0x27] @
     ''re providing the correct keystore.''"

text \<open>
  The contract, if one is configured: its host part (the address), the account that writes to it, and the empty cache
  of deposits.
\<close>
definition contract_setup ::
  "pool_options \<Rightarrow> contract_outcomes \<Rightarrow> (string \<times> string option \<times> balanceCache) option + cli_error" where
  "contract_setup options co =
     (if po_ContractAddr options = '''' then Inl None
      else case url_Parse (po_ContractAddr options) of
             Inl e \<Rightarrow> Inr (Err e)
           | Inr contractPath \<Rightarrow>
               (let contractAddr = url_Hostname contractPath; network = u_Scheme contractPath
                in case co_Dial co of
                     Inl e \<Rightarrow> Inr (Err e)
                   | Inr _ \<Rightarrow>
               (case co_NetworkID co of
                  Inl e \<Rightarrow> Inr (Err e)
                | Inr gotNetwork \<Rightarrow>
                    (if \<not> NetworkID_Is (int64 gotNetwork) network
                     then Inr (ErrExplain (Err (ErrNew ''ethereum network mismatch for payment contract''))
                       (''Contract is on '' @ go_quote network @ '' while the Contact RPC is a '' @ go_quote (NetworkID_String (int64 gotNetwork)) @
                        '' node. Please provide a Contract RPC on the same network as the contract.''))
                     else
               (case (if po_KeyStore options \<noteq> '''' then map_sum id Some (co_Unlock co) else Inr None) of
                  Inl e \<Rightarrow> Inr (ErrExplain (Err e) (''Failed to unlock the keystore for the contract operator wallet. Make sure the path is correct and the decryption password is set in the `KEYSTORE_PASSPHRASE` environment variable.''))
                | Inr transactFrom \<Rightarrow>
               (case ContractPayment (co_NewContract co) (co_Operator co) transactFrom (co_Watch co) of
                  Inl (AddressMismatchError p want got) \<Rightarrow> Inr (ErrExplain (Err (AddressMismatchError p want got)) mismatch_explanation)
                | Inl e \<Rightarrow> Inr (Err e)
                | Inr cache \<Rightarrow> Inl (Some (contractAddr, transactFrom, cache))))))))"

section \<open>The balance manager\<close>

definition balance_setup :: "pool_options \<Rightarrow> payPerInterval + cli_error" where
  "balance_setup options =
     (case ParseEther (po_Price options) of
        Inl e \<Rightarrow> Inr (Err (ErrNew (''failed to parse contract price: '' @ error_text e)))
      | Inr creditPerInterval \<Rightarrow>
          (let balanceManager = PayPerInterval (minute * 1) creditPerInterval
           in if po_MinBalance options \<noteq> ''off''
              then (case ParseEther (po_MinBalance options) of
                      Inl e \<Rightarrow> Inr (Err (ErrNew (''failed to parse contract minimum balance: '' @ error_text e)))
                    | Inr minBalance \<Rightarrow> Inl (balanceManager\<lparr>pp_MinBalance := Some minBalance\<rparr>))
              else Inl balanceManager))"

section \<open>The pool\<close>

definition network_setup :: "pool_options \<Rightarrow> NetworkID + cli_error" where
  "network_setup options =
     (if po_RestrictNetwork options = '''' then Inl UnknownNetwork
      else (let networkID = ParseNetwork (po_RestrictNetwork options)
            in if networkID = UnknownNetwork
               then Inr (ErrExplain (Err (ErrNew ''unknown network'')) ''Failed to parse network ID provided to --restrict-network'')
               else Inl networkID))"

text \<open>The latest block number that a node reported to this pool.\<close>
definition block_provider ::
  "'s Store \<Rightarrow> NetworkID \<Rightarrow> NetworkID \<Rightarrow> time \<Rightarrow> (nat \<Rightarrow> iter_order) \<Rightarrow> 's \<Rightarrow> uint64 result" where
  "block_provider St restrictNetwork network now ords s =
     (if network \<noteq> restrictNetwork
      then Inl (ErrNew (''block number provider does not support network: '' @ NetworkID_String network))
      else case fst (Stats St now ords s) of Inl e \<Rightarrow> Inl e | Inr st \<Rightarrow> Inr (st_LatestBlockNumber st))"

text \<open>A storage driver beside the cache of deposits.\<close>
definition beside_cache :: "'s Store \<Rightarrow> 's contract_state Store" where
  "beside_cache St =
     \<lparr>GetNodeBalance = (\<lambda>now i. on_fst (GetNodeBalance St now i)), AddNodeBalance = (\<lambda>i c. on_fst (AddNodeBalance St i c)),
      GetAccountBalance = (\<lambda>now a. on_fst (GetAccountBalance St now a)), AddAccountBalance = (\<lambda>a c. on_fst (AddAccountBalance St a c)),
      AddAccountNode = (\<lambda>a i. on_fst (AddAccountNode St a i)), IsAccountNode = (\<lambda>a i. on_fst (IsAccountNode St a i)),
      GetAccountNodes = (\<lambda>ord a. on_fst (GetAccountNodes St ord a)),
      CheckAndSaveNonce = (\<lambda>now i n. on_fst (CheckAndSaveNonce St now i n)), GetNode = (\<lambda>i. on_fst (GetNode St i)),
      SetNode = (\<lambda>n. on_fst (SetNode St n)), ActiveHosts = (\<lambda>now ord k l. on_fst (ActiveHosts St now ord k l)),
      NodePeers = (\<lambda>ord i. on_fst (NodePeers St ord i)),
      UpdateNodePeers = (\<lambda>now ord i ps b. on_fst (UpdateNodePeers St now ord i ps b)),
      Stats = (\<lambda>now ords. on_fst (Stats St now ords))\<rparr>"

text \<open>
  The configuration of the pool and its first state, once driver and contract are there; \<open>template\<close> parses
  and renders the welcome message.
\<close>
definition pool_setup ::
  "pool_options \<Rightarrow> crypto \<Rightarrow> 's Store \<Rightarrow> 's \<Rightarrow> (chain \<times> balanceCache) option \<Rightarrow> (string \<Rightarrow> (string \<Rightarrow> string) result)
     \<Rightarrow> ('s contract_state pool_config \<times> 's contract_state pool) + cli_error" where
  "pool_setup options C storeDriver s contract template =
     (case balance_setup options of
        Inr err \<Rightarrow> Inr err
      | Inl balanceManager \<Rightarrow>
          (let St = beside_cache storeDriver;
               manager = (case contract of
                            None \<Rightarrow> pay_Manager St balanceManager
                          | Some (chain, _) \<Rightarrow> pay_Manager (contract_BalanceStore storeDriver chain) balanceManager);
               cache = (case contract of None \<Rightarrow> empty_cache | Some (_, c) \<Rightarrow> c)
           in case (if po_Welcome options = '''' then Inr None else map_sum id Some (template (po_Welcome options))) of
                Inl e \<Rightarrow> Inr (Err e)
              | Inr welcome \<Rightarrow>
                  (case network_setup options of
                     Inr err \<Rightarrow> Inr err
                   | Inl networkID \<Rightarrow>
                       Inl ((pool_New_config C St (Some manager))
                              \<lparr>pc_MaxRequestHosts := po_MaxRequestHosts options,
                               pc_Version := ''vipnode/pool/'' @ cli_Version,
                               pc_ClientMessager := welcome,
                               pc_RestrictNetwork := networkID,
                               pc_BlockNumberProvider := Some (block_provider St networkID)\<rparr>,
                            pool_New (s, cache)))))"

text \<open>The payment service of the pool command; withdrawals are settled by the contract.\<close>
definition payment_setup ::
  "crypto \<Rightarrow> 's Store \<Rightarrow> (chain \<times> string option \<times> (account \<Rightarrow> int \<Rightarrow> int \<Rightarrow> string result)) option \<Rightarrow> 's payment_config" where
  "payment_setup C storeDriver contract =
     \<lparr>pay_Store = storeDriver,
      pay_BalanceStore = (case contract of
                            None \<Rightarrow> \<lparr>GetNodeBalance = GetNodeBalance (beside_cache storeDriver), AddNodeBalance = AddNodeBalance (beside_cache storeDriver),
                                     GetAccountBalance = GetAccountBalance (beside_cache storeDriver),
                                     AddAccountBalance = AddAccountBalance (beside_cache storeDriver)\<rparr>
                          | Some (chain, _, _) \<Rightarrow> contract_BalanceStore storeDriver chain),
      pay_crypto = C,
      pay_Settle = (case contract of None \<Rightarrow> None | Some (_, transactFrom, settle) \<Rightarrow> Some (OpSettle transactFrom settle)),
      pay_WithdrawFee = Some pool_WithdrawFee, pay_WithdrawMin = Some pool_WithdrawMin\<rparr>"

section \<open>The RPC surface\<close>

text \<open>The methods of the pool that clients may call.\<close>
definition pool_methods_exposed :: "string list" where
  "pool_methods_exposed = [''connect'', ''disconnect'', ''ping'', ''update'', ''peer'', ''client'', ''host'']"

definition pool_surface ::
  "iter_order \<Rightarrow> 's pool_config \<Rightarrow> unit result \<times> (pool_value, env, 's pool) registry" where
  "pool_surface ord cfg = Register ord ''vipnode_'' (pool_receiver cfg) pool_methods_exposed fmempty"

section \<open>The HTTP server\<close>

record ('v, 'c, 's) server =
  sv_registry :: "('v, 'c, 's) registry"
  sv_MaxContentLength :: int
  sv_header :: "(string \<times> string list) list"
  sv_onDisconnect :: "(service \<Rightarrow> 's \<Rightarrow> unit result \<times> 's) option"
  sv_healthCheck :: "('s \<Rightarrow> string result \<times> 's) option"

datatype web_reply =
    WebError string int
  | WebHealth string
  | WebRPC "(string \<times> string) list" http_reply
  | WebSocketClosed

text \<open>Setting a header replaces its value, so the last of several values stays.\<close>
definition reply_header :: "(string \<times> string list) list \<Rightarrow> (string \<times> string) list" where
  "reply_header header = map (\<lambda>(k, values). (k, last values)) (filter (\<lambda>(k, values). values \<noteq> []) header)"

text \<open>The two-way connection that the server makes.\<close>
definition server_connection :: connection where
  "server_connection = new_connection 50 10"

text \<open>
  \<^verbatim>\<open>server.ServeHTTP\<close> for a path and a request. For an upgrade to a websocket, \<open>session\<close> is what the calls on the connection did until it
  ended, whatever ended it.
\<close>
definition server_ServeHTTP ::
  "'v reflection \<Rightarrow> ('v, 'c, 's) server \<Rightarrow> 'c \<Rightarrow> string \<Rightarrow> http_request \<Rightarrow> (Message \<Rightarrow> unit result) \<Rightarrow> unit result
     \<Rightarrow> service \<Rightarrow> ('s \<Rightarrow> 's) \<Rightarrow> 's \<Rightarrow> web_reply result \<times> 's" where
  "server_ServeHTTP rf sv ctx path r write upgrade remote session s =
     (if HasSuffix path ''/health''
      then (case sv_healthCheck sv of
              None \<Rightarrow> (Inr (WebError ''detailed health check disabled'' 200), s)
            | Some check \<Rightarrow>
                (case check s of
                   (Inl e, s1) \<Rightarrow> (if is_panic e then (Inl e, s1) else (Inr (WebError (error_text e) 500), s1))
                 | (Inr body, s1) \<Rightarrow> (Inr (WebHealth body), s1)))
      else if hr_Method r = ''POST''
      then (case ServeHTTP rf (sv_registry sv) (sv_MaxContentLength sv) ctx r write s of
              (Inl e, s1) \<Rightarrow> (Inl e, s1)
            | (Inr reply, s1) \<Rightarrow> (Inr (WebRPC (reply_header (sv_header sv)) reply), s1))
      else if hr_Method r = ''GET''
      then (case upgrade of
              Inl e \<Rightarrow> (Inr (WebError (''incorrect vipnode websocket api handshake: '' @ error_text e) 400), s)
            | Inr _ \<Rightarrow>
                (let s1 = session s
                 in case sv_onDisconnect sv of
                      None \<Rightarrow> (Inr WebSocketClosed, s1)
                    | Some f \<Rightarrow> (Inr WebSocketClosed, snd (f remote s1))))
      else (Inr (WebError ''unsupported method'' 415), s))"

text \<open>The server of a pool. The health check encodes the status; how a status prints is a parameter.\<close>
definition pool_server ::
  "pool_options \<Rightarrow> (pool_value, env, 's pool) registry \<Rightarrow> ('s pool \<Rightarrow> string result \<times> 's pool)
     \<Rightarrow> (pool_value, env, 's pool) server" where
  "pool_server options registry health =
     \<lparr>sv_registry = registry, sv_MaxContentLength = 0,
      sv_header = (if po_AllowOrigin options = '''' then [] else [(''Access-Control-Allow-Origin'', [po_AllowOrigin options])]),
      sv_onDisconnect = Some CloseRemote, sv_healthCheck = Some health\<rparr>"

text \<open>The health check of the pool command.\<close>
definition pool_health ::
  "'s status_config \<Rightarrow> time \<Rightarrow> clock \<Rightarrow> (nat \<Rightarrow> iter_order) \<Rightarrow> (StatusResponse option \<Rightarrow> string) \<Rightarrow> status_cache \<times> 's
     \<Rightarrow> string result \<times> (status_cache \<times> 's)" where
  "pool_health cfg now clk ords encode cs =
     (case Status cfg now clk ords cs of
        ((resp, Some e), cs1) \<Rightarrow> (Inl e, cs1)
      | ((resp, None), cs1) \<Rightarrow> (Inr (encode resp), cs1))"

section \<open>What is exposed\<close>

lemma Methods_pool:
  "Methods (pool_receiver cfg) =
     Inr (fold (\<lambda>method. fmupd (gm_Name method) (mk_Method method)) (rc_Methods (pool_receiver cfg)) fmempty)"
proof -
  have "methods_loop (rc_Methods (pool_receiver cfg)) fmempty =
      Inr (fold (\<lambda>method. fmupd (gm_Name method) (mk_Method method)) (rc_Methods (pool_receiver cfg)) fmempty)"
    by (rule methods_loop_all) (use method_valid in blast)
  moreover have "isExported (rc_TypeName (pool_receiver cfg))"
    by (simp add: pool_receiver_def isExported_def is_upper_def code_def)
  ultimately show ?thesis by (simp add: Methods_def)
qed

lemma pool_method_names:
  "map gm_Name (rc_Methods (pool_receiver cfg)) =
     [''Client'', ''CloseRemote'', ''Connect'', ''Host'', ''NumRemotes'', ''Peer'', ''Ping'', ''Update'']"
  by (simp add: pool_receiver_def pool_methods)

lemma rpc_names:
  "rpc_name ''Client'' = ''client''" "rpc_name ''CloseRemote'' = ''closeRemote''" "rpc_name ''Connect'' = ''connect''"
  "rpc_name ''Host'' = ''host''" "rpc_name ''NumRemotes'' = ''numRemotes''" "rpc_name ''Peer'' = ''peer''"
  "rpc_name ''Ping'' = ''ping''" "rpc_name ''Update'' = ''update''"
  by code_simp+

lemma fold_methods_dom:
  "fmdom (fold (\<lambda>method. fmupd (gm_Name method) (mk_Method method)) ms acc) = fmdom acc |\<union>| fset_of_list (map gm_Name ms)"
  by (induction ms arbitrary: acc) auto

lemma Register_other:
  assumes "Register ord pre receiver only registry = (r, registry')" and "\<And>name. k \<noteq> pre @ name"
  shows "fmlookup registry' k = fmlookup registry k"
  using assms register_loop_other [of _ only k pre]
  by (auto simp: Register_def split: sum.splits if_splits)

lemma register_loop_origin:
  assumes "fmlookup (register_loop pre only methods names registry) k \<noteq> None" and "fmlookup registry k = None"
  shows "\<exists>name\<in>set names. (only = [] \<or> rpc_name name \<in> set only) \<and> k = pre @ rpc_name name"
proof (rule ccontr)
  assume "\<not> ?thesis"
  then have "fmlookup (register_loop pre only methods names registry) k = fmlookup registry k"
    by (intro register_loop_other) blast
  with assms show False by simp
qed

lemma pool_surface_names:
  assumes "range_order ord"
  shows "fst (pool_surface ord cfg) = Inr ()"
    and "fmlookup (snd (pool_surface ord cfg)) name \<noteq> None \<longleftrightarrow>
      name \<in> set (map ((@) ''vipnode_'') [''connect'', ''ping'', ''update'', ''peer'', ''client'', ''host''])"
proof -
  let ?ms = "fold (\<lambda>method. fmupd (gm_Name method) (mk_Method method)) (rc_Methods (pool_receiver cfg)) fmempty"
  have dom: "fmdom ?ms = fset_of_list (map gm_Name (rc_Methods (pool_receiver cfg)))"
    by (simp only: fold_methods_dom) simp
  have eq: "pool_surface ord cfg = (Inr (), register_loop ''vipnode_'' pool_methods_exposed ?ms (ord (fmdom ?ms)) fmempty)"
    unfolding pool_surface_def Register_def Methods_pool using dom by (simp add: pool_method_names)
  then show "fst (pool_surface ord cfg) = Inr ()" by simp
  have names: "set (ord (fmdom ?ms)) =
      {''Client'', ''CloseRemote'', ''Connect'', ''Host'', ''NumRemotes'', ''Peer'', ''Ping'', ''Update''}"
    using assms by (simp add: range_order_set dom fset_of_list.rep_eq pool_method_names)
  show "fmlookup (snd (pool_surface ord cfg)) name \<noteq> None \<longleftrightarrow>
      name \<in> set (map ((@) ''vipnode_'') [''connect'', ''ping'', ''update'', ''peer'', ''client'', ''host''])"
  proof
    assume lookup: "fmlookup (snd (pool_surface ord cfg)) name \<noteq> None"
    have "pool_methods_exposed \<noteq> []" by (simp add: pool_methods_exposed_def)
    then obtain m where "m \<in> set (ord (fmdom ?ms))" "rpc_name m \<in> set pool_methods_exposed" "name = ''vipnode_'' @ rpc_name m"
      using register_loop_origin [of "''vipnode_''" pool_methods_exposed ?ms _ fmempty name] lookup
      unfolding eq snd_conv fmempty_lookup by blast
    then show "name \<in> set (map ((@) ''vipnode_'') [''connect'', ''ping'', ''update'', ''peer'', ''client'', ''host''])"
      unfolding names by (elim insertE emptyE) (simp_all add: rpc_names pool_methods_exposed_def)
  next
    let ?six = "[''Connect'', ''Ping'', ''Update'', ''Peer'', ''Client'', ''Host'']"
    assume "name \<in> set (map ((@) ''vipnode_'') [''connect'', ''ping'', ''update'', ''peer'', ''client'', ''host''])"
    moreover have "[''connect'', ''ping'', ''update'', ''peer'', ''client'', ''host''] = map rpc_name ?six" by (simp add: rpc_names)
    ultimately have "name \<in> (@) ''vipnode_'' ` rpc_name ` set ?six" by (simp only: set_map)
    then obtain m where m: "m \<in> set ?six" "name = ''vipnode_'' @ rpc_name m" by blast
    then have "m \<in> set (map gm_Name (rc_Methods (pool_receiver cfg)))" unfolding pool_method_names by auto
    then obtain gm where "gm \<in> set (rc_Methods (pool_receiver cfg))" "m = gm_Name gm" by auto
    moreover have "rpc_name m \<in> set pool_methods_exposed"
      using m(1) unfolding list.set by (elim insertE emptyE) (simp_all add: rpc_names pool_methods_exposed_def)
    moreover have "Register ord ''vipnode_'' (pool_receiver cfg) pool_methods_exposed fmempty = (Inr (), snd (pool_surface ord cfg))"
      using eq by (simp add: pool_surface_def)
    ultimately show "fmlookup (snd (pool_surface ord cfg)) name \<noteq> None"
      using pool_registered [OF assms] m(2) by (metis option.distinct(1))
  qed
qed

text \<open>
  C11: the pool exposes exactly its six handlers. Of the methods that reflection finds on the pool, clients can call connect, ping, update,
  peer, client and host; the methods that close a connection or count connections are not exposed, and no
  method named disconnect exists although it is on the list. Registering further services under \<^verbatim>\<open>pool_\<close> changes none of this.
\<close>
theorem pool_surface_exact:
  assumes "range_order ord" and "Register ord' ''pool_'' receiver only (snd (pool_surface ord cfg)) = (r, registry)"
  shows "fst (pool_surface ord cfg) = Inr () \<and>
    (\<forall>m. fmlookup registry (''vipnode_'' @ m) \<noteq> None \<longleftrightarrow>
       m \<in> {''connect'', ''ping'', ''update'', ''peer'', ''client'', ''host''})"
proof -
  have "fmlookup registry (''vipnode_'' @ m) = fmlookup (snd (pool_surface ord cfg)) (''vipnode_'' @ m)" for m
    by (rule Register_other [OF assms(2)]) simp
  then show ?thesis
    using pool_surface_names(1) [OF assms(1)] pool_surface_names(2) [OF assms(1), of cfg "''vipnode_'' @ m" for m] by simp
qed

theorem pool_surface_exact_witness:
  "fmlookup (snd (Register sorted_list_of_fset ''pool_'' (pool_receiver demo_cfg) [] (snd (pool_surface sorted_list_of_fset demo_cfg))))
     ''vipnode_closeRemote'' = None"
proof -
  obtain r registry where reg: "Register sorted_list_of_fset ''pool_'' (pool_receiver demo_cfg) []
      (snd (pool_surface sorted_list_of_fset demo_cfg)) = (r, registry)" by fastforce
  show ?thesis using pool_surface_exact [OF range_order_sorted reg, THEN conjunct2, THEN spec, of "''closeRemote''"] reg by simp
qed

definition demo_pool_options :: pool_options where
  "demo_pool_options = \<lparr>po_Store = ''memory'', po_AllowOrigin = '''', po_RestrictNetwork = ''rinkeby'', po_MaxRequestHosts = 0,
     po_ContractAddr = '''', po_KeyStore = '''', po_Price = ''100 gwei'', po_MinBalance = ''off'', po_Welcome = ''''\<rparr>"

section \<open>The end of a session\<close>



text \<open>The connections of the server never have more than fifty pending messages.\<close>
lemma server_pending_bounded:
  assumes "remote_reachable server_connection c"
  shows "num_pending (cn_remote c) \<le> 50"
proof -
  have "bounded server_connection"
    by (simp add: bounded_def server_connection_def new_connection_def num_pending_def fcard.rep_eq)
  from bounded_reachable [OF assms this] show ?thesis by (auto simp: bounded_def server_connection_def new_connection_def)
qed

section \<open>The pool beside the cache\<close>

text \<open>The same pool with a second component, which the calls leave alone, beside its store.\<close>
definition beside :: "'c \<Rightarrow> 's pool \<Rightarrow> ('s \<times> 'c) pool" where
  "beside c p = \<lparr>p_Store = (p_Store p, c), p_remoteHosts = p_remoteHosts p, p_remoteNodeLookup = p_remoteNodeLookup p, p_sent = p_sent p\<rparr>"

definition beside_Manager :: "'s Manager \<Rightarrow> 's contract_state Manager" where
  "beside_Manager m = \<lparr>OnClient = (\<lambda>clk n. on_fst (OnClient m clk n)), OnUpdate = (\<lambda>clk n ps. on_fst (OnUpdate m clk n ps))\<rparr>"

definition beside_config :: "'s pool_config \<Rightarrow> 's contract_state pool_config" where
  "beside_config cfg =
     \<lparr>pc_Version = pc_Version cfg, pc_Store = beside_cache (pc_Store cfg), pc_Manager = beside_Manager (pc_Manager cfg),
      pc_crypto = pc_crypto cfg, pc_ClientMessager = pc_ClientMessager cfg, pc_MaxRequestHosts = pc_MaxRequestHosts cfg,
      pc_RestrictNetwork = pc_RestrictNetwork cfg,
      pc_BlockNumberProvider = map_option (\<lambda>f n t ords sc. f n t ords (fst sc)) (pc_BlockNumberProvider cfg),
      pc_skipWhitelist = pc_skipWhitelist cfg\<rparr>"

lemma beside_fields [simp]:
  "p_Store (beside c p) = (p_Store p, c)" "p_remoteHosts (beside c p) = p_remoteHosts p"
  "p_remoteNodeLookup (beside c p) = p_remoteNodeLookup p" "p_sent (beside c p) = p_sent p"
  by (simp_all add: beside_def)

lemma beside_on_store [simp]:
  "on_store (on_fst f) (beside c p) = (fst (on_store f p), beside c (snd (on_store f p)))"
  by (simp add: on_store_def on_fst_def beside_def case_prod_beta Let_def)

lemma beside_record_calls [simp]: "record_calls m a rs (beside c p) = beside c (record_calls m a rs p)"
  by (simp add: record_calls_def beside_def)

lemma beside_config_fields [simp]:
  "pc_Version (beside_config cfg) = pc_Version cfg" "pc_crypto (beside_config cfg) = pc_crypto cfg"
  "pc_ClientMessager (beside_config cfg) = pc_ClientMessager cfg" "pc_MaxRequestHosts (beside_config cfg) = pc_MaxRequestHosts cfg"
  "pc_RestrictNetwork (beside_config cfg) = pc_RestrictNetwork cfg" "pc_skipWhitelist (beside_config cfg) = pc_skipWhitelist cfg"
  "pc_Store (beside_config cfg) = beside_cache (pc_Store cfg)"
  "OnClient (pc_Manager (beside_config cfg)) clk n = on_fst (OnClient (pc_Manager cfg) clk n)"
  "OnUpdate (pc_Manager (beside_config cfg)) clk n ps = on_fst (OnUpdate (pc_Manager cfg) clk n ps)"
  "latest_block (beside_config cfg) env (s, c) = latest_block cfg env s"
  by (simp_all add: beside_config_def beside_Manager_def latest_block_def split: option.split)

lemma beside_cache_fields [simp]:
  "CheckAndSaveNonce (beside_cache St) now i k = on_fst (CheckAndSaveNonce St now i k)"
  "GetNode (beside_cache St) i = on_fst (GetNode St i)" "SetNode (beside_cache St) n = on_fst (SetNode St n)"
  "ActiveHosts (beside_cache St) now ord kind l = on_fst (ActiveHosts St now ord kind l)"
  "NodePeers (beside_cache St) ord i = on_fst (NodePeers St ord i)"
  "UpdateNodePeers (beside_cache St) now ord i ids b = on_fst (UpdateNodePeers St now ord i ids b)"
  "GetNodeBalance (beside_cache St) now i = on_fst (GetNodeBalance St now i)"
  "AddNodeBalance (beside_cache St) i k = on_fst (AddNodeBalance St i k)"
  by (simp_all add: beside_cache_def)

lemma beside_verify [simp]:
  "pool_verify (beside_config cfg) now sig m i n arg (beside c p) =
     (fst (pool_verify cfg now sig m i n arg p), beside c (snd (pool_verify cfg now sig m i n arg p)))"
  by (simp add: pool_verify_def split: sum.split prod.split)

lemma beside_disconnectPeers [simp]:
  "disconnectPeers env i ps (beside c p) = (fst (disconnectPeers env i ps p), beside c (snd (disconnectPeers env i ps p)))"
  by (simp add: disconnectPeers_def Let_def)

lemma beside_Update_verify [simp]:
  "Update_verify (beside_config cfg) env sig i n req (beside c p) =
     (fst (Update_verify cfg env sig i n req p), beside c (snd (Update_verify cfg env sig i n req p)))"
  by (simp add: Update_verify_def split: sum.split prod.split)

lemma beside_Update_charge [simp]:
  "Update_charge (beside_config cfg) env i n ps (beside c p) =
     (fst (Update_charge cfg env i n ps p), beside c (snd (Update_charge cfg env i n ps p)))"
  by (simp add: Update_charge_def case_prod_beta Let_def split: sum.split go_error.split)

lemma beside_Update_body [simp]:
  "Update_body (beside_config cfg) env i req (beside c p) =
     (fst (Update_body cfg env i req p), beside c (snd (Update_body cfg env i req p)))"
  by (simp add: Update_body_def Let_def split: sum.split prod.split)

lemma beside_Update [simp]:
  "pool_Update (beside_config cfg) env sig i n req (beside c p) =
     (fst (pool_Update cfg env sig i n req p), beside c (snd (pool_Update cfg env sig i n req p)))"
  by (simp add: pool_Update_def split: sum.split prod.split)

lemma beside_connect_host [simp]:
  "connect_host env i uri (beside c p) = (fst (connect_host env i uri p), beside c (snd (connect_host env i uri p)))"
  by (simp add: connect_host_def Let_def beside_def split: sum.split)

text \<open>Two calls in a row, as at the end of \<^verbatim>\<open>connect\<close>.\<close>
definition both :: "('s \<Rightarrow> 'a result \<times> 's) \<Rightarrow> ('s \<Rightarrow> 'b result \<times> 's) \<Rightarrow> 'r \<Rightarrow> 's pool \<Rightarrow> 'r result \<times> 's pool" where
  "both f g response p =
     (case on_store f p of
        (Inl e, p2) \<Rightarrow> (Inl e, p2)
      | (Inr _, p2) \<Rightarrow> (case on_store g p2 of (Inl e, p3) \<Rightarrow> (Inl e, p3) | (Inr _, p3) \<Rightarrow> (Inr response, p3)))"

lemma beside_both:
  "both (on_fst f) (on_fst g) response (beside c p) = (fst (both f g response p), beside c (snd (both f g response p)))"
  by (simp add: both_def split: sum.split prod.split)

lemma beside_connect [simp]:
  "pool_connect (beside_config cfg) env i req (beside c p) =
     (fst (pool_connect cfg env i req p), beside c (snd (pool_connect cfg env i req p)))"
proof (cases "ua_IsFullNode (cr_NodeInfo req)")
  case True
  obtain r p1 where "connect_host env i (cr_NodeURI req) p = (r, p1)" by fastforce
  then show ?thesis
    unfolding pool_connect_def beside_config_fields beside_cache_fields Let_def both_def [symmetric] using True
    by (cases r) (simp_all add: beside_both)
next
  case False
  then show ?thesis
    unfolding pool_connect_def beside_config_fields beside_cache_fields Let_def both_def [symmetric] by (simp add: beside_both)
qed

lemma beside_Connect [simp]:
  "pool_Connect (beside_config cfg) env sig i n req (beside c p) =
     (fst (pool_Connect cfg env sig i n req p), beside c (snd (pool_Connect cfg env sig i n req p)))"
  by (simp add: pool_Connect_def split: sum.split prod.split)

lemma beside_requestHosts [simp]:
  "requestHosts (beside_config cfg) env i num kind (beside c p) =
     (fst (requestHosts cfg env i num kind p), beside c (snd (requestHosts cfg env i num kind p)))"
proof -
  obtain r1 p1 where 1: "on_store (NodePeers (pc_Store cfg) (e_ord env 2) i) p = (r1, p1)" by fastforce
  show ?thesis
  proof (cases r1)
    case (Inl e)
    then show ?thesis by (simp add: requestHosts_def Let_def 1)
  next
    case (Inr peers)
    define num' where "num' = (if 0 < pc_MaxRequestHosts cfg \<and> pc_MaxRequestHosts cfg < num then pc_MaxRequestHosts cfg else num)"
    obtain r2 p2 where 2: "on_store (ActiveHosts (pc_Store cfg) (e_clock env 20) (e_ord env 3) kind
        (int64 (num' + int (card (set (i # map n_ID peers)))))) p1 = (r2, p2)" by fastforce
    show ?thesis
      unfolding requestHosts_def num'_def [symmetric] beside_config_fields beside_cache_fields beside_on_store 1 Inr Let_def 2 fst_conv snd_conv
        prod.case sum.case
      by (simp add: 2 split: sum.split)
  qed
qed

lemma beside_CloseRemote [simp]:
  "CloseRemote svc (beside c p) = (fst (CloseRemote svc p), beside c (snd (CloseRemote svc p)))"
  by (simp add: CloseRemote_def beside_def split: option.split)

lemma beside_exec:
  "pool_exec (beside_config cfg) env call (beside c p) = (fst (pool_exec cfg env call p), beside c (snd (pool_exec cfg env call p)))"
  by (cases call)
    (simp_all add: pool_exec_def pool_Peer_def pool_Host_def pool_Client_def Let_def split: sum.split prod.split)

lemma beside_steps:
  "pool_steps (beside_config cfg) (beside c p) ls q' \<longleftrightarrow> (\<exists>q. q' = beside c q \<and> pool_steps cfg p ls q)"
proof (induction ls arbitrary: p)
  case Nil
  show ?case by (auto elim: pool_steps_NilE intro: pool_done)
next
  case (Cons l ls)
  obtain env call ok where l: "l = (env, call, ok)" by (cases l) 
  have one: "pool_step (beside_config cfg) (beside c p) l r' \<longleftrightarrow> (\<exists>r. r' = beside c r \<and> pool_step cfg p l r)" for r'
    unfolding l by (auto simp: beside_exec elim!: pool_stepE intro!: pool_call prod_eqI) 
  show ?case
    by (auto elim!: pool_steps_ConsE simp: one Cons.IH intro: pool_more) (metis Cons.IH one pool_more)+
qed

lemma beside_credit_peers:
  "credit_peers (beside_cache St) k ps t (s, c) = (fst (credit_peers St k ps t s), (snd (credit_peers St k ps t s), c))"
  by (induction ps arbitrary: t s) (simp_all add: on_fst_def case_prod_beta Let_def)

lemma beside_pay_Manager: "pay_Manager (beside_cache St) b = beside_Manager (pay_Manager St b)"
proof -
  have "pay_OnClient (beside_cache St) b clk n sc = on_fst (pay_OnClient St b clk n) sc" for clk n sc
    by (cases sc) (simp add: pay_OnClient_def on_fst_def case_prod_beta Let_def split: option.split sum.split)
  moreover have "charge_client (beside_cache St) clk n t sc = on_fst (charge_client St clk n t) sc" for clk n t sc
    by (cases sc) (simp add: charge_client_def on_fst_def case_prod_beta Let_def split: sum.split)
  then have "pay_OnUpdate (beside_cache St) b clk n ps sc = on_fst (pay_OnUpdate St b clk n ps) sc" for clk n ps sc
    by (cases sc) (simp add: pay_OnUpdate_def beside_credit_peers on_fst_def case_prod_beta Let_def split: option.split)
  ultimately show ?thesis by (simp add: pay_Manager_def beside_Manager_def fun_eq_iff)
qed

text \<open>The pool of the options without the cache of deposits.\<close>
definition plain_config :: "pool_options \<Rightarrow> crypto \<Rightarrow> 's Store \<Rightarrow> payPerInterval \<Rightarrow> (string \<Rightarrow> string) option \<Rightarrow> NetworkID \<Rightarrow> 's pool_config" where
  "plain_config options C St b welcome network =
     (pool_New_config C St (Some (pay_Manager St b)))
       \<lparr>pc_MaxRequestHosts := po_MaxRequestHosts options, pc_Version := ''vipnode/pool/'' @ cli_Version,
        pc_ClientMessager := welcome, pc_RestrictNetwork := network, pc_BlockNumberProvider := Some (block_provider St network)\<rparr>"

lemma beside_plain_config:
  "beside_config (plain_config options C St b welcome network) =
     (pool_New_config C (beside_cache St) (Some (pay_Manager (beside_cache St) b)))
       \<lparr>pc_MaxRequestHosts := po_MaxRequestHosts options, pc_Version := ''vipnode/pool/'' @ cli_Version,
        pc_ClientMessager := welcome, pc_RestrictNetwork := network,
        pc_BlockNumberProvider := Some (block_provider (beside_cache St) network)\<rparr>"
proof -
  have "block_provider (beside_cache St) network = (\<lambda>n t ords sc. block_provider St network n t ords (fst sc))"
    by (simp add: fun_eq_iff block_provider_def beside_cache_def on_fst_def case_prod_beta Let_def)
  then show ?thesis
    by (simp add: beside_config_def plain_config_def pool_New_config_def beside_pay_Manager)
qed

lemma pool_setup_ok:
  assumes "pool_setup options C St s None template = Inl (cfg, p)"
  shows "\<exists>b welcome network. balance_setup options = Inl b \<and> network_setup options = Inl network \<and>
    cfg = beside_config (plain_config options C St b welcome network) \<and> p = beside empty_cache (pool_New s)"
  using assms unfolding beside_plain_config
  by (auto simp: pool_setup_def Let_def beside_def pool_New_def split: sum.splits if_splits)

section \<open>The configured pool\<close>

lemma no_contract_no_withdrawal:
  assumes "payment_Withdraw (payment_setup C St None) now now1 sig wallet nonce p = (r, p')"
  shows "\<not> is_ok r \<and> py_settled p' = py_settled p"
  using assms
  by (cases "request_Verify C sig ''pool_withdraw'' wallet nonce []")
    (auto simp: payment_Withdraw_def payment_setup_def payment_verify_def on_state_def Let_def split: sum.splits prod.splits)

lemma read_only_contract_no_withdrawal:
  assumes "payment_Withdraw (payment_setup C St (Some (chain, None, settle))) now now1 sig wallet nonce p = (r, p')"
  shows "\<not> is_ok r \<and> py_settled p' = py_settled p"
  using assms
  by (cases "request_Verify C sig ''pool_withdraw'' wallet nonce []")
    (auto simp: payment_Withdraw_def payment_setup_def payment_verify_def on_state_def OpSettle_def Let_def split: sum.splits prod.splits if_splits)


lemma demo_balance: "balance_setup demo_pool_options = Inl \<lparr>pp_Interval = minute, pp_CreditPerInterval = 100000000000, pp_MinBalance = None\<rparr>"
proof -
  have "ParseEther ''100 gwei'' = Inr 100000000000" by code_simp
  then show ?thesis by (simp add: balance_setup_def demo_pool_options_def PayPerInterval_def)
qed


text \<open>
  the price of the options is what clients pay. With the manager that the pool command sets up, every whole minute costs exactly the
  configured price.
\<close>
theorem configured_price_billed:
  assumes "balance_setup options = Inl b" and "0 \<le> k" and "k * minute \<le> max_int64"
  shows "\<exists>price. ParseEther (po_Price options) = Inr price \<and> intervalCredit b (time_Add t (k * minute)) t = k * price \<and>
    (pp_MinBalance b = None \<longleftrightarrow> po_MinBalance options = ''off'')"
proof -
  obtain price where price: "ParseEther (po_Price options) = Inr price" "pp_CreditPerInterval b = price" "pp_Interval b = minute"
      "pp_MinBalance b = None \<longleftrightarrow> po_MinBalance options = ''off''"
    using assms(1) by (auto simp: balance_setup_def PayPerInterval_def Let_def split: sum.splits if_splits)
  have m: "0 < minute" by (simp add: minute_def second_def)
  have "time_Sub (time_Add t (k * minute)) t = k * minute"
  proof (subst time_Sub_exact)
    have "min_int64 \<le> 0" by (simp add: min_int64_def)
    also have "0 \<le> k * minute" using assms(2) m by simp
    finally show "min_int64 \<le> time_Add t (k * minute) - t" by (simp add: time_Add_def)
  qed (use assms(3) in \<open>simp_all add: time_Add_def\<close>)
  then have "intervalCredit b (time_Add t (k * minute)) t = big_Div (k * minute * price) minute"
    using price(2,3) by (simp add: intervalCredit_def Let_def)
  also have "\<dots> = k * price" using m by (simp add: big_Div_pos mult.assoc mult.left_commute)
  finally show ?thesis by (intro exI [of _ price] conjI price)
qed

theorem configured_price_billed_witness:
  "\<exists>b. balance_setup demo_pool_options = Inl b \<and> intervalCredit b (time_Add 0 (3 * minute)) 0 = 3 * 100000000000"
proof -
  have "ParseEther (po_Price demo_pool_options) = Inr 100000000000" by code_simp
  moreover have "3 * minute \<le> max_int64" by (simp add: minute_def second_def max_int64_def)
  ultimately show ?thesis using configured_price_billed [OF demo_balance, of 3 0] demo_balance by auto
qed

lemma block_provider_latest:
  assumes "range_order (ords 0)" "range_order (ords 1)" "range_order (ords 2)" and "zero_time + ExpireInterval < now"
  shows "block_provider mem_Store network network now ords s = Inr (fold max (map n_BlockNumber (mem_node_list (ords 0) s)) 0)"
proof -
  obtain st where "mem_Stats now ords s = (Inr st, s)" by (simp add: mem_Stats_def Let_def)
  with mem_Stats_fields(7) [OF this assms] show ?thesis by (simp add: block_provider_def mem_Store_def)
qed

end
