(* ===== verification/Json_Text.thy ===== *)
theory Json_Text
  imports Go_Encoding
begin

text \<open>
  Reading JSON text, as the scanner of \<^verbatim>\<open>encoding/json\<close> does it: one byte at a time, with a stack of the
  arrays and objects that are open. Scanning a part of a text leaves the scanner in a state from which the rest is scanned, so
  that a text may arrive in pieces. Numbers are integers, and escapes of surrogates, which \<^verbatim>\<open>Marshal\<close> never prints,
  are refused.

  The main lemma (\<open>scan_Marshal\<close>) is that scanning what \<^verbatim>\<open>Marshal\<close> printed gives the value and leaves the rest.
\<close>

section \<open>The scanner\<close>

text \<open>An open array with its elements, or an open object with its members and the current key; the latest come first.\<close>
datatype frame = FArr "json list" | FObj "(string \<times> json) list" string

text \<open>Where the scanner is. In a string, the flag tells a key from a value and the bytes read come in reverse.\<close>
datatype scan_mode =
    NeedValue
  | NeedValueOrEnd
  | NeedKey
  | NeedKeyOrEnd
  | NeedColon
  | AfterValue
  | InString bool string
  | InEscape bool string
  | InUnicode bool string nat nat
  | InNumber string
  | InLiteral string json

type_synonym scanner = "scan_mode \<times> frame list"

datatype scan_step = Next scan_mode "frame list" | Complete json | CompleteBefore json | Reject

definition json_space :: "char \<Rightarrow> bool" where
  "json_space c \<longleftrightarrow> c = CHR '' '' \<or> c = CHR 0x09 \<or> c = CHR 0x0D \<or> c = CHR 0x0A"

text \<open>A value is complete: it is the whole text, or goes into the innermost array or object.\<close>
fun finish_value :: "json \<Rightarrow> frame list \<Rightarrow> scan_step" where
  "finish_value v [] = Complete v"
| "finish_value v (FArr xs # st) = Next AfterValue (FArr (v # xs) # st)"
| "finish_value v (FObj ms k # st) = Next AfterValue (FObj ((k, v) # ms) k # st)"

fun after_value :: "frame list \<Rightarrow> char \<Rightarrow> scan_step" where
  "after_value [] c = Reject"
| "after_value (FArr xs # st) c =
     (if json_space c then Next AfterValue (FArr xs # st)
      else if c = CHR '','' then Next NeedValue (FArr xs # st)
      else if c = CHR '']'' then finish_value (JArr (rev xs)) st
      else Reject)"
| "after_value (FObj ms k # st) c =
     (if json_space c then Next AfterValue (FObj ms k # st)
      else if c = CHR '','' then Next NeedKey (FObj ms k # st)
      else if c = CHR ''}'' then finish_value (JObj (rev ms)) st
      else Reject)"

definition begin_value :: "frame list \<Rightarrow> char \<Rightarrow> scan_step" where
  "begin_value st c =
     (if json_space c then Next NeedValue st
      else if c = CHR ''{'' then Next NeedKeyOrEnd (FObj [] '''' # st)
      else if c = CHR ''['' then Next NeedValueOrEnd (FArr [] # st)
      else if c = quote_char then Next (InString False []) st
      else if num_char c then Next (InNumber [c]) st
      else if c = CHR ''t'' then Next (InLiteral ''rue'' (JBool True)) st
      else if c = CHR ''f'' then Next (InLiteral ''alse'' (JBool False)) st
      else if c = CHR ''n'' then Next (InLiteral ''ull'' JNull) st
      else Reject)"

definition parse_int :: "string \<Rightarrow> int" where
  "parse_int t = (if hd t = CHR ''-'' then - int (decimal (tl t)) else int (decimal t))"

text \<open>A number goes on with digits, but not after a leading zero; what ends it is scanned again.\<close>
definition number_step :: "string \<Rightarrow> frame list \<Rightarrow> char \<Rightarrow> scan_step" where
  "number_step t st c =
     (if is_digit c then (if t = ''0'' \<or> t = ''-0'' then Reject else Next (InNumber (t @ [c])) st)
      else if t = ''-'' \<or> c \<in> set ''.eE-'' then Reject
      else if st = [] then CompleteBefore (JNum (parse_int t))
      else (case finish_value (JNum (parse_int t)) st of Next m st' \<Rightarrow> after_value st' c | _ \<Rightarrow> Reject))"

definition end_string :: "bool \<Rightarrow> string \<Rightarrow> frame list \<Rightarrow> scan_step" where
  "end_string key s st =
     (if key then (case st of FObj ms _ # st' \<Rightarrow> Next NeedColon (FObj ms s # st') | _ \<Rightarrow> Reject)
      else finish_value (JStr s) st)"

definition unescape_simple :: "char \<Rightarrow> char option" where
  "unescape_simple c =
     (if c = quote_char \<or> c = backslash \<or> c = CHR ''/'' then Some c
      else if c = CHR ''b'' then Some (CHR 0x08)
      else if c = CHR ''f'' then Some (CHR 0x0C)
      else if c = CHR ''n'' then Some (CHR 0x0A)
      else if c = CHR ''r'' then Some (CHR 0x0D)
      else if c = CHR ''t'' then Some (CHR 0x09)
      else None)"

definition utf8 :: "nat \<Rightarrow> string" where
  "utf8 n =
     (if n < 0x80 then [char_of n]
      else if n < 0x800 then [char_of (0xC0 + n div 64), char_of (0x80 + n mod 64)]
      else [char_of (0xE0 + n div 4096), char_of (0x80 + n div 64 mod 64), char_of (0x80 + n mod 64)])"

fun scan_byte :: "scan_mode \<Rightarrow> frame list \<Rightarrow> char \<Rightarrow> scan_step" where
  "scan_byte NeedValue st c = begin_value st c"
| "scan_byte NeedValueOrEnd st c =
     (if json_space c then Next NeedValueOrEnd st
      else if c = CHR '']'' then (case st of FArr _ # st' \<Rightarrow> finish_value (JArr []) st' | _ \<Rightarrow> Reject)
      else begin_value st c)"
| "scan_byte NeedKey st c =
     (if json_space c then Next NeedKey st else if c = quote_char then Next (InString True []) st else Reject)"
| "scan_byte NeedKeyOrEnd st c =
     (if json_space c then Next NeedKeyOrEnd st
      else if c = CHR ''}'' then (case st of FObj _ _ # st' \<Rightarrow> finish_value (JObj []) st' | _ \<Rightarrow> Reject)
      else if c = quote_char then Next (InString True []) st
      else Reject)"
| "scan_byte NeedColon st c =
     (if json_space c then Next NeedColon st else if c = CHR '':'' then Next NeedValue st else Reject)"
| "scan_byte AfterValue st c = after_value st c"
| "scan_byte (InString key acc) st c =
     (if c = quote_char then end_string key (rev acc) st
      else if c = backslash then Next (InEscape key acc) st
      else if code c < 32 then Reject
      else Next (InString key (c # acc)) st)"
| "scan_byte (InEscape key acc) st c =
     (if c = CHR ''u'' then Next (InUnicode key acc 0 0) st
      else case unescape_simple c of None \<Rightarrow> Reject | Some d \<Rightarrow> Next (InString key (d # acc)) st)"
| "scan_byte (InUnicode key acc k n) st c =
     (case unhex c of
        None \<Rightarrow> Reject
      | Some h \<Rightarrow>
          (let n1 = 16 * n + h
           in if k < 3 then Next (InUnicode key acc (k + 1) n1) st
              else if 0xD800 \<le> n1 \<and> n1 < 0xE000 then Reject
              else Next (InString key (rev (utf8 n1) @ acc)) st))"
| "scan_byte (InNumber t) st c = number_step t st c"
| "scan_byte (InLiteral rest v) st c =
     (case rest of
        [] \<Rightarrow> Reject
      | r # rs \<Rightarrow> (if c = r then (if rs = [] then finish_value v st else Next (InLiteral rs v) st) else Reject))"

datatype scanned = More scanner | Done json string | Invalid

fun scan :: "scanner \<Rightarrow> string \<Rightarrow> scanned" where
  "scan sc [] = More sc"
| "scan sc (c # cs) =
     (case scan_byte (fst sc) (snd sc) c of
        Next m st \<Rightarrow> scan (m, st) cs
      | Complete v \<Rightarrow> Done v cs
      | CompleteBefore v \<Rightarrow> Done v (c # cs)
      | Reject \<Rightarrow> Invalid)"

definition new_scanner :: scanner where
  "new_scanner = (NeedValue, [])"

text \<open>A text may be scanned in pieces.\<close>
lemma scan_append:
  "scan sc (s @ t) = (case scan sc s of More sc' \<Rightarrow> scan sc' t | Done v r \<Rightarrow> Done v (r @ t) | Invalid \<Rightarrow> Invalid)"
  by (induction sc s rule: scan.induct) (auto split: scan_step.splits)

section \<open>Scanning what was printed\<close>

text \<open>How scanning goes on after a value.\<close>
definition resume :: "json \<Rightarrow> frame list \<Rightarrow> string \<Rightarrow> scanned" where
  "resume v st rest = (case finish_value v st of Next m st' \<Rightarrow> scan (m, st') rest | _ \<Rightarrow> Done v rest)"

lemma resume_simps:
  "resume v [] rest = Done v rest"
  "resume v (FArr xs # st) rest = scan (AfterValue, FArr (v # xs) # st) rest"
  "resume v (FObj ms k # st) rest = scan (AfterValue, FObj ((k, v) # ms) k # st) rest"
  by (simp_all add: resume_def)

lemma finish_resume:
  "(case finish_value v st of Next m st' \<Rightarrow> scan (m, st') rest | Complete v \<Rightarrow> Done v rest | CompleteBefore v \<Rightarrow> X v | Reject \<Rightarrow> Y) =
   resume v st rest"
  by (cases "(v, st)" rule: finish_value.cases) (simp_all add: resume_def)

lemma scan_escape: "scan (InString key acc, st) (json_escape c @ rest) = scan (InString key (c # acc), st) rest"
proof (cases "c = quote_char \<or> c = backslash \<or> c = CHR 0x0A \<or> c = CHR 0x0D \<or> c = CHR 0x09")
  case True
  then show ?thesis by (elim disjE) (simp_all add: json_escape_def unescape_simple_def)
next
  case False
  show ?thesis
  proof (cases "code c < 32 \<or> c = CHR ''<'' \<or> c = CHR ''>'' \<or> c = CHR ''&''")
    case True
    have small: "code c < 128" using True by (auto simp: code_def)
    then have hex: "unhex (hex_lower (code c div 16)) = Some (code c div 16)"
      "unhex (hex_lower (code c mod 16)) = Some (code c mod 16)" by (simp_all add: unhex_lower)
    have zero: "unhex (CHR ''0'') = Some 0" by (simp add: unhex_def is_digit_def code_def)
    have "utf8 (16 * (code c div 16) + code c mod 16) = [c]" using small by (simp add: utf8_def)
    moreover have "16 * (code c div 16) + code c mod 16 < 0xD800" using small by simp
    moreover have "json_escape c = [backslash, CHR ''u'', CHR ''0'', CHR ''0'', hex_lower (code c div 16), hex_lower (code c mod 16)]"
      using True False unfolding json_escape_def by simp
    ultimately show ?thesis by (simp add: hex zero)
  next
    case no: False
    then have "json_escape c = [c]" using False unfolding json_escape_def by simp
    then show ?thesis using False no by simp
  qed
qed

lemma scan_chars:
  "scan (InString key acc, st) (concat (map json_escape s) @ rest) = scan (InString key (rev s @ acc), st) rest"
  by (induction s arbitrary: acc) (simp_all add: scan_escape)

lemma scan_string_value: "scan (InString False [], st) (concat (map json_escape s) @ quote_char # rest) = resume (JStr s) st rest"
  by (simp add: scan_chars end_string_def finish_resume)

lemma scan_string_key:
  "scan (InString True [], FObj ms k # st) (concat (map json_escape s) @ quote_char # rest) = scan (NeedColon, FObj ms s # st) rest"
  by (simp add: scan_chars end_string_def)


text \<open>What may follow a number.\<close>
definition ends_number :: "string \<Rightarrow> bool" where
  "ends_number rest \<longleftrightarrow> rest \<noteq> [] \<and> \<not> is_digit (hd rest) \<and> hd rest \<notin> set ''.eE-''"

lemma scan_digits:
  assumes "list_all is_digit ds" and "t \<noteq> ''0''" and "t \<noteq> ''-0''" and "t = ''-'' \<longrightarrow> ds = [] \<or> hd ds \<noteq> CHR ''0'' \<or> ds = ''0''" and "t \<noteq> []"
  shows "scan (InNumber t, st) (ds @ rest) = scan (InNumber (t @ ds), st) rest"
  using assms
proof (induction ds arbitrary: t)
  case (Cons d ds)
  show ?case
  proof (cases "ds = []")
    case True
    then show ?thesis using Cons.prems by (simp add: number_step_def)
  next
    case False
    have "t @ [d] \<noteq> ''0''" "t @ [d] \<noteq> ''-0''" "t @ [d] \<noteq> ''-''" using Cons.prems False by (auto simp: append_eq_Cons_conv)
    then show ?thesis using Cons.IH [of "t @ [d]"] Cons.prems by (simp add: number_step_def)
  qed
qed simp

lemma nat_digits_lead: "n = 0 \<or> hd (nat_digits n) \<noteq> CHR ''0''"
proof (induction n rule: nat_digits.induct)
  case (1 n)
  have d: "digit_char m = CHR ''0'' \<longleftrightarrow> m = 0" if "m < 10" for m
  proof -
    have "code (digit_char m) = 48 + m" using that by (rule digit_char_code)
    moreover have "code (CHR ''0'') = 48" by (simp add: code_def)
    ultimately show ?thesis by (metis add_cancel_left_right char_of_code)
  qed
  show ?case
  proof (cases "n < 10")
    case True
    then have "nat_digits n = [digit_char n]" by (subst nat_digits.simps) simp
    then show ?thesis using d [of n] True by auto
  next
    case False
    then have "hd (nat_digits (n div 10)) \<noteq> CHR ''0''" using 1 by auto
    then show ?thesis using False nat_digits_nonempty [of "n div 10"] by (subst nat_digits.simps) simp
  qed
qed

lemma scan_number:
  assumes "ends_number rest"
  shows "scan (NeedValue, st) (int_digits i @ rest) = resume (JNum i) st rest"
proof -
  obtain c cs where rest: "rest = c # cs" and c: "\<not> is_digit c" "c \<notin> set ''.eE-''"
    using assms by (cases rest) (auto simp: ends_number_def)
  have finish: "scan (InNumber t, st) rest = resume (JNum (parse_int t)) st rest" if "t \<noteq> ''-''" for t
  proof (cases st)
    case (Cons f st')
    then show ?thesis using that c by (cases f) (simp_all add: rest number_step_def resume_def)
  qed (use that c in \<open>simp add: rest number_step_def resume_def\<close>)
  define ds where "ds = nat_digits (nat \<bar>i\<bar>)"
  have ds: "list_all is_digit ds" "decimal ds = nat \<bar>i\<bar>" "ds \<noteq> []" "i = 0 \<or> hd ds \<noteq> CHR ''0''"
    using nat_digits_digits nat_digits_lead [of "nat \<bar>i\<bar>"] unfolding ds_def
    by (auto simp: list_all_iff decimal_nat_digits)
  have minus: "\<not> json_space (CHR ''-'')" "num_char (CHR ''-'')" by (simp_all add: json_space_def num_char_def)
  show ?thesis
  proof (cases "i < 0")
    case True
    then have shown: "int_digits i = CHR ''-'' # ds" by (simp add: int_digits_def ds_def)
    have "scan (NeedValue, st) (int_digits i @ rest) = scan (InNumber ''-'', st) (ds @ rest)"
      using minus by (simp add: shown begin_value_def)
    also have "\<dots> = scan (InNumber (''-'' @ ds), st) rest" by (rule scan_digits) (use ds True in auto)
    finally show ?thesis using ds True finish [of "CHR ''-'' # ds"] by (simp add: parse_int_def)
  next
    case False
    then have shown: "int_digits i = ds" by (simp add: int_digits_def ds_def)
    obtain d ds' where dds: "ds = d # ds'" and d: "is_digit d" "list_all is_digit ds'" using ds by (cases ds) auto
    have dc: "\<not> json_space d" "num_char d" "d \<noteq> CHR ''{''" "d \<noteq> CHR ''[''" "d \<noteq> quote_char" "d \<noteq> CHR ''-''"
      using d(1) by (auto simp: json_space_def num_char_def is_digit_def code_def)
    have zero: "ds' = []" if "d = CHR ''0''"
    proof -
      have "nat_digits 0 = ''0''" by code_simp
      moreover have "i = 0" using ds(4) that dds by simp
      ultimately have "ds = ''0''" by (simp add: ds_def)
      then show ?thesis using dds by simp
    qed
    have "scan (NeedValue, st) (int_digits i @ rest) = scan (InNumber [d], st) (ds' @ rest)"
      using dc by (simp add: shown dds begin_value_def)
    also have "\<dots> = scan (InNumber ([d] @ ds'), st) rest"
      using zero d dc scan_digits [of ds' "[d]" st rest] by (cases "d = CHR ''0''") simp_all
    finally show ?thesis using finish [of ds] ds dc False by (simp add: parse_int_def dds)
  qed
qed

lemma printed_begins: "\<exists>c cs. json_Marshal v = c # cs \<and> \<not> json_space c \<and> c \<noteq> CHR '']''"
proof -
  have lead: "json_Marshal v \<noteq> []" "json_lead (hd (json_Marshal v)) = json_kind v" using json_Marshal_lead [of v] by simp_all
  have "json_kind v < 7" by (cases v) simp_all
  moreover have "json_lead c = 7" if "json_space c \<or> c = CHR '']''" for c
    using that unfolding json_space_def by (elim disjE) (simp_all add: json_lead_def num_char_def is_digit_def code_def)
  ultimately have "\<not> (json_space (hd (json_Marshal v)) \<or> hd (json_Marshal v) = CHR '']'')" using lead(2) by (metis less_irrefl)
  then show ?thesis using lead(1) by (cases "json_Marshal v") auto
qed

lemma scan_first_elem: "scan (NeedValueOrEnd, st) (json_Marshal v @ rest) = scan (NeedValue, st) (json_Marshal v @ rest)"
proof -
  obtain c cs where "json_Marshal v = c # cs" "\<not> json_space c" "c \<noteq> CHR '']''" using printed_begins by blast
  then show ?thesis by simp
qed

lemma scan_array_step:
  assumes one: "\<And>st rest. ends_number rest \<Longrightarrow> scan (NeedValue, st) (json_Marshal x @ rest) = resume x st rest"
    and more: "\<And>ys st rest. xs \<noteq> [] \<Longrightarrow> scan (NeedValue, FArr ys # st) (json_elems xs @ rest) = resume (JArr (rev ys @ xs)) st rest"
  shows "scan (NeedValue, FArr ys # st) (json_elems (x # xs) @ rest) = resume (JArr (rev ys @ x # xs)) st rest"
proof (cases "xs = []")
  case True
  have "ends_number (CHR '']'' # rest)" by (simp add: ends_number_def is_digit_def code_def)
  then show ?thesis using True one by (simp add: resume_simps json_space_def finish_resume)
next
  case False
  have "ends_number (CHR '','' # json_elems xs @ rest)" by (simp add: ends_number_def is_digit_def code_def)
  then show ?thesis using False one more [OF False, of "x # ys"] by (simp add: resume_simps json_space_def)
qed

lemma scan_object_step:
  assumes one: "\<And>st rest. ends_number rest \<Longrightarrow> scan (NeedValue, st) (json_Marshal x @ rest) = resume x st rest"
    and more: "\<And>ns k st rest. ms \<noteq> [] \<Longrightarrow> scan (NeedKey, FObj ns k # st) (json_members ms @ rest) = resume (JObj (rev ns @ ms)) st rest"
  shows "scan (NeedKey, FObj ns k0 # st) (json_members ((k, x) # ms) @ rest) = resume (JObj (rev ns @ (k, x) # ms)) st rest"
proof (cases "ms = []")
  case True
  have "ends_number (CHR ''}'' # rest)" by (simp add: ends_number_def is_digit_def code_def)
  then show ?thesis using True one by (simp add: json_string_def scan_string_key resume_simps json_space_def finish_resume)
next
  case False
  have "ends_number (CHR '','' # json_members ms @ rest)" by (simp add: ends_number_def is_digit_def code_def)
  then show ?thesis using False one more [OF False, of "(k, x) # ns" k]
    by (simp add: json_string_def scan_string_key resume_simps json_space_def)
qed

lemma scan_Marshal:
  "(\<exists>i. v = JNum i) \<longrightarrow> ends_number rest \<Longrightarrow> scan (NeedValue, st) (json_Marshal v @ rest) = resume v st rest"
  and scan_elems: "xs \<noteq> [] \<Longrightarrow> scan (NeedValue, FArr ys # st) (json_elems xs @ rest) = resume (JArr (rev ys @ xs)) st rest"
  and scan_members: "ms \<noteq> [] \<Longrightarrow> scan (NeedKey, FObj ns k # st) (json_members ms @ rest) = resume (JObj (rev ns @ ms)) st rest"
proof (induction v and xs and ms arbitrary: st rest and ys st rest and ns k st rest rule: json_Marshal_json_elems_json_members.induct)
  case (3 i)
  then show ?case by (simp add: scan_number)
next
  case (4 s)
  show ?case by (simp add: json_string_def begin_value_def json_space_def scan_string_value)
next
  case (5 xs)
  have open_it: "scan (NeedValue, st) (json_Marshal (JArr xs) @ rest) = scan (NeedValueOrEnd, FArr [] # st) (json_elems xs @ rest)"
    by (simp add: begin_value_def json_space_def)
  show ?case
  proof (cases xs)
    case Nil
    then show ?thesis unfolding open_it by (simp add: json_space_def finish_resume)
  next
    case (Cons x xs')
    have "scan (NeedValueOrEnd, FArr [] # st) (json_elems xs @ rest) = scan (NeedValue, FArr [] # st) (json_elems xs @ rest)"
      unfolding Cons json_elems.simps append_assoc by (rule scan_first_elem)
    then show ?thesis unfolding open_it using 5(1) [of "[]" st rest] Cons by simp
  qed
next
  case (6 ms)
  have open_it: "scan (NeedValue, st) (json_Marshal (JObj ms) @ rest) = scan (NeedKeyOrEnd, FObj [] '''' # st) (json_members ms @ rest)"
    by (simp add: begin_value_def json_space_def)
  show ?case
  proof (cases ms)
    case Nil
    then show ?thesis unfolding open_it by (simp add: json_space_def finish_resume)
  next
    case (Cons m ms')
    obtain k x where "m = (k, x)" by (cases m)
    then have "scan (NeedKeyOrEnd, FObj [] '''' # st) (json_members ms @ rest) = scan (NeedKey, FObj [] '''' # st) (json_members ms @ rest)"
      by (simp add: Cons json_string_def json_space_def)
    then show ?thesis unfolding open_it using 6(1) [of "[]" "''''" st rest] Cons by simp
  qed
next
  case (8 x xs)
  show ?case by (rule scan_array_step) (use 8 in auto)
next
  case (10 k x ms)
  show ?case by (rule scan_object_step) (use 10 in auto)
qed (auto simp: begin_value_def json_space_def num_char_def is_digit_def code_def finish_resume)

lemma scan_printed_object: "scan new_scanner (json_Marshal (JObj ms) @ rest) = Done (JObj ms) rest"
  using scan_Marshal [of "JObj ms" rest "[]"] by (simp add: new_scanner_def resume_simps)

end
