(* ===== verification/Json_Codec.thy ===== *)
theory Json_Codec
  imports Json_Text Json_Decode Json_Remote "HOL-Library.Sublist"
begin

text \<open>
  Messages on a stream (\<^verbatim>\<open>jsonrpc2/codecs.go\<close>, \<^verbatim>\<open>jsonrpc2/types.go\<close>): the JSON form of a message and its decoding, and
  the codec that writes and reads messages.

  A stream is seen as the results of its successive reads, after which it is at its end, and the list of what was
  written. Text inside a message that the code keeps raw is compact.
\<close>

section \<open>The JSON form of messages\<close>

definition omitempty_raw :: "string \<Rightarrow> json option \<Rightarrow> (string \<times> json) list" where
  "omitempty_raw k raw = (case raw of None \<Rightarrow> [] | Some j \<Rightarrow> [(k, j)])"

definition Request_members :: "Request \<Rightarrow> (string \<times> json) list" where
  "Request_members rq = (''method'', JStr (rq_Method rq)) # omitempty_raw ''params'' (rq_Params rq)"

definition errResponse_json :: "errResponse \<Rightarrow> json" where
  "errResponse_json e =
     JObj ([(''code'', JNum (er_Code e)), (''message'', JStr (er_Message e))] @ omitempty_raw ''data'' (er_Data e))"

definition Response_members :: "Response \<Rightarrow> (string \<times> json) list" where
  "Response_members rs =
     omitempty_raw ''result'' (rs_Result rs) @ omitempty_raw ''error'' (map_option errResponse_json (rs_Error rs))"

text \<open>A raw text is one value, with nothing but space after it.\<close>
definition raw_value :: "string \<Rightarrow> json option" where
  "raw_value t =
     (case scan new_scanner (t @ '' '') of
        Done v rest \<Rightarrow> (if list_all json_space rest then Some v else None)
      | _ \<Rightarrow> None)"

text \<open>The members of an embedded struct are those of the message; a nil pointer has none.\<close>
definition Message_json :: "Message \<Rightarrow> json result" where
  "Message_json m =
     (let embedded = (case msg_Request m of None \<Rightarrow> [] | Some rq \<Rightarrow> Request_members rq) @
            (case msg_Response m of None \<Rightarrow> [] | Some rs \<Rightarrow> Response_members rs);
          version = [(''jsonrpc'', JStr (msg_Version m))]
      in if msg_ID m = '''' then Inr (JObj (embedded @ version))
         else case raw_value (msg_ID m) of
                None \<Rightarrow> Inl (ErrExternal ''json: error calling MarshalJSON for type json.RawMessage'')
              | Some i \<Rightarrow> Inr (JObj (embedded @ (''id'', i) # version)))"

definition zero_Request :: Request where
  "zero_Request = \<lparr>rq_Method = '''', rq_Params = None\<rparr>"

definition zero_Response :: Response where
  "zero_Response = \<lparr>rs_Result = None, rs_Error = None\<rparr>"

definition zero_errResponse :: errResponse where
  "zero_errResponse = \<lparr>er_Code = 0, er_Message = '''', er_Data = None\<rparr>"

definition zero_Message :: Message where
  "zero_Message = \<lparr>msg_Request = None, msg_Response = None, msg_ID = '''', msg_Version = ''''\<rparr>"

definition un_raw_option :: "json option decoder" where
  "un_raw_option j r = Inr (Some j)"

text \<open>A pointer: null makes it nil, and another value is decoded into what it points to, made when it is nil.\<close>
definition un_pointer :: "'a decoder \<Rightarrow> 'a \<Rightarrow> 'a option decoder" where
  "un_pointer d z j p =
     (if j = JNull then Inr None
      else case d j (case p of None \<Rightarrow> z | Some x \<Rightarrow> x) of Inl e \<Rightarrow> Inl e | Inr x \<Rightarrow> Inr (Some x))"

definition un_errResponse :: "errResponse decoder" where
  "un_errResponse = un_struct
     [fld ''code'' er_Code er_Code_update un_int, fld ''message'' er_Message er_Message_update un_string,
      fld ''data'' er_Data er_Data_update un_raw_option]"

text \<open>A member of an embedded struct: the pointer to the struct is set when the member is there, be it null.\<close>
definition embedded_fld ::
  "string \<Rightarrow> ('m \<Rightarrow> 'r option) \<Rightarrow> (('r option \<Rightarrow> 'r option) \<Rightarrow> 'm \<Rightarrow> 'm) \<Rightarrow> 'r \<Rightarrow> ('r \<Rightarrow> 'a) \<Rightarrow> (('a \<Rightarrow> 'a) \<Rightarrow> 'r \<Rightarrow> 'r)
     \<Rightarrow> 'a decoder \<Rightarrow> string \<times> 'm decoder" where
  "embedded_fld name part upd z get put d =
     fld name (\<lambda>m. get (case part m of None \<Rightarrow> z | Some r \<Rightarrow> r))
       (\<lambda>f. upd (\<lambda>p. Some (put f (case p of None \<Rightarrow> z | Some r \<Rightarrow> r)))) d"

definition message_decoders :: "(string \<times> Message decoder) list" where
  "message_decoders =
     [embedded_fld ''method'' msg_Request msg_Request_update zero_Request rq_Method rq_Method_update un_string,
      embedded_fld ''params'' msg_Request msg_Request_update zero_Request rq_Params rq_Params_update un_raw_option,
      embedded_fld ''result'' msg_Response msg_Response_update zero_Response rs_Result rs_Result_update un_raw_option,
      embedded_fld ''error'' msg_Response msg_Response_update zero_Response rs_Error rs_Error_update
        (un_pointer un_errResponse zero_errResponse),
      fld ''id'' msg_ID msg_ID_update (\<lambda>j _. Inr (json_Marshal j)),
      fld ''jsonrpc'' msg_Version msg_Version_update un_string]"

definition un_Message :: "Message decoder" where
  "un_Message = un_struct message_decoders"

text \<open>
  Messages that survive the wire: the ID is empty or a compact text, the code of an error is a 64-bit integer, and a
  response part has a result or an error.
\<close>
definition wire_errResponse :: "errResponse \<Rightarrow> bool" where
  "wire_errResponse e \<longleftrightarrow> min_int64 \<le> er_Code e \<and> er_Code e \<le> max_int64"

definition wire_response :: "Response \<Rightarrow> bool" where
  "wire_response rs \<longleftrightarrow> (rs_Result rs \<noteq> None \<or> rs_Error rs \<noteq> None) \<and> (case rs_Error rs of None \<Rightarrow> True | Some e \<Rightarrow> wire_errResponse e)"

definition wire_ID :: "string \<Rightarrow> bool" where
  "wire_ID i \<longleftrightarrow> (case raw_value i of None \<Rightarrow> i = '''' | Some j \<Rightarrow> i = json_Marshal j)"

definition wire_message :: "Message \<Rightarrow> bool" where
  "wire_message m \<longleftrightarrow> wire_ID (msg_ID m) \<and>
     (case msg_Response m of None \<Rightarrow> True | Some rs \<Rightarrow> wire_response rs)"

lemma raw_value_Marshal: "raw_value (json_Marshal j) = Some j"
proof -
  have "ends_number '' ''" by (simp add: ends_number_def is_digit_def code_def)
  then have "scan new_scanner (json_Marshal j @ '' '') = Done j '' ''"
    using scan_Marshal [of j "'' ''" "[]"] by (simp add: new_scanner_def resume_simps)
  then show ?thesis by (simp add: raw_value_def json_space_def)
qed

lemma un_errResponse_json: "wire_errResponse e \<Longrightarrow> un_errResponse (errResponse_json e) zero_errResponse = Inr e"
  by (cases e; cases "er_Data e")
    (simp_all add: un_errResponse_def errResponse_json_def un_struct_def fld_def un_int_def un_string_def un_raw_option_def
      omitempty_raw_def wire_errResponse_def zero_errResponse_def ToLower_def is_upper_def code_def)

lemmas message_fields = message_decoders_def embedded_fld_def fld_def ToLower_def is_upper_def code_def

lemma errResponse_not_null: "errResponse_json e \<noteq> JNull"
  by (simp add: errResponse_json_def)


lemma request_read:
  "msg_Request m = None \<Longrightarrow> un_members message_decoders (Request_members rq) m = Inr (m\<lparr>msg_Request := Some rq\<rparr>)"
  by (cases rq; cases "rq_Params rq")
    (simp_all add: message_fields Request_members_def omitempty_raw_def un_string_def un_raw_option_def zero_Request_def)

lemma result_read:
  "un_members message_decoders (omitempty_raw ''result'' (Some j)) m =
   Inr (m\<lparr>msg_Response := Some (case msg_Response m of None \<Rightarrow> \<lparr>rs_Result = Some j, rs_Error = None\<rparr> | Some r \<Rightarrow> r\<lparr>rs_Result := Some j\<rparr>)\<rparr>)"
  by (simp add: message_fields omitempty_raw_def un_raw_option_def zero_Response_def split: option.splits)

lemma error_read:
  "wire_errResponse e \<Longrightarrow> (case msg_Response m of None \<Rightarrow> True | Some r \<Rightarrow> rs_Error r = None) \<Longrightarrow>
   un_members message_decoders (omitempty_raw ''error'' (Some (errResponse_json e))) m =
   Inr (m\<lparr>msg_Response := Some (case msg_Response m of None \<Rightarrow> \<lparr>rs_Result = None, rs_Error = Some e\<rparr> | Some r \<Rightarrow> r\<lparr>rs_Error := Some e\<rparr>)\<rparr>)"
  by (simp add: message_fields omitempty_raw_def un_pointer_def errResponse_not_null un_errResponse_json zero_Response_def
      split: option.splits)

lemma response_read:
  assumes "wire_response rs" and "msg_Response m = None"
  shows "un_members message_decoders (Response_members rs) m = Inr (m\<lparr>msg_Response := Some rs\<rparr>)"
proof -
  have none: "un_members message_decoders (omitempty_raw k None) m' = Inr m'" for k m'
    by (simp add: omitempty_raw_def)
  show ?thesis
    using assms by (cases rs; cases "rs_Result rs"; cases "rs_Error rs")
      (simp_all add: Response_members_def un_members_append none result_read error_read wire_response_def)
qed

lemma id_version_read:
  "un_members message_decoders [(''id'', j), (''jsonrpc'', JStr v)] m = Inr (m\<lparr>msg_ID := json_Marshal j, msg_Version := v\<rparr>)"
  "un_members message_decoders [(''jsonrpc'', JStr v)] m = Inr (m\<lparr>msg_Version := v\<rparr>)"
  by (simp_all add: message_fields un_string_def)

text \<open>Decoding a message undoes encoding it.\<close>
lemma un_Message_json:
  assumes "wire_message m"
  obtains ms where "Message_json m = Inr (JObj ms)" "un_Message (JObj ms) zero_Message = Inr m"
proof -
  define rq where "rq = (case msg_Request m of None \<Rightarrow> [] | Some rq \<Rightarrow> Request_members rq)"
  define rs where "rs = (case msg_Response m of None \<Rightarrow> [] | Some rs \<Rightarrow> Response_members rs)"
  have "un_members message_decoders rq zero_Message = Inr (zero_Message\<lparr>msg_Request := msg_Request m\<rparr>)"
    by (simp add: rq_def request_read zero_Message_def split: option.splits)
  moreover have "un_members message_decoders rs (zero_Message\<lparr>msg_Request := msg_Request m\<rparr>) =
      Inr (zero_Message\<lparr>msg_Request := msg_Request m, msg_Response := msg_Response m\<rparr>)"
    using assms by (simp add: rs_def response_read zero_Message_def wire_message_def split: option.splits)
  ultimately have parts: "un_members message_decoders (rq @ rs) zero_Message =
      Inr (zero_Message\<lparr>msg_Request := msg_Request m, msg_Response := msg_Response m\<rparr>)"
    by (simp add: un_members_append)
  let ?parts = "zero_Message\<lparr>msg_Request := msg_Request m, msg_Response := msg_Response m\<rparr>"
  have un: "un_Message (JObj ((rq @ rs) @ t)) zero_Message = un_members message_decoders t ?parts" for t
    unfolding un_Message_def un_struct_def json.case un_members_append [of _ "rq @ rs"] parts by simp
  show thesis
  proof (cases "raw_value (msg_ID m)")
    case None
    then have "msg_ID m = ''''" using assms by (simp add: wire_message_def wire_ID_def)
    then have "Message_json m = Inr (JObj ((rq @ rs) @ [(''jsonrpc'', JStr (msg_Version m))]))"
      by (simp add: Message_json_def rq_def rs_def)
    moreover have "un_members message_decoders [(''jsonrpc'', JStr (msg_Version m))] ?parts = Inr m"
      unfolding id_version_read using \<open>msg_ID m = ''''\<close> by (simp add: zero_Message_def)
    ultimately show thesis using that un by metis
  next
    case (Some j)
    then have "msg_ID m = json_Marshal j" "msg_ID m \<noteq> ''''"
      using assms printed_begins [of j] by (auto simp: wire_message_def wire_ID_def)
    then have "Message_json m = Inr (JObj ((rq @ rs) @ [(''id'', j), (''jsonrpc'', JStr (msg_Version m))]))"
      using Some by (simp add: Message_json_def rq_def rs_def)
    moreover have "un_members message_decoders [(''id'', j), (''jsonrpc'', JStr (msg_Version m))] ?parts = Inr m"
      unfolding id_version_read using \<open>msg_ID m = json_Marshal j\<close> by (simp add: zero_Message_def)
    ultimately show thesis using that un by metis
  qed
qed

section \<open>The codec on a stream\<close>

definition io_EOF :: go_error where "io_EOF = ErrExternal ''EOF''"
definition io_ErrUnexpectedEOF :: go_error where "io_ErrUnexpectedEOF = ErrExternal ''unexpected EOF''"
definition json_SyntaxError :: go_error where "json_SyntaxError = ErrExternal ''invalid character''"

text \<open>An \<^verbatim>\<open>io.ReadWriteCloser\<close>: what its reads return from now on, what was written, and how writing fails.\<close>
record rwc =
  rw_reads :: "string result list"
  rw_writes :: "string list"
  rw_writeErr :: "go_error option"
  rw_closed :: bool

definition new_rwc :: rwc where
  "new_rwc = \<lparr>rw_reads = [], rw_writes = [], rw_writeErr = None, rw_closed = False\<rparr>"

definition rw_Write :: "string \<Rightarrow> rwc \<Rightarrow> unit result \<times> rwc" where
  "rw_Write s w =
     (case rw_writeErr w of Some e \<Rightarrow> (Inl e, w) | None \<Rightarrow> (Inr (), w\<lparr>rw_writes := rw_writes w @ [s]\<rparr>))"

text \<open>The end of the stream ends a number; before anything but space it is a plain end.\<close>
definition at_EOF :: "scanner \<Rightarrow> json result" where
  "at_EOF sc =
     (case scan sc '' '' of
        Done v _ \<Rightarrow> Inr v
      | _ \<Rightarrow> Inl (if sc = new_scanner then io_EOF else io_ErrUnexpectedEOF))"

text \<open>Only the brackets tell the decoder that a value is over; after others it reads one byte more.\<close>
fun closes :: "json \<Rightarrow> bool" where
  "closes (JArr _) = True"
| "closes (JObj _) = True"
| "closes _ = False"

fun read_past :: "json \<Rightarrow> string result list \<Rightarrow> json result \<times> string result list" where
  "read_past v [] = (Inr v, [])"
| "read_past v (Inl e # reads) = (Inl e, reads)"
| "read_past v (Inr s # reads) = (if s = '''' then read_past v reads else (Inr v, reads))"

text \<open>
  \<^verbatim>\<open>json.NewDecoder\<close> followed by one \<^verbatim>\<open>Decode\<close>: it reads until a value is complete. What the last read brought beyond the value
  is in the buffer of the decoder, and is lost with it.
\<close>
fun read_value :: "scanner \<Rightarrow> string result list \<Rightarrow> json result \<times> string result list" where
  "read_value sc [] = (at_EOF sc, [])"
| "read_value sc (Inl e # reads) = (Inl e, reads)"
| "read_value sc (Inr s # reads) =
     (case scan sc s of
        More sc1 \<Rightarrow> read_value sc1 reads
      | Done v rest \<Rightarrow> (if rest = '''' \<and> \<not> closes v then read_past v reads else (Inr v, reads))
      | Invalid \<Rightarrow> (Inl json_SyntaxError, reads))"

record jsonCodec =
  jc_rwc :: rwc
  jc_remoteAddr :: string

definition IOCodec :: "rwc \<Rightarrow> jsonCodec" where
  "IOCodec w = \<lparr>jc_rwc = w, jc_remoteAddr = ''''\<rparr>"

definition json_ReadMessage :: "jsonCodec \<Rightarrow> Message result \<times> jsonCodec" where
  "json_ReadMessage codec =
     (case read_value new_scanner (rw_reads (jc_rwc codec)) of
        (r, reads) \<Rightarrow>
          (case r of Inl e \<Rightarrow> Inl e | Inr v \<Rightarrow> un_Message v zero_Message,
           codec\<lparr>jc_rwc := (jc_rwc codec)\<lparr>rw_reads := reads\<rparr>\<rparr>))"

text \<open>The text of a message as \<^verbatim>\<open>Encode\<close> writes it, in one write.\<close>
definition encoded :: "json \<Rightarrow> string" where
  "encoded j = json_Marshal j @ [CHR 0x0A]"

definition json_WriteMessage :: "Message \<Rightarrow> jsonCodec \<Rightarrow> unit result \<times> jsonCodec" where
  "json_WriteMessage msg codec =
     (case Message_json msg of
        Inl e \<Rightarrow> (Inl e, codec)
      | Inr j \<Rightarrow> (case rw_Write (encoded j) (jc_rwc codec) of (r, w) \<Rightarrow> (r, codec\<lparr>jc_rwc := w\<rparr>)))"

definition json_Close :: "jsonCodec \<Rightarrow> unit result \<times> jsonCodec" where
  "json_Close codec = (Inr (), codec\<lparr>jc_rwc := (jc_rwc codec)\<lparr>rw_closed := True\<rparr>\<rparr>)"

text \<open>The interface.\<close>
record 's Codec =
  cd_ReadMessage :: "'s \<Rightarrow> Message result \<times> 's"
  cd_WriteMessage :: "Message \<Rightarrow> 's \<Rightarrow> unit result \<times> 's"
  cd_Close :: "'s \<Rightarrow> unit result \<times> 's"
  cd_RemoteAddr :: "'s \<Rightarrow> string"

definition json_Codec :: "jsonCodec Codec" where
  "json_Codec = \<lparr>cd_ReadMessage = json_ReadMessage, cd_WriteMessage = json_WriteMessage, cd_Close = json_Close,
     cd_RemoteAddr = jc_remoteAddr\<rparr>"

subsection \<open>Reading what was written\<close>

text \<open>A text that arrives in pieces.\<close>
lemma read_value_pieces:
  assumes "scan sc (concat pieces) = Done v rest" and "closes v"
  obtains p where "read_value sc (map Inr pieces @ reads) = (Inr v, map Inr p @ reads)" "suffix p pieces" "suffix (concat p) rest"
  using assms(1)
proof (induction pieces arbitrary: sc thesis)
  case Nil
  then show ?case by simp
next
  case (Cons s pieces)
  show ?case
  proof (cases "scan sc s")
    case (More sc1)
    then obtain p where "read_value sc1 (map Inr pieces @ reads) = (Inr v, map Inr p @ reads)" "suffix p pieces" "suffix (concat p) rest"
      using Cons.IH [of sc1] Cons.prems(2) by (auto simp: scan_append)
    then show ?thesis using More Cons.prems(1) [of p] by (simp add: suffix_ConsI)
  next
    case (Done v1 r1)
    then have "v1 = v" "r1 @ concat pieces = rest" using Cons.prems(2) by (auto simp: scan_append)
    moreover from this(2) have "suffix (concat pieces) rest" unfolding suffix_def by metis
    ultimately show ?thesis using Done assms(2) Cons.prems(1) [of pieces] by (simp add: suffix_ConsI)
  next
    case Invalid
    then show ?thesis using Cons.prems(2) by (simp add: scan_append)
  qed
qed

lemma blank_suffix: "suffix t s \<Longrightarrow> list_all json_space s \<Longrightarrow> list_all json_space t"
  by (auto simp: suffix_def)

lemma scan_blank: "list_all json_space s \<Longrightarrow> scan new_scanner s = More new_scanner"
  by (induction s) (auto simp: new_scanner_def begin_value_def)

lemma read_value_blank:
  "list_all json_space (concat p) \<Longrightarrow> read_value new_scanner (map Inr p @ reads) = read_value new_scanner reads"
  by (induction p) (auto simp: scan_blank)

text \<open>A message is read from the pieces of its text, after what is left of the text before it.\<close>
lemma ReadMessage_pieces:
  assumes "wire_message m" and "Message_json m = Inr j" and "concat pieces = encoded j" and "list_all json_space (concat blank)"
    and "rw_reads (jc_rwc codec) = map Inr blank @ map Inr pieces @ reads"
  obtains p where "list_all json_space (concat p)" "suffix p pieces" "suffix (concat p) [CHR 0x0A]"
    "json_ReadMessage codec = (Inr m, codec\<lparr>jc_rwc := (jc_rwc codec)\<lparr>rw_reads := map Inr p @ reads\<rparr>\<rparr>)"
proof -
  obtain ms where ms: "j = JObj ms" "un_Message j zero_Message = Inr m"
    using un_Message_json [OF assms(1)] assms(2) by (metis sum.inject(2))
  have "scan new_scanner (concat pieces) = Done j [CHR 0x0A]"
    using scan_printed_object [of ms] by (simp add: assms(3) encoded_def ms(1))
  then obtain p where p: "read_value new_scanner (map Inr pieces @ reads) = (Inr j, map Inr p @ reads)" "suffix p pieces" "suffix (concat p) [CHR 0x0A]"
    using read_value_pieces [of new_scanner pieces j "[CHR 0x0A]" reads] ms(1) by auto
  moreover have "list_all json_space (concat p)" using blank_suffix [OF p(3)] by (simp add: json_space_def)
  ultimately show thesis
    using that ms(2) assms(5) by (simp add: json_ReadMessage_def read_value_blank [OF assms(4)])
qed

section \<open>Messages one after the other\<close>

fun write_messages :: "'s Codec \<Rightarrow> Message list \<Rightarrow> 's \<Rightarrow> unit result list \<times> 's" where
  "write_messages cd [] s = ([], s)"
| "write_messages cd (m # ms) s =
     (case cd_WriteMessage cd m s of (r, s1) \<Rightarrow> (case write_messages cd ms s1 of (rs, s2) \<Rightarrow> (r # rs, s2)))"

fun read_messages :: "'s Codec \<Rightarrow> nat \<Rightarrow> 's \<Rightarrow> Message result list \<times> 's" where
  "read_messages cd 0 s = ([], s)"
| "read_messages cd (Suc n) s =
     (case cd_ReadMessage cd s of (r, s1) \<Rightarrow> (case read_messages cd n s1 of (rs, s2) \<Rightarrow> (r # rs, s2)))"

definition message_text :: "Message \<Rightarrow> string" where
  "message_text m = (case Message_json m of Inl _ \<Rightarrow> '''' | Inr j \<Rightarrow> encoded j)"

lemma write_messages_texts:
  assumes "\<forall>m\<in>set ms. wire_message m" and "rw_writeErr (jc_rwc codec) = None"
  shows "write_messages json_Codec ms codec =
    (map (\<lambda>_. Inr ()) ms, codec\<lparr>jc_rwc := (jc_rwc codec)\<lparr>rw_writes := rw_writes (jc_rwc codec) @ map message_text ms\<rparr>\<rparr>)"
  using assms
proof (induction ms arbitrary: codec)
  case Nil
  then show ?case by simp
next
  case (Cons m ms)
  obtain ms0 where "Message_json m = Inr (JObj ms0)" using un_Message_json [of m] Cons.prems(1) by auto
  then show ?case
    using Cons by (simp add: json_Codec_def json_WriteMessage_def rw_Write_def message_text_def)
qed

lemma read_messages_pieces:
  assumes "\<forall>m\<in>set ms. wire_message m" and "map concat piecess = map message_text ms" and "list_all json_space (concat blank)"
    and "rw_reads (jc_rwc codec) = map Inr blank @ map Inr (concat piecess)"
  shows "fst (read_messages json_Codec (length ms) codec) = map Inr ms"
  using assms
proof (induction ms arbitrary: piecess blank codec)
  case Nil
  then show ?case by simp
next
  case (Cons m ms)
  obtain pieces rest where p: "piecess = pieces # rest" "concat pieces = message_text m" "map concat rest = map message_text ms"
    using Cons.prems(2) by auto
  obtain j where j: "Message_json m = Inr j" using un_Message_json [of m] Cons.prems(1) by auto
  have "rw_reads (jc_rwc codec) = map Inr blank @ map Inr pieces @ map Inr (concat rest)" using Cons.prems(4) p(1) by simp
  moreover have "wire_message m" "concat pieces = encoded j" using Cons.prems(1) p(2) j by (simp_all add: message_text_def)
  ultimately obtain q where q: "list_all json_space (concat q)"
      "json_ReadMessage codec = (Inr m, codec\<lparr>jc_rwc := (jc_rwc codec)\<lparr>rw_reads := map Inr q @ map Inr (concat rest)\<rparr>\<rparr>)"
    using ReadMessage_pieces [OF _ j _ Cons.prems(3)] by metis
  let ?codec = "codec\<lparr>jc_rwc := (jc_rwc codec)\<lparr>rw_reads := map Inr q @ map Inr (concat rest)\<rparr>\<rparr>"
  have "fst (read_messages json_Codec (length ms) ?codec) = map Inr ms"
    using Cons.IH [OF _ p(3) q(1), of ?codec] Cons.prems(1) by simp
  then show ?case using q(2) by (cases "read_messages json_Codec (length ms) ?codec") (simp add: json_Codec_def)
qed

section \<open>Properties\<close>


text \<open>A request, an error and a result, in single bytes.\<close>
definition demo_messages :: "Message list" where
  "demo_messages = [fst (client_Request ''vipnode_ping'' [JStr ''a <b>'', JNull] 41),
     error_response ''42'' ErrCodeInternal ''no'', result_response ''43'' (JObj [(''x'', JArr [JNum (- 7), JBool True])])]"


text \<open>
  The codec makes a new decoder for every message: what a read brings beyond a message is lost, and the
  next read waits for more.
\<close>
lemma joined_writes_lose_messages:
  assumes "wire_message m" and "rw_reads (jc_rwc codec) = Inr (message_text m @ t) # reads"
  shows "\<exists>codec'. json_ReadMessage codec = (Inr m, codec') \<and> rw_reads (jc_rwc codec') = reads"
proof -
  obtain ms where ms: "Message_json m = Inr (JObj ms)" "un_Message (JObj ms) zero_Message = Inr m"
    by (rule un_Message_json [OF assms(1)])
  have "scan new_scanner (message_text m @ t) = Done (JObj ms) (CHR 0x0A # t)"
    using scan_printed_object [of ms "CHR 0x0A # t"] by (simp add: message_text_def ms(1) encoded_def)
  then show ?thesis using assms(2) ms(2) by (simp add: json_ReadMessage_def)
qed

end
