(* ===== verification/Json_Channel.thy ===== *)
theory Json_Channel
  imports Json_Codec
begin

text \<open>
  Calls over a connection, from the message of the caller to the bytes and back (\<^verbatim>\<open>jsonrpc2/remote.go\<close>,
  \<^verbatim>\<open>jsonrpc2/http.go\<close> and \<^verbatim>\<open>jsonrpc2/ws\<close>). The remote works on any codec: the locale \<open>message_channel\<close> says what
  it relies on, that a message written at one end is read at the other, and in it a call over the connection is the call without transport. The
  codec on a pipe and the two codecs on websockets provide it, the latter under what their libraries document. Calls over
  HTTP are shown to be the same calls directly.
\<close>

section \<open>The remote on a codec\<close>

text \<open>Both ends, with the pending messages and the counter of the caller and the state behind the server.\<close>
record ('k, 's) link =
  lk_client :: 'k
  lk_server :: 'k
  lk_remote :: remote
  lk_counter :: client
  lk_state :: 's

definition handleRequest ::
  "'k Codec \<Rightarrow> 'v reflection \<Rightarrow> ('v, 'c, 's) registry \<Rightarrow> 'c \<Rightarrow> Message \<Rightarrow> 'k \<times> 's \<Rightarrow> unit result \<times> 'k \<times> 's" where
  "handleRequest cd rf registry ctx msg ks =
     (case Handle rf registry ctx msg (snd ks) of
        (Inl e, s1) \<Rightarrow> (Inl e, (fst ks, s1))
      | (Inr resp, s1) \<Rightarrow> (case cd_WriteMessage cd resp (fst ks) of (r, k1) \<Rightarrow> (r, (k1, s1))))"

text \<open>One round of \<^verbatim>\<open>Serve\<close> at the server's end: nothing happens when reading fails or the message is no request.\<close>
definition serve_request ::
  "'k Codec \<Rightarrow> 'v reflection \<Rightarrow> ('v, 'c, 's) registry \<Rightarrow> 'c \<Rightarrow> 'k \<times> 's \<Rightarrow> 'k \<times> 's" where
  "serve_request cd rf registry ctx ks =
     (case cd_ReadMessage cd (fst ks) of
        (Inl e, k1) \<Rightarrow> (k1, snd ks)
      | (Inr msg, k1) \<Rightarrow>
          (if msg_Request msg = None then (k1, snd ks) else snd (handleRequest cd rf registry ctx msg (k1, snd ks))))"

text \<open>One round of \<^verbatim>\<open>Serve\<close> at the caller's end.\<close>
definition serve_response :: "'k Codec \<Rightarrow> iter_order \<Rightarrow> time \<Rightarrow> 'k \<times> remote \<Rightarrow> 'k \<times> remote" where
  "serve_response cd ord now kr =
     (case cd_ReadMessage cd (fst kr) of
        (Inl e, k1) \<Rightarrow> (k1, snd kr)
      | (Inr msg, k1) \<Rightarrow> (k1, snd (Serve_message ord now msg (snd kr))))"

text \<open>
  \<^verbatim>\<open>Remote.Call\<close> with what happens at the other end meanwhile; \<open>carried\<close> takes what one end wrote to the other. The caller waits on its
  channel before or after the response comes in (\<open>early\<close>). It returns nothing when no response reaches it.
\<close>
definition remote_Call ::
  "'k Codec \<Rightarrow> ('k \<Rightarrow> 'k \<Rightarrow> 'k \<times> 'k) \<Rightarrow> bool \<Rightarrow> iter_order \<Rightarrow> time \<Rightarrow> 'v reflection \<Rightarrow> ('v, 'c, 's) registry \<Rightarrow> 'c \<Rightarrow> (json \<Rightarrow> 'r result)
     \<Rightarrow> string \<Rightarrow> json list \<Rightarrow> ('k, 's) link \<Rightarrow> 'r option result option \<times> ('k, 's) link" where
  "remote_Call cd carried early ord now rf registry ctx decode method params p =
     (let (req, c1) = client_Request method params (lk_counter p)
      in case cd_WriteMessage cd req (lk_client p) of
           (Inl e, k1) \<Rightarrow> (Some (Inl e), p\<lparr>lk_client := k1, lk_counter := c1\<rparr>)
         | (Inr _, k1) \<Rightarrow>
             (let (k2, v1) = carried k1 (lk_server p);
                  (v2, s1) = serve_request cd rf registry ctx (v1, lk_state p);
                  (v3, k3) = carried v2 k2;
                  r0 = (if early then snd (getPendingChan ord now (msg_ID req) (lk_remote p)) else lk_remote p);
                  (k4, r1) = serve_response cd ord now (k3, r0);
                  (ch, r2) = getPendingChan ord now (msg_ID req) r1;
                  p1 = \<lparr>lk_client = k4, lk_server = v3, lk_remote = r2, lk_counter = c1, lk_state = s1\<rparr>
              in case receive_message (msg_ID req) ch r2 of
                   None \<Rightarrow> (None, p1)
                 | Some (resp, r3) \<Rightarrow> (Some (message_result decode resp), p1\<lparr>lk_remote := r3\<rparr>)))"

text \<open>Requests and the server's answers to them survive the wire.\<close>
lemma wire_request: "wire_message (fst (client_Request method params c))"
  by (simp add: client_Request_def NextID_def Let_def wire_message_def wire_ID_def raw_value_Marshal del: json_Marshal.simps)

lemma wire_answer:
  assumes "Handle rf registry ctx req s = (Inr resp, s')" and "wire_message req"
  shows "wire_message resp"
proof -
  have err: "wire_message (error_response (msg_ID req) c m)" "wire_message (no_result (error_response (msg_ID req) c m))"
    if "c \<in> {ErrCodeInvalidRequest, ErrCodeMethodNotFound, ErrCodeInvalidParams, ErrCodeInternal, ErrCodeServer}" for c m
    using that assms(2)
    by (auto simp: wire_message_def error_response_def no_result_def wire_response_def wire_errResponse_def error_codes min_int64_def max_int64_def)
  have res: "wire_message (result_response (msg_ID req) j)" for j
    using assms(2) by (simp add: wire_message_def result_response_def wire_response_def)
  show ?thesis
    using assms(1)
  proof (cases rule: Handle_cases)
    case (refused c m)
    then show ?thesis using err(1) [of c m] by auto
  next
    case (called rq m args q)
    then show ?thesis using err res by (auto split: sum.splits if_splits option.splits)
  qed
qed

text \<open>The pending messages of a caller around one response.\<close>
lemma response_received:
  assumes "rm_pending r = fmempty" and "rm_chans r = fmempty" and "rm_PendingLimit r = 0" and "msg_Request m = None" and "msg_ID m \<noteq> ''''"
  obtains ch r1 r2 where
    "getPendingChan ord now (msg_ID m)
       (snd (Serve_message ord now m (if early then snd (getPendingChan ord now (msg_ID m) r) else r))) = (ch, r1)"
    "receive_message (msg_ID m) ch r1 = Some (m, r2)" "rm_pending r2 = fmempty" "rm_chans r2 = fmempty" "rm_PendingLimit r2 = 0"
proof -
  define waiting where "waiting = r\<lparr>rm_pending := fmupd (msg_ID m) \<lparr>pm_msgChan = rm_made r, pm_timestamp = now\<rparr> fmempty, rm_made := rm_made r + 1\<rparr>"
  define served where "served = waiting\<lparr>rm_chans := fmupd (rm_made r) m fmempty\<rparr>"
  have new: "getPendingChan ord now (msg_ID m) r = (rm_made r, waiting)"
    using assms(1,3) by (simp add: getPendingChan_def make_room_def waiting_def)
  have old: "getPendingChan ord now (msg_ID m) r' = (rm_made r, r')" if "rm_pending r' = rm_pending waiting" "rm_PendingLimit r' = 0" for r'
    using that by (simp add: getPendingChan_def make_room_def waiting_def)
  have "snd (Serve_message ord now m (if early then snd (getPendingChan ord now (msg_ID m) r) else r)) = served"
    using new old [of waiting] assms(2-5) by (simp add: Serve_message_def served_def waiting_def)
  moreover have "getPendingChan ord now (msg_ID m) served = (rm_made r, served)"
    by (rule old) (simp_all add: served_def waiting_def assms(3))
  moreover have "receive_message (msg_ID m) (rm_made r) served = Some (m, served\<lparr>rm_chans := fmempty, rm_pending := fmempty\<rparr>)"
    by (simp add: receive_message_def served_def waiting_def fmdrop_fmupd_same fmdrop_empty)
  ultimately show thesis using that assms(3) by (simp add: served_def waiting_def)
qed

definition no_panic :: "'r result \<Rightarrow> bool" where
  "no_panic r \<longleftrightarrow> (case r of Inl e \<Rightarrow> \<not> is_panic e | Inr _ \<Rightarrow> True)"

lemma Handle_panics: "fst (Handle rf registry ctx req s) = Inl e \<Longrightarrow> is_panic e"
  by (cases "Handle rf registry ctx req s") (auto elim!: Handle_cases split: sum.splits if_splits option.splits)

lemma Handle_answers:
  assumes "Handle rf registry ctx req s = (Inr resp, s')"
  shows "msg_ID resp = msg_ID req \<and> msg_Request resp = None \<and> (\<exists>rs. msg_Response resp = Some rs)"
  using assms by (rule Handle_cases) (auto simp: error_response_def result_response_def no_result_def split: sum.splits if_splits option.splits)

section \<open>What the remote needs of a codec\<close>

locale message_channel =
  fixes cd :: "'k Codec" and carried :: "'k \<Rightarrow> 'k \<Rightarrow> 'k \<times> 'k" and idle :: "'k \<Rightarrow> bool"
  assumes crosses: "wire_message m \<Longrightarrow> idle k \<Longrightarrow> idle v \<Longrightarrow>
    \<exists>k1 k2 v1 v2. cd_WriteMessage cd m k = (Inr (), k1) \<and> carried k1 v = (k2, v1) \<and> cd_ReadMessage cd v1 = (Inr m, v2) \<and>
      idle k2 \<and> idle v2"
begin

text \<open>Nothing is under way and no message is pending.\<close>
definition quiet :: "('k, 's) link \<Rightarrow> bool" where
  "quiet p \<longleftrightarrow> idle (lk_client p) \<and> idle (lk_server p) \<and> rm_pending (lk_remote p) = fmempty \<and>
     rm_chans (lk_remote p) = fmempty \<and> rm_PendingLimit (lk_remote p) = 0"

lemma Call_local:
  assumes "quiet p"
    and "Local_Call rf registry ctx decode method params (lk_counter p, lk_state p) = (r, (c1, s1))" and "no_panic r"
  shows "\<exists>p1. remote_Call cd carried early ord now rf registry ctx decode method params p = (Some r, p1) \<and> quiet p1 \<and>
    lk_counter p1 = c1 \<and> lk_state p1 = s1"
proof -
  obtain req c where req: "client_Request method params (lk_counter p) = (req, c)" by (cases "client_Request method params (lk_counter p)")
  have wreq: "wire_message req" using wire_request [of "method" params "lk_counter p"] req by simp
  have parts: "msg_Request req \<noteq> None" "msg_ID req \<noteq> ''''"
    using req by (auto simp: client_Request_def NextID_def Let_def int_digits_nonempty)
  obtain q s' where handle: "Handle rf registry ctx req (lk_state p) = (q, s')" by (cases "Handle rf registry ctx req (lk_state p)")
  obtain resp where resp: "q = Inr resp"
    using assms(2,3) req handle Handle_panics [of rf registry ctx req "lk_state p"]
    by (cases q) (auto simp: Local_Call_def no_panic_def)
  have local_result: "r = message_result decode resp" "c1 = c" "s1 = s'"
    using assms(2) req handle resp by (auto simp: Local_Call_def)
  have answer: "msg_ID resp = msg_ID req" "msg_Request resp = None" "wire_message resp"
    using Handle_answers [OF handle [unfolded resp]] wire_answer [OF handle [unfolded resp] wreq] by simp_all
  obtain k1 k2 v1 v2 where out: "cd_WriteMessage cd req (lk_client p) = (Inr (), k1)" "carried k1 (lk_server p) = (k2, v1)"
      "cd_ReadMessage cd v1 = (Inr req, v2)" "idle k2" "idle v2"
    using crosses [OF wreq] assms(1) unfolding quiet_def by metis
  obtain v3 v4 k3 k4 where ret: "cd_WriteMessage cd resp v2 = (Inr (), v3)" "carried v3 k2 = (v4, k3)"
      "cd_ReadMessage cd k3 = (Inr resp, k4)" "idle v4" "idle k4"
    using crosses [OF answer(3) out(5) out(4)] by metis
  have server: "serve_request cd rf registry ctx (v1, lk_state p) = (v3, s')"
    using out(3) parts(1) handle resp ret(1) by (auto simp: serve_request_def handleRequest_def)
  obtain ch r1 r2 where recv:
    "getPendingChan ord now (msg_ID resp)
       (snd (Serve_message ord now resp (if early then snd (getPendingChan ord now (msg_ID resp) (lk_remote p)) else lk_remote p))) = (ch, r1)"
    "receive_message (msg_ID resp) ch r1 = Some (resp, r2)" "rm_pending r2 = fmempty" "rm_chans r2 = fmempty" "rm_PendingLimit r2 = 0"
    using response_received [of "lk_remote p" resp ord now early] assms(1) answer parts(2) unfolding quiet_def by metis
  have "remote_Call cd carried early ord now rf registry ctx decode method params p =
      (Some r, \<lparr>lk_client = k4, lk_server = v4, lk_remote = r2, lk_counter = c1, lk_state = s1\<rparr>)"
    using recv(1,2) answer(1) local_result
    by (cases early) (simp_all add: remote_Call_def req out(1,2) server ret(2,3) serve_response_def)
  moreover have "quiet \<lparr>lk_client = k4, lk_server = v4, lk_remote = r2, lk_counter = c1, lk_state = s1\<rparr>"
    using ret(4,5) recv(3-5) by (simp add: quiet_def)
  ultimately show ?thesis by auto
qed

end

section \<open>The codec on a pipe\<close>

text \<open>
  \<^verbatim>\<open>net.Pipe\<close> carries what one end wrote to the reads of the other. A read returns a part of one write, never parts of
  two; how a write is cut depends on the buffers and is a parameter.
\<close>
definition carry :: "(string \<Rightarrow> string list) \<Rightarrow> jsonCodec \<Rightarrow> jsonCodec \<Rightarrow> jsonCodec \<times> jsonCodec" where
  "carry chop sender receiver =
     (sender\<lparr>jc_rwc := (jc_rwc sender)\<lparr>rw_writes := []\<rparr>\<rparr>,
      receiver\<lparr>jc_rwc := (jc_rwc receiver)\<lparr>rw_reads := rw_reads (jc_rwc receiver) @ map Inr (concat (map chop (rw_writes (jc_rwc sender))))\<rparr>\<rparr>)"

definition ServePipe :: "'s \<Rightarrow> (jsonCodec, 's) link" where
  "ServePipe s =
     \<lparr>lk_client = IOCodec new_rwc, lk_server = IOCodec new_rwc, lk_remote = cn_remote (new_connection 0 0), lk_counter = 0, lk_state = s\<rparr>"

text \<open>What is still to be read is blank, and all that was written is carried.\<close>
definition quiet_codec :: "jsonCodec \<Rightarrow> bool" where
  "quiet_codec k \<longleftrightarrow> (\<exists>p. rw_reads (jc_rwc k) = map Inr p \<and> list_all json_space (concat p)) \<and> rw_writes (jc_rwc k) = [] \<and>
     rw_writeErr (jc_rwc k) = None"

text \<open>A message that crosses the pipe between quiet ends is read as it was written, and leaves them quiet.\<close>
lemma message_crosses:
  assumes "wire_message m" and "quiet_codec k" and "quiet_codec v" and "\<And>s. concat (chop s) = s"
  obtains k1 k2 v1 v2 where "json_WriteMessage m k = (Inr (), k1)" "carry chop k1 v = (k2, v1)" "json_ReadMessage v1 = (Inr m, v2)"
    "quiet_codec k2" "quiet_codec v2"
proof -
  obtain ms where j: "Message_json m = Inr (JObj ms)" by (rule un_Message_json [OF assms(1)])
  let ?t = "encoded (JObj ms)"
  let ?k1 = "k\<lparr>jc_rwc := (jc_rwc k)\<lparr>rw_writes := [?t]\<rparr>\<rparr>"
  let ?k2 = "k\<lparr>jc_rwc := (jc_rwc k)\<lparr>rw_writes := []\<rparr>\<rparr>"
  obtain b where b: "rw_reads (jc_rwc v) = map Inr b" "list_all json_space (concat b)" using assms(3) by (auto simp: quiet_codec_def)
  let ?v1 = "v\<lparr>jc_rwc := (jc_rwc v)\<lparr>rw_reads := map Inr b @ map Inr (chop ?t)\<rparr>\<rparr>"
  have "json_WriteMessage m k = (Inr (), ?k1)"
    using assms(2) j by (simp add: json_WriteMessage_def rw_Write_def quiet_codec_def)
  moreover have "carry chop ?k1 v = (?k2, ?v1)" by (simp add: carry_def b(1))
  moreover obtain p where p: "list_all json_space (concat p)"
      "json_ReadMessage ?v1 = (Inr m, ?v1\<lparr>jc_rwc := (jc_rwc ?v1)\<lparr>rw_reads := map Inr p\<rparr>\<rparr>)"
    using ReadMessage_pieces [OF assms(1) j assms(4) b(2), of ?v1 "[]"] by auto
  moreover have "quiet_codec ?k2" using assms(2) by (simp add: quiet_codec_def)
  moreover have "quiet_codec (?v1\<lparr>jc_rwc := (jc_rwc ?v1)\<lparr>rw_reads := map Inr p\<rparr>\<rparr>)"
    using assms(3) p(1) by (auto simp: quiet_codec_def)
  ultimately show thesis using that by blast
qed


lemma pipe_channel:
  assumes "\<And>s. concat (chop s) = s"
  shows "message_channel json_Codec (carry chop) quiet_codec"
proof
  fix m k v assume "wire_message m" "quiet_codec k" "quiet_codec v"
  from message_crosses [OF this assms]
  show "\<exists>k1 k2 v1 v2. cd_WriteMessage json_Codec m k = (Inr (), k1) \<and> carry chop k1 v = (k2, v1) \<and>
      cd_ReadMessage json_Codec v1 = (Inr m, v2) \<and> quiet_codec k2 \<and> quiet_codec v2"
    unfolding json_Codec_def by simp metis
qed

text \<open>Pipes that hand over whole writes, and pipes with a buffer of 512 bytes.\<close>
definition chop512 :: "string \<Rightarrow> string list" where
  "chop512 s = [take 512 s, drop 512 s]"

interpretation whole_pipe: message_channel json_Codec "carry (\<lambda>s. [s])" quiet_codec
  by (rule pipe_channel) simp

interpretation cut_pipe: message_channel json_Codec "carry chop512" quiet_codec
  by (rule pipe_channel) (simp add: chop512_def)

section \<open>Sequences of calls\<close>

text \<open>What depends on the run of a call: when and in which order the goroutines act, and how the pipe cuts.\<close>
record schedule =
  sd_chop :: "string \<Rightarrow> string list"
  sd_early :: bool
  sd_ord :: iter_order
  sd_now :: time

fun pipe_calls ::
  "'v reflection \<Rightarrow> ('v, 'c, 's) registry \<Rightarrow> 'c \<Rightarrow> (json \<Rightarrow> 'r result) \<Rightarrow> (schedule \<times> string \<times> json list) list \<Rightarrow> (jsonCodec, 's) link
     \<Rightarrow> 'r option result option list \<times> (jsonCodec, 's) link" where
  "pipe_calls rf registry ctx decode [] p = ([], p)"
| "pipe_calls rf registry ctx decode ((sd, method, params) # calls) p =
     (case remote_Call json_Codec (carry (sd_chop sd)) (sd_early sd) (sd_ord sd) (sd_now sd) rf registry ctx decode method params p of
        (r, p1) \<Rightarrow> (case pipe_calls rf registry ctx decode calls p1 of (rs, p2) \<Rightarrow> (r # rs, p2)))"

fun local_calls ::
  "'v reflection \<Rightarrow> ('v, 'c, 's) registry \<Rightarrow> 'c \<Rightarrow> (json \<Rightarrow> 'r result) \<Rightarrow> (string \<times> json list) list \<Rightarrow> client \<times> 's
     \<Rightarrow> 'r option result list \<times> client \<times> 's" where
  "local_calls rf registry ctx decode [] cs = ([], cs)"
| "local_calls rf registry ctx decode ((method, params) # calls) cs =
     (case Local_Call rf registry ctx decode method params cs of
        (r, cs1) \<Rightarrow> (case local_calls rf registry ctx decode calls cs1 of (rs, cs2) \<Rightarrow> (r # rs, cs2)))"

lemma pipe_calls_local:
  assumes "message_channel.quiet quiet_codec p" and "\<forall>(sd, method, params)\<in>set calls. \<forall>s. concat (sd_chop sd s) = s"
    and "local_calls rf registry ctx decode (map snd calls) (lk_counter p, lk_state p) = (rs, (c1, s1))" and "\<forall>r\<in>set rs. no_panic r"
  shows "\<exists>p1. pipe_calls rf registry ctx decode calls p = (map Some rs, p1) \<and> lk_counter p1 = c1 \<and> lk_state p1 = s1"
  using assms
proof (induction calls arbitrary: p rs)
  case Nil
  then show ?case by auto
next
  case (Cons call calls)
  obtain sd meth params where call: "call = (sd, meth, params)" by (cases call)
  obtain r c2 s2 where first: "Local_Call rf registry ctx decode meth params (lk_counter p, lk_state p) = (r, (c2, s2))"
    by (cases "Local_Call rf registry ctx decode meth params (lk_counter p, lk_state p)") auto
  obtain rs2 where rest: "local_calls rf registry ctx decode (map snd calls) (c2, s2) = (rs2, (c1, s1))" "rs = r # rs2"
    using Cons.prems(3) first by (auto simp: call split: prod.splits)
  have chop: "message_channel json_Codec (carry (sd_chop sd)) quiet_codec" using Cons.prems(2) call by (auto intro: pipe_channel)
  have "no_panic r" using Cons.prems(4) rest(2) by simp
  then obtain p2 where p2: "remote_Call json_Codec (carry (sd_chop sd)) (sd_early sd) (sd_ord sd) (sd_now sd) rf registry ctx decode meth params p = (Some r, p2)"
      "message_channel.quiet quiet_codec p2" "lk_counter p2 = c2" "lk_state p2 = s2"
    using message_channel.Call_local [OF chop Cons.prems(1) first] by metis
  obtain p1 where "pipe_calls rf registry ctx decode calls p2 = (map Some rs2, p1)" "lk_counter p1 = c1" "lk_state p1 = s1"
    using Cons.IH [OF p2(2), of rs2] Cons.prems(2,4) rest p2(3,4) by auto
  then show ?case using p2(1) rest(2) by (simp add: call)
qed

section \<open>Calls over HTTP\<close>

text \<open>What a body delivers under a limit, in pieces.\<close>
definition limited :: "(string \<Rightarrow> string list) \<Rightarrow> int option \<Rightarrow> string \<Rightarrow> jsonCodec" where
  "limited chop limit body =
     IOCodec (new_rwc\<lparr>rw_reads := map Inr (chop (case limit of None \<Rightarrow> body | Some n \<Rightarrow> take (nat n) body))\<rparr>)"

text \<open>The request that a call posts.\<close>
definition posted :: "(string \<Rightarrow> string list) \<Rightarrow> string \<Rightarrow> http_request" where
  "posted chop body =
     \<lparr>hr_Method = ''POST'', hr_ContentLength = int (length body), hr_RawQuery = '''',
      hr_ReadMessage = (\<lambda>limit. fst (json_ReadMessage (limited chop limit body)))\<rparr>"

text \<open>The response to it. Its length is declared or, with -1, not.\<close>
definition replied :: "(string \<Rightarrow> string list) \<Rightarrow> bool \<Rightarrow> http_reply \<Rightarrow> http_response" where
  "replied chop declared reply =
     (let (status, body) = (case reply of
            HTTPNothing \<Rightarrow> (200, '''') | HTTPError t c \<Rightarrow> (c, t @ [CHR 0x0A]) | HTTPMessage m \<Rightarrow> (200, message_text m))
      in \<lparr>hp_StatusCode = status, hp_ContentLength = (if declared then int (length body) else - 1),
          hp_Decode = (\<lambda>limit. fst (json_ReadMessage (limited chop limit body)))\<rparr>)"

definition http_exchange ::
  "'v reflection \<Rightarrow> ('v, 'c, 's) registry \<Rightarrow> int \<Rightarrow> 'c \<Rightarrow> (string \<Rightarrow> string list) \<Rightarrow> bool \<Rightarrow> Message \<Rightarrow> 's \<Rightarrow> http_response result \<times> 's" where
  "http_exchange rf registry maxContentLength ctx chop declared msg s =
     (case Message_json msg of
        Inl e \<Rightarrow> (Inl e, s)
      | Inr j \<Rightarrow>
          (case ServeHTTP rf registry maxContentLength ctx (posted chop (json_Marshal j))
                  (\<lambda>resp. fst (json_WriteMessage resp (IOCodec new_rwc))) s of
             (Inl e, s1) \<Rightarrow> (Inl e, s1)
           | (Inr reply, s1) \<Rightarrow> (Inr (replied chop declared reply), s1)))"

text \<open>A limit that a text of this length respects.\<close>
definition within :: "int \<Rightarrow> string \<Rightarrow> bool" where
  "within limit t \<longleftrightarrow> limit \<le> 0 \<or> int (length t) \<le> limit"

lemma limited_read:
  assumes "wire_message m" and "Message_json m = Inr j" and "\<And>s. concat (chop s) = s" and "within limit body"
    and "body = json_Marshal j \<or> body = encoded j"
  shows "fst (json_ReadMessage (limited chop (if 0 < limit then Some limit else None) body)) = Inr m"
proof -
  obtain ms where ms: "j = JObj ms" "un_Message j zero_Message = Inr m"
    using un_Message_json [OF assms(1)] assms(2) by (metis sum.inject(2))
  have body: "(case (if 0 < limit then Some limit else None) of None \<Rightarrow> body | Some n \<Rightarrow> take (nat n) body) = body"
    using assms(4) by (auto simp: within_def)
  have "\<exists>rest. body = json_Marshal j @ rest \<and> list_all json_space rest"
    using assms(5) by (auto simp: encoded_def json_space_def)
  then obtain rest where "scan new_scanner (concat (chop body)) = Done j rest"
    using scan_printed_object [of ms] assms(3) ms(1) by metis
  then obtain p where "read_value new_scanner (map Inr (chop body) @ []) = (Inr j, map Inr p @ [])"
    using read_value_pieces [of new_scanner "chop body" j rest "[]"] ms(1) by auto
  then show ?thesis unfolding limited_def body by (simp add: json_ReadMessage_def IOCodec_def new_rwc_def ms(2))
qed

section \<open>Websockets with Gorilla's library\<close>

text \<open>A connection of the library.\<close>
record 'k gorilla_conn =
  gr_ReadJSON :: "'k \<Rightarrow> Message result \<times> 'k"
  gr_WriteJSON :: "Message \<Rightarrow> 'k \<Rightarrow> unit result \<times> 'k"
  gr_Close :: "'k \<Rightarrow> unit result \<times> 'k"
  gr_RemoteAddr :: "'k \<Rightarrow> string"

definition CloseGoingAway :: int where "CloseGoingAway = 1001"
definition CloseAbnormalClosure :: int where "CloseAbnormalClosure = 1006"

definition overrideEOF :: "(go_error \<Rightarrow> int list \<Rightarrow> bool) \<Rightarrow> 'a result \<Rightarrow> 'a result" where
  "overrideEOF isUnexpectedCloseError r =
     (case r of
        Inr x \<Rightarrow> Inr x
      | Inl err \<Rightarrow> (if isUnexpectedCloseError err [CloseGoingAway, CloseAbnormalClosure] then Inl err else Inl io_EOF))"

definition gorilla_ReadMessage ::
  "(go_error \<Rightarrow> int list \<Rightarrow> bool) \<Rightarrow> 'k gorilla_conn \<Rightarrow> 'k \<Rightarrow> Message result \<times> 'k" where
  "gorilla_ReadMessage isUnexpectedCloseError conn k =
     (case gr_ReadJSON conn k of (r, k1) \<Rightarrow> (overrideEOF isUnexpectedCloseError r, k1))"

definition gorilla_WriteMessage ::
  "(go_error \<Rightarrow> int list \<Rightarrow> bool) \<Rightarrow> 'k gorilla_conn \<Rightarrow> Message \<Rightarrow> 'k \<Rightarrow> unit result \<times> 'k" where
  "gorilla_WriteMessage isUnexpectedCloseError conn msg k =
     (case gr_WriteJSON conn msg k of (r, k1) \<Rightarrow> (overrideEOF isUnexpectedCloseError r, k1))"

definition gorilla_Codec :: "(go_error \<Rightarrow> int list \<Rightarrow> bool) \<Rightarrow> 'k gorilla_conn \<Rightarrow> 'k Codec" where
  "gorilla_Codec isUnexpectedCloseError conn =
     \<lparr>cd_ReadMessage = gorilla_ReadMessage isUnexpectedCloseError conn,
      cd_WriteMessage = gorilla_WriteMessage isUnexpectedCloseError conn, cd_Close = gr_Close conn, cd_RemoteAddr = gr_RemoteAddr conn\<rparr>"

text \<open>Dialing a URL and upgrading a request both wrap the connection that the library returns.\<close>
definition gorilla_WebSocketDial ::
  "(go_error \<Rightarrow> int list \<Rightarrow> bool) \<Rightarrow> (string \<Rightarrow> 'k gorilla_conn result) \<Rightarrow> string \<Rightarrow> 'k Codec result" where
  "gorilla_WebSocketDial isUnexpectedCloseError dial url =
     (case dial url of Inl e \<Rightarrow> Inl e | Inr conn \<Rightarrow> Inr (gorilla_Codec isUnexpectedCloseError conn))"

definition gorilla_Upgrade ::
  "(go_error \<Rightarrow> int list \<Rightarrow> bool) \<Rightarrow> ('q \<Rightarrow> 'k gorilla_conn result) \<Rightarrow> 'q \<Rightarrow> 'k Codec result" where
  "gorilla_Upgrade isUnexpectedCloseError upgrade r =
     (case upgrade r of Inl e \<Rightarrow> Inl e | Inr conn \<Rightarrow> Inr (gorilla_Codec isUnexpectedCloseError conn))"

text \<open>
  What the library documents: a connection takes and delivers whole messages in order, \<^verbatim>\<open>WriteJSON\<close> sends the
  JSON encoding of a value as one and \<^verbatim>\<open>ReadJSON\<close> decodes the next one.
\<close>
locale gorilla_websocket =
  fixes isUnexpectedCloseError :: "go_error \<Rightarrow> int list \<Rightarrow> bool" and conn :: "'k gorilla_conn"
    and carried :: "'k \<Rightarrow> 'k \<Rightarrow> 'k \<times> 'k" and inbox outbox :: "'k \<Rightarrow> string list"
  assumes WriteJSON: "Message_json m = Inr j \<Longrightarrow>
      \<exists>k1. gr_WriteJSON conn m k = (Inr (), k1) \<and> outbox k1 = outbox k @ [encoded j] \<and> inbox k1 = inbox k"
    and ReadJSON: "inbox k = encoded j # ts \<Longrightarrow>
      \<exists>k1. gr_ReadJSON conn k = (un_Message j zero_Message, k1) \<and> inbox k1 = ts \<and> outbox k1 = outbox k"
    and carried: "\<exists>k1 v1. carried k v = (k1, v1) \<and> outbox k1 = [] \<and> inbox k1 = inbox k \<and> inbox v1 = inbox v @ outbox k \<and> outbox v1 = outbox v"

sublocale gorilla_websocket \<subseteq> message_channel "gorilla_Codec isUnexpectedCloseError conn" carried "\<lambda>k. inbox k = [] \<and> outbox k = []"
proof
  fix m k v
  assume wire: "wire_message m" and k: "inbox k = [] \<and> outbox k = []" and v: "inbox v = [] \<and> outbox v = []"
  obtain ms where ms: "Message_json m = Inr (JObj ms)" "un_Message (JObj ms) zero_Message = Inr m"
    by (rule un_Message_json [OF wire])
  obtain k1 where k1: "gr_WriteJSON conn m k = (Inr (), k1)" "outbox k1 = [encoded (JObj ms)]" "inbox k1 = []"
    using WriteJSON [OF ms(1), of k] k by auto
  obtain k2 v1 where c: "carried k1 v = (k2, v1)" "outbox k2 = []" "inbox k2 = []" "inbox v1 = [encoded (JObj ms)]" "outbox v1 = []"
    using carried [of k1 v] k1 v by auto
  obtain v2 where "gr_ReadJSON conn v1 = (Inr m, v2)" "inbox v2 = []" "outbox v2 = []"
    using ReadJSON [OF c(4)] c(5) ms(2) by auto
  then show "\<exists>k1 k2 v1 v2. cd_WriteMessage (gorilla_Codec isUnexpectedCloseError conn) m k = (Inr (), k1) \<and> carried k1 v = (k2, v1) \<and>
      cd_ReadMessage (gorilla_Codec isUnexpectedCloseError conn) v1 = (Inr m, v2) \<and>
      (inbox k2 = [] \<and> outbox k2 = []) \<and> inbox v2 = [] \<and> outbox v2 = []"
    using k1 c by (simp add: gorilla_Codec_def gorilla_WriteMessage_def gorilla_ReadMessage_def overrideEOF_def)
qed

context gorilla_websocket
begin

lemma channel: "message_channel (gorilla_Codec isUnexpectedCloseError conn) carried (\<lambda>k. inbox k = [] \<and> outbox k = [])"
  by (rule message_channel_axioms)

end

text \<open>
  Every error but the closing of the connection with another code comes out as the end of the stream, a message that
  does not parse too.
\<close>
lemma malformed_message_is_EOF:
  assumes "gr_ReadJSON conn k = (Inl err, k1)" and "\<not> isUnexpectedCloseError err [CloseGoingAway, CloseAbnormalClosure]"
  shows "gorilla_ReadMessage isUnexpectedCloseError conn k = (Inl io_EOF, k1)"
  using assms by (simp add: gorilla_ReadMessage_def overrideEOF_def)

section \<open>Websockets with Gobwas' library\<close>

text \<open>The codec on a stream, with the reader and the writer of the library, whose own state is \<open>'f\<close>.\<close>
record 'f gobwas_conn =
  gb_NextFrame :: "jsonCodec \<times> 'f \<Rightarrow> unit result \<times> jsonCodec \<times> 'f"
  gb_Flush :: "jsonCodec \<times> 'f \<Rightarrow> unit result \<times> jsonCodec \<times> 'f"
  gb_RemoteAddr :: string

definition gobwas_ReadMessage :: "'f gobwas_conn \<Rightarrow> jsonCodec \<times> 'f \<Rightarrow> Message result \<times> jsonCodec \<times> 'f" where
  "gobwas_ReadMessage conn kf =
     (case gb_NextFrame conn kf of
        (Inl e, kf1) \<Rightarrow> (Inl e, kf1)
      | (Inr _, (k1, f1)) \<Rightarrow> (case json_ReadMessage k1 of (r, k2) \<Rightarrow> (r, (k2, f1))))"

definition gobwas_WriteMessage :: "'f gobwas_conn \<Rightarrow> Message \<Rightarrow> jsonCodec \<times> 'f \<Rightarrow> unit result \<times> jsonCodec \<times> 'f" where
  "gobwas_WriteMessage conn msg kf =
     (case json_WriteMessage msg (fst kf) of
        (Inl e, k1) \<Rightarrow> (Inl e, (k1, snd kf))
      | (Inr _, k1) \<Rightarrow> gb_Flush conn (k1, snd kf))"

definition gobwas_Close :: "jsonCodec \<times> 'f \<Rightarrow> unit result \<times> jsonCodec \<times> 'f" where
  "gobwas_Close kf = (case json_Close (fst kf) of (r, k1) \<Rightarrow> (r, (k1, snd kf)))"

definition gobwas_Codec :: "'f gobwas_conn \<Rightarrow> (jsonCodec \<times> 'f) Codec" where
  "gobwas_Codec conn =
     \<lparr>cd_ReadMessage = gobwas_ReadMessage conn, cd_WriteMessage = gobwas_WriteMessage conn, cd_Close = gobwas_Close,
      cd_RemoteAddr = (\<lambda>_. gb_RemoteAddr conn)\<rparr>"

text \<open>
  The two sides of a connection differ in the state of the library's reader and writer only (\<open>clientSide\<close>, \<open>serverSide\<close>).
\<close>
definition clientWebSocketCodec :: "('n \<Rightarrow> 'f gobwas_conn) \<Rightarrow> 'n \<Rightarrow> (jsonCodec \<times> 'f) Codec" where
  "clientWebSocketCodec clientSide conn = gobwas_Codec (clientSide conn)"

definition serverWebSocketCodec :: "('n \<Rightarrow> 'f gobwas_conn) \<Rightarrow> 'n \<Rightarrow> (jsonCodec \<times> 'f) Codec" where
  "serverWebSocketCodec serverSide conn = gobwas_Codec (serverSide conn)"

definition gobwas_WebSocketDial ::
  "('n \<Rightarrow> 'f gobwas_conn) \<Rightarrow> (string \<Rightarrow> 'n result) \<Rightarrow> string \<Rightarrow> (jsonCodec \<times> 'f) Codec result" where
  "gobwas_WebSocketDial clientSide dial url =
     (case dial url of Inl e \<Rightarrow> Inl e | Inr conn \<Rightarrow> Inr (clientWebSocketCodec clientSide conn))"

definition gobwas_Upgrade ::
  "('n \<Rightarrow> 'f gobwas_conn) \<Rightarrow> ('q \<Rightarrow> 'n result) \<Rightarrow> 'q \<Rightarrow> (jsonCodec \<times> 'f) Codec result" where
  "gobwas_Upgrade serverSide upgrade r =
     (case upgrade r of Inl e \<Rightarrow> Inl e | Inr conn \<Rightarrow> Inr (serverWebSocketCodec serverSide conn))"

text \<open>
  What the library documents: flushing sends what was written as one message; \<^verbatim>\<open>NextFrame\<close>, called when all of the message before was
  received, lets the reader deliver the next one in pieces. The last piece is assumed to hold more than the newline that ends the text
  (see \<open>newline_left_unread\<close>).
\<close>
locale gobwas_websocket =
  fixes conn :: "'f gobwas_conn" and carried :: "jsonCodec \<times> 'f \<Rightarrow> jsonCodec \<times> 'f \<Rightarrow> (jsonCodec \<times> 'f) \<times> (jsonCodec \<times> 'f)"
    and inbox outbox :: "'f \<Rightarrow> string list"
  assumes Flush: "\<exists>f1. gb_Flush conn (k, f) = (Inr (), (k\<lparr>jc_rwc := (jc_rwc k)\<lparr>rw_writes := []\<rparr>\<rparr>, f1)) \<and>
      outbox f1 = outbox f @ [concat (rw_writes (jc_rwc k))] \<and> inbox f1 = inbox f"
    and NextFrame: "rw_reads (jc_rwc k) = [] \<Longrightarrow> inbox f = encoded j # ts \<Longrightarrow>
      \<exists>pieces f1. gb_NextFrame conn (k, f) = (Inr (), (k\<lparr>jc_rwc := (jc_rwc k)\<lparr>rw_reads := map Inr pieces\<rparr>\<rparr>, f1)) \<and>
        concat pieces = encoded j \<and> [] \<notin> set pieces \<and> [CHR 0x0A] \<notin> set pieces \<and> inbox f1 = ts \<and> outbox f1 = outbox f"
    and carried: "\<exists>f1 g1. carried (k, f) (v, g) = ((k, f1), (v, g1)) \<and> outbox f1 = [] \<and> inbox f1 = inbox f \<and>
      inbox g1 = inbox g @ outbox f \<and> outbox g1 = outbox g"

definition idle_stream :: "jsonCodec \<Rightarrow> bool" where
  "idle_stream k \<longleftrightarrow> rw_reads (jc_rwc k) = [] \<and> rw_writes (jc_rwc k) = [] \<and> rw_writeErr (jc_rwc k) = None"

text \<open>A newline alone, or nothing, is no piece: then all of the text was read.\<close>
lemma nothing_left:
  assumes "suffix p pieces" and "suffix (concat p) [CHR 0x0A]" and "[] \<notin> set pieces" and "[CHR 0x0A] \<notin> set pieces"
  shows "p = []"
proof (cases p)
  case (Cons a q)
  then have "a \<in> set pieces" using assms(1) by (auto simp: suffix_def)
  then have "a \<noteq> []" "a \<noteq> [CHR 0x0A]" using assms(3,4) by auto
  moreover obtain pre where "[CHR 0x0A] = pre @ a @ concat q" using assms(2) Cons by (auto simp: suffix_def)
  ultimately show ?thesis by (auto simp: Cons_eq_append_conv)
qed simp

sublocale gobwas_websocket \<subseteq> message_channel "gobwas_Codec conn" carried
  "\<lambda>kf. idle_stream (fst kf) \<and> inbox (snd kf) = [] \<and> outbox (snd kf) = []"
proof
  fix m kf vg
  assume wire: "wire_message m" and kf: "idle_stream (fst kf) \<and> inbox (snd kf) = [] \<and> outbox (snd kf) = []"
    and vg: "idle_stream (fst vg) \<and> inbox (snd vg) = [] \<and> outbox (snd vg) = []"
  obtain k f v g where st: "kf = (k, f)" "vg = (v, g)" by (cases kf; cases vg)
  obtain ms where ms: "Message_json m = Inr (JObj ms)" by (rule un_Message_json [OF wire])
  let ?t = "encoded (JObj ms)" and ?k = "k\<lparr>jc_rwc := (jc_rwc k)\<lparr>rw_writes := []\<rparr>\<rparr>"
  have written: "json_WriteMessage m k = (Inr (), k\<lparr>jc_rwc := (jc_rwc k)\<lparr>rw_writes := [?t]\<rparr>\<rparr>)"
    using kf st(1) ms by (simp add: json_WriteMessage_def rw_Write_def idle_stream_def)
  obtain f1 where f1: "gb_Flush conn (k\<lparr>jc_rwc := (jc_rwc k)\<lparr>rw_writes := [?t]\<rparr>\<rparr>, f) = (Inr (), (?k, f1))"
      "outbox f1 = [?t]" "inbox f1 = []"
    using Flush [of "k\<lparr>jc_rwc := (jc_rwc k)\<lparr>rw_writes := [?t]\<rparr>\<rparr>" f] kf st(1) by auto
  obtain f2 g1 where c: "carried (?k, f1) (v, g) = ((?k, f2), (v, g1))" "outbox f2 = []" "inbox f2 = []" "inbox g1 = [?t]" "outbox g1 = []"
    using carried [of ?k f1 v g] f1 vg st(2) by auto
  obtain pieces g2 where n: "gb_NextFrame conn (v, g1) = (Inr (), (v\<lparr>jc_rwc := (jc_rwc v)\<lparr>rw_reads := map Inr pieces\<rparr>\<rparr>, g2))"
      "concat pieces = ?t" "[] \<notin> set pieces" "[CHR 0x0A] \<notin> set pieces" "inbox g2 = []" "outbox g2 = []"
    using NextFrame [of v g1, OF _ c(4)] c(5) vg st(2) by (auto simp: idle_stream_def)
  let ?v = "v\<lparr>jc_rwc := (jc_rwc v)\<lparr>rw_reads := map Inr pieces\<rparr>\<rparr>"
  obtain p where p: "suffix p pieces" "suffix (concat p) [CHR 0x0A]"
      "json_ReadMessage ?v = (Inr m, ?v\<lparr>jc_rwc := (jc_rwc ?v)\<lparr>rw_reads := map Inr p @ []\<rparr>\<rparr>)"
    using ReadMessage_pieces [OF wire ms n(2), of "[]" ?v "[]"] by auto
  have "p = []" using nothing_left [OF p(1,2) n(3,4)] .
  then have "gobwas_ReadMessage conn (v, g1) = (Inr m, (v\<lparr>jc_rwc := (jc_rwc v)\<lparr>rw_reads := []\<rparr>\<rparr>, g2))"
    using p(3) n(1) by (simp add: gobwas_ReadMessage_def)
  moreover have "gobwas_WriteMessage conn m (k, f) = (Inr (), (?k, f1))"
    using written f1(1) by (simp add: gobwas_WriteMessage_def)
  moreover have "idle_stream ?k" "idle_stream (v\<lparr>jc_rwc := (jc_rwc v)\<lparr>rw_reads := []\<rparr>\<rparr>)"
    using kf vg st by (simp_all add: idle_stream_def)
  ultimately show "\<exists>k1 k2 v1 v2. cd_WriteMessage (gobwas_Codec conn) m kf = (Inr (), k1) \<and> carried k1 vg = (k2, v1) \<and>
      cd_ReadMessage (gobwas_Codec conn) v1 = (Inr m, v2) \<and>
      (idle_stream (fst k2) \<and> inbox (snd k2) = [] \<and> outbox (snd k2) = []) \<and>
      idle_stream (fst v2) \<and> inbox (snd v2) = [] \<and> outbox (snd v2) = []"
    using c n(5,6) by (force simp: st gobwas_Codec_def)
qed

text \<open>
  The decoder stops at the bracket that ends the message. When the newline comes in a piece of its own, it is left unread, and
  \<^verbatim>\<open>NextFrame\<close> is called before the message was received to its end.
\<close>
lemma newline_left_unread:
  assumes "wire_message m" and "Message_json m = Inr j" and "rw_reads (jc_rwc k) = [Inr (json_Marshal j), Inr [CHR 0x0A]]"
  shows "\<exists>k1. json_ReadMessage k = (Inr m, k1) \<and> rw_reads (jc_rwc k1) = [Inr [CHR 0x0A]]"
proof -
  obtain ms where ms: "j = JObj ms" "un_Message j zero_Message = Inr m"
    using un_Message_json [OF assms(1)] assms(2) by (metis sum.inject(2))
  have "scan new_scanner (json_Marshal j) = Done j []" using scan_printed_object [of ms "[]"] ms(1) by simp
  then show ?thesis using assms(3) ms by (simp add: json_ReadMessage_def)
qed

section \<open>Connections of a queue\<close>

text \<open>A connection that keeps the messages of both directions, for both libraries.\<close>
record queues =
  qs_in :: "string list"
  qs_out :: "string list"

definition queue_carry :: "queues \<Rightarrow> queues \<Rightarrow> queues \<times> queues" where
  "queue_carry k v = (k\<lparr>qs_out := []\<rparr>, v\<lparr>qs_in := qs_in v @ qs_out k\<rparr>)"

definition queue_gorilla :: "queues gorilla_conn" where
  "queue_gorilla =
     \<lparr>gr_ReadJSON = (\<lambda>k. case qs_in k of
          [] \<Rightarrow> (Inl (ErrExternal ''websocket: close 1006''), k)
        | t # ts \<Rightarrow> (case fst (read_value new_scanner [Inr t]) of Inl e \<Rightarrow> Inl e | Inr j \<Rightarrow> un_Message j zero_Message, k\<lparr>qs_in := ts\<rparr>)),
      gr_WriteJSON = (\<lambda>m k. case Message_json m of Inl e \<Rightarrow> (Inl e, k) | Inr j \<Rightarrow> (Inr (), k\<lparr>qs_out := qs_out k @ [encoded j]\<rparr>)),
      gr_Close = (\<lambda>k. (Inr (), k)), gr_RemoteAddr = (\<lambda>_. ''127.0.0.1:8545'')\<rparr>"

definition queue_gobwas :: "queues gobwas_conn" where
  "queue_gobwas =
     \<lparr>gb_NextFrame = (\<lambda>(k, f). case qs_in f of
          [] \<Rightarrow> (Inl io_EOF, (k, f))
        | t # ts \<Rightarrow>
            (Inr (), (k\<lparr>jc_rwc := (jc_rwc k)\<lparr>rw_reads := map Inr [t]\<rparr>\<rparr>, f\<lparr>qs_in := ts\<rparr>))),
      gb_Flush = (\<lambda>(k, f). (Inr (), (k\<lparr>jc_rwc := (jc_rwc k)\<lparr>rw_writes := []\<rparr>\<rparr>,
        f\<lparr>qs_out := qs_out f @ [concat (rw_writes (jc_rwc k))]\<rparr>))),
      gb_RemoteAddr = ''127.0.0.1:8545''\<rparr>"

lemma scan_encoded: "scan new_scanner (encoded j) = Done j [CHR 0x0A]"
proof -
  have "ends_number [CHR 0x0A]" by (simp add: ends_number_def is_digit_def code_def)
  then show ?thesis using scan_Marshal [of j "[CHR 0x0A]" "[]"] by (simp add: encoded_def new_scanner_def resume_simps)
qed

lemma encoded_long: "encoded j \<noteq> []" "encoded j \<noteq> [CHR 0x0A]"
  using printed_begins [of j] by (auto simp: encoded_def)

interpretation queued_gorilla: gorilla_websocket "\<lambda>_ _. False" queue_gorilla queue_carry qs_in qs_out
  by unfold_locales (auto simp: queue_gorilla_def queue_carry_def scan_encoded)

interpretation queued_gobwas: gobwas_websocket queue_gobwas "\<lambda>(k, f) (v, g). case queue_carry f g of (f1, g1) \<Rightarrow> ((k, f1), (v, g1))" qs_in qs_out
  by unfold_locales (auto simp: queue_gobwas_def queue_carry_def encoded_long encoded_long [symmetric] intro!: exI [of _ "[t]" for t])

section \<open>Properties\<close>


definition demo_calls :: "(schedule \<times> string \<times> json list) list" where
  "demo_calls =
     [(\<lparr>sd_chop = chop512, sd_early = True, sd_ord = sorted_list_of_fset, sd_now = 10\<rparr>, ''c_add'', [JNum 3]),
      (\<lparr>sd_chop = map (\<lambda>c. [c]), sd_early = False, sd_ord = sorted_list_of_fset, sd_now = 20\<rparr>, ''c_add'', [JNum 4]),
      (\<lparr>sd_chop = (\<lambda>s. [s]), sd_early = True, sd_ord = sorted_list_of_fset, sd_now = 30\<rparr>, ''c_reset'', [])]"






end
