(* ===== verification/Pool_Wire.thy ===== *)
theory Pool_Wire
  imports Pool_Rpc Json_Codec
begin

text \<open>
  The responses of the pool on the wire (\<^verbatim>\<open>pool/pool.go\<close>, \<^verbatim>\<open>pool/store/store.go\<close>): the JSON forms that the tags of their structs
  give, and how the remote pool reads them back. The text of a time is a parameter, of which it is assumed that reading undoes
  printing. The last lemmas make the calls of a remote pool the calls of the handlers, with nothing assumed of the responses.
\<close>

section \<open>Printing\<close>

text \<open>How the library prints and reads a time.\<close>
record time_text =
  tt_Marshal :: "time \<Rightarrow> string"
  tt_Unmarshal :: "string \<Rightarrow> time option"

definition reads_back :: "time_text \<Rightarrow> bool" where
  "reads_back T \<longleftrightarrow> (\<forall>t. tt_Unmarshal T (tt_Marshal T t) = Some t)"

text \<open>Fields without a tag keep their names.\<close>
definition Node_json :: "time_text \<Rightarrow> node \<Rightarrow> json" where
  "Node_json T n = JObj [(''ID'', JStr (n_ID n)), (''uri'', JStr (n_URI n)), (''last_seen'', JStr (tt_Marshal T (n_LastSeen n))),
     (''kind'', JStr (n_Kind n)), (''IsHost'', JBool (n_IsHost n)), (''Payout'', JStr (n_Payout n)),
     (''block_number'', JNum (uint (n_BlockNumber n))), (''node_version'', JStr (n_NodeVersion n)),
     (''vipnode_version'', JStr (n_VipnodeVersion n))]"

text \<open>A time is a struct and never empty.\<close>
definition Balance_json :: "time_text \<Rightarrow> balance \<Rightarrow> json" where
  "Balance_json T b = JObj (omitempty_str ''account'' (b_Account b) @
     [(''deposit'', JNum (b_Deposit b)), (''credit'', JNum (b_Credit b)), (''next_withdraw'', JStr (tt_Marshal T (b_NextWithdraw b)))])"

definition ConnectResponse_json :: "time_text \<Rightarrow> ConnectResponse \<Rightarrow> json" where
  "ConnectResponse_json T r = JObj ([(''pool_version'', JStr (cs_PoolVersion r))] @
     (if cs_Hosts r = [] then [] else [(''hosts'', JArr (map (Node_json T) (cs_Hosts r)))]) @
     omitempty_str ''message'' (cs_Message r))"

definition HostResponse_json :: "HostResponse \<Rightarrow> json" where
  "HostResponse_json r = JObj [(''pool_version'', JStr (hs_PoolVersion r))]"

definition ClientResponse_json :: "time_text \<Rightarrow> ClientResponse \<Rightarrow> json" where
  "ClientResponse_json T r = JObj ([(''hosts'', JArr (map (Node_json T) (ls_Hosts r))), (''pool_version'', JStr (ls_PoolVersion r))] @
     omitempty_str ''message'' (ls_Message r))"

definition UpdateResponse_json :: "time_text \<Rightarrow> UpdateResponse \<Rightarrow> json" where
  "UpdateResponse_json T r = JObj ((case us_Balance r of None \<Rightarrow> [] | Some b \<Rightarrow> [(''balance'', Balance_json T b)]) @
     [(''invalid_peers'', JArr (map JStr (us_InvalidPeers r))), (''active_peers'', JArr (map JStr (us_ActivePeers r))),
      (''latest_block_number'', JNum (uint (us_LatestBlockNumber r)))])"

definition PeerResponse_json :: "time_text \<Rightarrow> PeerResponse \<Rightarrow> json" where
  "PeerResponse_json T r = JObj [(''peers'', JArr (map (Node_json T) (ps_Peers r)))]"

text \<open>The values that handlers return.\<close>
definition pool_marshal :: "time_text \<Rightarrow> pool_value \<Rightarrow> json result" where
  "pool_marshal T v =
     (case v of
        GStr s \<Rightarrow> Inr (JStr s)
      | Pool_Rpc.GInt i \<Rightarrow> Inr (JNum i)
      | GConnectResp r \<Rightarrow> Inr (ConnectResponse_json T r)
      | GHostResp r \<Rightarrow> Inr (HostResponse_json r)
      | GClientResp r \<Rightarrow> Inr (ClientResponse_json T r)
      | GUpdateResp r \<Rightarrow> Inr (UpdateResponse_json T r)
      | GPeerResp r \<Rightarrow> Inr (PeerResponse_json T r)
      | GConnectReq r \<Rightarrow> Inr (ConnectRequest_json r)
      | GHostReq r \<Rightarrow> Inr (HostRequest_json r)
      | GClientReq r \<Rightarrow> Inr (ClientRequest_json r)
      | GUpdateReq r \<Rightarrow> Inr (UpdateRequest_json r)
      | GPeerReq r \<Rightarrow> Inr (PeerRequest_json r)
      | GService _ \<Rightarrow> Inr JNull
      | GNilPointer \<Rightarrow> Inr JNull)"

section \<open>Reading\<close>

definition un_time :: "time_text \<Rightarrow> time decoder" where
  "un_time T j t =
     (case j of
        JNull \<Rightarrow> Inr t
      | JStr s \<Rightarrow> (case tt_Unmarshal T s of None \<Rightarrow> Inl (ErrExternal ''parsing time'') | Some u \<Rightarrow> Inr u)
      | _ \<Rightarrow> Inl (ErrExternal ''parsing time''))"

definition un_big :: "int decoder" where
  "un_big j i = (case j of JNull \<Rightarrow> Inr i | JNum n \<Rightarrow> Inr n | _ \<Rightarrow> Inl (ErrExternal ''math/big: cannot unmarshal into a *big.Int''))"

text \<open>A slice as a list: nil and empty are the same.\<close>
definition un_list :: "'a decoder \<Rightarrow> 'a \<Rightarrow> 'a list decoder" where
  "un_list d z j xs =
     (case un_slice d z j (Some xs) of Inl e \<Rightarrow> Inl e | Inr None \<Rightarrow> Inr [] | Inr (Some ys) \<Rightarrow> Inr ys)"

definition un_Node :: "time_text \<Rightarrow> node decoder" where
  "un_Node T = un_struct
     [fld ''ID'' n_ID n_ID_update un_string, fld ''uri'' n_URI n_URI_update un_string,
      fld ''last_seen'' n_LastSeen n_LastSeen_update (un_time T), fld ''kind'' n_Kind n_Kind_update un_string,
      fld ''IsHost'' n_IsHost n_IsHost_update un_bool, fld ''Payout'' n_Payout n_Payout_update un_string,
      fld ''block_number'' n_BlockNumber n_BlockNumber_update un_uint64,
      fld ''node_version'' n_NodeVersion n_NodeVersion_update un_string,
      fld ''vipnode_version'' n_VipnodeVersion n_VipnodeVersion_update un_string]"

definition un_Balance :: "time_text \<Rightarrow> balance decoder" where
  "un_Balance T = un_struct
     [fld ''account'' b_Account b_Account_update un_string, fld ''deposit'' b_Deposit b_Deposit_update un_big,
      fld ''credit'' b_Credit b_Credit_update un_big, fld ''next_withdraw'' b_NextWithdraw b_NextWithdraw_update (un_time T)]"

definition un_ConnectResponse :: "time_text \<Rightarrow> ConnectResponse decoder" where
  "un_ConnectResponse T = un_struct
     [fld ''pool_version'' cs_PoolVersion cs_PoolVersion_update un_string,
      fld ''hosts'' cs_Hosts cs_Hosts_update (un_list (un_Node T) zero_node),
      fld ''message'' cs_Message cs_Message_update un_string]"

definition un_HostResponse :: "HostResponse decoder" where
  "un_HostResponse = un_struct [fld ''pool_version'' hs_PoolVersion hs_PoolVersion_update un_string]"

definition un_ClientResponse :: "time_text \<Rightarrow> ClientResponse decoder" where
  "un_ClientResponse T = un_struct
     [fld ''hosts'' ls_Hosts ls_Hosts_update (un_list (un_Node T) zero_node),
      fld ''pool_version'' ls_PoolVersion ls_PoolVersion_update un_string,
      fld ''message'' ls_Message ls_Message_update un_string]"

definition un_UpdateResponse :: "time_text \<Rightarrow> UpdateResponse decoder" where
  "un_UpdateResponse T = un_struct
     [fld ''balance'' us_Balance us_Balance_update (un_pointer (un_Balance T) zero_balance),
      fld ''invalid_peers'' us_InvalidPeers us_InvalidPeers_update (un_list un_string ''''),
      fld ''active_peers'' us_ActivePeers us_ActivePeers_update (un_list un_string ''''),
      fld ''latest_block_number'' us_LatestBlockNumber us_LatestBlockNumber_update un_uint64]"

definition un_PeerResponse :: "time_text \<Rightarrow> PeerResponse decoder" where
  "un_PeerResponse T = un_struct [fld ''peers'' ps_Peers ps_Peers_update (un_list (un_Node T) zero_node)]"

definition pool_decoders :: "time_text \<Rightarrow> response_decoders" where
  "pool_decoders T =
     \<lparr>dec_Host = un_HostResponse, dec_Client = un_ClientResponse T, dec_Connect = un_ConnectResponse T,
      dec_Update = un_UpdateResponse T, dec_Peer = un_PeerResponse T\<rparr>"

section \<open>Reading undoes printing\<close>

lemmas response_fields = un_struct_def fld_def ToLower_def is_upper_def code_def omitempty_str_def

lemma un_time_text: "reads_back T \<Longrightarrow> un_time T (JStr (tt_Marshal T t)) z = Inr t"
  by (simp add: un_time_def reads_back_def)

lemma un_list_map:
  assumes "\<And>x. x \<in> set xs \<Longrightarrow> d (f x) z = Inr x"
  shows "un_list d z (JArr (map f xs)) ys = Inr xs"
  using un_slice_json [of "Some xs" d f z "Some ys"] assms by (simp add: un_list_def json_slice_def)

lemma un_Node_json: "reads_back T \<Longrightarrow> un_Node T (Node_json T n) zero_node = Inr n"
  by (simp add: un_Node_def Node_json_def response_fields un_time_text un_bool_def)

lemma un_Balance_json: "reads_back T \<Longrightarrow> un_Balance T (Balance_json T b) zero_balance = Inr b"
  by (simp add: un_Balance_def Balance_json_def response_fields un_time_text un_big_def zero_balance_def)

lemma un_nodes: "reads_back T \<Longrightarrow> un_list (un_Node T) zero_node (JArr (map (Node_json T) ns)) ys = Inr ns"
  by (rule un_list_map) (rule un_Node_json)

lemma un_strings: "un_list un_string '''' (JArr (map JStr ss)) ys = Inr ss"
  by (rule un_list_map) simp

lemma un_ConnectResponse_json:
  "reads_back T \<Longrightarrow> un_ConnectResponse T (ConnectResponse_json T r) \<lparr>cs_PoolVersion = '''', cs_Hosts = [], cs_Message = ''''\<rparr> = Inr r"
  by (simp add: un_ConnectResponse_def ConnectResponse_json_def response_fields un_nodes)

lemma un_ClientResponse_json:
  "reads_back T \<Longrightarrow> un_ClientResponse T (ClientResponse_json T r) \<lparr>ls_Hosts = [], ls_PoolVersion = '''', ls_Message = ''''\<rparr> = Inr r"
  by (simp add: un_ClientResponse_def ClientResponse_json_def response_fields un_nodes)

lemma un_HostResponse_json: "un_HostResponse (HostResponse_json r) z = Inr r"
  by (simp add: un_HostResponse_def HostResponse_json_def response_fields)

lemma un_PeerResponse_json: "reads_back T \<Longrightarrow> un_PeerResponse T (PeerResponse_json T r) z = Inr r"
  by (simp add: un_PeerResponse_def PeerResponse_json_def response_fields un_nodes)

lemma un_UpdateResponse_json:
  assumes "reads_back T"
  shows "un_UpdateResponse T (UpdateResponse_json T r)
    \<lparr>us_Balance = None, us_InvalidPeers = [], us_ActivePeers = [], us_LatestBlockNumber = 0\<rparr> = Inr r"
proof -
  have "Balance_json T b \<noteq> JNull" for b by (simp add: Balance_json_def)
  then show ?thesis
    by (cases "us_Balance r")
      (simp_all add: un_UpdateResponse_def UpdateResponse_json_def response_fields un_strings un_pointer_def un_Balance_json [OF assms])
qed

text \<open>Together: the response of a handler reaches its caller.\<close>
lemma responses_survive:
  assumes "reads_back T"
  shows "\<exists>j. pool_marshal T (GConnectResp x) = Inr j \<and> j \<noteq> JNull \<and>
      un_ConnectResponse T j \<lparr>cs_PoolVersion = '''', cs_Hosts = [], cs_Message = ''''\<rparr> = Inr x"
    "\<exists>j. pool_marshal T (GUpdateResp y) = Inr j \<and> j \<noteq> JNull \<and>
      un_UpdateResponse T j \<lparr>us_Balance = None, us_InvalidPeers = [], us_ActivePeers = [], us_LatestBlockNumber = 0\<rparr> = Inr y"
    "\<exists>j. pool_marshal T (GPeerResp z) = Inr j \<and> j \<noteq> JNull \<and> un_PeerResponse T j \<lparr>ps_Peers = []\<rparr> = Inr z"
proof -
  have "ConnectResponse_json T x \<noteq> JNull" "UpdateResponse_json T y \<noteq> JNull" "PeerResponse_json T z \<noteq> JNull"
    by (simp_all add: ConnectResponse_json_def UpdateResponse_json_def PeerResponse_json_def)
  then show "\<exists>j. pool_marshal T (GConnectResp x) = Inr j \<and> j \<noteq> JNull \<and>
      un_ConnectResponse T j \<lparr>cs_PoolVersion = '''', cs_Hosts = [], cs_Message = ''''\<rparr> = Inr x"
    "\<exists>j. pool_marshal T (GUpdateResp y) = Inr j \<and> j \<noteq> JNull \<and>
      un_UpdateResponse T j \<lparr>us_Balance = None, us_InvalidPeers = [], us_ActivePeers = [], us_LatestBlockNumber = 0\<rparr> = Inr y"
    "\<exists>j. pool_marshal T (GPeerResp z) = Inr j \<and> j \<noteq> JNull \<and> un_PeerResponse T j \<lparr>ps_Peers = []\<rparr> = Inr z"
    by (simp_all add: pool_marshal_def un_ConnectResponse_json [OF assms] un_UpdateResponse_json [OF assms] un_PeerResponse_json [OF assms])
qed

end
