(* ===== verification/Fake_Cluster.thy ===== *)
theory Fake_Cluster
  imports Pool_Wire Agent Fake_Node Pool_Correctness Pool_Endpoints
begin

text \<open>
  The cluster of the tests (\<^verbatim>\<open>internal/fakecluster\<close>): a pool, and host and client agents on fake nodes, each
  connected to the pool over a pipe of its own. It puts the parts of the program together: agents call the pool through the signing
  client, the JSON-RPC server and reflection, and the pool calls the agents of hosts back to have them whitelist a client.

  The world is the pool, the fake node behind each connection, the methods that the agent's end of each connection serves, the
  counter of each agent's requests and the number of readings of the clock so far. A connection is its number, in the
  order they are made. A call over a pipe is the call without transport (see \<open>calls_over_pipe\<close> in \<open>Json_Channel\<close>).
\<close>

section \<open>The world\<close>

record 's cluster_world =
  cw_pool :: "'s pool"
  cw_nodes :: "FakeNode list"
  cw_servers :: "(pool_value, unit, FakeNode) registry list"
  cw_counters :: "Json_Rpc.client list"
  cw_readings :: nat

text \<open>
  What a run depends on: the configuration of the pool, the readings of the clock, orders of visits and arrivals by the number of
  readings, how times are printed and read, and the node ID of a key.
\<close>
record 's cluster_setting =
  cl_cfg :: "'s pool_config"
  cl_clock :: "nat \<Rightarrow> time"
  cl_ord :: "nat \<Rightarrow> nat \<Rightarrow> iter_order"
  cl_arrival :: "nat \<Rightarrow> nat \<Rightarrow> nat list"
  cl_time :: time_text
  cl_pubkeyID :: "string \<Rightarrow> string"

text \<open>The node of a connection, as the node of its agent.\<close>
definition at_node :: "nat \<Rightarrow> (FakeNode \<Rightarrow> 'a \<times> FakeNode) \<Rightarrow> 's cluster_world \<Rightarrow> 'a \<times> 's cluster_world" where
  "at_node i f w = (case f (cw_nodes w ! i) of (r, n) \<Rightarrow> (r, w\<lparr>cw_nodes := (cw_nodes w)[i := n]\<rparr>))"

definition node_at :: "nat \<Rightarrow> 's cluster_world EthNode" where
  "node_at i =
     \<lparr>Kind = (\<lambda>w. fn_NodeKind (cw_nodes w ! i)), Node_UserAgent = (\<lambda>w. fake_UserAgent (cw_nodes w ! i)), Enode = at_node i fake_Enode,
      AddTrustedPeer = (\<lambda>x. at_node i (fake_AddTrustedPeer x)), RemoveTrustedPeer = (\<lambda>x. at_node i (fake_RemoveTrustedPeer x)),
      ConnectPeer = (\<lambda>x. at_node i (fake_ConnectPeer x)), DisconnectPeer = (\<lambda>x. at_node i (fake_DisconnectPeer x)),
      Peers = at_node i fake_Peers, BlockNumber = at_node i fake_BlockNumber\<rparr>"

section \<open>Agents\<close>

definition zero_Agent :: "'w EthNode \<Rightarrow> 'w Agent" where
  "zero_Agent N =
     \<lparr>a_EthNode = N, a_NodeURI = '''', a_Version = '''', a_BalanceCallback = None, a_PoolMessageCallback = None,
      a_BlockNumberCallback = None, a_NumHosts = 0, a_Payout = '''', a_UpdateInterval = 0, a_StrictPeers = False,
      a_started = False, a_nodeInfo = zero_UserAgent\<rparr>"

definition host_uri :: "string \<Rightarrow> string" where
  "host_uri nodeID = ''enode://'' @ nodeID @ ''@127.0.0.1:30303''"

definition host_agent :: "'w EthNode \<Rightarrow> string \<Rightarrow> 'w Agent" where
  "host_agent N nodeID = (zero_Agent N)\<lparr>a_NodeURI := host_uri nodeID, a_Payout := ''''\<rparr>"

definition client_agent :: "'w EthNode \<Rightarrow> 'w Agent" where
  "client_agent N = (zero_Agent N)\<lparr>a_NumHosts := 3\<rparr>"

text \<open>An agent as the receiver of the one method that is registered.\<close>
definition whitelist_method :: "'w Agent \<Rightarrow> (pool_value, unit, 'w) go_method" where
  "whitelist_method a =
     \<lparr>gm_Name = ''Whitelist'', gm_PkgPath = '''',
      gm_In = [GoPtr (GoNamed ''Agent'' ''github.com/vipnode/vipnode/v2/agent''), typeOfContext, string_type],
      gm_Out = [typeOfError],
      gm_Func = (\<lambda>_ args w.
        case args of
          [GStr nodeID] \<Rightarrow> (case Whitelist a nodeID w of (Inl e, w1) \<Rightarrow> (Inr [ReplyError (Some e)], w1) | (Inr _, w1) \<Rightarrow> (Inr [ReplyError None], w1))
        | _ \<Rightarrow> (Inl (GoPanic ''reflect: wrong argument type''), w))\<rparr>"

definition agent_receiver :: "'w Agent \<Rightarrow> (pool_value, unit, 'w) receiver" where
  "agent_receiver a = \<lparr>rc_TypeName = ''Agent'', rc_Methods = [whitelist_method a]\<rparr>"

section \<open>Calls in both directions\<close>

text \<open>A call of the pool to the agent at the other end of a connection.\<close>
definition agent_Call ::
  "'s cluster_setting \<Rightarrow> 's cluster_world \<Rightarrow> nat \<Rightarrow> string \<Rightarrow> string \<Rightarrow> FakeNode \<Rightarrow> unit result \<times> FakeNode" where
  "agent_Call R w i method arg n =
     (case Local_Call (pool_reflection (pool_marshal (cl_time R))) (cw_servers w ! i) () Inr method [JStr arg] (0, n) of
        (r, (_, n1)) \<Rightarrow> (map_sum id (\<lambda>_. ()) r, n1))"

text \<open>What the pool reads from outside while it handles a call that came in on a connection.\<close>
definition cluster_env :: "'s cluster_setting \<Rightarrow> nat \<Rightarrow> 's cluster_world \<Rightarrow> env" where
  "cluster_env R i w =
     \<lparr>e_clock = (\<lambda>k. cl_clock R (cw_readings w + 1 + k)), e_ord = cl_ord R (cw_readings w), e_service = Some i, e_RemoteAddr = Some '''',
      e_Call = (\<lambda>svc method arg. fst (agent_Call R w svc method arg (cw_nodes w ! svc))), e_arrival = cl_arrival R (cw_readings w)\<rparr>"

text \<open>The effect of the calls to agents, in the order they are started.\<close>
fun deliver :: "'s cluster_setting \<Rightarrow> (service \<times> string \<times> string) list \<Rightarrow> 's cluster_world \<Rightarrow> 's cluster_world" where
  "deliver R [] w = w"
| "deliver R ((svc, method, arg) # calls) w = deliver R calls (snd (at_node svc (agent_Call R w svc method arg) w))"

definition pool_registry :: "'s cluster_setting \<Rightarrow> unit result \<times> (pool_value, env, 's pool) registry" where
  "pool_registry R = Register (cl_ord R 0 0) ''vipnode_'' (pool_receiver (cl_cfg R)) [] fmempty"

text \<open>The world after a call of an agent to the pool, which takes a number of readings of the clock.\<close>
definition after_call ::
  "'s cluster_setting \<Rightarrow> nat \<Rightarrow> Json_Rpc.client \<Rightarrow> 's pool \<Rightarrow> 's cluster_world \<Rightarrow> 's cluster_world" where
  "after_call R i c p w =
     deliver R (drop (length (p_sent (cw_pool w))) (p_sent p))
       (w\<lparr>cw_pool := p, cw_counters := (cw_counters w)[i := c], cw_readings := cw_readings w + 32\<rparr>)"

definition pool_Call ::
  "'s cluster_setting \<Rightarrow> nat \<Rightarrow> string \<Rightarrow> json list \<Rightarrow> 's cluster_world \<Rightarrow> json option result \<times> 's cluster_world" where
  "pool_Call R i method args w =
     (case Local_Call (pool_reflection (pool_marshal (cl_time R))) (snd (pool_registry R)) (cluster_env R i w) Inr method args
             (cw_counters w ! i, cw_pool w) of
        (r, (c, p)) \<Rightarrow> (r, after_call R i c p w))"

definition cluster_pool :: "'s cluster_setting \<Rightarrow> nat \<Rightarrow> string \<Rightarrow> 's cluster_world Pool" where
  "cluster_pool R i key =
     remote_Pool (pool_Remote (pc_crypto (cl_cfg R)) (\<lambda>w. cl_clock R (cw_readings w)) (cl_pubkeyID R) \<lparr>Call = pool_Call R i\<rparr> key)
       (pool_decoders (cl_time R))"

section \<open>The cluster\<close>

record 's clusterAgent =
  ca_Agent :: "'s cluster_world Agent"
  ca_conn :: nat
  ca_RemotePool :: "'s cluster_world Pool"
  ca_Key :: string

record 's Cluster =
  cl_Clients :: "'s clusterAgent list"
  cl_Hosts :: "'s clusterAgent list"

definition new_connection_world ::
  "FakeNode \<Rightarrow> (pool_value, unit, FakeNode) registry \<Rightarrow> 's cluster_world \<Rightarrow> 's cluster_world" where
  "new_connection_world n srv w =
     w\<lparr>cw_nodes := cw_nodes w @ [n], cw_servers := cw_servers w @ [srv], cw_counters := cw_counters w @ [0]\<rparr>"

text \<open>One round of the loop over the keys of hosts.\<close>
definition New_host :: "'s cluster_setting \<Rightarrow> string \<Rightarrow> 's cluster_world \<Rightarrow> 's clusterAgent result \<times> 's cluster_world" where
  "New_host R hostKey w =
     (case fst (pool_registry R) of
        Inl e \<Rightarrow> (Inl e, w)
      | Inr _ \<Rightarrow>
          (let i = length (cw_nodes w); hostNodeID = cl_pubkeyID R hostKey; h = host_agent (node_at i) hostNodeID
           in case RegisterMethod ''vipnode_whitelist'' (agent_receiver (host_agent fake_EthNode hostNodeID)) ''Whitelist'' fmempty of
                (Inl e, _) \<Rightarrow> (Inl e, w)
              | (Inr _, srv) \<Rightarrow>
                  (let hostPool = cluster_pool R i hostKey
                   in case Start h hostPool (new_connection_world (fake_Node hostNodeID) srv w) of
                        (Inl e, _, w1) \<Rightarrow> (Inl e, w1)
                      | (Inr _, h1, w1) \<Rightarrow> (Inr \<lparr>ca_Agent = h1, ca_conn = i, ca_RemotePool = hostPool, ca_Key = hostKey\<rparr>, w1))))"

text \<open>One round of the loop over the keys of clients; the error of \<^verbatim>\<open>Register\<close> is not looked at.\<close>
definition New_client :: "'s cluster_setting \<Rightarrow> string \<Rightarrow> 's cluster_world \<Rightarrow> 's clusterAgent result \<times> 's cluster_world" where
  "New_client R clientKey w =
     (let i = length (cw_nodes w); clientNodeID = cl_pubkeyID R clientKey; c = client_agent (node_at i);
          clientPool = cluster_pool R i clientKey
      in case Start c clientPool (new_connection_world ((fake_Node clientNodeID)\<lparr>fn_IsFullNode := False\<rparr>) fmempty w) of
           (Inl e, _, w1) \<Rightarrow> (Inl e, w1)
         | (Inr _, c1, w1) \<Rightarrow> (Inr \<lparr>ca_Agent = c1, ca_conn = i, ca_RemotePool = clientPool, ca_Key = clientKey\<rparr>, w1))"

fun New_agents ::
  "(string \<Rightarrow> 's cluster_world \<Rightarrow> 's clusterAgent result \<times> 's cluster_world) \<Rightarrow> string list \<Rightarrow> 's cluster_world
     \<Rightarrow> 's clusterAgent list result \<times> 's cluster_world" where
  "New_agents f [] w = (Inr [], w)"
| "New_agents f (key # keys) w =
     (case f key w of
        (Inl e, w1) \<Rightarrow> (Inl e, w1)
      | (Inr a, w1) \<Rightarrow>
          (case New_agents f keys w1 of (Inl e, w2) \<Rightarrow> (Inl e, w2) | (Inr as, w2) \<Rightarrow> (Inr (a # as), w2)))"

definition cluster_New ::
  "'s cluster_setting \<Rightarrow> string list \<Rightarrow> string list \<Rightarrow> 's cluster_world \<Rightarrow> 's Cluster result \<times> 's cluster_world" where
  "cluster_New R hostKeys clientKeys w =
     (case New_agents (New_host R) hostKeys w of
        (Inl e, w1) \<Rightarrow> (Inl e, w1)
      | (Inr hosts, w1) \<Rightarrow>
          (case New_agents (New_client R) clientKeys w1 of
             (Inl e, w2) \<Rightarrow> (Inl e, w2)
           | (Inr clients, w2) \<Rightarrow> (Inr \<lparr>cl_Clients = clients, cl_Hosts = hosts\<rparr>, w2)))"

definition start_world :: "'s pool \<Rightarrow> 's cluster_world" where
  "start_world p = \<lparr>cw_pool = p, cw_nodes = [], cw_servers = [], cw_counters = [], cw_readings = 0\<rparr>"

fun update_agents :: "'s clusterAgent list \<Rightarrow> 's cluster_world \<Rightarrow> unit result \<times> 's cluster_world" where
  "update_agents [] w = (Inr (), w)"
| "update_agents (a # as) w =
     (case UpdatePeers (ca_Agent a) (ca_RemotePool a) w of
        (Inl e, w1) \<Rightarrow> (Inl e, w1)
      | (Inr _, w1) \<Rightarrow> update_agents as w1)"

definition cluster_Update :: "'s Cluster \<Rightarrow> 's cluster_world \<Rightarrow> unit result \<times> 's cluster_world" where
  "cluster_Update c w = update_agents (cl_Hosts c @ cl_Clients c) w"

text \<open>
  Closing. What closing each end of a pipe returns, and what the serving goroutine of each agent had sent when it is waited for, are
  arguments. Stopping an agent changes none of the state here.
\<close>
definition result_errors :: "unit result \<Rightarrow> go_error list" where
  "result_errors r = (case r of Inl e \<Rightarrow> [e] | Inr _ \<Rightarrow> [])"

fun close_hosts :: "(nat \<Rightarrow> unit result) \<Rightarrow> 's clusterAgent list \<Rightarrow> 's pool \<Rightarrow> go_error list \<times> 's pool" where
  "close_hosts waited [] p = ([], p)"
| "close_hosts waited (h # hs) p =
     (case CloseRemote (ca_conn h) p of
        (r, p1) \<Rightarrow> (case close_hosts waited hs p1 of (es, p2) \<Rightarrow> (result_errors r @ result_errors (waited (ca_conn h)) @ es, p2)))"

definition cluster_Close ::
  "(nat \<Rightarrow> bool \<Rightarrow> unit result) \<Rightarrow> (nat \<Rightarrow> unit result) \<Rightarrow> 's Cluster \<Rightarrow> 's pool \<Rightarrow> (go_error list + unit) \<times> 's pool" where
  "cluster_Close closed waited c p =
     (let pipes = concat (map (\<lambda>a. result_errors (closed (ca_conn a) False) @ result_errors (closed (ca_conn a) True)) (cl_Hosts c @ cl_Clients c));
          (hosts, p1) = close_hosts waited (cl_Hosts c) p;
          clients = concat (map (\<lambda>a. result_errors (waited (ca_conn a))) (cl_Clients c));
          errors = pipes @ hosts @ clients
      in (if errors \<noteq> [] then Inl errors else Inr (), p1))"

definition CloseErrors_Error :: "go_error list \<Rightarrow> string" where
  "CloseErrors_Error e =
     (if e = [] then ''no close errors''
      else ''failed to close with '' @ nat_digits (length e) @ '' errors: '' @ separated ''; '' (map error_text e))"

section \<open>The pool behind the cluster\<close>

text \<open>Hosts are stored under the URI of their own ID.\<close>
definition hosts_named :: "memoryStore \<Rightarrow> bool" where
  "hosts_named s \<longleftrightarrow> (\<forall>i nd. fmlookup (ms_nodes s) i = Some nd \<longrightarrow> n_IsHost (mn_Node nd) \<longrightarrow>
     n_URI (mn_Node nd) = host_uri i \<and> plain_id i \<and> i \<noteq> '''')"

lemma hosts_named_same: "ms_nodes s' = ms_nodes s \<Longrightarrow> hosts_named s' = hosts_named s"
  by (simp add: hosts_named_def)

lemma host_uri_plain:
  assumes "plain_id i" and "i \<noteq> ''''"
  shows "host_uri i = enode_uri i ''127.0.0.1'' ''30303''"
    and "normalizeNodeURI (host_uri i) i h p = Inr (host_uri i)"
    and "\<exists>u. ParseNodeURI (host_uri i) = Inr u \<and> NodeURI_ID u = i"
proof -
  have plain: "plain_host ''127.0.0.1''" "plain_port ''30303''" by code_simp+
  have "url_escape EncodeUserPassword i = i" using assms(1) by (rule parseUserinfo_plain(2))
  moreover have "url_escape EncodeHost ''127.0.0.1:30303'' = ''127.0.0.1:30303''" by code_simp
  ultimately show uri: "host_uri i = enode_uri i ''127.0.0.1'' ''30303''" by (simp add: host_uri_def url_String_def)
  from normalize_keeps_public_uri [OF assms(1) plain assms(2), of h p]
  show "normalizeNodeURI (host_uri i) i h p = Inr (host_uri i)" "\<exists>u. ParseNodeURI (host_uri i) = Inr u \<and> NodeURI_ID u = i"
    unfolding uri by auto
qed

text \<open>Balances are kept apart from nodes.\<close>
lemma mem_balance_nodes:
  "ms_nodes (snd (mem_AddNodeBalance i c s)) = ms_nodes s"
  by (simp add: mem_AddNodeBalance_def Let_def split: option.split)

lemma mem_credit_nodes: "ms_nodes (snd (credit_peers mem_Store c peers t s)) = ms_nodes s"
  by (induction peers arbitrary: t s) (simp_all add: split_beta mem_Store_def mem_balance_nodes)

lemma mem_charge_nodes: "ms_nodes (snd (charge_client mem_Store clk n t s)) = ms_nodes s"
  using mem_balance_nodes [of "n_ID n" "- t" s]
  by (simp add: charge_client_def mem_Store_def split_beta split: sum.splits)

lemma mem_manager_nodes:
  "ms_nodes (snd (OnClient (pc_Manager (mem_cfg cfg pay)) clk n s)) = ms_nodes s"
  "ms_nodes (snd (OnUpdate (pc_Manager (mem_cfg cfg pay)) clk n peers s)) = ms_nodes s"
proof -
  have get: "snd (GetNodeBalance mem_Store now i s) = s" for now i s by (simp add: mem_Store_def)
  show "ms_nodes (snd (OnClient (pc_Manager (mem_cfg cfg pay)) clk n s)) = ms_nodes s"
    by (simp add: NoBalance_def NoBalance_OnClient_def pay_Manager_def pay_OnClient_def Let_def split_beta get split: option.splits sum.splits)
  show "ms_nodes (snd (OnUpdate (pc_Manager (mem_cfg cfg pay)) clk n peers s)) = ms_nodes s"
    using mem_credit_nodes mem_charge_nodes
    by (auto simp: NoBalance_def NoBalance_OnUpdate_def pay_Manager_def pay_OnUpdate_def Let_def split_beta get split: option.splits)
qed

lemma on_store_frame:
  "on_store f p = (r, p') \<Longrightarrow> p_Store p' = snd (f (p_Store p)) \<and> p_remoteHosts p' = p_remoteHosts p \<and> p_sent p' = p_sent p"
  by (auto simp: on_store_def split_beta Let_def)

lemma verify_frame:
  "pool_verify (mem_cfg cfg pay) now sig m i n arg p = (r, p') \<Longrightarrow>
   ms_nodes (p_Store p') = ms_nodes (p_Store p) \<and> p_remoteHosts p' = p_remoteHosts p \<and> p_sent p' = p_sent p"
  by (auto simp: pool_verify_def mem_Store_def mem_CheckAndSaveNonce_def Let_def split: sum.splits prod.splits dest!: on_store_frame)

lemma Update_verify_frame:
  "Update_verify (mem_cfg cfg pay) env sig i n req p = (r, p') \<Longrightarrow>
   ms_nodes (p_Store p') = ms_nodes (p_Store p) \<and> p_remoteHosts p' = p_remoteHosts p \<and> p_sent p' = p_sent p"
  by (auto simp: Update_verify_def split: sum.splits prod.splits if_splits dest!: verify_frame)

text \<open>A node of the cluster connects: hosts give their URI, clients none.\<close>
lemma Connect_frame:
  assumes "pool_Connect (mem_cfg cfg pay) env sig i n req p = (Inr x, p')" and "e_service env = Some svc"
    and "plain_id i" and "i \<noteq> ''''" and "cr_NodeURI req = (if ua_IsFullNode (cr_NodeInfo req) then host_uri i else '''')"
    and "hosts_named (p_Store p)"
  shows "hosts_named (p_Store p')" "p_sent p' = p_sent p"
    "p_remoteHosts p' = (if ua_IsFullNode (cr_NodeInfo req) then fmupd i svc (p_remoteHosts p) else p_remoteHosts p)"
proof -
  let ?full = "ua_IsFullNode (cr_NodeInfo req)"
  obtain p1 where p1: "pool_verify (mem_cfg cfg pay) (e_clock env 0) sig ''vipnode_connect'' i n (ConnectRequest_json req) p = (Inr (), p1)"
      and conn: "pool_connect (mem_cfg cfg pay) env i req p1 = (Inr x, p')"
    using assms(1) by (auto simp: pool_Connect_def split: prod.splits sum.splits)
  define p2 where "p2 = (if ?full then p1\<lparr>p_remoteHosts := fmupd i svc (p_remoteHosts p1), p_remoteNodeLookup := fmupd svc i (p_remoteNodeLookup p1)\<rparr> else p1)"
  have host: "(if ?full then connect_host env i (cr_NodeURI req) p1 else (Inr '''', p1)) = (Inr (if ?full then host_uri i else ''''), p2)"
    using assms(2,5) host_uri_plain(2) [OF assms(3,4)] by (simp add: connect_host_def CtxService_def p2_def Let_def)
  define nd where "nd = zero_node\<lparr>n_ID := i,
    n_Kind := (if NodeKind_String (ua_Kind (cr_NodeInfo req)) = ''unknown'' then '''' else NodeKind_String (ua_Kind (cr_NodeInfo req))),
    n_LastSeen := e_clock env 10, n_IsHost := ?full, n_Payout := cr_Payout req, n_NodeVersion := ua_Version (cr_NodeInfo req),
    n_VipnodeVersion := cr_VipnodeVersion req, n_URI := (if ?full then host_uri i else '''')\<rparr>"
  have nd: "n_ID nd = i" "n_IsHost nd = ?full" "n_URI nd = (if ?full then host_uri i else '''')" by (simp_all add: nd_def)
  obtain p3 where set: "on_store (SetNode mem_Store nd) p2 = (Inr (), p3)"
      and mgr: "on_store (OnClient (pc_Manager (mem_cfg cfg pay)) (\<lambda>k. e_clock env (11 + k)) nd) p3 = (Inr (), p')"
    using conn unfolding pool_connect_def Let_def host mem_cfg_fields(1) prod.case sum.case nd_def [symmetric]
    by (simp del: mem_cfg_fields split: if_splits prod.splits sum.splits)
  note frames = on_store_frame [OF set] on_store_frame [OF mgr] verify_frame [OF p1]
  have nodes: "ms_nodes (p_Store p') = fmupd i \<lparr>mn_Node = nd, mn_peers = fmempty\<rparr> (ms_nodes (p_Store p))"
    using frames set nd(1) assms(4) mem_manager_nodes(1) [of cfg pay "\<lambda>k. e_clock env (11 + k)" nd "p_Store p3"]
    by (auto simp: mem_Store_def mem_SetNode_def NodeID_IsZero_def on_store_def p2_def)
  show "hosts_named (p_Store p')"
    using assms(3,4,6) nd by (auto simp: hosts_named_def nodes)
  show "p_sent p' = p_sent p"
    "p_remoteHosts p' = (if ?full then fmupd i svc (p_remoteHosts p) else p_remoteHosts p)"
    using frames by (simp_all add: p2_def)
qed

lemma UpdateNodePeers_named:
  "hosts_named s \<Longrightarrow> hosts_named (snd (mem_UpdateNodePeers now ord i ps b s))"
  by (auto simp: mem_UpdateNodePeers_def hosts_named_def Let_def split_beta split: option.splits if_splits)

lemma Update_frame:
  assumes "pool_Update (mem_cfg cfg pay) env sig i n req p = (Inr x, p')" and "hosts_named (p_Store p)"
  shows "hosts_named (p_Store p')" "p_sent p' = p_sent p" "p_remoteHosts p' = p_remoteHosts p"
proof -
  obtain p1 where p1: "Update_verify (mem_cfg cfg pay) env sig i n req p = (Inr (), p1)" "Update_body (mem_cfg cfg pay) env i req p1 = (Inr x, p')"
    using assms(1) by (auto simp: pool_Update_def split: prod.splits sum.splits)
  obtain r2 p2 r3 p3 r4 p4 nd active where
    get: "on_store (GetNode mem_Store i) p1 = (r2, p2)" and
    upd: "on_store (UpdateNodePeers mem_Store (e_clock env 2) (e_ord env 0) i
      (Peers_IDs (case ur_PeerInfo req of None \<Rightarrow> [] | Some ps \<Rightarrow> ps)) (ur_BlockNumber req)) p2 = (r3, p3)" and
    peers: "on_store (NodePeers mem_Store (e_ord env 1) i) p3 = (r4, p4)" and
    charge: "is_ok (fst (Update_charge (mem_cfg cfg pay) env i nd active p4))" "p' = snd (Update_charge (mem_cfg cfg pay) env i nd active p4)"
    using p1(2) unfolding Update_body_def Let_def mem_cfg_fields(1)
    by (auto split: prod.splits sum.splits) (metis fst_conv is_ok_simps(1) snd_conv)
  obtain bal where mgr: "on_store (OnUpdate (pc_Manager (mem_cfg cfg pay)) (\<lambda>k. e_clock env (3 + k)) nd active) p4 = (Inr bal, p')"
    using charge unfolding Update_charge_def by (auto split: prod.splits sum.splits go_error.splits)
  note frames = on_store_frame [OF get] on_store_frame [OF upd] on_store_frame [OF peers] on_store_frame [OF mgr] Update_verify_frame [OF p1(1)]
  have "hosts_named (p_Store p4)"
    using frames UpdateNodePeers_named [of "p_Store p1"] assms(2) hosts_named_same [of "p_Store p1" "p_Store p"] by (simp add: mem_Store_def)
  then show "hosts_named (p_Store p')" using frames mem_manager_nodes(2) hosts_named_same by metis
  show "p_sent p' = p_sent p" "p_remoteHosts p' = p_remoteHosts p" using frames by simp_all
qed

text \<open>A request for hosts calls hosts to whitelist the node, and returns hosts it called.\<close>
lemma Peer_frame:
  assumes "pool_Peer (mem_cfg cfg pay) env sig i n req p = (r, p')" and "mem_inv (p_Store p)"
    and "range_order (e_ord env 3)" and "arrival_order (e_arrival env)" and "\<not> pc_skipWhitelist cfg"
  obtains svcs where "p_Store p' = p_Store p" "p_remoteHosts p' = p_remoteHosts p"
    "p_sent p' = p_sent p @ map (\<lambda>svc. (svc, ''vipnode_whitelist'', i)) svcs"
    "\<forall>svc\<in>set svcs. \<exists>h. fmlookup (p_remoteHosts p) h = Some svc"
    "\<And>x h. r = Inr x \<Longrightarrow> h \<in> set (ps_Peers x) \<Longrightarrow> \<exists>nd svc. fmlookup (ms_nodes (p_Store p)) (n_ID h) = Some nd \<and> mn_Node nd = h \<and>
       n_IsHost h \<and> fmlookup (p_remoteHosts p) (n_ID h) = Some svc \<and> svc \<in> set svcs"
proof -
  obtain q where req: "requestHosts (mem_cfg cfg pay) env i (pr_Num req) (pr_Kind req) p = (q, p')"
      and r: "r = map_sum id (\<lambda>hs. \<lparr>ps_Peers = hs\<rparr>) q"
    using assms(1) by (auto simp: pool_Peer_def split: prod.splits sum.splits)
  define num where "num = effective_num cfg (pr_Num req)"
  have peers_op: "on_store (NodePeers mem_Store (e_ord env 2) i) p = (fst (mem_NodePeers (e_ord env 2) i (p_Store p)), p)"
    unfolding on_store_mem by simp
  have hosts_op: "on_store (ActiveHosts mem_Store (e_clock env 20) (e_ord env 3) k l) p = (fst (mem_ActiveHosts (e_clock env 20) (e_ord env 3) k l (p_Store p)), p)"
    for k l unfolding on_store_mem by simp
  have run: "requestHosts (mem_cfg cfg pay) env i (pr_Num req) (pr_Kind req) p =
     (if num = 0 then (Inr [], p)
      else case fst (mem_NodePeers (e_ord env 2) i (p_Store p)) of
        Inl e \<Rightarrow> (Inl e, p)
      | Inr peers \<Rightarrow>
          (case fst (mem_ActiveHosts (e_clock env 20) (e_ord env 3) (pr_Kind req) (int64 (num + int (card (set (i # map n_ID peers))))) (p_Store p)) of
             Inl e \<Rightarrow> (Inl e, p)
           | Inr hs \<Rightarrow>
               (let remotes = host_services (set (i # map n_ID peers)) (p_remoteHosts p) hs;
                    answers = whitelist_calls env i remotes
                in (if accepted_of answers \<noteq> [] then Inr (accepted_of answers)
                    else if failures_of answers \<noteq> [] then Inl (RemoteHostErrors ''vipnode_whitelist'' (failures_of answers))
                    else Inl (NoHostNodesError (int (length hs))),
                    record_calls ''vipnode_whitelist'' i (map snd remotes) p))))"
    using assms(5) unfolding requestHosts_def Let_def num_def effective_num_def mem_cfg_fields peers_op hosts_op prod.case
    by (simp split: sum.split)
  consider (none) "q = Inr [] \<or> (\<exists>e. q = Inl e)" "p' = p"
    | (hosts) peers :: "node list" and hs where
        "fst (mem_ActiveHosts (e_clock env 20) (e_ord env 3) (pr_Kind req) (int64 (num + int (card (set (i # map n_ID peers))))) (p_Store p)) = Inr hs"
        "p' = record_calls ''vipnode_whitelist'' i (map snd (host_services (set (i # map n_ID peers)) (p_remoteHosts p) hs)) p"
        "\<And>acc. q = Inr acc \<Longrightarrow> acc = accepted_of (whitelist_calls env i (host_services (set (i # map n_ID peers)) (p_remoteHosts p) hs))"
  proof (cases "fst (mem_NodePeers (e_ord env 2) i (p_Store p))")
    case (Inl e)
    then have "(q, p') = (if num = 0 then Inr [] else Inl e, p)" using run unfolding req by simp
    then show thesis by (intro none) auto
  next
    case (Inr peers)
    show thesis
    proof (cases "fst (mem_ActiveHosts (e_clock env 20) (e_ord env 3) (pr_Kind req) (int64 (num + int (card (set (i # map n_ID peers))))) (p_Store p))")
      case (Inl e)
      then have "(q, p') = (if num = 0 then Inr [] else Inl e, p)" using run Inr unfolding req by simp
      then show thesis by (intro none) auto
    next
      case hs: (Inr hs)
      let ?remotes = "host_services (set (i # map n_ID peers)) (p_remoteHosts p) hs"
      let ?as = "whitelist_calls env i ?remotes"
      show thesis
      proof (cases "num = 0")
        case True
        then have "(q, p') = (Inr [], p)" using run unfolding req by simp
        then show thesis by (intro none) auto
      next
        case False
        then have qp: "(q, p') = (if accepted_of ?as \<noteq> [] then Inr (accepted_of ?as)
            else if failures_of ?as \<noteq> [] then Inl (RemoteHostErrors ''vipnode_whitelist'' (failures_of ?as))
            else Inl (NoHostNodesError (int (length hs))), record_calls ''vipnode_whitelist'' i (map snd ?remotes) p)"
          using run Inr hs unfolding req Let_def by (simp only: if_False sum.case)
        show thesis
          by (rule hosts [OF hs]) (use qp in \<open>auto simp only: prod.inject sum.simps split: if_splits\<close>)
      qed
    qed
  qed
  then show thesis
  proof cases
    case hosts
    let ?remotes = "host_services (set (i # map n_ID peers)) (p_remoteHosts p) hs"
    note members = mem_ActiveHosts_members(2) [OF assms(2,3) hosts(1)]
    have svcs: "\<forall>svc\<in>set (map snd ?remotes). \<exists>h. fmlookup (p_remoteHosts p) h = Some svc"
      by (auto simp: host_services_set)
    have "\<exists>nd svc. fmlookup (ms_nodes (p_Store p)) (n_ID h) = Some nd \<and> mn_Node nd = h \<and>
       n_IsHost h \<and> fmlookup (p_remoteHosts p) (n_ID h) = Some svc \<and> svc \<in> set (map snd ?remotes)"
      if "r = Inr x" "h \<in> set (ps_Peers x)" for x h
    proof -
      obtain acc where "q = Inr acc" "x = \<lparr>ps_Peers = acc\<rparr>" using \<open>r = Inr x\<close> r by (cases q) auto
      then have "h \<in> set (accepted_of (whitelist_calls env i ?remotes))" using \<open>h \<in> set (ps_Peers x)\<close> hosts(3) by simp
      then have "h \<in> set (map fst (filter (\<lambda>(n, svc). is_ok (e_Call env svc ''vipnode_whitelist'' i)) ?remotes))"
        using accepted_whitelist [OF assms(4), of i ?remotes] by (metis set_mset_mset)
      then obtain svc where h: "(h, svc) \<in> set ?remotes" by auto
      then have "svc \<in> set (map snd ?remotes)" by force
      then show ?thesis using h members [of h] by (auto simp: host_services_set host_matches_def)
    qed
    then show thesis using that [of "map snd ?remotes"] svcs hosts(2) by (simp add: record_calls_def comp_def)
  next
    case none
    show thesis by (rule that [of "[]"]) (use none r in auto)
  qed
qed

section \<open>What the agents' ends serve\<close>

text \<open>The end of a host serves the whitelist of a fake node.\<close>
definition whitelists :: "(pool_value, unit, FakeNode) registry \<Rightarrow> bool" where
  "whitelists srv \<longleftrightarrow> (\<exists>a. a_EthNode a = fake_EthNode \<and> fmlookup srv ''vipnode_whitelist'' = Some (mk_Method (whitelist_method a)))"

lemma host_server:
  "\<exists>srv. RegisterMethod ''vipnode_whitelist'' (agent_receiver (host_agent fake_EthNode i)) ''Whitelist'' fmempty = (Inr (), srv) \<and> whitelists srv"
proof -
  let ?a = "host_agent fake_EthNode i"
  have "MethodByName (agent_receiver ?a) ''Whitelist'' = Inr (mk_Method (whitelist_method ?a))"
    by (simp add: MethodByName_def agent_receiver_def whitelist_method_def isExported_def is_upper_def code_def methodArgTypes_def type_defs)
  then have "RegisterMethod ''vipnode_whitelist'' (agent_receiver ?a) ''Whitelist'' fmempty =
      (Inr (), fmupd ''vipnode_whitelist'' (mk_Method (whitelist_method ?a)) fmempty)"
    by (simp add: RegisterMethod_def)
  moreover have "whitelists (fmupd ''vipnode_whitelist'' (mk_Method (whitelist_method ?a)) fmempty)"
    unfolding whitelists_def by (intro exI [of _ ?a]) (simp add: host_agent_def zero_Agent_def)
  ultimately show ?thesis by blast
qed

lemma agent_Call_whitelist:
  assumes "whitelists (cw_servers w ! i)"
  shows "agent_Call R w i ''vipnode_whitelist'' arg n = (Inr (), record_call ''AddTrustedPeer'' arg n)"
proof -
  let ?rf = "pool_reflection (pool_marshal (cl_time R))"
  obtain a where a: "a_EthNode a = fake_EthNode" "fmlookup (cw_servers w ! i) ''vipnode_whitelist'' = Some (mk_Method (whitelist_method a))"
    using assms by (auto simp: whitelists_def)
  have "pool_decode string_type (JStr arg) = Inr (GStr arg)" by (simp add: pool_decode_def)
  then have parsed: "parsePositionalArguments ?rf (Some (raw_params [JStr arg])) (me_ArgTypes (mk_Method (whitelist_method a))) = Inr [GStr arg]"
    by (simp add: parsePositionalArguments_def raw_params_def pool_reflection_def mk_Method_def whitelist_method_def methodArgTypes_def type_defs
        isExported_def is_upper_def code_def)
  have call: "method_Call (mk_Method (whitelist_method a)) () [GStr arg] n = (Inr None, record_call ''AddTrustedPeer'' arg n)"
    by (simp add: method_Call_def mk_Method_def whitelist_method_def methodArgTypes_def type_defs isExported_def is_upper_def code_def
        Whitelist_def a(1) fake_EthNode_def fake_AddTrustedPeer_def)
  from Local_Call_method [OF a(2) parsed call, of Inr "\<lambda>_. JNull" 0]
  show ?thesis by (simp add: agent_Call_def)
qed

section \<open>The invariant\<close>

text \<open>Some host of the cluster was told to trust a node.\<close>
definition trusts :: "'s cluster_world \<Rightarrow> string \<Rightarrow> string \<Rightarrow> bool" where
  "trusts w h c \<longleftrightarrow> (\<exists>j < length (cw_nodes w). fn_NodeID (cw_nodes w ! j) = h \<and> fn_IsFullNode (cw_nodes w ! j) \<and>
     Calls_Has (fn_Calls (cw_nodes w ! j)) ''AddTrustedPeer'' c)"

definition node_ok :: "'s cluster_world \<Rightarrow> FakeNode \<Rightarrow> bool" where
  "node_ok w n \<longleftrightarrow> fn_NodeKind n = Geth \<and> (\<forall>q\<in>set (fn_FakePeers n). trusts w (pi_ID q) (fn_NodeID n))"

definition cluster_inv :: "memoryStore cluster_world \<Rightarrow> bool" where
  "cluster_inv w \<longleftrightarrow> length (cw_servers w) = length (cw_nodes w) \<and> mem_inv (p_Store (cw_pool w)) \<and> hosts_named (p_Store (cw_pool w)) \<and>
     (\<forall>h svc. fmlookup (p_remoteHosts (cw_pool w)) h = Some svc \<longrightarrow> svc < length (cw_nodes w) \<and>
        fn_NodeID (cw_nodes w ! svc) = h \<and> fn_IsFullNode (cw_nodes w ! svc) \<and> whitelists (cw_servers w ! svc)) \<and>
     (\<forall>n\<in>set (cw_nodes w). node_ok w n)"

text \<open>Nodes keep their identity, and calls are only added.\<close>
definition extends :: "FakeNode \<Rightarrow> FakeNode \<Rightarrow> bool" where
  "extends n n' \<longleftrightarrow> fn_NodeKind n' = fn_NodeKind n \<and> fn_NodeID n' = fn_NodeID n \<and> fn_IsFullNode n' = fn_IsFullNode n \<and> set (fn_Calls n) \<subseteq> set (fn_Calls n')"

definition grows :: "'s cluster_world \<Rightarrow> 's cluster_world \<Rightarrow> bool" where
  "grows w w' \<longleftrightarrow> list_all2 extends (cw_nodes w) (cw_nodes w') \<and> cw_servers w' = cw_servers w"

lemma extends_refl [simp]: "extends n n"
  by (simp add: extends_def)

lemma extends_trans: "extends a b \<Longrightarrow> extends b c \<Longrightarrow> extends a c"
  by (auto simp: extends_def)

lemma grows_refl [simp]: "grows w w"
  by (simp add: grows_def list_all2_refl)

lemma grows_trans: "grows w1 w2 \<Longrightarrow> grows w2 w3 \<Longrightarrow> grows w1 w3"
  unfolding grows_def by (elim conjE) (rule conjI, rule list_all2_trans [where ?P1.0 = extends and ?P2.0 = extends], rule extends_trans, simp_all)

lemma grows_fields:
  assumes "grows w w'"
  shows "length (cw_nodes w') = length (cw_nodes w)"
    "j < length (cw_nodes w) \<Longrightarrow> extends (cw_nodes w ! j) (cw_nodes w' ! j)"
  using assms by (auto simp: grows_def list_all2_conv_all_nth)

lemma trusts_grows: "trusts w h c \<Longrightarrow> grows w w' \<Longrightarrow> trusts w' h c"
  using grows_fields [of w w'] by (fastforce simp: trusts_def extends_def Calls_Has_def)

text \<open>A step of the nodes that keeps their peers trusted keeps the invariant.\<close>
lemma cluster_inv_grows:
  assumes "cluster_inv w" and "grows w w'" and "cw_pool w' = cw_pool w" and "\<And>n. n \<in> set (cw_nodes w') \<Longrightarrow> node_ok w' n"
  shows "cluster_inv w'"
proof -
  have len: "length (cw_nodes w') = length (cw_nodes w)" and srv: "cw_servers w' = cw_servers w"
    using assms(2) grows_fields(1) [OF assms(2)] by (simp_all add: grows_def)
  have "fn_NodeID (cw_nodes w' ! j) = fn_NodeID (cw_nodes w ! j) \<and> fn_IsFullNode (cw_nodes w' ! j) = fn_IsFullNode (cw_nodes w ! j)"
    if "j < length (cw_nodes w)" for j using grows_fields(2) [OF assms(2) that] by (simp add: extends_def)
  then show ?thesis using assms(1,3,4) unfolding cluster_inv_def len srv by auto
qed

lemma at_node_step:
  assumes "cluster_inv w" and "i < length (cw_nodes w)" and "f (cw_nodes w ! i) = (r, n)" and "extends (cw_nodes w ! i) n"
    and "\<And>q. q \<in> set (fn_FakePeers n) \<Longrightarrow> q \<in> set (fn_FakePeers (cw_nodes w ! i)) \<or> trusts w (pi_ID q) (fn_NodeID (cw_nodes w ! i))"
    and "at_node i f w = (r', w')"
  shows "cluster_inv w' \<and> grows w w' \<and> cw_pool w' = cw_pool w"
proof -
  have w': "w' = w\<lparr>cw_nodes := (cw_nodes w)[i := n]\<rparr>" using assms(3,6) by (simp add: at_node_def)
  have grows: "grows w w'"
    using assms(2,4) by (auto simp: w' grows_def list_all2_conv_all_nth nth_list_update)
  have "node_ok w' m" if "m \<in> set (cw_nodes w')" for m
  proof (cases "m = n")
    case True
    have old: "node_ok w (cw_nodes w ! i)" using assms(1,2) by (simp add: cluster_inv_def)
    have "trusts w (pi_ID q) (fn_NodeID n)" if "q \<in> set (fn_FakePeers n)" for q
      using assms(4) assms(5) [OF that] old by (auto simp: extends_def node_ok_def)
    then show ?thesis using True assms(4) old trusts_grows [OF _ grows] by (auto simp: node_ok_def extends_def)
  next
    case False
    then have "m \<in> set (cw_nodes w)" using that set_update_subset_insert [of "cw_nodes w" i n] by (auto simp: w')
    then have "node_ok w m" using assms(1) by (simp add: cluster_inv_def)
    then show ?thesis using trusts_grows [OF _ grows] by (auto simp: node_ok_def)
  qed
  then show ?thesis using cluster_inv_grows [OF assms(1) grows] grows by (simp add: w')
qed

text \<open>The pool's calls to whitelist a node reach the nodes of the hosts.\<close>
lemma deliver_whitelist:
  assumes "cluster_inv w" and "\<forall>svc\<in>set svcs. svc < length (cw_nodes w) \<and> fn_IsFullNode (cw_nodes w ! svc) \<and> whitelists (cw_servers w ! svc)"
    and "w' = deliver R (map (\<lambda>svc. (svc, ''vipnode_whitelist'', c)) svcs) w"
  shows "cluster_inv w' \<and> grows w w' \<and> cw_pool w' = cw_pool w \<and> (\<forall>svc\<in>set svcs. trusts w' (fn_NodeID (cw_nodes w ! svc)) c)"
  using assms
proof (induction svcs arbitrary: w)
  case Nil
  then show ?case by simp
next
  case (Cons svc svcs)
  let ?f = "agent_Call R w svc ''vipnode_whitelist'' c"
  let ?n = "record_call ''AddTrustedPeer'' c (cw_nodes w ! svc)"
  obtain w1 where w1: "at_node svc ?f w = (Inr (), w1)"
    using agent_Call_whitelist [of w svc R c "cw_nodes w ! svc"] Cons.prems(2) by (simp add: at_node_def)
  have step: "cluster_inv w1 \<and> grows w w1 \<and> cw_pool w1 = cw_pool w"
    using Cons.prems(2) agent_Call_whitelist [of w svc R c "cw_nodes w ! svc"]
    by (intro at_node_step [OF Cons.prems(1) _ _ _ _ w1, where n = ?n]) (auto simp: extends_def record_call_def)
  have nodes: "cw_nodes w1 = (cw_nodes w)[svc := ?n]"
    using w1 agent_Call_whitelist [of w svc R c "cw_nodes w ! svc"] Cons.prems(2) by (auto simp: at_node_def)
  have fits: "\<forall>svc\<in>set svcs. svc < length (cw_nodes w1) \<and> fn_IsFullNode (cw_nodes w1 ! svc) \<and> whitelists (cw_servers w1 ! svc)"
    using Cons.prems(2) step grows_fields [of w w1] by (auto simp: extends_def grows_def)
  have rest: "cluster_inv w' \<and> grows w1 w' \<and> cw_pool w' = cw_pool w1 \<and> (\<forall>svc\<in>set svcs. trusts w' (fn_NodeID (cw_nodes w1 ! svc)) c)"
    using step Cons.prems(3) w1 by (intro Cons.IH [OF _ fits]) auto
  have "fn_NodeID (cw_nodes w1 ! j) = fn_NodeID (cw_nodes w ! j)" if "j < length (cw_nodes w)" for j
    using step grows_fields(2) [of w w1] that by (simp add: extends_def)
  moreover have "trusts w1 (fn_NodeID (cw_nodes w ! svc)) c"
    using Cons.prems(2) unfolding trusts_def by (intro exI [of _ svc]) (simp add: nodes record_call_def Calls_Has_def)
  ultimately show ?case
    using step rest trusts_grows [of w1 _ c w'] grows_trans [of w w1 w'] Cons.prems(2) by auto
qed

section \<open>Calls of an agent\<close>

text \<open>A setting over the in-memory store, and the keys of the agents.\<close>
definition mem_setting :: "memoryStore cluster_setting \<Rightarrow> memoryStore pool_config \<Rightarrow> payPerInterval option \<Rightarrow> bool" where
  "mem_setting R cfg pay \<longleftrightarrow> cl_cfg R = mem_cfg cfg pay \<and> \<not> pc_skipWhitelist cfg \<and> reads_back (cl_time R) \<and>
     (\<forall>n k. range_order (cl_ord R n k)) \<and> (\<forall>n. arrival_order (cl_arrival R n))"

definition cluster_key :: "'s cluster_setting \<Rightarrow> string \<Rightarrow> bool" where
  "cluster_key R key \<longleftrightarrow> node_key (pc_crypto (cl_cfg R)) key (cl_pubkeyID R key) \<and> plain_id (cl_pubkeyID R key)"

lemma cluster_key_ID: "cluster_key R key \<Longrightarrow> cl_pubkeyID R key \<noteq> '''' \<and> plain_id (cl_pubkeyID R key)"
  by (auto simp: cluster_key_def node_key_def)

text \<open>The remote pool of an agent, and the same on a local service at the time of a call.\<close>
definition agent_remote :: "'s cluster_setting \<Rightarrow> nat \<Rightarrow> string \<Rightarrow> 's cluster_world RemotePool" where
  "agent_remote R i key =
     pool_Remote (pc_crypto (cl_cfg R)) (\<lambda>w. cl_clock R (cw_readings w)) (cl_pubkeyID R) \<lparr>Call = pool_Call R i\<rparr> key"

definition local_remote ::
  "'s cluster_setting \<Rightarrow> nat \<Rightarrow> string \<Rightarrow> 's cluster_world \<Rightarrow> (Json_Rpc.client \<times> 's pool) RemotePool" where
  "local_remote R i key w =
     pool_Remote (pc_crypto (cl_cfg R)) (\<lambda>_. cl_clock R (cw_readings w)) (cl_pubkeyID R)
       (local_Service (pool_reflection (pool_marshal (cl_time R))) (snd (pool_registry R)) (cluster_env R i w)) key"

lemma signed_call_cluster:
  assumes "cluster_key R key"
  shows "signed_call (agent_remote R i key) decode resp method args w =
    (case signed_call (local_remote R i key w) decode resp method args (cw_counters w ! i, cw_pool w) of
       (r, (c, p)) \<Rightarrow> (r, after_call R i c p w))"
proof -
  let ?id = "cl_pubkeyID R key" and ?n = "UnixNano (cl_clock R (cw_readings w))"
  obtain sig where sig: "request_Sign (pc_crypto (cl_cfg R)) key method ?id ?n args = Inr sig"
    using node_sign_verify assms unfolding cluster_key_def by metis
  have "42 < length ?id" using assms by (simp add: cluster_key_def node_key_def)
  then obtain as where "NodeRequest_SignedArgs (pc_crypto (cl_cfg R)) key (mk_request method ?id ?n args) = Inr as"
    using sig by (simp add: request_Sign_def NodeRequest_SignedArgs_def mk_request_def)
  then show ?thesis
    by (simp add: signed_call_def agent_remote_def local_remote_def pool_Remote_def getNonce_def Let_def call_into_def pool_Call_def
        local_Service_def split_beta split: sum.splits option.splits)
qed

lemma pool_registry_ok: "pool_registry R = (Inr (), snd (pool_registry R))"
proof -
  let ?ms = "rc_Methods (pool_receiver (cl_cfg R))"
  let ?methods = "fold (\<lambda>method. fmupd (gm_Name method) (mk_Method method)) ?ms fmempty"
  have "isExported (rc_TypeName (pool_receiver (cl_cfg R)))"
    by (simp add: pool_receiver_def isExported_def is_upper_def code_def)
  moreover have "methods_loop ?ms fmempty = Inr ?methods"
    by (rule methods_loop_all) (use method_valid in blast)
  ultimately have "Methods (pool_receiver (cl_cfg R)) = Inr ?methods" by (simp add: Methods_def)
  moreover have "fmdom ?methods \<noteq> {||}" by (simp add: pool_receiver_def)
  ultimately show ?thesis by (simp add: pool_registry_def Register_def)
qed

lemma rpc_result_Inr: "rpc_result r = Inr x \<longleftrightarrow> r = Inr x"
  by (cases r) (simp_all add: rpc_result_def)

lemma local_remote_facts:
  assumes "mem_setting R cfg pay" and "cluster_key R key"
  shows "range_order (cl_ord R 0 0)"
    "Register (cl_ord R 0 0) ''vipnode_'' (pool_receiver (cl_cfg R)) [] fmempty = (Inr (), snd (pool_registry R))"
    "node_key (rp_crypto (local_remote R i key w)) (rp_privkey (local_remote R i key w)) (rp_nodeID (local_remote R i key w))"
    "rp_client (local_remote R i key w) = local_Service (pool_reflection (pool_marshal (cl_time R))) (snd (pool_registry R)) (cluster_env R i w)"
    "reads_back (cl_time R)" "rp_nodeID (local_remote R i key w) = cl_pubkeyID R key"
  using assms pool_registry_ok [of R]
  by (simp_all add: mem_setting_def cluster_key_def local_remote_def pool_Remote_def pool_registry_def)

text \<open>An agent signs with the time as the nonce.\<close>
definition agent_nonce :: "'s cluster_setting \<Rightarrow> 's cluster_world \<Rightarrow> int" where
  "agent_nonce R w = UnixNano (cl_clock R (cw_readings w))"

text \<open>The three calls an agent makes, as calls of the handlers.\<close>
lemma agent_Connect:
  assumes "mem_setting R cfg pay" and "cluster_key R key" and "wire_agent (cr_NodeInfo req)"
  shows "\<exists>sig r p. request_Verify (pc_crypto (cl_cfg R)) sig ''vipnode_connect'' (cl_pubkeyID R key) (agent_nonce R w) [ConnectRequest_json req] = Inr () \<and>
    pool_Connect (cl_cfg R) (cluster_env R i w) sig (cl_pubkeyID R key) (agent_nonce R w) req (cw_pool w) = (r, p) \<and>
    Pool_Connect (cluster_pool R i key) req w = (rpc_result r, after_call R i (cw_counters w ! i + 1) p w)"
proof -
  let ?P = "local_remote R i key w" and ?c = "cw_counters w ! i"
  note L = local_remote_facts(1,2,5) [OF assms(1,2)] local_remote_facts(3,4,6) [OF assms(1,2), of i w]
  have P: "getNonce ?P (?c, cw_pool w) = agent_nonce R w" "rp_crypto ?P = pc_crypto (cl_cfg R)"
    by (simp_all add: getNonce_def agent_nonce_def local_remote_def pool_Remote_def)
  from connect_call_local [where decode = "un_ConnectResponse (cl_time R)" and req = req and c = ?c and s = "cw_pool w", OF L(1,2) _ L(4,5) assms(3) responses_survive(1) [OF L(3)]]
  obtain sig where sig: "request_Verify (pc_crypto (cl_cfg R)) sig ''vipnode_connect'' (cl_pubkeyID R key) (agent_nonce R w) [ConnectRequest_json req] = Inr ()"
      and call: "remote_Connect ?P (un_ConnectResponse (cl_time R)) req (?c, cw_pool w) =
      (let (r, p) = pool_Connect (cl_cfg R) (cluster_env R i w) sig (cl_pubkeyID R key) (agent_nonce R w) req (cw_pool w)
       in (rpc_result r, (?c + 1, p)))"
    unfolding P L(6) by auto
  obtain r p where run: "pool_Connect (cl_cfg R) (cluster_env R i w) sig (cl_pubkeyID R key) (agent_nonce R w) req (cw_pool w) = (r, p)"
    by fastforce
  have "Pool_Connect (cluster_pool R i key) req w = (rpc_result r, after_call R i (?c + 1) p w)"
    using signed_call_cluster [OF assms(2), of i "un_ConnectResponse (cl_time R)" "\<lparr>cs_PoolVersion = '''', cs_Hosts = [], cs_Message = ''''\<rparr>" "''vipnode_connect''" "[ConnectRequest_json req]" w] call
    by (simp add: cluster_pool_def remote_Pool_def pool_decoders_def remote_Connect_def agent_remote_def [symmetric] run)
  then show ?thesis using run sig by metis
qed

lemma agent_Update:
  assumes "mem_setting R cfg pay" and "cluster_key R key"
  shows "\<exists>sig r p. request_Verify (pc_crypto (cl_cfg R)) sig ''vipnode_update'' (cl_pubkeyID R key) (agent_nonce R w) [UpdateRequest_json req] = Inr () \<and>
    pool_Update (cl_cfg R) (cluster_env R i w) sig (cl_pubkeyID R key) (agent_nonce R w) (sent_update req) (cw_pool w) = (r, p) \<and>
    Pool_Update (cluster_pool R i key) req w = (rpc_result r, after_call R i (cw_counters w ! i + 1) p w)"
proof -
  let ?P = "local_remote R i key w" and ?c = "cw_counters w ! i"
  note L = local_remote_facts(1,2,5) [OF assms(1,2)] local_remote_facts(3,4,6) [OF assms(1,2), of i w]
  have P: "getNonce ?P (?c, cw_pool w) = agent_nonce R w" "rp_crypto ?P = pc_crypto (cl_cfg R)"
    by (simp_all add: getNonce_def agent_nonce_def local_remote_def pool_Remote_def)
  from update_call_local [where decode = "un_UpdateResponse (cl_time R)" and req = req and c = ?c and s = "cw_pool w", OF L(1,2) _ L(4,5) responses_survive(2) [OF L(3)]]
  obtain sig where sig: "request_Verify (pc_crypto (cl_cfg R)) sig ''vipnode_update'' (cl_pubkeyID R key) (agent_nonce R w) [UpdateRequest_json req] = Inr ()"
      and call: "remote_Update ?P (un_UpdateResponse (cl_time R)) req (?c, cw_pool w) =
      (let (r, p) = pool_Update (cl_cfg R) (cluster_env R i w) sig (cl_pubkeyID R key) (agent_nonce R w) (sent_update req) (cw_pool w)
       in (rpc_result r, (?c + 1, p)))"
    unfolding P L(6) by auto
  obtain r p where run: "pool_Update (cl_cfg R) (cluster_env R i w) sig (cl_pubkeyID R key) (agent_nonce R w) (sent_update req) (cw_pool w) = (r, p)"
    by fastforce
  have "Pool_Update (cluster_pool R i key) req w = (rpc_result r, after_call R i (?c + 1) p w)"
    using signed_call_cluster [OF assms(2), of i "un_UpdateResponse (cl_time R)" "\<lparr>us_Balance = None, us_InvalidPeers = [], us_ActivePeers = [], us_LatestBlockNumber = 0\<rparr>" "''vipnode_update''" "[UpdateRequest_json req]" w] call
    by (simp add: cluster_pool_def remote_Pool_def pool_decoders_def remote_Update_def agent_remote_def [symmetric] run)
  then show ?thesis using run sig by metis
qed

lemma agent_Peer:
  assumes "mem_setting R cfg pay" and "cluster_key R key" and "min_int64 \<le> pr_Num req" and "pr_Num req \<le> max_int64"
  shows "\<exists>sig n r p. pool_Peer (cl_cfg R) (cluster_env R i w) sig (cl_pubkeyID R key) n req (cw_pool w) = (r, p) \<and>
    Pool_Peer (cluster_pool R i key) req w = (rpc_result r, after_call R i (cw_counters w ! i + 1) p w)"
proof -
  let ?P = "local_remote R i key w" and ?c = "cw_counters w ! i"
  note L = local_remote_facts(1,2,5) [OF assms(1,2)] local_remote_facts(3,4,6) [OF assms(1,2), of i w]
  obtain sig where call: "remote_Peer ?P (un_PeerResponse (cl_time R)) req (?c, cw_pool w) =
      (let (r, p) = pool_Peer (cl_cfg R) (cluster_env R i w) sig (rp_nodeID ?P) (getNonce ?P (?c, cw_pool w)) req (cw_pool w)
       in (rpc_result r, (?c + 1, p)))"
    using peer_call_local [where decode = "un_PeerResponse (cl_time R)" and req = req and c = ?c and s = "cw_pool w", OF L(1,2) _ L(4,5) assms(3,4) responses_survive(3) [OF L(3)]] by auto
  obtain r p where run: "pool_Peer (cl_cfg R) (cluster_env R i w) sig (rp_nodeID ?P) (getNonce ?P (?c, cw_pool w)) req (cw_pool w) = (r, p)"
    by fastforce
  have "Pool_Peer (cluster_pool R i key) req w = (rpc_result r, after_call R i (?c + 1) p w)"
    using signed_call_cluster [OF assms(2), of i "un_PeerResponse (cl_time R)" "\<lparr>ps_Peers = []\<rparr>" "''vipnode_peer''" "[PeerRequest_json req]" w] call
    by (simp add: cluster_pool_def remote_Pool_def pool_decoders_def remote_Peer_def agent_remote_def [symmetric] run)
  then show ?thesis using run L(6) by metis
qed

section \<open>Steps of an agent\<close>

text \<open>An agent of the cluster: its node has the ID of its key, and the end of a host serves the whitelist.\<close>
definition member :: "'s cluster_setting \<Rightarrow> 's cluster_world \<Rightarrow> nat \<Rightarrow> string \<Rightarrow> bool" where
  "member R w i key \<longleftrightarrow> i < length (cw_nodes w) \<and> fn_NodeID (cw_nodes w ! i) = cl_pubkeyID R key \<and>
     (fn_IsFullNode (cw_nodes w ! i) \<longrightarrow> whitelists (cw_servers w ! i))"

lemma member_grows: "member R w i key \<Longrightarrow> grows w w' \<Longrightarrow> member R w' i key"
  using grows_fields [of w w'] by (auto simp: member_def extends_def grows_def)

lemma pool_step_inv:
  assumes "cluster_inv w" and "mem_inv (p_Store p)" and "hosts_named (p_Store p)"
    and "\<And>h svc. fmlookup (p_remoteHosts p) h = Some svc \<Longrightarrow> fmlookup (p_remoteHosts (cw_pool w)) h = Some svc \<or>
      svc < length (cw_nodes w) \<and> fn_NodeID (cw_nodes w ! svc) = h \<and> fn_IsFullNode (cw_nodes w ! svc) \<and> whitelists (cw_servers w ! svc)"
  shows "cluster_inv (w\<lparr>cw_pool := p, cw_counters := cs, cw_readings := k\<rparr>)" and "grows w (w\<lparr>cw_pool := p, cw_counters := cs, cw_readings := k\<rparr>)"
proof -
  have "node_ok (w\<lparr>cw_pool := p, cw_counters := cs, cw_readings := k\<rparr>) n = node_ok w n" for n by (simp add: node_ok_def trusts_def)
  then show "cluster_inv (w\<lparr>cw_pool := p, cw_counters := cs, cw_readings := k\<rparr>)"
    using assms unfolding cluster_inv_def by auto metis+
  show "grows w (w\<lparr>cw_pool := p, cw_counters := cs, cw_readings := k\<rparr>)" by (simp add: grows_def list_all2_refl)
qed

lemma cluster_inv_fields:
  assumes "cluster_inv w"
  shows "mem_inv (p_Store (cw_pool w))" "hosts_named (p_Store (cw_pool w))"
    "fmlookup (p_remoteHosts (cw_pool w)) h = Some svc \<Longrightarrow> svc < length (cw_nodes w) \<and>
      fn_NodeID (cw_nodes w ! svc) = h \<and> fn_IsFullNode (cw_nodes w ! svc) \<and> whitelists (cw_servers w ! svc)"
    "i < length (cw_nodes w) \<Longrightarrow> node_ok w (cw_nodes w ! i)"
  using assms by (auto simp: cluster_inv_def)

lemma connect_step:
  assumes "mem_setting R cfg pay" and "cluster_key R key" and "cluster_inv w" and "member R w i key"
    and "cr_NodeInfo req = fake_UserAgent (cw_nodes w ! i)"
    and "cr_NodeURI req = (if fn_IsFullNode (cw_nodes w ! i) then host_uri (cl_pubkeyID R key) else '''')"
    and "Pool_Connect (cluster_pool R i key) req w = (Inr x, w')"
  shows "cluster_inv w' \<and> grows w w'"
proof -
  let ?id = "cl_pubkeyID R key"
  have "wire_agent (cr_NodeInfo req)"
    using cluster_inv_fields(4) [OF assms(3)] assms(4)
    by (auto simp: assms(5) fake_UserAgent_def wire_agent_def member_def node_ok_def Geth_def min_int64_def max_int64_def)
  from agent_Connect [OF assms(1,2) this, of w i] obtain sig q p where
    call: "pool_Connect (cl_cfg R) (cluster_env R i w) sig ?id (agent_nonce R w) req (cw_pool w) = (q, p)"
      "Pool_Connect (cluster_pool R i key) req w = (rpc_result q, after_call R i (cw_counters w ! i + 1) p w)" by blast
  have w': "w' = after_call R i (cw_counters w ! i + 1) p w" and "q = Inr x"
    using assms(7) call(2) rpc_result_Inr [of q x] by auto
  then have conn: "pool_Connect (mem_cfg cfg pay) (cluster_env R i w) sig ?id (agent_nonce R w) req (cw_pool w) = (Inr x, p)"
    using call(1) assms(1) by (simp add: mem_setting_def)
  have full: "ua_IsFullNode (cr_NodeInfo req) = fn_IsFullNode (cw_nodes w ! i)" by (simp add: assms(5) fake_UserAgent_def)
  have svc: "e_service (cluster_env R i w) = Some i" by (simp add: cluster_env_def)
  have id: "plain_id ?id" "?id \<noteq> ''''" using cluster_key_ID [OF assms(2)] by simp_all
  note frame = Connect_frame [OF conn svc id _ cluster_inv_fields(2) [OF assms(3)], unfolded full, OF assms(6)]
  have "mem_inv (p_Store p)"
    using mem_pool_inv.exec_inv [of "cw_pool w" cfg pay "cluster_env R i w" "Connect sig ?id (agent_nonce R w) req"] cluster_inv_fields(1) [OF assms(3)] conn
    by (simp add: pool_exec_def)
  moreover have "fmlookup (p_remoteHosts (cw_pool w)) h = Some svc \<or> svc < length (cw_nodes w) \<and>
      fn_NodeID (cw_nodes w ! svc) = h \<and> fn_IsFullNode (cw_nodes w ! svc) \<and> whitelists (cw_servers w ! svc)"
    if "fmlookup (p_remoteHosts p) h = Some svc" for h svc
    using that frame(3) assms(4) by (auto simp: member_def split: if_splits)
  ultimately show ?thesis using pool_step_inv [OF assms(3) _ frame(1)] frame(2) by (simp add: w' after_call_def)
qed

lemma update_step:
  assumes "mem_setting R cfg pay" and "cluster_key R key" and "cluster_inv w" and "Pool_Update (cluster_pool R i key) req w = (Inr x, w')"
  shows "cluster_inv w' \<and> grows w w'"
proof -
  let ?id = "cl_pubkeyID R key"
  from agent_Update [OF assms(1,2), of w req i] obtain sig q p where
    call: "pool_Update (cl_cfg R) (cluster_env R i w) sig ?id (agent_nonce R w) (sent_update req) (cw_pool w) = (q, p)"
      "Pool_Update (cluster_pool R i key) req w = (rpc_result q, after_call R i (cw_counters w ! i + 1) p w)" by blast
  have w': "w' = after_call R i (cw_counters w ! i + 1) p w" and "q = Inr x"
    using assms(4) call(2) rpc_result_Inr [of q x] by auto
  then have upd: "pool_Update (mem_cfg cfg pay) (cluster_env R i w) sig ?id (agent_nonce R w) (sent_update req) (cw_pool w) = (Inr x, p)"
    using call(1) assms(1) by (simp add: mem_setting_def)
  note frame = Update_frame [OF upd cluster_inv_fields(2) [OF assms(3)]]
  have "mem_inv (p_Store p)"
    using mem_pool_inv.exec_inv [of "cw_pool w" cfg pay "cluster_env R i w" "Update sig ?id (agent_nonce R w) (sent_update req)"] cluster_inv_fields(1) [OF assms(3)] upd
    by (simp add: pool_exec_def)
  from pool_step_inv [OF assms(3) this frame(1)] show ?thesis using frame(2,3) by (simp add: w' after_call_def)
qed

text \<open>After a request for hosts, those in the answer trust the node.\<close>
lemma peer_step:
  assumes "mem_setting R cfg pay" and "cluster_key R key" and "cluster_inv w"
    and "min_int64 \<le> pr_Num req" and "pr_Num req \<le> max_int64" and "Pool_Peer (cluster_pool R i key) req w = (r, w')"
  shows "cluster_inv w' \<and> grows w w' \<and>
    (\<forall>x h. r = Inr x \<longrightarrow> h \<in> set (ps_Peers x) \<longrightarrow> (\<exists>u. ParseNodeURI (n_URI h) = Inr u \<and> trusts w' (NodeURI_ID u) (cl_pubkeyID R key)))"
proof -
  let ?id = "cl_pubkeyID R key" and ?env = "cluster_env R i w"
  from agent_Peer [OF assms(1,2,4,5), of i w] obtain sig n q p where
    run: "pool_Peer (mem_cfg cfg pay) ?env sig ?id n req (cw_pool w) = (q, p)" and
    w': "w' = after_call R i (cw_counters w ! i + 1) p w" and r: "r = rpc_result q"
    using assms(1,6) by (auto simp: mem_setting_def)
  have ords: "range_order (e_ord ?env 3)" "arrival_order (e_arrival ?env)" "\<not> pc_skipWhitelist cfg"
    using assms(1) by (auto simp: cluster_env_def mem_setting_def)
  note inv = cluster_inv_fields [OF assms(3)]
  obtain svcs where svcs: "p_Store p = p_Store (cw_pool w)" "p_remoteHosts p = p_remoteHosts (cw_pool w)"
    "p_sent p = p_sent (cw_pool w) @ map (\<lambda>svc. (svc, ''vipnode_whitelist'', ?id)) svcs"
    "\<forall>svc\<in>set svcs. \<exists>h. fmlookup (p_remoteHosts (cw_pool w)) h = Some svc"
    "\<And>x h. q = Inr x \<Longrightarrow> h \<in> set (ps_Peers x) \<Longrightarrow> \<exists>nd svc. fmlookup (ms_nodes (p_Store (cw_pool w))) (n_ID h) = Some nd \<and> mn_Node nd = h \<and>
       n_IsHost h \<and> fmlookup (p_remoteHosts (cw_pool w)) (n_ID h) = Some svc \<and> svc \<in> set svcs"
    using Peer_frame [OF run inv(1) ords] by metis
  define w1 where "w1 = w\<lparr>cw_pool := p, cw_counters := (cw_counters w)[i := cw_counters w ! i + 1], cw_readings := cw_readings w + 32\<rparr>"
  have inv1: "cluster_inv w1" "grows w w1"
    unfolding w1_def by (rule pool_step_inv [OF assms(3)]; use inv svcs(1,2) in auto)+
  have nodes: "cw_nodes w1 = cw_nodes w" "cw_servers w1 = cw_servers w" by (simp_all add: w1_def)
  have fits: "\<forall>svc\<in>set svcs. svc < length (cw_nodes w1) \<and> fn_IsFullNode (cw_nodes w1 ! svc) \<and> whitelists (cw_servers w1 ! svc)"
    using svcs(4) inv(3) unfolding nodes by metis
  have "w' = deliver R (map (\<lambda>svc. (svc, ''vipnode_whitelist'', ?id)) svcs) w1"
    by (simp add: w' after_call_def w1_def svcs(3))
  note del = deliver_whitelist [OF inv1(1) fits this]
  have "\<exists>u. ParseNodeURI (n_URI h) = Inr u \<and> trusts w' (NodeURI_ID u) ?id" if "r = Inr x" "h \<in> set (ps_Peers x)" for x h
  proof -
    have "q = Inr x" using that(1) r rpc_result_Inr by metis
    from svcs(5) [OF this that(2)] obtain nd svc where nd: "fmlookup (ms_nodes (p_Store (cw_pool w))) (n_ID h) = Some nd" "mn_Node nd = h" "n_IsHost h"
      "fmlookup (p_remoteHosts (cw_pool w)) (n_ID h) = Some svc" "svc \<in> set svcs" by blast
    then have "n_URI h = host_uri (n_ID h)" "plain_id (n_ID h)" "n_ID h \<noteq> ''''" using inv(2) by (auto simp: hosts_named_def)
    moreover have "trusts w' (n_ID h) ?id" using del nd(5) inv(3) [OF nd(4)] by (auto simp: nodes)
    ultimately show ?thesis using host_uri_plain(3) by metis
  qed
  then show ?thesis using del inv1(2) grows_trans by blast
qed

text \<open>Operations of a fake node that add no peers.\<close>
lemma disconnect_loop_sub: "disconnect_loop x k i arr len = Inr (arr', len') \<Longrightarrow> set arr' \<subseteq> set arr"
proof (induction x k i arr len arbitrary: arr' len' rule: disconnect_loop.induct)
  case (2 x k i arr len)
  let ?arr = "take i arr @ take (len - (i + 1)) (drop (i + 1) arr) @ drop (len - 1) arr"
  have "set ?arr \<subseteq> set arr" by (auto dest: in_set_takeD in_set_dropD)
  then show ?case using 2 by (auto split: if_splits)
qed simp

lemma fake_ops:
  "fake_Enode n = (r1, n1) \<Longrightarrow> extends n n1 \<and> set (fn_FakePeers n1) \<subseteq> set (fn_FakePeers n)"
  "fake_RemoveTrustedPeer x n = (r2, n2) \<Longrightarrow> extends n n2 \<and> set (fn_FakePeers n2) \<subseteq> set (fn_FakePeers n)"
  "fake_DisconnectPeer x n = (r3, n3) \<Longrightarrow> extends n n3 \<and> set (fn_FakePeers n3) \<subseteq> set (fn_FakePeers n)"
  "fake_Peers n = (r4, n4) \<Longrightarrow> extends n n4 \<and> set (fn_FakePeers n4) \<subseteq> set (fn_FakePeers n)"
  "fake_BlockNumber n = (r5, n5) \<Longrightarrow> extends n n5 \<and> set (fn_FakePeers n5) \<subseteq> set (fn_FakePeers n)"
  by (auto simp: fake_Enode_def fake_RemoveTrustedPeer_def fake_DisconnectPeer_def fake_Peers_def fake_BlockNumber_def extends_def
      record_call_def Let_def split: sum.splits dest!: disconnect_loop_sub in_set_takeD)

lemma node_op_step:
  assumes "cluster_inv w" and "i < length (cw_nodes w)" and "at_node i f w = (r, w')"
    and "\<And>r n. f (cw_nodes w ! i) = (r, n) \<Longrightarrow> extends (cw_nodes w ! i) n \<and> set (fn_FakePeers n) \<subseteq> set (fn_FakePeers (cw_nodes w ! i))"
  shows "cluster_inv w' \<and> grows w w'"
proof -
  obtain r1 n where f: "f (cw_nodes w ! i) = (r1, n)" by (cases "f (cw_nodes w ! i)")
  from at_node_step [OF assms(1,2) f _ _ assms(3)] assms(4) [OF f] show ?thesis by auto
qed

text \<open>Connecting to a host that trusts the node.\<close>
lemma connect_peer_step:
  assumes "cluster_inv w" and "i < length (cw_nodes w)" and "ParseNodeURI uri = Inr u" and "trusts w (NodeURI_ID u) (fn_NodeID (cw_nodes w ! i))"
    and "at_node i (fake_ConnectPeer uri) w = (r, w')"
  shows "cluster_inv w' \<and> grows w w'"
proof -
  obtain r1 n where f: "fake_ConnectPeer uri (cw_nodes w ! i) = (r1, n)" by (cases "fake_ConnectPeer uri (cw_nodes w ! i)")
  have ext: "extends (cw_nodes w ! i) n" and peers: "set (fn_FakePeers n) \<subseteq> insert (fake_peer u) (set (fn_FakePeers (cw_nodes w ! i)))"
    using f assms(3) by (auto simp: fake_ConnectPeer_def extends_def record_call_def Let_def split: if_splits)
  have "pi_ID (fake_peer u) = NodeURI_ID u" by (simp add: fake_peer_def)
  then have "q \<in> set (fn_FakePeers (cw_nodes w ! i)) \<or> trusts w (pi_ID q) (fn_NodeID (cw_nodes w ! i))" if "q \<in> set (fn_FakePeers n)" for q
    using that peers assms(4) by (cases "q = fake_peer u") auto
  from at_node_step [OF assms(1,2) f ext this assms(5)] show ?thesis by simp
qed

lemma connect_all_step:
  assumes "cluster_inv w" and "i < length (cw_nodes w)"
    and "\<forall>uri\<in>set uris. \<exists>u. ParseNodeURI uri = Inr u \<and> trusts w (NodeURI_ID u) (fn_NodeID (cw_nodes w ! i))"
    and "connect_all (node_at i) uris w = (r, w')"
  shows "cluster_inv w' \<and> grows w w'"
  using assms
proof (induction uris arbitrary: w)
  case (Cons uri uris)
  obtain r1 w1 where one: "at_node i (fake_ConnectPeer uri) w = (r1, w1)" by (cases "at_node i (fake_ConnectPeer uri) w")
  have step: "cluster_inv w1" "grows w w1" using connect_peer_step [OF Cons.prems(1,2) _ _ one] Cons.prems(3) by auto
  show ?case
  proof (cases r1)
    case (Inl e)
    then show ?thesis using Cons.prems(4) one step by (simp add: node_at_def)
  next
    case (Inr u)
    have "extends (cw_nodes w ! i) (cw_nodes w1 ! i)" "length (cw_nodes w1) = length (cw_nodes w)"
      using grows_fields [OF step(2)] Cons.prems(2) by auto
    moreover have "\<forall>uri\<in>set uris. \<exists>u. ParseNodeURI uri = Inr u \<and> trusts w1 (NodeURI_ID u) (fn_NodeID (cw_nodes w ! i))"
      using Cons.prems(3) trusts_grows [OF _ step(2)] by (meson list.set_intros(2))
    ultimately have "cluster_inv w' \<and> grows w1 w'"
      using Cons.IH [OF step(1)] Cons.prems(2,4) one Inr by (simp add: node_at_def extends_def)
    then show ?thesis using step(2) grows_trans by blast
  qed
qed simp

lemma disconnect_invalid_step:
  assumes "cluster_inv w" and "i < length (cw_nodes w)" and "disconnect_invalid (node_at i) ps errs w = (r, w')"
  shows "cluster_inv w' \<and> grows w w'"
  using assms
proof (induction ps arbitrary: errs w)
  case (Cons p ps)
  obtain r1 w1 where one: "at_node i (fake_RemoveTrustedPeer (peer_id p)) w = (r1, w1)" by (cases "at_node i (fake_RemoveTrustedPeer (peer_id p)) w")
  have s1: "cluster_inv w1" "grows w w1" using node_op_step [OF Cons.prems(1,2) one fake_ops(2)] by auto
  have len: "i < length (cw_nodes w1)" using grows_fields(1) [OF s1(2)] Cons.prems(2) by simp
  obtain r2 w2 where two: "at_node i (fake_DisconnectPeer (peer_id p)) w1 = (r2, w2)" by (cases "at_node i (fake_DisconnectPeer (peer_id p)) w1")
  have s2: "cluster_inv w2" "grows w1 w2" using node_op_step [OF s1(1) len two fake_ops(3)] by auto
  have len2: "i < length (cw_nodes w2)" using grows_fields(1) [OF s2(2)] len by simp
  show ?case
  proof (cases "panics r1 \<or> panics r2")
    case True
    then have "w' = w1 \<or> w' = w2" using Cons.prems(3) one two by (auto simp: node_at_def split: if_splits)
    then show ?thesis using s1 s2 grows_trans by blast
  next
    case False
    then have "cluster_inv w' \<and> grows w2 w'" using Cons.IH [OF s2(1) len2] Cons.prems(3) one two by (simp add: node_at_def)
    then show ?thesis using s1 s2 grows_trans by blast
  qed
qed simp

lemma AddPeers_step:
  assumes "mem_setting R cfg pay" and "cluster_key R key" and "cluster_inv w" and "member R w i key" and "a_EthNode a = node_at i"
    and "min_int64 \<le> num" and "num \<le> max_int64" and "AddPeers a (cluster_pool R i key) num w = (r, w')"
  shows "cluster_inv w' \<and> grows w w'"
proof -
  define req where "req = \<lparr>pr_Num = num, pr_Kind = (if \<not> ua_IsFullNode (a_nodeInfo a) then NodeKind_String (ua_Kind (a_nodeInfo a)) else '''')\<rparr>"
  obtain q w1 where call: "Pool_Peer (cluster_pool R i key) req w = (q, w1)" by (cases "Pool_Peer (cluster_pool R i key) req w")
  note step = peer_step [OF assms(1-3) _ _ call]
  have inv: "cluster_inv w1" "grows w w1" using step assms(6,7) by (simp_all add: req_def)
  show ?thesis
  proof (cases q)
    case (Inl e)
    then have "w' = w1" using assms(8) call unfolding req_def AddPeers_def Let_def by (auto split: if_splits)
    then show ?thesis using inv by simp
  next
    case (Inr x)
    then have conn: "connect_all (node_at i) (map n_URI (ps_Peers x)) w1 = (r, w')"
      using assms(5,8) call unfolding req_def AddPeers_def Let_def by simp
    have mem: "member R w1 i key" by (rule member_grows [OF assms(4) inv(2)])
    have "\<forall>uri\<in>set (map n_URI (ps_Peers x)). \<exists>u. ParseNodeURI uri = Inr u \<and> trusts w1 (NodeURI_ID u) (fn_NodeID (cw_nodes w1 ! i))"
      using step assms(6,7) Inr mem by (auto simp: req_def member_def)
    from connect_all_step [OF inv(1) _ this conn] mem show ?thesis using inv(2) grows_trans by (auto simp: member_def)
  qed
qed

text \<open>Agents of the cluster have no callbacks and ask for few hosts.\<close>
definition cluster_agent :: "nat \<Rightarrow> 's cluster_world Agent \<Rightarrow> bool" where
  "cluster_agent i a \<longleftrightarrow> a_EthNode a = node_at i \<and> a_BalanceCallback a = None \<and> a_PoolMessageCallback a = None \<and>
     a_BlockNumberCallback a = None \<and> 0 \<le> a_NumHosts a \<and> a_NumHosts a \<le> 3"

lemma UpdatePeers_step:
  assumes "mem_setting R cfg pay" and "cluster_key R key" and "cluster_inv w" and "member R w i key" and "cluster_agent i a"
    and "UpdatePeers a (cluster_pool R i key) w = (Inr u, w')"
  shows "cluster_inv w' \<and> grows w w'"
proof -
  have node: "a_EthNode a = node_at i" and cb: "a_BalanceCallback a = None" "a_BlockNumberCallback a = None"
    using assms(5) by (simp_all add: cluster_agent_def)
  have len: "i < length (cw_nodes w)" using assms(4) by (simp add: member_def)
  obtain peers w1 where one: "at_node i fake_Peers w = (Inr peers, w1)" by (simp add: at_node_def fake_Peers_def Let_def)
  have s1: "cluster_inv w1" "grows w w1" using node_op_step [OF assms(3) len one fake_ops(4)] by auto
  have len1: "i < length (cw_nodes w1)" using grows_fields(1) [OF s1(2)] len by simp
  obtain b w2 where two: "at_node i fake_BlockNumber w1 = (Inr b, w2)" by (simp add: at_node_def fake_BlockNumber_def)
  have s2: "cluster_inv w2" "grows w1 w2" using node_op_step [OF s1(1) len1 two fake_ops(5)] by auto
  obtain update w3 where three: "Pool_Update (cluster_pool R i key) \<lparr>ur_Peers = None, ur_PeerInfo = Some peers, ur_BlockNumber = b\<rparr> w2 = (Inr update, w3)"
      and rest: "apply_update a (cluster_pool R i key) peers b update w3 = (Inr u, w')"
    using assms(6) one two cb
    by (auto simp: UpdatePeers_def node node_at_def call_balance_def split: sum.splits prod.splits)
  have s3: "cluster_inv w3" "grows w2 w3" using update_step [OF assms(1,2) s2(1) three] by auto
  have len3: "i < length (cw_nodes w3)" using grows_fields(1) [OF s2(2)] grows_fields(1) [OF s3(2)] len1 by simp
  have g3: "grows w w3" using s1(2) s2(2) s3(2) grows_trans by metis
  obtain r4 w4 where four: "disconnect_invalid (node_at i)
      (if a_StrictPeers a then strict_invalid (us_ActivePeers update) peers else us_InvalidPeers update) [] w3 = (r4, w4)" by fastforce
  have s4: "cluster_inv w4" "grows w3 w4" using disconnect_invalid_step [OF s3(1) len3 four] by auto
  have g4: "grows w w4" using g3 s4(2) grows_trans by blast
  let ?need = "a_NumHosts a - int (length (us_ActivePeers update))"
  obtain r5 w5 where five: "(if 0 < ?need then AddPeers a (cluster_pool R i key) ?need w4 else (Inr (), w4)) = (r5, w5)" by fastforce
  have "min_int64 \<le> ?need" "?need \<le> max_int64" if "0 < ?need"
    using that assms(5) by (simp_all add: cluster_agent_def min_int64_def max_int64_def)
  then have "cluster_inv w5 \<and> grows w4 w5"
    using five s4(1) AddPeers_step [OF assms(1,2) s4(1) member_grows [OF assms(4) g4] node] by (auto split: if_splits)
  moreover have "w' = w5"
    using rest four five node cb unfolding apply_update_def Let_def
    by (auto simp: call_block_number_def split: sum.splits if_splits prod.splits)
  ultimately show ?thesis using g4 grows_trans by blast
qed

lemma Start_step:
  assumes "mem_setting R cfg pay" and "cluster_key R key" and "cluster_inv w" and "member R w i key" and "cluster_agent i a"
    and "a_NodeURI a = (if fn_IsFullNode (cw_nodes w ! i) then host_uri (cl_pubkeyID R key) else '''')"
    and "Start a (cluster_pool R i key) w = (Inr u, a', w')"
  shows "cluster_inv w' \<and> grows w w' \<and> cluster_agent i a'"
proof -
  have node: "a_EthNode a = node_at i" and cb: "a_PoolMessageCallback a = None"
    using assms(5) by (simp_all add: cluster_agent_def)
  have "at_node i fake_Enode w = (Inr (fn_NodeID (cw_nodes w ! i)), w)" by (simp add: at_node_def fake_Enode_def)
  then have enode: "Enode (node_at i) w = (Inr (fn_NodeID (cw_nodes w ! i)), w)" by (simp add: node_at_def)
  have ua: "Node_UserAgent (node_at i) w = fake_UserAgent (cw_nodes w ! i)" by (simp add: node_at_def)
  define req where "req = \<lparr>cr_VipnodeVersion = (if a_Version a = '''' then ''dev'' else a_Version a),
    cr_NodeInfo = fake_UserAgent (cw_nodes w ! i), cr_NodeURI = a_NodeURI a, cr_Payout = a_Payout a\<rparr>"
  let ?a = "a\<lparr>a_nodeInfo := fake_UserAgent (cw_nodes w ! i)\<rparr>"
  obtain resp w1 where conn: "Pool_Connect (cluster_pool R i key) req w = (Inr resp, w1)"
      and upd: "UpdatePeers ?a (cluster_pool R i key) w1 = (Inr u, w')" and a': "a' = ?a"
    using assms(7) cb enode ua unfolding Start_def node req_def Let_def
    by (auto split: if_splits sum.splits prod.splits)
  have s1: "cluster_inv w1" "grows w w1"
    using connect_step [OF assms(1-4) _ _ conn] assms(6) by (auto simp: req_def)
  have agent: "cluster_agent i ?a" using assms(5) by (simp add: cluster_agent_def)
  from UpdatePeers_step [OF assms(1,2) s1(1) member_grows [OF assms(4) s1(2)] agent upd]
  show ?thesis using s1(2) grows_trans agent a' by blast
qed

end
