(* ===== verification/Cluster_Correctness.thy ===== *)
theory Cluster_Correctness
  imports Fake_Cluster
begin

text \<open>
  What holds of a cluster as a whole: building it and updating it keep the invariant of \<open>Fake_Cluster\<close>, the run of a cluster with one host
  and one client in full, and that the peers of a client are hosts that were told to trust it.
\<close>

section \<open>Building the cluster\<close>

text \<open>Connections are added at the end.\<close>
definition continues :: "'s cluster_world \<Rightarrow> 's cluster_world \<Rightarrow> bool" where
  "continues w w' \<longleftrightarrow> length (cw_nodes w) \<le> length (cw_nodes w') \<and>
     (\<forall>j < length (cw_nodes w). extends (cw_nodes w ! j) (cw_nodes w' ! j) \<and> cw_servers w' ! j = cw_servers w ! j)"

lemma continues_grows: "grows w w' \<Longrightarrow> continues w w'"
  using grows_fields [of w w'] by (auto simp: continues_def grows_def)

lemma continues_trans: "continues w1 w2 \<Longrightarrow> continues w2 w3 \<Longrightarrow> continues w1 w3"
proof -
  assume a: "continues w1 w2" and b: "continues w2 w3"
  have "extends (cw_nodes w1 ! j) (cw_nodes w3 ! j) \<and> cw_servers w3 ! j = cw_servers w1 ! j" if "j < length (cw_nodes w1)" for j
  proof -
    have "j < length (cw_nodes w2)" using that a by (simp add: continues_def)
    then show ?thesis using that a b extends_trans [of "cw_nodes w1 ! j" "cw_nodes w2 ! j" "cw_nodes w3 ! j"] by (simp add: continues_def)
  qed
  then show ?thesis using a b by (simp add: continues_def)
qed

text \<open>An agent of the cluster, and whether it is a host.\<close>
definition joined :: "'s cluster_setting \<Rightarrow> 's cluster_world \<Rightarrow> bool \<Rightarrow> 's clusterAgent \<Rightarrow> bool" where
  "joined R w full a \<longleftrightarrow> member R w (ca_conn a) (ca_Key a) \<and> fn_IsFullNode (cw_nodes w ! ca_conn a) = full \<and>
     cluster_agent (ca_conn a) (ca_Agent a) \<and> ca_RemotePool a = cluster_pool R (ca_conn a) (ca_Key a)"

lemma joined_continues: "joined R w full a \<Longrightarrow> continues w w' \<Longrightarrow> joined R w' full a"
  by (auto simp: joined_def member_def continues_def extends_def)

lemma new_connection_step:
  assumes "cluster_inv w" and "fn_FakePeers n = []" and "fn_NodeKind n = Geth"
  shows "cluster_inv (new_connection_world n srv w)" and "continues w (new_connection_world n srv w)"
proof -
  have trust: "trusts (new_connection_world n srv w) h c" if "trusts w h c" for h c
  proof -
    from that obtain j where "j < length (cw_nodes w)" "fn_NodeID (cw_nodes w ! j) = h" "fn_IsFullNode (cw_nodes w ! j)"
        "Calls_Has (fn_Calls (cw_nodes w ! j)) ''AddTrustedPeer'' c" by (auto simp: trusts_def)
    then show ?thesis unfolding trusts_def by (intro exI [of _ j]) (simp add: new_connection_world_def nth_append)
  qed
  have len: "length (cw_servers w) = length (cw_nodes w)" using assms(1) by (simp add: cluster_inv_def)
  have "node_ok (new_connection_world n srv w) m" if "m \<in> set (cw_nodes (new_connection_world n srv w))" for m
    using that assms trust by (auto simp: new_connection_world_def cluster_inv_def node_ok_def)
  moreover have "cw_pool (new_connection_world n srv w) = cw_pool w" by (simp add: new_connection_world_def)
  moreover have "svc < length (cw_nodes (new_connection_world n srv w)) \<and> fn_NodeID (cw_nodes (new_connection_world n srv w) ! svc) = h \<and>
      fn_IsFullNode (cw_nodes (new_connection_world n srv w) ! svc) \<and> whitelists (cw_servers (new_connection_world n srv w) ! svc)"
    if "fmlookup (p_remoteHosts (cw_pool w)) h = Some svc" for h svc
    using cluster_inv_fields(3) [OF assms(1) that] len by (simp add: new_connection_world_def nth_append)
  ultimately show "cluster_inv (new_connection_world n srv w)"
    using assms(1) len unfolding cluster_inv_def by (simp add: new_connection_world_def)
  show "continues w (new_connection_world n srv w)" using len by (simp add: continues_def new_connection_world_def nth_append)
qed

text \<open>What one round of either loop does.\<close>
definition adds_agent :: "memoryStore cluster_setting \<Rightarrow> bool \<Rightarrow> string \<Rightarrow> memoryStore cluster_world \<Rightarrow> memoryStore clusterAgent \<Rightarrow> memoryStore cluster_world \<Rightarrow> bool" where
  "adds_agent R full key w a w' \<longleftrightarrow> cluster_inv w' \<and> continues w w' \<and> length (cw_nodes w') = Suc (length (cw_nodes w)) \<and>
     ca_conn a = length (cw_nodes w) \<and> ca_Key a = key \<and> joined R w' full a"

lemma started_agent:
  assumes "mem_setting R cfg pay" and "cluster_key R key" and "cluster_inv w" and "n = (fake_Node (cl_pubkeyID R key))\<lparr>fn_IsFullNode := full\<rparr>"
    and "full \<Longrightarrow> whitelists srv" and "cluster_agent (length (cw_nodes w)) a" and "a_NodeURI a = (if full then host_uri (cl_pubkeyID R key) else '''')"
    and "Start a (cluster_pool R (length (cw_nodes w)) key) (new_connection_world n srv w) = (Inr u, a', w')"
  shows "adds_agent R full key w \<lparr>ca_Agent = a', ca_conn = length (cw_nodes w), ca_RemotePool = cluster_pool R (length (cw_nodes w)) key, ca_Key = key\<rparr> w'"
proof -
  let ?i = "length (cw_nodes w)" and ?w = "new_connection_world n srv w"
  have n: "fn_FakePeers n = []" "fn_NodeKind n = Geth" "fn_NodeID n = cl_pubkeyID R key" "fn_IsFullNode n = full"
    by (simp_all add: assms(4) fake_Node_def)
  note new = new_connection_step [OF assms(3) n(1,2), of srv]
  have len: "length (cw_servers w) = ?i" using assms(3) by (simp add: cluster_inv_def)
  have node: "cw_nodes ?w ! ?i = n" by (simp add: new_connection_world_def)
  have mem: "member R ?w ?i key" using assms(5) len n(3,4) by (simp add: member_def new_connection_world_def nth_append)
  have "a_NodeURI a = (if fn_IsFullNode (cw_nodes ?w ! ?i) then host_uri (cl_pubkeyID R key) else '''')" using assms(7) n(4) node by simp
  note step = Start_step [OF assms(1,2) new(1) mem assms(6) this assms(8)]
  have "fn_IsFullNode (cw_nodes w' ! ?i) = full" "length (cw_nodes w') = Suc ?i"
    using grows_fields [of ?w w'] step node n(4) by (auto simp: new_connection_world_def extends_def)
  then show ?thesis
    using step member_grows [OF mem] continues_trans [OF new(2) continues_grows] by (simp add: adds_agent_def joined_def)
qed

lemma New_host_step:
  assumes "mem_setting R cfg pay" and "cluster_key R key" and "cluster_inv w" and "New_host R key w = (Inr a, w')"
  shows "adds_agent R True key w a w'"
proof -
  let ?i = "length (cw_nodes w)" and ?id = "cl_pubkeyID R key"
  obtain srv where srv: "RegisterMethod ''vipnode_whitelist'' (agent_receiver (host_agent fake_EthNode ?id)) ''Whitelist'' fmempty = (Inr (), srv)"
      "whitelists srv" using host_server by blast
  have reg: "fst (pool_registry R) = Inr ()" using pool_registry_ok [of R] by (metis fst_conv)
  obtain h u where start: "Start (host_agent (node_at ?i) ?id) (cluster_pool R ?i key) (new_connection_world (fake_Node ?id) srv w) = (Inr u, h, w')"
      and a: "a = \<lparr>ca_Agent = h, ca_conn = ?i, ca_RemotePool = cluster_pool R ?i key, ca_Key = key\<rparr>"
    using assms(4) srv(1) reg by (auto simp: New_host_def Let_def split: sum.splits prod.splits)
  have "fake_Node ?id = (fake_Node ?id)\<lparr>fn_IsFullNode := True\<rparr>" by (simp add: fake_Node_def)
  moreover have "cluster_agent ?i (host_agent (node_at ?i) ?id :: memoryStore cluster_world Agent)" "a_NodeURI (host_agent (node_at ?i) ?id :: memoryStore cluster_world Agent) = host_uri ?id"
    by (simp_all add: cluster_agent_def host_agent_def zero_Agent_def)
  ultimately show ?thesis unfolding a using started_agent [OF assms(1-3) _ _ _ _ start, of True] srv(2) by simp
qed

lemma New_client_step:
  assumes "mem_setting R cfg pay" and "cluster_key R key" and "cluster_inv w" and "New_client R key w = (Inr a, w')"
  shows "adds_agent R False key w a w'"
proof -
  let ?i = "length (cw_nodes w)" and ?id = "cl_pubkeyID R key"
  obtain c u where start: "Start (client_agent (node_at ?i)) (cluster_pool R ?i key)
        (new_connection_world ((fake_Node ?id)\<lparr>fn_IsFullNode := False\<rparr>) fmempty w) = (Inr u, c, w')"
      and a: "a = \<lparr>ca_Agent = c, ca_conn = ?i, ca_RemotePool = cluster_pool R ?i key, ca_Key = key\<rparr>"
    using assms(4) by (auto simp: New_client_def Let_def split: sum.splits prod.splits)
  have "cluster_agent ?i (client_agent (node_at ?i) :: memoryStore cluster_world Agent)" "a_NodeURI (client_agent (node_at ?i) :: memoryStore cluster_world Agent) = ''''"
    by (simp_all add: cluster_agent_def client_agent_def zero_Agent_def)
  then show ?thesis unfolding a using started_agent [OF assms(1-3) _ _ _ _ start, of False] by simp
qed

lemma New_agents_step:
  assumes "\<And>key w a w'. cluster_inv w \<Longrightarrow> key \<in> set keys \<Longrightarrow> f key w = (Inr a, w') \<Longrightarrow> adds_agent R full key w a w'"
    and "cluster_inv w" and "New_agents f keys w = (Inr as, w')"
  shows "cluster_inv w' \<and> continues w w' \<and> length (cw_nodes w') = length (cw_nodes w) + length keys \<and> map ca_Key as = keys \<and>
    map ca_conn as = [length (cw_nodes w)..<length (cw_nodes w) + length keys] \<and> (\<forall>a\<in>set as. joined R w' full a)"
  using assms
proof (induction keys arbitrary: w as)
  case Nil
  then show ?case by (simp add: continues_grows)
next
  case (Cons key keys)
  obtain a w1 as1 where one: "f key w = (Inr a, w1)" and rest: "New_agents f keys w1 = (Inr as1, w')" and as: "as = a # as1"
    using Cons.prems(3) by (auto split: sum.splits prod.splits)
  have step: "adds_agent R full key w a w1" using Cons.prems(1) [OF Cons.prems(2) _ one] by simp
  then have inv: "cluster_inv w1" by (simp add: adds_agent_def)
  note ih = Cons.IH [OF _ inv rest]
  have "cluster_inv w' \<and> continues w1 w' \<and> length (cw_nodes w') = length (cw_nodes w1) + length keys \<and> map ca_Key as1 = keys \<and>
    map ca_conn as1 = [length (cw_nodes w1)..<length (cw_nodes w1) + length keys] \<and> (\<forall>a\<in>set as1. joined R w' full a)"
    by (rule ih) (use Cons.prems(1) in auto)
  moreover from this have "joined R w' full a" using step joined_continues by (auto simp: adds_agent_def)
  moreover have "[length (cw_nodes w)..<length (cw_nodes w) + length (key # keys)] = length (cw_nodes w) # [length (cw_nodes w1)..<length (cw_nodes w1) + length keys]"
    using step by (simp add: adds_agent_def upt_conv_Cons del: upt_Suc)
  ultimately show ?case using step continues_trans [of w w1 w'] by (simp add: as adds_agent_def del: upt_Suc)
qed

text \<open>Updates keep the agents where they are.\<close>
lemma update_agents_step:
  assumes "mem_setting R cfg pay" and "cluster_inv w" and "update_agents as w = (Inr (), w')"
    and "\<And>a. a \<in> set as \<Longrightarrow> cluster_key R (ca_Key a) \<and> (\<exists>full. joined R w full a)"
  shows "cluster_inv w' \<and> grows w w'"
  using assms
proof (induction as arbitrary: w)
  case Nil
  then show ?case by simp
next
  case (Cons a as)
  obtain w1 where one: "UpdatePeers (ca_Agent a) (ca_RemotePool a) w = (Inr (), w1)" and rest: "update_agents as w1 = (Inr (), w')"
    using Cons.prems(3) by (auto split: sum.splits prod.splits)
  obtain full where a: "cluster_key R (ca_Key a)" "joined R w full a" using Cons.prems(4) [of a] by auto
  have step: "cluster_inv w1 \<and> grows w w1"
    using UpdatePeers_step [OF Cons.prems(1) a(1) Cons.prems(2), of "ca_conn a" "ca_Agent a" "()" w1] a(2) one by (simp add: joined_def)
  have "cluster_inv w' \<and> grows w1 w'"
    by (rule Cons.IH [OF Cons.prems(1) conjunct1 [OF step] rest])
      (use Cons.prems(4) joined_continues [OF _ continues_grows [OF conjunct2 [OF step]]] in \<open>meson list.set_intros(2)\<close>)
  then show ?case using step grows_trans by blast
qed

text \<open>A number of updates of the cluster, one after the other.\<close>
fun update_rounds :: "nat \<Rightarrow> 's Cluster \<Rightarrow> 's cluster_world \<Rightarrow> unit result \<times> 's cluster_world" where
  "update_rounds 0 c w = (Inr (), w)"
| "update_rounds (Suc k) c w =
     (case cluster_Update c w of (Inl e, w1) \<Rightarrow> (Inl e, w1) | (Inr _, w1) \<Rightarrow> update_rounds k c w1)"

definition cluster_ok :: "memoryStore cluster_setting \<Rightarrow> memoryStore Cluster \<Rightarrow> memoryStore cluster_world \<Rightarrow> bool" where
  "cluster_ok R c w \<longleftrightarrow> cluster_inv w \<and> (\<forall>a\<in>set (cl_Hosts c). cluster_key R (ca_Key a) \<and> joined R w True a) \<and>
     (\<forall>a\<in>set (cl_Clients c). cluster_key R (ca_Key a) \<and> joined R w False a) \<and>
     map ca_conn (cl_Hosts c @ cl_Clients c) = [0..<length (cw_nodes w)]"

lemma update_rounds_step:
  assumes "mem_setting R cfg pay" and "cluster_ok R c w" and "update_rounds k c w = (Inr (), w')"
  shows "cluster_ok R c w'"
  using assms
proof (induction k arbitrary: w)
  case (Suc k)
  obtain w1 where one: "update_agents (cl_Hosts c @ cl_Clients c) w = (Inr (), w1)" and rest: "update_rounds k c w1 = (Inr (), w')"
    using Suc.prems(3) by (auto simp: cluster_Update_def split: sum.splits prod.splits)
  have step: "cluster_inv w1 \<and> grows w w1"
    by (rule update_agents_step [OF Suc.prems(1) _ one]) (use Suc.prems(2) in \<open>auto simp: cluster_ok_def\<close>)
  have "cluster_ok R c w1"
    using Suc.prems(2) step joined_continues [OF _ continues_grows [OF conjunct2 [OF step]]] grows_fields(1) [OF conjunct2 [OF step]]
    by (simp add: cluster_ok_def)
  then show ?case using Suc.IH [OF Suc.prems(1) _ rest] by blast
qed simp

lemma cluster_inv_start: "cluster_inv (start_world (pool_New mem_New))"
  using mem_inv_New by (simp add: cluster_inv_def start_world_def pool_New_def hosts_named_def mem_New_def)

lemma cluster_New_step:
  assumes "mem_setting R cfg pay" and "\<And>key. key \<in> set (hostKeys @ clientKeys) \<Longrightarrow> cluster_key R key"
    and "cluster_New R hostKeys clientKeys (start_world (pool_New mem_New)) = (Inr c, w)"
  shows "cluster_ok R c w \<and> map ca_Key (cl_Hosts c) = hostKeys \<and> map ca_Key (cl_Clients c) = clientKeys"
proof -
  obtain hs w1 cs where hosts: "New_agents (New_host R) hostKeys (start_world (pool_New mem_New)) = (Inr hs, w1)"
      and clients: "New_agents (New_client R) clientKeys w1 = (Inr cs, w)" and c: "c = \<lparr>cl_Clients = cs, cl_Hosts = hs\<rparr>"
    using assms(3) by (auto simp: cluster_New_def split: sum.splits prod.splits)
  have start: "cw_nodes (start_world (pool_New mem_New)) = []" by (simp add: start_world_def)
  have "cluster_inv w1 \<and> continues (start_world (pool_New mem_New)) w1 \<and> length (cw_nodes w1) = length (cw_nodes (start_world (pool_New mem_New))) + length hostKeys \<and>
      map ca_Key hs = hostKeys \<and> map ca_conn hs = [length (cw_nodes (start_world (pool_New mem_New)))..<length (cw_nodes (start_world (pool_New mem_New))) + length hostKeys] \<and>
      (\<forall>a\<in>set hs. joined R w1 True a)"
    by (rule New_agents_step [OF New_host_step [OF assms(1)] cluster_inv_start hosts]) (use assms(2) in auto)
  then have h: "cluster_inv w1 \<and> length (cw_nodes w1) = length hostKeys \<and> map ca_Key hs = hostKeys \<and>
      map ca_conn hs = [0..<length hostKeys] \<and> (\<forall>a\<in>set hs. joined R w1 True a)"
    unfolding start list.size add_0 by blast
  have k: "cluster_inv w \<and> continues w1 w \<and> length (cw_nodes w) = length (cw_nodes w1) + length clientKeys \<and> map ca_Key cs = clientKeys \<and>
      map ca_conn cs = [length (cw_nodes w1)..<length (cw_nodes w1) + length clientKeys] \<and> (\<forall>a\<in>set cs. joined R w False a)"
    by (rule New_agents_step [OF New_client_step [OF assms(1)] _ clients]) (use assms(2) h in auto)
  have keys: "map ca_Key hs = hostKeys" "map ca_Key cs = clientKeys" using h k by blast+
  have "cluster_key R (ca_Key a)" if "a \<in> set hs \<union> set cs" for a
    by (rule assms(2)) (use that in \<open>auto simp flip: keys\<close>)
  moreover have "map ca_conn hs @ map ca_conn cs = [0..<length (cw_nodes w)]"
    using h k upt_add_eq_append [of 0 "length hostKeys" "length clientKeys"] by (simp only: le0)
  ultimately show ?thesis using h k joined_continues [of R w1 True _ w] by (auto simp: cluster_ok_def c)
qed

lemma peers_of_agents:
  assumes "cluster_ok R c w" and "a \<in> set (cl_Hosts c @ cl_Clients c)" and "q \<in> set (fn_FakePeers (cw_nodes w ! ca_conn a))"
  shows "\<exists>h\<in>set (cl_Hosts c). cl_pubkeyID R (ca_Key h) = pi_ID q \<and>
    Calls_Has (fn_Calls (cw_nodes w ! ca_conn h)) ''AddTrustedPeer'' (cl_pubkeyID R (ca_Key a))"
proof -
  have a: "ca_conn a < length (cw_nodes w)" "fn_NodeID (cw_nodes w ! ca_conn a) = cl_pubkeyID R (ca_Key a)"
    using assms(1,2) by (auto simp: cluster_ok_def joined_def member_def)
  have "node_ok w (cw_nodes w ! ca_conn a)" using assms(1) a(1) by (simp add: cluster_ok_def cluster_inv_def)
  then obtain j where j: "j < length (cw_nodes w)" "fn_NodeID (cw_nodes w ! j) = pi_ID q" "fn_IsFullNode (cw_nodes w ! j)"
      "Calls_Has (fn_Calls (cw_nodes w ! j)) ''AddTrustedPeer'' (cl_pubkeyID R (ca_Key a))"
    using assms(3) a(2) by (auto simp: node_ok_def trusts_def)
  have "j \<in> set (map ca_conn (cl_Hosts c @ cl_Clients c))" using assms(1) j(1) by (simp add: cluster_ok_def del: map_append)
  then obtain h where h: "h \<in> set (cl_Hosts c) \<union> set (cl_Clients c)" "j = ca_conn h" by auto
  then have "h \<in> set (cl_Hosts c)" "cl_pubkeyID R (ca_Key h) = pi_ID q"
    using assms(1) j(2,3) by (auto simp: cluster_ok_def joined_def member_def)
  then show ?thesis using j(4) h(2) by blast
qed

section \<open>Closing the cluster\<close>

lemma close_hosts_lookup:
  "fmlookup (p_remoteNodeLookup (snd (close_hosts waited hs p))) svc =
    (if svc \<in> ca_conn ` set hs then None else fmlookup (p_remoteNodeLookup p) svc)"
  by (induction hs arbitrary: p) (auto simp: CloseRemote_def split_beta split: option.split)

lemma close_hosts_reg: "reg_inv owner p \<Longrightarrow> reg_inv owner (snd (close_hosts waited hs p))"
  by (induction hs arbitrary: p) (simp_all add: split_beta reg_inv_close)

lemma close_hosts_errors: "fst (close_hosts waited hs p) = concat (map (\<lambda>h. result_errors (waited (ca_conn h))) hs)"
  by (induction hs arbitrary: p) (simp_all add: split_beta CloseRemote_def result_errors_def split: option.split)

text \<open>
  Closing reports an error exactly when a pipe or a goroutine does, and whether or not one does, the pool no longer counts the hosts of
  the cluster as connected.
\<close>
lemma cluster_Close_forgets:
  assumes "reg_inv owner p" and "h \<in> set (cl_Hosts c)"
  shows "fmlookup (p_remoteHosts (snd (cluster_Close closed waited c p))) i \<noteq> Some (ca_conn h)"
proof -
  have "snd (cluster_Close closed waited c p) = snd (close_hosts waited (cl_Hosts c) p)" by (simp add: cluster_Close_def split_beta Let_def)
  then show ?thesis
    using close_hosts_reg [OF assms(1), of waited "cl_Hosts c"] close_hosts_lookup [of waited "cl_Hosts c" p "ca_conn h"] assms(2)
    by (auto simp: reg_inv_def)
qed

lemma cluster_Close_ok:
  "fst (cluster_Close closed waited c p) = Inr () \<longleftrightarrow>
    (\<forall>a\<in>set (cl_Hosts c @ cl_Clients c). is_ok (closed (ca_conn a) False) \<and> is_ok (closed (ca_conn a) True) \<and> is_ok (waited (ca_conn a)))"
proof -
  have none: "result_errors r = [] \<longleftrightarrow> is_ok r" for r by (cases r) (simp_all add: result_errors_def)
  show ?thesis by (auto simp: cluster_Close_def split_beta Let_def close_hosts_errors none)
qed

section \<open>A cluster of two\<close>

text \<open>A call of a handler of the pool, with the nonce of the agent spent first.\<close>
definition handled ::
  "'s cluster_setting \<Rightarrow> nat \<Rightarrow> (env \<Rightarrow> 's pool \<Rightarrow> 'r result \<times> 's pool) \<Rightarrow> 's cluster_world \<Rightarrow> 'r result \<times> 's cluster_world" where
  "handled R i f w =
     (case f (cluster_env R i w) (cw_pool w) of (r, p) \<Rightarrow> (rpc_result r, after_call R i (cw_counters w ! i + 1) p w))"

definition spend_nonce :: "'s cluster_setting \<Rightarrow> nat \<Rightarrow> string \<Rightarrow> 's cluster_world \<Rightarrow> unit result \<times> 's pool" where
  "spend_nonce R i key w =
     on_store (CheckAndSaveNonce (pc_Store (cl_cfg R)) (e_clock (cluster_env R i w) 0) (cl_pubkeyID R key) (agent_nonce R w)) (cw_pool w)"

lemma Connect_handled:
  assumes "mem_setting R cfg pay" and "cluster_key R key" and "wire_agent (cr_NodeInfo req)" and "spend_nonce R i key w = (Inr (), p)"
  shows "Pool_Connect (cluster_pool R i key) req w = handled R i (\<lambda>env _. pool_connect (cl_cfg R) env (cl_pubkeyID R key) req p) w"
  using agent_Connect [OF assms(1-3), of w i] assms(4)
  by (auto simp: pool_Connect_def pool_verify_def spend_nonce_def handled_def)

lemma Update_handled:
  assumes "mem_setting R cfg pay" and "cluster_key R key" and "spend_nonce R i key w = (Inr (), p)"
  shows "Pool_Update (cluster_pool R i key) req w = handled R i (\<lambda>env _. Update_body (cl_cfg R) env (cl_pubkeyID R key) (sent_update req) p) w"
  using agent_Update [OF assms(1-2), of w req i] assms(3)
  by (auto simp: pool_Update_def Update_verify_def pool_verify_def spend_nonce_def handled_def sent_update_json)

lemma Peer_handled:
  assumes "mem_setting R cfg pay" and "cluster_key R key" and "min_int64 \<le> pr_Num req" and "pr_Num req \<le> max_int64"
  shows "Pool_Peer (cluster_pool R i key) req w = handled R i (\<lambda>env. pool_Peer (cl_cfg R) env '''' (cl_pubkeyID R key) 0 req) w"
  using agent_Peer [OF assms, of i w] by (auto simp: pool_Peer_def handled_def)

text \<open>A host and a client: node IDs repeat the key, times are numbers, every host is visited and answers in order.\<close>
definition demo_time :: time_text where
  "demo_time = \<lparr>tt_Marshal = int_digits,
     tt_Unmarshal = (\<lambda>s. Some (if s \<noteq> [] \<and> hd s = CHR ''-'' then - int (decimal (tl s)) else int (decimal s)))\<rparr>"

definition demo_ID :: "string \<Rightarrow> string" where
  "demo_ID key = concat (replicate 43 key)"

definition demo_setting :: "memoryStore cluster_setting" where
  "demo_setting = \<lparr>cl_cfg = mem_cfg demo_cfg None, cl_clock = (\<lambda>n. 100 + int n), cl_ord = (\<lambda>_ _. sorted_list_of_fset),
     cl_arrival = (\<lambda>_ n. [0..<n]), cl_time = demo_time, cl_pubkeyID = demo_ID\<rparr>"

lemma demo_setting_ok: "mem_setting demo_setting demo_cfg None"
proof -
  have "hd (nat_digits n) \<noteq> CHR ''-''" for n
    using nat_digits_digits [of "hd (nat_digits n)" n] by (auto simp: is_digit_def code_def)
  then have "reads_back demo_time" by (simp add: reads_back_def demo_time_def int_digits_def decimal_nat_digits)
  then show ?thesis
    by (simp add: mem_setting_def demo_setting_def arrival_order_def range_order_sorted demo_cfg_def pool_New_config_def)
qed


lemma demo_IDs:
  "plain_id (demo_ID ''a'')" "plain_id (demo_ID ''b'')" "demo_ID ''a'' \<noteq> ''''" "demo_ID ''b'' \<noteq> ''''" "demo_ID ''a'' \<noteq> demo_ID ''b''"
  "sorted_list_of_fset {||} = ([] :: string list)" "sorted_list_of_fset {|demo_ID ''a'', demo_ID ''b''|} = [demo_ID ''a'', demo_ID ''b'']"
  by code_simp+

lemma demo_key: "cluster_key demo_setting ''a''" "cluster_key demo_setting ''b''"
  using demo_IDs by (simp_all add: cluster_key_def demo_setting_def node_key_def toy_crypto_def demo_cfg_def pool_New_config_def demo_ID_def numeral_eq_Suc)

lemma demo_fields:
  "cl_cfg demo_setting = mem_cfg demo_cfg None" "cl_clock demo_setting n = 100 + int n" "cl_ord demo_setting n k = sorted_list_of_fset"
  "cl_arrival demo_setting n = (\<lambda>m. [0..<m])" "cl_pubkeyID demo_setting = demo_ID"
  by (simp_all add: demo_setting_def)

lemma demo_cfg_fields:
  "pc_MaxRequestHosts (mem_cfg demo_cfg None) = 0" "pc_RestrictNetwork (mem_cfg demo_cfg None) = UnknownNetwork"
  "pc_BlockNumberProvider (mem_cfg demo_cfg None) = None" "pc_ClientMessager (mem_cfg demo_cfg None) = None"
  "\<not> pc_skipWhitelist (mem_cfg demo_cfg None)" "pc_Version (mem_cfg demo_cfg None) = ''dev''"
  "\<not> pc_skipWhitelist demo_cfg" "pc_MaxRequestHosts demo_cfg = 0" "pc_RestrictNetwork demo_cfg = UnknownNetwork"
  by (simp_all add: mem_cfg_def demo_cfg_def pool_New_config_def)

text \<open>A node as the pool knows it after it has connected or updated.\<close>
definition seen_node :: "string \<Rightarrow> bool \<Rightarrow> time \<Rightarrow> node" where
  "seen_node i full t = zero_node\<lparr>n_ID := i, n_URI := (if full then host_uri i else ''''), n_LastSeen := t, n_Kind := ''geth'', n_IsHost := full,
     n_NodeVersion := ''Geth/Fakenode/Go-tests'', n_VipnodeVersion := ''dev''\<rparr>"

definition seen_pool :: "string \<Rightarrow> bool \<Rightarrow> int \<Rightarrow> time \<Rightarrow> memoryStore pool \<Rightarrow> memoryStore pool" where
  "seen_pool i full nonce t p = p\<lparr>p_Store := (p_Store p)\<lparr>ms_nonces := fmupd i nonce (ms_nonces (p_Store p)),
     ms_nodes := fmupd i \<lparr>mn_Node = seen_node i full t, mn_peers = fmempty\<rparr> (ms_nodes (p_Store p))\<rparr>\<rparr>"

definition host_pool :: "string \<Rightarrow> service \<Rightarrow> memoryStore pool \<Rightarrow> memoryStore pool" where
  "host_pool i svc p = p\<lparr>p_remoteHosts := fmupd i svc (p_remoteHosts p), p_remoteNodeLookup := fmupd svc i (p_remoteNodeLookup p)\<rparr>"

definition next_world :: "nat \<Rightarrow> memoryStore pool \<Rightarrow> memoryStore cluster_world \<Rightarrow> memoryStore cluster_world" where
  "next_world i p w = w\<lparr>cw_pool := p, cw_counters := (cw_counters w)[i := cw_counters w ! i + 1], cw_readings := cw_readings w + 32\<rparr>"

definition fresh_nonce :: "string \<Rightarrow> memoryStore cluster_world \<Rightarrow> bool" where
  "fresh_nonce key w \<longleftrightarrow> index 0 (ms_nonces (p_Store (cw_pool w))) (demo_ID key) < 100 + int (cw_readings w) \<and> cw_readings w < 1000"

lemma small_nonce: "cw_readings w < 1000 \<Longrightarrow> UnixNano (100 + int (cw_readings w)) = 100 + int (cw_readings w)"
  by (simp add: UnixNano_def int64_def)

lemma small_deadline: "n < 1000 \<Longrightarrow> UnixNano (time_Add (101 + int n) (- ExpireNonce)) = 101 + int n - ExpireNonce"
  by (simp add: UnixNano_def int64_def time_Add_def ExpireNonce_def minute_def second_def)

lemma demo_nonce:
  assumes "fresh_nonce key w"
  shows "spend_nonce demo_setting i key w = (Inr (), (cw_pool w)\<lparr>p_Store := (p_Store (cw_pool w))\<lparr>ms_nonces :=
    fmupd (demo_ID key) (100 + int (cw_readings w)) (ms_nonces (p_Store (cw_pool w)))\<rparr>\<rparr>)"
proof -
  have "\<not> 100 + int (cw_readings w) \<le> 101 + int (cw_readings w) - ExpireNonce" by (simp add: ExpireNonce_def minute_def second_def)
  then show ?thesis
    using assms small_nonce [of w] small_deadline [of "cw_readings w"]
    by (simp add: fresh_nonce_def spend_nonce_def agent_nonce_def demo_fields cluster_env_def on_store_def mem_Store_def mem_CheckAndSaveNonce_def)
qed

lemma demo_Connect:
  assumes "cluster_key demo_setting key" and "fresh_nonce key w" and "fn_NodeKind n = Geth"
  shows "\<exists>resp. Pool_Connect (cluster_pool demo_setting i key) \<lparr>cr_VipnodeVersion = ''dev'', cr_NodeInfo = fake_UserAgent n,
      cr_NodeURI = (if fn_IsFullNode n then host_uri (demo_ID key) else ''''), cr_Payout = ''''\<rparr> w =
    (Inr resp, next_world i (seen_pool (demo_ID key) (fn_IsFullNode n) (100 + int (cw_readings w)) (111 + int (cw_readings w))
       (if fn_IsFullNode n then host_pool (demo_ID key) i (cw_pool w) else cw_pool w)) w)"

proof -
  have ID: "plain_id (demo_ID key)" "demo_ID key \<noteq> ''''" using cluster_key_ID [OF assms(1)] by (simp_all add: demo_fields)
  have kind: "NodeKind_String Geth = ''geth''" by code_simp
  have agent: "wire_agent (fake_UserAgent n)" using assms(3) by (simp add: wire_agent_def fake_UserAgent_def Geth_def min_int64_def max_int64_def)
  note run = Connect_handled [OF demo_setting_ok assms(1) _ demo_nonce [OF assms(2)]]
  show ?thesis
    using ID kind agent assms(3) host_uri_plain(2) [OF ID]
    by (simp add: run handled_def demo_fields demo_cfg_fields pool_connect_def connect_host_def cluster_env_def CtxService_def on_store_def mem_Store_def
        mem_SetNode_def NodeID_IsZero_def NoBalance_def NoBalance_OnClient_def fake_UserAgent_def UnknownNetwork_def Let_def
        rpc_result_def after_call_def next_world_def seen_pool_def seen_node_def host_pool_def zero_node_def)
qed

text \<open>An update of a node the pool has not seen with peers.\<close>
lemma demo_Update:
  assumes "cluster_key demo_setting key" and "fresh_nonce key w"
    and "fmlookup (ms_nodes (p_Store (cw_pool w))) (demo_ID key) = Some \<lparr>mn_Node = seen_node (demo_ID key) full t, mn_peers = fmempty\<rparr>"
  shows "Pool_Update (cluster_pool demo_setting i key) \<lparr>ur_Peers = None, ur_PeerInfo = Some [], ur_BlockNumber = 0\<rparr> w =
    (Inr \<lparr>us_Balance = Some zero_balance, us_InvalidPeers = [], us_ActivePeers = [], us_LatestBlockNumber = 0\<rparr>,
     next_world i (seen_pool (demo_ID key) full (100 + int (cw_readings w)) (103 + int (cw_readings w)) (cw_pool w)) w)"
  unfolding Update_handled [OF demo_setting_ok assms(1) demo_nonce [OF assms(2)]]
  using assms(3) demo_IDs(6)
  by (simp add: handled_def demo_fields demo_cfg_fields Update_body_def Update_charge_def latest_block_def cluster_env_def on_store_def mem_Store_def
      mem_GetNode_def mem_UpdateNodePeers_def mem_NodePeers_def NoBalance_def NoBalance_OnUpdate_def Peers_IDs_def sent_update_def Let_def
      rpc_result_def after_call_def next_world_def seen_pool_def seen_node_def zero_node_def)

text \<open>A node without peers answers the questions of its agent and stays as it is.\<close>
lemma quiet_node:
  assumes "fn_FakePeers (cw_nodes w ! i) = []" and "fn_FakeBlockNumber (cw_nodes w ! i) = 0"
  shows "Enode (node_at i) w = (Inr (fn_NodeID (cw_nodes w ! i)), w)" "Peers (node_at i) w = (Inr [], w)" "BlockNumber (node_at i) w = (Inr 0, w)"
    "Node_UserAgent (node_at i) w = fake_UserAgent (cw_nodes w ! i)"
proof -
  have keep: "(cw_nodes w ! i)\<lparr>fn_FakePeers := []\<rparr> = cw_nodes w ! i" using assms(1) by (cases "cw_nodes w ! i") simp
  show "Enode (node_at i) w = (Inr (fn_NodeID (cw_nodes w ! i)), w)" "Peers (node_at i) w = (Inr [], w)" "BlockNumber (node_at i) w = (Inr 0, w)"
      "Node_UserAgent (node_at i) w = fake_UserAgent (cw_nodes w ! i)"
    using assms by (simp_all add: node_at_def at_node_def fake_Enode_def fake_Peers_def fake_BlockNumber_def keep)
qed

text \<open>A host starts: it connects, and its first update asks for no hosts.\<close>
lemma demo_host:
  assumes "cluster_key demo_setting key" and "fresh_nonce key w" and "cw_readings w < 100" and "cw_nodes w ! i = fake_Node (demo_ID key)"
  shows "\<exists>h. Start (host_agent (node_at i) (demo_ID key)) (cluster_pool demo_setting i key) w =
    (Inr (), h, next_world i (seen_pool (demo_ID key) True (132 + int (cw_readings w)) (135 + int (cw_readings w)) (host_pool (demo_ID key) i (cw_pool w)))
       (next_world i (cw_pool w) w))"
proof -
  let ?id = "demo_ID key"
  define w1 where "w1 = next_world i (seen_pool ?id True (100 + int (cw_readings w)) (111 + int (cw_readings w)) (host_pool ?id i (cw_pool w))) w"
  obtain resp where connect: "Pool_Connect (cluster_pool demo_setting i key) \<lparr>cr_VipnodeVersion = ''dev'',
      cr_NodeInfo = fake_UserAgent (fake_Node ?id), cr_NodeURI = host_uri ?id, cr_Payout = ''''\<rparr> w = (Inr resp, w1)"
    using demo_Connect [OF assms(1,2), of "fake_Node ?id" i] by (auto simp: fake_Node_def w1_def)
  have known: "fresh_nonce key w1" "fmlookup (ms_nodes (p_Store (cw_pool w1))) ?id = Some \<lparr>mn_Node = seen_node ?id True (111 + int (cw_readings w)), mn_peers = fmempty\<rparr>"
    using assms(3) by (simp_all add: fresh_nonce_def w1_def next_world_def seen_pool_def)
  have quiet: "fn_FakePeers (cw_nodes w ! i) = []" "fn_FakeBlockNumber (cw_nodes w ! i) = 0" and "cw_nodes w1 = cw_nodes w"
    using assms(4) by (simp_all add: fake_Node_def w1_def next_world_def)
  then have quiet1: "fn_FakePeers (cw_nodes w1 ! i) = []" "fn_FakeBlockNumber (cw_nodes w1 ! i) = 0" by simp_all
  have last: "next_world i (seen_pool ?id True (100 + int (cw_readings w1)) (103 + int (cw_readings w1)) (cw_pool w1)) w1 =
      next_world i (seen_pool ?id True (132 + int (cw_readings w)) (135 + int (cw_readings w)) (host_pool ?id i (cw_pool w))) (next_world i (cw_pool w) w)"
    by (simp add: w1_def next_world_def seen_pool_def)
  show ?thesis
    unfolding last [symmetric] using connect demo_Update [OF assms(1) known, of i]
    by (simp add: Start_def UpdatePeers_def apply_update_def host_agent_def zero_Agent_def assms(4) quiet_node [OF quiet] quiet_node [OF quiet1]
      call_balance_def call_block_number_def Let_def)
qed

text \<open>The request for hosts: the one host is asked to let the client in.\<close>
lemma demo_Peer:
  fixes w :: "memoryStore cluster_world"
  assumes "fmlookup (ms_nodes (p_Store (cw_pool w))) (demo_ID ''a'') = Some \<lparr>mn_Node = seen_node (demo_ID ''a'') True t, mn_peers = fmempty\<rparr>"
    and "fmlookup (ms_nodes (p_Store (cw_pool w))) (demo_ID ''b'') = Some \<lparr>mn_Node = seen_node (demo_ID ''b'') False u, mn_peers = fmempty\<rparr>"
    and "fmdom (ms_nodes (p_Store (cw_pool w))) = {|demo_ID ''a'', demo_ID ''b''|}" and "fmlookup (p_remoteHosts (cw_pool w)) (demo_ID ''a'') = Some 0"
    and "whitelists (cw_servers w ! 0)" and "121 + int (cw_readings w) - ExpireInterval < t"
  shows "Pool_Peer (cluster_pool demo_setting i ''b'') \<lparr>pr_Num = 3, pr_Kind = ''geth''\<rparr> w =
    (Inr \<lparr>ps_Peers = [seen_node (demo_ID ''a'') True t]\<rparr>,
     snd (at_node 0 (fake_AddTrustedPeer (demo_ID ''b''))
       (next_world i ((cw_pool w)\<lparr>p_sent := p_sent (cw_pool w) @ [(0, ''vipnode_whitelist'', demo_ID ''b'')]\<rparr>) w)))"
proof -
  let ?a = "demo_ID ''a''" and ?b = "demo_ID ''b''" and ?s = "p_Store (cw_pool w)"
  have num: "min_int64 \<le> 3" "3 \<le> max_int64" "int64 4 = 4" by (simp_all add: min_int64_def max_int64_def int64_def)
  have peers: "mem_NodePeers sorted_list_of_fset ?b ?s = (Inr [], ?s)" using assms(2) demo_IDs(6) by (simp add: mem_NodePeers_def)
  have "host_matches ''geth'' (121 + int (cw_readings w) - ExpireInterval) (seen_node ?a True t)"
      "\<not> host_matches ''geth'' (121 + int (cw_readings w) - ExpireInterval) (seen_node ?b False u)"
    using assms(6) by (simp_all add: host_matches_def seen_node_def time_After_def)
  then have hosts: "mem_ActiveHosts (121 + int (cw_readings w)) sorted_list_of_fset ''geth'' 4 ?s = (Inr [seen_node ?a True t], ?s)"
    using assms(1-3) demo_IDs(7) by (simp add: mem_ActiveHosts_def mem_node_list_def time_Add_def)
  have id: "n_ID (seen_node ?a True t) = ?a" by (simp add: seen_node_def)
  show ?thesis
    using Peer_handled [OF demo_setting_ok demo_key(2), of "\<lparr>pr_Num = 3, pr_Kind = ''geth''\<rparr>" i w] num peers hosts assms(4) demo_IDs(5)
    by (simp add: agent_Call_whitelist assms(5) handled_def demo_fields demo_cfg_fields pool_Peer_def requestHosts_def cluster_env_def on_store_def mem_Store_def host_services_def id
        record_calls_def whitelist_calls_def accepted_of_def failures_of_def map_filter_simps Let_def rpc_result_def after_call_def next_world_def at_node_def
        fake_AddTrustedPeer_def)
qed

text \<open>The client starts once the host has: it has the host as a peer.\<close>
lemma demo_client:
  fixes w :: "memoryStore cluster_world"
  assumes "p_Store (cw_pool w) = mem_New\<lparr>ms_nonces := fmupd (demo_ID ''a'') n fmempty,
      ms_nodes := fmupd (demo_ID ''a'') \<lparr>mn_Node = seen_node (demo_ID ''a'') True 135, mn_peers = fmempty\<rparr> fmempty\<rparr>"
    and "fmlookup (p_remoteHosts (cw_pool w)) (demo_ID ''a'') = Some 0" and "whitelists (cw_servers w ! 0)" and "cw_readings w = 64"
    and "length (cw_nodes w) = 2" and "cw_nodes w ! 1 = (fake_Node (demo_ID ''b''))\<lparr>fn_IsFullNode := False\<rparr>"
  shows "\<exists>c w'. Start (client_agent (node_at 1)) (cluster_pool demo_setting 1 ''b'') w = (Inr (), c, w') \<and>
    map pi_ID (fn_FakePeers (cw_nodes w' ! 1)) = [demo_ID ''a'']"
proof -
  let ?a = "demo_ID ''a''" and ?b = "demo_ID ''b''" and ?n = "(fake_Node (demo_ID ''b''))\<lparr>fn_IsFullNode := False\<rparr>"
  define w1 where "w1 = next_world 1 (seen_pool ?b False 164 175 (cw_pool w)) w"
  define w2 where "w2 = next_world 1 (seen_pool ?b False 196 199 (cw_pool w1)) w1"
  define w3 where "w3 = snd (at_node 0 (fake_AddTrustedPeer ?b)
    (next_world 1 ((cw_pool w2)\<lparr>p_sent := p_sent (cw_pool w2) @ [(0, ''vipnode_whitelist'', ?b)]\<rparr>) w2))"
  have fresh: "fresh_nonce ''b'' w" using assms(1,4) demo_IDs(5) by (simp add: fresh_nonce_def mem_New_def)
  obtain resp where connect: "Pool_Connect (cluster_pool demo_setting 1 ''b'') \<lparr>cr_VipnodeVersion = ''dev'', cr_NodeInfo = fake_UserAgent ?n,
      cr_NodeURI = '''', cr_Payout = ''''\<rparr> w = (Inr resp, w1)"
    using demo_Connect [OF demo_key(2) fresh, of ?n 1] assms(4) by (auto simp: fake_Node_def w1_def)
  have known: "fresh_nonce ''b'' w1" "fmlookup (ms_nodes (p_Store (cw_pool w1))) ?b = Some \<lparr>mn_Node = seen_node ?b False 175, mn_peers = fmempty\<rparr>"
    using assms(4) by (simp_all add: fresh_nonce_def w1_def next_world_def seen_pool_def)
  have update: "Pool_Update (cluster_pool demo_setting 1 ''b'') \<lparr>ur_Peers = None, ur_PeerInfo = Some [], ur_BlockNumber = 0\<rparr> w1 =
      (Inr \<lparr>us_Balance = Some zero_balance, us_InvalidPeers = [], us_ActivePeers = [], us_LatestBlockNumber = 0\<rparr>, w2)"
    using demo_Update [OF demo_key(2) known, of 1] assms(4) by (simp add: w2_def w1_def next_world_def)
  have peer: "Pool_Peer (cluster_pool demo_setting 1 ''b'') \<lparr>pr_Num = 3, pr_Kind = ''geth''\<rparr> w2 = (Inr \<lparr>ps_Peers = [seen_node ?a True 135]\<rparr>, w3)"
    unfolding w3_def
    by (rule demo_Peer [where u = 199]) (use assms demo_IDs(5) in \<open>simp_all add: w2_def w1_def next_world_def seen_pool_def finsert_commute ExpireInterval_def KeepaliveInterval_def second_def\<close>)
  have nodes: "cw_nodes w1 = cw_nodes w" "cw_nodes w2 = cw_nodes w" by (simp_all add: w2_def w1_def next_world_def)
  have quiet: "fn_FakePeers (cw_nodes w ! 1) = []" "fn_FakeBlockNumber (cw_nodes w ! 1) = 0"
      "fn_FakePeers (cw_nodes w1 ! 1) = []" "fn_FakeBlockNumber (cw_nodes w1 ! 1) = 0"
    using assms(6) by (simp_all add: nodes fake_Node_def)
  obtain u where u: "ParseNodeURI (host_uri ?a) = Inr u" "NodeURI_ID u = ?a" using host_uri_plain(3) demo_IDs(1,3) by blast
  have node3: "cw_nodes w3 ! 1 = ?n" "length (cw_nodes w3) = 2" using assms(5,6) by (simp_all add: w3_def at_node_def fake_AddTrustedPeer_def next_world_def nodes)
  define w4 where "w4 = snd (at_node 1 (fake_ConnectPeer (host_uri ?a)) w3)"
  have four: "ConnectPeer (node_at 1) (host_uri ?a) w3 = (Inr (), w4)" "map pi_ID (fn_FakePeers (cw_nodes w4 ! 1)) = [?a]"
    using node3 u by (simp_all add: w4_def node_at_def at_node_def fake_ConnectPeer_def record_call_def fake_Node_def fake_peer_def Let_def)
  have uri: "n_URI (seen_node ?a True 135) = host_uri ?a" by (simp add: seen_node_def)
  have kind: "NodeKind_String (ua_Kind (fake_UserAgent ?n)) = ''geth''" "\<not> ua_IsFullNode (fake_UserAgent ?n)"
    by (simp_all add: fake_UserAgent_def fake_Node_def) code_simp
  have "Start (client_agent (node_at 1)) (cluster_pool demo_setting 1 ''b'') w = (Inr (), (client_agent (node_at 1))\<lparr>a_nodeInfo := fake_UserAgent ?n\<rparr>, w4)"
    using connect update peer four(1) kind uri
    by (simp add: Start_def UpdatePeers_def apply_update_def AddPeers_def client_agent_def zero_Agent_def assms(6) quiet_node [OF quiet(1,2)] quiet_node [OF quiet(3,4)]
      call_balance_def call_block_number_def Let_def del: One_nat_def)
  then show ?thesis using four(2) by metis
qed

text \<open>The whole cluster of the two.\<close>
lemma demo_cluster:
  "\<exists>c w. cluster_New demo_setting [''a''] [''b''] (start_world (pool_New mem_New)) = (Inr c, w) \<and> map ca_conn (cl_Clients c) = [1] \<and>
     map pi_ID (fn_FakePeers (cw_nodes w ! 1)) = [demo_ID ''a'']"
proof -
  let ?a = "demo_ID ''a''" and ?b = "demo_ID ''b''"
  obtain srv where srv: "RegisterMethod ''vipnode_whitelist'' (agent_receiver (host_agent fake_EthNode ?a)) ''Whitelist'' fmempty = (Inr (), srv)"
      "whitelists srv" using host_server by blast
  define w0 where "w0 = new_connection_world (fake_Node ?a) srv (start_world (pool_New mem_New))"
  define w1 where "w1 = next_world 0 (seen_pool ?a True 132 135 (host_pool ?a 0 (cw_pool w0))) (next_world 0 (cw_pool w0) w0)"
  define w2 where "w2 = new_connection_world ((fake_Node ?b)\<lparr>fn_IsFullNode := False\<rparr>) fmempty w1"
  note defs = w0_def new_connection_world_def start_world_def pool_New_def mem_New_def
  have "fresh_nonce ''a'' w0" "cw_readings w0 < 100" "cw_nodes w0 ! 0 = fake_Node ?a" "cw_readings w0 = 0" by (simp_all add: defs fresh_nonce_def)
  with demo_host [OF demo_key(1), of w0 0] obtain h where
    host: "Start (host_agent (node_at 0) ?a) (cluster_pool demo_setting 0 ''a'') w0 = (Inr (), h, w1)" by (auto simp: w1_def)
  have reg: "fst (pool_registry demo_setting) = Inr ()" using pool_registry_ok [of demo_setting] by (metis fst_conv)
  have "cw_nodes (start_world (pool_New mem_New)) = []" by (simp add: start_world_def)
  then have one: "New_host demo_setting ''a'' (start_world (pool_New mem_New)) =
      (Inr \<lparr>ca_Agent = h, ca_conn = 0, ca_RemotePool = cluster_pool demo_setting 0 ''a'', ca_Key = ''a''\<rparr>, w1)"
    using host srv(1) by (simp add: New_host_def Let_def reg demo_fields(5) w0_def)
  have "\<exists>c w'. Start (client_agent (node_at 1)) (cluster_pool demo_setting 1 ''b'') w2 = (Inr (), c, w') \<and>
      map pi_ID (fn_FakePeers (cw_nodes w' ! 1)) = [?a]"
    by (rule demo_client) (use srv(2) in \<open>simp_all add: w2_def w1_def defs next_world_def seen_pool_def host_pool_def\<close>)
  then obtain c w where client: "Start (client_agent (node_at 1)) (cluster_pool demo_setting 1 ''b'') w2 = (Inr (), c, w)"
      "map pi_ID (fn_FakePeers (cw_nodes w ! 1)) = [?a]" by metis
  have "length (cw_nodes w1) = 1" by (simp add: w1_def defs next_world_def)
  then have "New_client demo_setting ''b'' w1 = (Inr \<lparr>ca_Agent = c, ca_conn = 1, ca_RemotePool = cluster_pool demo_setting 1 ''b'', ca_Key = ''b''\<rparr>, w)"
    using client(1) by (simp add: New_client_def Let_def demo_fields w2_def)
  with one client(2) show ?thesis by (simp add: cluster_New_def)
qed

section \<open>The property of the cluster\<close>

text \<open>
  C5: a cluster over a new pool with the in-memory store is built from keys and updated any number of times. When all of
  that succeeds there is one agent for each key, and whatever node a client has as a peer is the node of a host of
  the cluster which was told, by a call back over its own connection, to trust that client's node. So clients never reach a host
  that has not let them in, through the whole path of agent, signing, JSON-RPC, pool, store and back.
\<close>
theorem cluster_peers_trust_their_clients:
  assumes "mem_setting R cfg pay" and "\<And>key. key \<in> set (hostKeys @ clientKeys) \<Longrightarrow> cluster_key R key"
    and "cluster_New R hostKeys clientKeys (start_world (pool_New mem_New)) = (Inr c, w1)"
    and "update_rounds k c w1 = (Inr (), w2)"
  shows "map ca_Key (cl_Hosts c) = hostKeys \<and> map ca_Key (cl_Clients c) = clientKeys \<and>
    (\<forall>a\<in>set (cl_Hosts c @ cl_Clients c). \<forall>q\<in>set (fn_FakePeers (cw_nodes w2 ! ca_conn a)).
      \<exists>h\<in>set (cl_Hosts c). cl_pubkeyID R (ca_Key h) = pi_ID q \<and>
        Calls_Has (fn_Calls (cw_nodes w2 ! ca_conn h)) ''AddTrustedPeer'' (cl_pubkeyID R (ca_Key a)))"
proof -
  note new = cluster_New_step [OF assms(1-3)]
  have "cluster_ok R c w2" using update_rounds_step [OF assms(1) _ assms(4)] new by blast
  then show ?thesis using new peers_of_agents by blast
qed

theorem cluster_peers_trust_their_clients_witness:
  "\<exists>c w. cluster_New demo_setting [''a''] [''b''] (start_world (pool_New mem_New)) = (Inr c, w) \<and>
     map ca_Key (cl_Clients c) = [''b''] \<and>
     (\<exists>h\<in>set (cl_Hosts c). demo_ID (ca_Key h) = demo_ID ''a'' \<and> Calls_Has (fn_Calls (cw_nodes w ! ca_conn h)) ''AddTrustedPeer'' (demo_ID ''b''))"
proof -
  obtain c w where run: "cluster_New demo_setting [''a''] [''b''] (start_world (pool_New mem_New)) = (Inr c, w)"
      and conn: "map ca_conn (cl_Clients c) = [1]" and peers: "map pi_ID (fn_FakePeers (cw_nodes w ! 1)) = [demo_ID ''a'']"
    using demo_cluster by metis
  have "cluster_key demo_setting key" if "key \<in> set ([''a''] @ [''b''])" for key using that demo_key by auto
  note all = cluster_peers_trust_their_clients [OF demo_setting_ok this run, of 0 w, simplified]
  obtain a where a: "cl_Clients c = [a]" "ca_conn a = 1" "ca_Key a = ''b''" using conn all by auto
  obtain q where "q \<in> set (fn_FakePeers (cw_nodes w ! ca_conn a))" "pi_ID q = demo_ID ''a''" using peers a(2) by auto
  then have "\<exists>h\<in>set (cl_Hosts c). demo_ID (ca_Key h) = demo_ID ''a'' \<and> Calls_Has (fn_Calls (cw_nodes w ! ca_conn h)) ''AddTrustedPeer'' (demo_ID ''b'')"
    using all a demo_fields(5) by fastforce
  then show ?thesis using run a by (intro exI [of _ c] exI [of _ w]) simp
qed

end
