(* ===== verification/Key_Gen.thy ===== *)
theory Key_Gen
  imports Error_Messages Go_Encoding
begin

text \<open>
  The keys of the tests (\<^verbatim>\<open>internal/keygen\<close>): a list of private keys in base 64 and the functions that read and print
  them. A failure reported with \<^verbatim>\<open>t.Fatalf\<close> ends the test, so it is an error here. The
  record \<open>key_codec\<close> stands for what is used of the \<^verbatim>\<open>crypto\<close> package, over any type of keys.
\<close>

definition hardcodedKeys :: "string list" where
  "hardcodedKeys =
     [''Qz7wmX+MXfvY85IsJMnMFd8fOI4msOT24bp6Iw/NuPo='',
      ''OX9lnxz+fWNmEEBXCKfEmEsh5oGhCXXdHJBqilgZPNc='',
      ''pebDrvrc9iHxN8k7YJva6bvr6Mzimb9ZbFrGpVy/Wb0='',
      ''cl3X1He2rNZiXbsii3M9zxBTi9B7gB1Tqgk6u5rMytE='',
      ''+0HMUDyMBxFbNat59Vl6Sg+3EcVgiXt1y+JNtnjKb18='',
      ''exk5qBaBxCex5A5Rx9/0qokyz4tu2aAwCJNzsEtIXnk='',
      ''eqS1AIeHCa6xA4WWE2Q8hooTFVyUtQasJeDH3TSxkGU='',
      ''DvqsYyCf9KmbmcC34hTwIjzVWSJnXKTxSxJAlKABSBs='',
      ''gciM+wfV80vZxh5RAevJzcRBJyGkoxvmWRxyaNkOlpc='',
      ''q8Ye3Cq3+/JKASV1KrSKy6wLLwjUdkffM4sBtKcOyPQ='',
      ''dAoxmCIoohJePxhAlwL1res/Ict7U+ZhpTHlSXD6zt4='',
      ''bx7mVtX5RV8BgsMmWqGs9aPnSNaSRfjB0sPBBKMfex4='',
      ''wRQRSoYNlu/7SO75LJYieZv25TlEgH/NE8fyq/OWUQQ='',
      ''O5oR0U9/xwfmOQZenln+Vr5rUZe3ooCs2ZFkKYx9VDQ='',
      ''MhQtBdZogSKlwB0S7UTffnVrT6G/LXncFiaCaCQBTrQ='',
      ''1raBg6tKGFSJ3JVV+cmwezOdNKYRAG1/CwMfw8SdHxQ='',
      ''hyHctcYKirNqWFPyU46aTsU1DVOW6SbBH8IR+jLOIa0='',
      ''vQzyvauJh+RZojBXy1jzziBr8PBWP+rV3Qefx0ANzsU='',
      ''qHC5oCzkoXfYEzNmkS/CN4aJTKUHI1/NoWW9u8AbbQM='',
      ''WalBCrYbrAA4Npnaez6nDaEIyX4NMyC6GGpY7Y0iMoM='']"

record 'k key_codec =
  ToECDSA :: "string \<Rightarrow> 'k result"
  FromECDSA :: "'k \<Rightarrow> string"
  GenerateKey :: "'k result"

definition Fatalf :: "string \<Rightarrow> go_error" where
  "Fatalf s = ErrNew (''keygen.HardcodedKey: '' @ s)"

text \<open>A negative index passes the check and panics.\<close>
definition HardcodedKeyIdx :: "'k key_codec \<Rightarrow> int \<Rightarrow> 'k result" where
  "HardcodedKeyIdx K idx =
     (if int (length hardcodedKeys) - 1 \<le> idx then Inl (Fatalf ''Ran out of hardcoded keys'')
      else if idx < 0 then Inl (GoPanic ''index out of range'')
      else case base64_DecodeString (hardcodedKeys ! nat idx) of
             None \<Rightarrow> Inl (Fatalf ''illegal base64 data'')
           | Some data \<Rightarrow> (case ToECDSA K data of Inl e \<Rightarrow> Inl (Fatalf (error_text e)) | Inr privkey \<Rightarrow> Inr privkey))"

definition HardcodedKey :: "'k key_codec \<Rightarrow> 'k result" where
  "HardcodedKey K = HardcodedKeyIdx K 0"

definition EncodeKey :: "'k key_codec \<Rightarrow> 'k \<Rightarrow> string" where
  "EncodeKey K key = base64_EncodeToString (FromECDSA K key)"

definition NewKey :: "'k key_codec \<Rightarrow> 'k result" where
  "NewKey K = (case GenerateKey K of Inl e \<Rightarrow> Inl e | Inr key \<Rightarrow> Inr key)"

section \<open>Reading back\<close>

text \<open>Base 64 text with one padding sign whose bits left over are zero, so that there is only one such text of some bytes.\<close>
fun one_pad :: "string \<Rightarrow> bool" where
  "one_pad (a # b # c # d # r) \<longleftrightarrow> b64_val a \<noteq> None \<and> b64_val b \<noteq> None \<and> b64_val c \<noteq> None \<and>
     (if d = CHR ''='' then r = [] \<and> the (b64_val c) mod 4 = 0 else b64_val d \<noteq> None \<and> one_pad r)"
| "one_pad _ \<longleftrightarrow> False"

lemma b64_val_inv: "b64_val c = Some n \<Longrightarrow> b64_char n = c \<and> n < 64"
  using char_of_code [of c]
  by (auto simp: b64_val_def b64_char_def is_upper_def is_lower_def is_digit_def split: if_splits)

lemma b64_val_signs: "b64_val (CHR ''='') = None" "b64_val (CHR 0x0A) = None" "b64_val (CHR 0x0D) = None"
  by (simp_all add: b64_val_def is_upper_def is_lower_def is_digit_def code_def)

lemma b64_group:
  assumes "x < 64" and "y < 64" and "z < 64" and "v < 64"
  shows "code (char_of (x * 4 + y div 16)) = x * 4 + y div 16" "code (char_of (y mod 16 * 16 + z div 4)) = y mod 16 * 16 + z div 4"
    "code (char_of (z mod 4 * 64 + v)) = z mod 4 * 64 + v"
    "(x * 4 + y div 16) div 4 = x" "(x * 4 + y div 16) mod 4 * 16 + (y mod 16 * 16 + z div 4) div 16 = y"
    "(y mod 16 * 16 + z div 4) mod 16 * 4 + (z mod 4 * 64 + v) div 64 = z" "(z mod 4 * 64 + v) mod 64 = v"
    "z mod 4 = 0 \<Longrightarrow> (y mod 16 * 16 + z div 4) mod 16 * 4 = z"
proof -
  have parts: "y div 16 < 4" "y mod 16 < 16" "z div 4 < 16" "z mod 4 < 4" using assms by auto
  have "x * 4 + y div 16 < 256" "y mod 16 * 16 + z div 4 < 256" "z mod 4 * 64 + v < 256" using assms parts by linarith+
  then show "code (char_of (x * 4 + y div 16)) = x * 4 + y div 16" "code (char_of (y mod 16 * 16 + z div 4)) = y mod 16 * 16 + z div 4"
    "code (char_of (z mod 4 * 64 + v)) = z mod 4 * 64 + v" by (simp_all add: code_char_of)
  have digits: "b < k \<Longrightarrow> (a * k + b) div k = a \<and> (a * k + b) mod k = b" for a b k :: nat by simp
  show "(x * 4 + y div 16) div 4 = x" "(x * 4 + y div 16) mod 4 * 16 + (y mod 16 * 16 + z div 4) div 16 = y"
    "(y mod 16 * 16 + z div 4) mod 16 * 4 + (z mod 4 * 64 + v) div 64 = z" "(z mod 4 * 64 + v) mod 64 = v"
    "z mod 4 = 0 \<Longrightarrow> (y mod 16 * 16 + z div 4) mod 16 * 4 = z"
    using digits [of "y div 16" 4 x] digits [of "z div 4" 16 "y mod 16"] digits [of v 64 "z mod 4"] assms(4) parts
      div_mult_mod_eq [of y 16] div_mult_mod_eq [of z 4] by simp_all
qed

lemma one_pad_decodes:
  "one_pad s \<Longrightarrow> \<exists>data. b64_decode s = Some data \<and> base64_EncodeToString data = s \<and> 4 * (length data + 1) = 3 * length s"
proof (induction s rule: one_pad.induct)
  case (1 a b c d r)
  obtain x y z where v: "b64_val a = Some x" "b64_val b = Some y" "b64_val c = Some z" using 1(2) by auto
  then have lt: "x < 64" "y < 64" "z < 64" and ch: "b64_char x = a" "b64_char y = b" "b64_char z = c" using b64_val_inv by blast+
  have c: "c \<noteq> CHR ''=''" using v(3) b64_val_signs(1) by auto
  show ?case
  proof (cases "d = CHR ''=''")
    case True
    then have "r = []" "z mod 4 = 0" using 1(2) v by simp_all
    then show ?thesis using True v c ch b64_group [OF lt, of 0] by simp
  next
    case False
    then obtain u data where u: "b64_val d = Some u"
        and r: "b64_decode r = Some data" "base64_EncodeToString data = r" "4 * (length data + 1) = 3 * length r"
      using 1 by auto
    have "u < 64" "b64_char u = d" using b64_val_inv [OF u] by simp_all
    then show ?thesis using False v c ch u r b64_group [OF lt, of u] by simp
  qed
qed simp_all

lemma one_pad_no_breaks: "one_pad s \<Longrightarrow> filter (\<lambda>c. c \<noteq> CHR 0x0A \<and> c \<noteq> CHR 0x0D) s = s"
  by (induction s rule: one_pad.induct) (use b64_val_signs in \<open>auto split: if_splits\<close>)

text \<open>Every entry of the list is the base 64 of 32 bytes, and no two are the same.\<close>
lemma b64_values:
  "b64_val (CHR ''A'') = Some 0" "b64_val (CHR ''B'') = Some 1" "b64_val (CHR ''C'') = Some 2" "b64_val (CHR ''D'') = Some 3"
  "b64_val (CHR ''E'') = Some 4" "b64_val (CHR ''F'') = Some 5" "b64_val (CHR ''G'') = Some 6" "b64_val (CHR ''H'') = Some 7"
  "b64_val (CHR ''I'') = Some 8" "b64_val (CHR ''J'') = Some 9" "b64_val (CHR ''K'') = Some 10" "b64_val (CHR ''L'') = Some 11"
  "b64_val (CHR ''M'') = Some 12" "b64_val (CHR ''N'') = Some 13" "b64_val (CHR ''O'') = Some 14" "b64_val (CHR ''P'') = Some 15"
  "b64_val (CHR ''Q'') = Some 16" "b64_val (CHR ''R'') = Some 17" "b64_val (CHR ''S'') = Some 18" "b64_val (CHR ''T'') = Some 19"
  "b64_val (CHR ''U'') = Some 20" "b64_val (CHR ''V'') = Some 21" "b64_val (CHR ''W'') = Some 22" "b64_val (CHR ''X'') = Some 23"
  "b64_val (CHR ''Y'') = Some 24" "b64_val (CHR ''Z'') = Some 25" "b64_val (CHR ''a'') = Some 26" "b64_val (CHR ''b'') = Some 27"
  "b64_val (CHR ''c'') = Some 28" "b64_val (CHR ''d'') = Some 29" "b64_val (CHR ''e'') = Some 30" "b64_val (CHR ''f'') = Some 31"
  "b64_val (CHR ''g'') = Some 32" "b64_val (CHR ''h'') = Some 33" "b64_val (CHR ''i'') = Some 34" "b64_val (CHR ''j'') = Some 35"
  "b64_val (CHR ''k'') = Some 36" "b64_val (CHR ''l'') = Some 37" "b64_val (CHR ''m'') = Some 38" "b64_val (CHR ''n'') = Some 39"
  "b64_val (CHR ''o'') = Some 40" "b64_val (CHR ''p'') = Some 41" "b64_val (CHR ''q'') = Some 42" "b64_val (CHR ''r'') = Some 43"
  "b64_val (CHR ''s'') = Some 44" "b64_val (CHR ''t'') = Some 45" "b64_val (CHR ''u'') = Some 46" "b64_val (CHR ''v'') = Some 47"
  "b64_val (CHR ''w'') = Some 48" "b64_val (CHR ''x'') = Some 49" "b64_val (CHR ''y'') = Some 50" "b64_val (CHR ''z'') = Some 51"
  "b64_val (CHR ''0'') = Some 52" "b64_val (CHR ''1'') = Some 53" "b64_val (CHR ''2'') = Some 54" "b64_val (CHR ''3'') = Some 55"
  "b64_val (CHR ''4'') = Some 56" "b64_val (CHR ''5'') = Some 57" "b64_val (CHR ''6'') = Some 58" "b64_val (CHR ''7'') = Some 59"
  "b64_val (CHR ''8'') = Some 60" "b64_val (CHR ''9'') = Some 61" "b64_val (CHR ''+'') = Some 62" "b64_val (CHR ''/'') = Some 63"
  by (simp_all add: b64_val_def is_upper_def is_lower_def is_digit_def code_def)

lemma hardcodedKeys_text: "list_all (\<lambda>s. one_pad s \<and> length s = 44) hardcodedKeys"
  by (simp add: hardcodedKeys_def b64_values)

lemma hardcodedKeys_decode:
  assumes "s \<in> set hardcodedKeys"
  obtains data where "base64_DecodeString s = Some data" "length data = 32" "base64_EncodeToString data = s"
proof -
  have "one_pad s" "length s = 44" using hardcodedKeys_text assms by (simp_all add: list_all_iff)
  then show thesis using one_pad_decodes [of s] one_pad_no_breaks [of s] that by (auto simp: base64_DecodeString_def)
qed

lemma hardcodedKeys_distinct: "distinct hardcodedKeys" and hardcodedKeys_length: "length hardcodedKeys = 20"
  by code_simp+

lemma HardcodedKeyIdx_range:
  "HardcodedKeyIdx K idx = Inr key \<Longrightarrow> 0 \<le> idx \<and> idx < 19"
  by (simp add: HardcodedKeyIdx_def hardcodedKeys_length split: if_splits)

text \<open>The conversions of the 32 bytes of a key are inverse to each other.\<close>
definition key_law :: "'k key_codec \<Rightarrow> bool" where
  "key_law K \<longleftrightarrow> (\<forall>data key. length data = 32 \<longrightarrow> ToECDSA K data = Inr key \<longrightarrow> FromECDSA K key = data)"

lemma EncodeKey_HardcodedKeyIdx:
  assumes "key_law K" and "HardcodedKeyIdx K idx = Inr key"
  shows "EncodeKey K key = hardcodedKeys ! nat idx"
proof -
  have idx: "0 \<le> idx \<and> idx < 19" using assms(2) by (rule HardcodedKeyIdx_range)
  then have "hardcodedKeys ! nat idx \<in> set hardcodedKeys" using hardcodedKeys_length by (intro nth_mem) auto
  then obtain data where data: "base64_DecodeString (hardcodedKeys ! nat idx) = Some data" "length data = 32"
      "base64_EncodeToString data = hardcodedKeys ! nat idx" by (rule hardcodedKeys_decode)
  have "ToECDSA K data = Inr key"
    using assms(2) idx data(1) by (simp add: HardcodedKeyIdx_def hardcodedKeys_length split: sum.splits)
  then show ?thesis using assms(1) data(2,3) by (simp add: EncodeKey_def key_law_def)
qed

text \<open>Different indices give different keys.\<close>
lemma HardcodedKeyIdx_inj:
  assumes "key_law K" and "HardcodedKeyIdx K i = Inr key" and "HardcodedKeyIdx K j = Inr key"
  shows "i = j"
proof -
  have "hardcodedKeys ! nat i = hardcodedKeys ! nat j"
    using EncodeKey_HardcodedKeyIdx [OF assms(1,2)] EncodeKey_HardcodedKeyIdx [OF assms(1,3)] by simp
  moreover have "0 \<le> i" "i < 19" "0 \<le> j" "j < 19" using assms(2,3) by (auto dest: HardcodedKeyIdx_range)
  ultimately show ?thesis using hardcodedKeys_distinct hardcodedKeys_length by (simp add: nth_eq_iff_index_eq eq_nat_nat_iff)
qed

text \<open>With keys as their bytes the law holds, and every index below 19 gives a key.\<close>
definition byte_keys :: "string key_codec" where
  "byte_keys = \<lparr>ToECDSA = (\<lambda>data. if length data = 32 then Inr data else Inl (ErrExternal ''invalid length, need 256 bits'')),
     FromECDSA = id, GenerateKey = Inr (replicate 32 (CHR ''k''))\<rparr>"

lemma byte_keys_read:
  assumes "0 \<le> idx" and "idx < 19"
  shows "key_law byte_keys" and "\<exists>key. HardcodedKeyIdx byte_keys idx = Inr key \<and> EncodeKey byte_keys key = hardcodedKeys ! nat idx"
proof -
  show law: "key_law byte_keys" by (auto simp: key_law_def byte_keys_def split: if_splits)
  have "hardcodedKeys ! nat idx \<in> set hardcodedKeys" using assms hardcodedKeys_length by (intro nth_mem) auto
  then obtain data where "base64_DecodeString (hardcodedKeys ! nat idx) = Some data" "length data = 32" by (rule hardcodedKeys_decode)
  then have "HardcodedKeyIdx byte_keys idx = Inr data" using assms by (simp add: HardcodedKeyIdx_def hardcodedKeys_length byte_keys_def)
  then show "\<exists>key. HardcodedKeyIdx byte_keys idx = Inr key \<and> EncodeKey byte_keys key = hardcodedKeys ! nat idx"
    using EncodeKey_HardcodedKeyIdx [OF law] by blast
qed

text \<open>The last key of the list cannot be had: the check stops one short of the end.\<close>
lemma last_key_unused:
  "HardcodedKeyIdx K 19 = Inl (Fatalf ''Ran out of hardcoded keys'')" and "length hardcodedKeys = 20"
  by (simp_all add: HardcodedKeyIdx_def hardcodedKeys_length)

end
