(* ===== verification/Spec2Isabelle.thy ===== *)
theory Spec2Isabelle
  imports Pool_Correctness Pool_Endpoints Store_Suite Pool_Server Json_Channel Cluster_Correctness Key_Gen
begin

text \<open>
  Vipnode connects Ethereum light clients to full nodes. A \<^emph>\<open>pool\<close> keeps track of nodes, matches
  clients with hosts and moves credit from clients to the hosts that serve them; an \<^emph>\<open>agent\<close> beside each
  Ethereum node registers it at a pool and reports its peers at every interval. Both talk JSON-RPC, and requests are signed by
  the key of the node or of a wallet. This development models the Go code of the repository
  and proves what makes it correct.

  \<^bold>\<open>Parts, sources and theories.\<close>
    \<^item> Shared: \<^verbatim>\<open>Go_Prelude\<close> (time, durations, 64-bit integers, maps and the order in which they are visited),
      \<^verbatim>\<open>Pool_Errors\<close> and \<^verbatim>\<open>Error_Messages\<close> (one constructor for every error of the code, the texts and
      codes of the \<^verbatim>\<open>Error\<close> methods), \<^verbatim>\<open>Go_URL\<close> and \<^verbatim>\<open>Go_Encoding\<close> (what the code uses of \<^verbatim>\<open>net/url\<close>, JSON, base64 and hex).
    \<^item> Storage (\<^verbatim>\<open>pool/store\<close>): \<^verbatim>\<open>Store_Types\<close> has nodes, balances, statistics and the interfaces as records of
      operations; \<^verbatim>\<open>Store_Runs\<close> the calls of a store, their sequences and the locales that say what clients rely
      on; \<^verbatim>\<open>Memory_Store\<close> the in-memory driver; \<^verbatim>\<open>Badger_Store\<close> the persistent driver as transactions on a key-value
      database with its migrations, \<^verbatim>\<open>Badger_Laws\<close> the documented laws of the database and the driver under
      them, \<^verbatim>\<open>Badger_Correctness\<close> its properties, \<^verbatim>\<open>Driver_Agreement\<close> the refinement between the drivers, and \<^verbatim>\<open>Store_Suite\<close>
      the test suite of the drivers (\<^verbatim>\<open>testsuite.go\<close>) as scripts of calls.
    \<^item> Accounting (\<^verbatim>\<open>pool/balance\<close>, \<^verbatim>\<open>pool/payment\<close>, \<^verbatim>\<open>internal/pretty\<close>): \<^verbatim>\<open>Balance_Manager\<close>, \<^verbatim>\<open>Payment\<close> (deposit cache, contract-backed
      balances, the payment service), \<^verbatim>\<open>Pretty_Ether\<close> (amounts as text).
    \<^item> Requests (\<^verbatim>\<open>request\<close>): \<^verbatim>\<open>Request_Signing\<close>, with the elliptic-curve functions as a parameter.
    \<^item> The pool (\<^verbatim>\<open>pool\<close>, \<^verbatim>\<open>pool/status\<close>): \<^verbatim>\<open>Pool_Service\<close> has every handler of \<^verbatim>\<open>VipnodePool\<close>, its registry of connections and
      its runs; \<^verbatim>\<open>Pool_Correctness\<close> and \<^verbatim>\<open>Pool_Endpoints\<close> their properties; \<^verbatim>\<open>Pool_Status\<close> the status page.
    \<^item> JSON-RPC (\<^verbatim>\<open>jsonrpc2\<close>): \<^verbatim>\<open>Json_Rpc\<close> (messages, reflection on methods, registry, server, local and HTTP
      calls), \<^verbatim>\<open>Json_Remote\<close> (routing of responses on a two-way connection), \<^verbatim>\<open>Json_Decode\<close> (decoding into Go structs), \<^verbatim>\<open>Json_Text\<close> (the
      scanner of \<^verbatim>\<open>encoding/json\<close>), \<^verbatim>\<open>Json_Codec\<close> (messages as text and the codec on a stream, \<^verbatim>\<open>codecs.go\<close>), \<^verbatim>\<open>Json_Channel\<close> (the pipe, HTTP and the
      websocket codecs of \<^verbatim>\<open>jsonrpc2/ws\<close>, with calls from one end to the other).
    \<^item> The agent's side: \<^verbatim>\<open>Pool_Remote\<close> (the signing client of a pool, \<^verbatim>\<open>pool/remote.go\<close>, and the static pool), \<^verbatim>\<open>Pool_Rpc\<close> (the pool
      as a receiver behind the server), \<^verbatim>\<open>Ethnode\<close> and \<^verbatim>\<open>Ethnode_Rpc\<close> (node metadata; Geth, Parity and Pantheon over RPC, \<^verbatim>\<open>ethnode\<close>),
      \<^verbatim>\<open>Fake_Node\<close> (\<^verbatim>\<open>internal/fakenode\<close>), \<^verbatim>\<open>Agent\<close> and \<^verbatim>\<open>Agent_Correctness\<close> (\<^verbatim>\<open>agent\<close>).
    \<^item> All together: \<^verbatim>\<open>Pool_Wire\<close> (the responses of the pool as JSON and back), \<^verbatim>\<open>Fake_Cluster\<close> and \<^verbatim>\<open>Cluster_Correctness\<close> (\<^verbatim>\<open>internal/fakecluster\<close>: a pool with
      hosts and clients that call each other in both directions), \<^verbatim>\<open>Key_Gen\<close> (\<^verbatim>\<open>internal/keygen\<close>).
    \<^item> The program: \<^verbatim>\<open>Cli\<close> (\<^verbatim>\<open>main.go\<close>, \<^verbatim>\<open>agent.go\<close>, \<^verbatim>\<open>host.go\<close>, \<^verbatim>\<open>client.go\<close>), \<^verbatim>\<open>Pool_Server\<close> (\<^verbatim>\<open>pool.go\<close>, \<^verbatim>\<open>server.go\<close>).

  \<^bold>\<open>How the code is rendered.\<close> Structs are records with a short prefix before the Go field names, interfaces are records of operations, and a
  method takes the state last and returns its result with the new state, also when it fails. Errors are values of
  \<^typ>\<open>go_error\<close>; a panic is the error \<^const>\<open>GoPanic\<close>, which no handler turns into anything else. A map is a finite map, and a loop over a map takes the order of
  the visit as an argument that is only known to list every key once. The clock, answers of remote hosts and arrival orders are
  arguments too. A locked method is one atomic operation; where the code releases the lock in between
  (\<^verbatim>\<open>PoolStatus.Status\<close>) there are two operations. Machine integers that can wrap are words or pass through \<^const>\<open>int64\<close>; big integers
  are \<^typ>\<open>int\<close>.

  \<^bold>\<open>Interfaces.\<close> What a component relies on is a locale, interpreted for the definitions of the code: the store's
  invariant, its nonces and its balances for both drivers and for the contract-backed balances, the frame conditions of pool operations, the database, the cryptography,
  the Ethereum node that an agent drives and the channels that carry messages.

  \<^bold>\<open>What is shown.\<close>
    \<^item> Safety of requests: unverified calls change nothing, accepted nonces of a node increase along every run of the pool, signed bytes
      determine the request, what was signed verifies, the server runs only registered methods on parsed arguments and the pool
      command exposes six of them.
    \<^item> Money: a charged update moves exactly the interval credit from the client's purse to each active host, on both
      drivers and with the contract; no sequence of calls creates or loses credit in a store; charges do not depend on the rate of updates; the price
      of the options is what is billed.
    \<^item> Storage: invariants along all runs, what each driver's queries return, agreement of the two drivers up to the order of lists, both
      drivers pass the repository's test suite at any time and in any order, migrations.
    \<^item> Composition: an update sent by an agent through the signing client, JSON and reflection is the handler's update;
      the pool the command builds makes the runs of the pool; an ended connection is forgotten; responses reach the calls they answer.
      Calls over a pipe, HTTP and websockets are the same calls made directly, whatever way the text is cut, so in the cluster a call is a call of
      the handler; there every peer of a node is a host that was told to trust that node.
    \<^item> The agent: an update leaves the node with exactly the peers the pool vouches for, missing hosts do not stop it, its
      configured interval keeps it active, and the tool retries with the waits of its table and stops when it should.
    \<^item> Divergences that modelling showed are theorems as well, such as credit minted by a refused update, panics on short signatures and
      withdrawals that keep the credit.

  \<^bold>\<open>Hypotheses and bounds.\<close> The parameters are the cryptography, the key-value database, the Ethereum contract and RPC endpoints, the websocket libraries, the printing of times and the
  outcomes of dialing and reading files; theorems that need laws of them name the laws, and their witnesses use concrete instances. No
  definition uses fuel: every loop of the code is a recursion on a list or on a number that the code bounds; the loops that may
  run for ever (the agent's updates, a served connection, the retries) are step relations or functions of the events
  that happen.

  \<^bold>\<open>Not modelled.\<close> Sockets, the frames of websockets, TLS, logging (and the codec that only logs), flag parsing and configuration files: they are
  input and output or the code of libraries. Preemption inside an unlocked handler is not modelled either: the handlers of the pool run one after the other.
\<close>

end
